(* ===== verification/Prelude.thy ===== *)
theory Prelude
  imports Main "HOL-Library.Word"
begin

text \<open>
  The vocabulary the components share: memory faults as values and the error
  monad that carries them, bytes and the C library functions the sources call
  (\<open>tolower\<close>, \<open>strlen\<close>, \<open>strncasecmp\<close>, \<open>atol\<close>, decimal conversion by \<open>sprintf\<close>),
  writes into a block of memory, and generic lemmas on lists.

  A \<open>char *\<close> is the list of the bytes from the address it holds to the end of the
  memory block; the C functions that look for a terminating NUL treat the end of
  the block as one.
\<close>

section \<open>Collections of rewrite rules\<close>

named_theorems mem_simps \<open>reading back what was written into a block of memory\<close>
named_theorems dec_simps \<open>decimal conversion and its inverse\<close>
named_theorems scan_simps \<open>scanning loops over the unread bytes of a stream\<close>

section \<open>Faults\<close>

text \<open>
  What C leaves undefined and the model makes a value: following a NULL pointer,
  and reading or writing outside a block of memory.
\<close>

datatype fault = NullDeref | OutOfBounds

definition sbind :: "'e + 'a \<Rightarrow> ('a \<Rightarrow> 'e + 'b) \<Rightarrow> 'e + 'b" where
  "sbind r f = (case r of Inl e \<Rightarrow> Inl e | Inr x \<Rightarrow> f x)"

lemma sbind_simps [simp]:
  "sbind (Inl e) f = Inl e"
  "sbind (Inr x) f = f x"
  by (simp_all add: sbind_def)

lemma sbind_eq_Inr_iff: "sbind r f = Inr y \<longleftrightarrow> (\<exists>x. r = Inr x \<and> f x = Inr y)"
  by (simp add: sbind_def split: sum.split)

lemma sbind_eq_Inl_iff: "sbind r f = Inl e \<longleftrightarrow> r = Inl e \<or> (\<exists>x. r = Inr x \<and> f x = Inl e)"
  by (auto simp: sbind_def split: sum.split)

definition no_fault :: "fault + 'a \<Rightarrow> bool" where
  "no_fault r \<longleftrightarrow> (\<exists>x. r = Inr x)"

lemma no_fault_simps [simp]:
  "no_fault (Inr x)"
  "\<not> no_fault (Inl e)"
  by (simp_all add: no_fault_def)

lemma no_fault_sbind: "no_fault (sbind r f) \<longleftrightarrow> (\<exists>x. r = Inr x \<and> no_fault (f x))"
  by (auto simp: sbind_def no_fault_def split: sum.split)

section \<open>Bytes and C strings\<close>

abbreviation NUL :: char where "NUL \<equiv> CHR 0x00"

text \<open>The byte at an address, NUL past the end of the block.\<close>

definition byte :: "char list \<Rightarrow> char" where
  "byte p = (case p of [] \<Rightarrow> NUL | c # _ \<Rightarrow> c)"

lemma byte_simps [simp]:
  "byte [] = NUL"
  "byte (c # p) = c"
  by (simp_all add: byte_def)

definition c_str :: "char list \<Rightarrow> char list" where
  "c_str p = takeWhile (\<lambda>c. c \<noteq> NUL) p"

definition strlen :: "char list \<Rightarrow> nat" where
  "strlen p = length (c_str p)"

definition tolower :: "char \<Rightarrow> char" where
  "tolower c = (let n = (of_char c :: nat) in if 65 \<le> n \<and> n \<le> 90 then char_of (n + 32) else c)"

lemma tolower_idem [simp]: "tolower (tolower c) = tolower c"
  by (auto simp: tolower_def Let_def)

text \<open>\<open>strncasecmp(a,b,n) == 0\<close>.\<close>

fun strncasecmp_eq :: "char list \<Rightarrow> char list \<Rightarrow> nat \<Rightarrow> bool" where
  "strncasecmp_eq a b 0 = True"
| "strncasecmp_eq a b (Suc n) =
     (tolower (byte a) = tolower (byte b) \<and> (byte a = NUL \<or> strncasecmp_eq (tl a) (tl b) n))"

lemma strncasecmp_eq_refl [simp]: "strncasecmp_eq a a n"
  by (induction n arbitrary: a) auto

lemma tolower_NUL_iff [simp]: "tolower c = NUL \<longleftrightarrow> c = NUL"
proof -
  have "tolower NUL = NUL" by (simp add: tolower_def)
  moreover have "c = NUL" if "tolower c = NUL"
  proof (rule ccontr)
    assume "c \<noteq> NUL"
    with that have n: "65 \<le> (of_char c :: nat)" "(of_char c :: nat) \<le> 90"
      and "char_of ((of_char c :: nat) + 32) = (NUL :: char)"
      by (auto simp: tolower_def Let_def split: if_splits)
    then have "(of_char (char_of ((of_char c :: nat) + 32)) :: nat) = 0" by simp
    with n show False by (simp add: of_char_of)
  qed
  ultimately show ?thesis by auto
qed

text \<open>Case-insensitive comparison of equally long NUL-free strings is pointwise.\<close>

lemma strncasecmp_eq_map:
  assumes "length x = length y" and "NUL \<notin> set x" and "NUL \<notin> set y"
  shows "strncasecmp_eq (x @ p) (y @ q) (length x) \<longleftrightarrow> map tolower x = map tolower y"
  using assms by (induction x y rule: list_induct2) auto

section \<open>Decimal numbers\<close>

definition isdigit :: "char \<Rightarrow> bool" where
  "isdigit c \<longleftrightarrow> 48 \<le> (of_char c :: nat) \<and> (of_char c :: nat) \<le> 57"

definition isspace :: "char \<Rightarrow> bool" where
  "isspace c \<longleftrightarrow> (let n = (of_char c :: nat) in n = 32 \<or> (9 \<le> n \<and> n \<le> 13))"

definition digit_val :: "char \<Rightarrow> nat" where
  "digit_val c = of_char c - 48"

definition digit_char :: "nat \<Rightarrow> char" where
  "digit_char d = char_of (48 + d)"

fun digits_val :: "nat \<Rightarrow> char list \<Rightarrow> nat" where
  "digits_val acc [] = acc"
| "digits_val acc (c # cs) = (if isdigit c then digits_val (acc * 10 + digit_val c) cs else acc)"

text \<open>
  \<open>atol\<close> is \<open>strtol(p, NULL, 10)\<close> on a 64-bit \<open>long\<close>: leading white space, an optional
  sign, digits up to the first other byte, the result clamped to the range of the type.
\<close>

definition atol :: "char list \<Rightarrow> int" where
  "atol p =
     (let q = dropWhile isspace p;
          neg = (byte q = CHR ''-'');
          r = (if neg \<or> byte q = CHR ''+'' then tl q else q);
          v = int (digits_val 0 r)
      in max (- (2 ^ 63)) (min (2 ^ 63 - 1) (if neg then - v else v)))"

fun dec :: "nat \<Rightarrow> char list" where
  "dec n = (if n < 10 then [digit_char n] else dec (n div 10) @ [digit_char (n mod 10)])"

declare dec.simps [simp del]

definition dec_int :: "int \<Rightarrow> char list" where
  "dec_int i = (if i < 0 then CHR ''-'' # dec (nat (- i)) else dec (nat i))"

lemma of_char_digit_char [simp]: "d < 10 \<Longrightarrow> (of_char (digit_char d) :: nat) = 48 + d"
  by (simp add: digit_char_def of_char_of)

lemma isdigit_digit_char [simp]: "d < 10 \<Longrightarrow> isdigit (digit_char d)"
  by (simp add: isdigit_def)

lemma digit_val_digit_char [simp]: "d < 10 \<Longrightarrow> digit_val (digit_char d) = d"
  by (simp add: digit_val_def)

lemma dec_nonempty [simp]: "dec n \<noteq> []"
  by (subst dec.simps) simp

lemma dec_isdigit: "\<forall>c \<in> set (dec n). isdigit c"
proof (induction n rule: dec.induct)
  case (1 n)
  then show ?case
    by (subst dec.simps) auto
qed

lemma dec_isdigitD: "c \<in> set (dec n) \<Longrightarrow> isdigit c"
  using dec_isdigit by blast

lemma isdigit_not_special:
  assumes "isdigit c"
  shows "c \<noteq> NUL" "c \<noteq> CHR '' ''" "c \<noteq> CHR ''-''" "c \<noteq> CHR ''+''" "c \<noteq> CHR '',''" "\<not> isspace c"
    "c \<noteq> CHR 0x0D" "c \<noteq> CHR 0x0A" "c \<noteq> CHR 0x09"
  using assms by (auto simp: isdigit_def isspace_def Let_def)

lemma digits_val_append:
  "\<forall>c \<in> set xs. isdigit c \<Longrightarrow> digits_val acc (xs @ ys) = digits_val (digits_val acc xs) ys"
  by (induction xs arbitrary: acc) auto

lemma digits_val_dec: "digits_val 0 (dec n) = n"
proof (induction n rule: dec.induct)
  case (1 n)
  show ?case
  proof (cases "n < 10")
    case True
    then show ?thesis by (subst dec.simps) simp
  next
    case False
    then have "digits_val 0 (dec n) = digits_val (n div 10) [digit_char (n mod 10)]"
      using 1 by (subst dec.simps) (simp add: digits_val_append dec_isdigit)
    also have "\<dots> = n" by simp
    finally show ?thesis .
  qed
qed

lemma digits_val_stop: "\<not> isdigit (byte r) \<Longrightarrow> digits_val acc r = acc"
  by (cases r) auto

lemma digits_val_dec_append [dec_simps]:
  "\<not> isdigit (byte r) \<Longrightarrow> digits_val 0 (dec n @ r) = n"
  by (simp add: digits_val_append dec_isdigit digits_val_dec digits_val_stop)

lemma dec_hd: "\<exists>c cs. dec n = c # cs \<and> isdigit c"
  using dec_nonempty [of n] dec_isdigit [of n] by (cases "dec n") auto

lemma byte_dec_append: "isdigit (byte (dec n @ r))"
  using dec_hd [of n] by auto

text \<open>\<open>atol\<close> reads back what decimal conversion wrote, wherever it stops.\<close>

lemma atol_dec [dec_simps]:
  assumes "\<not> isdigit (byte r)" and "int n < 2 ^ 63"
  shows "atol (dec n @ r) = int n"
proof -
  obtain c cs where d: "dec n = c # cs" and c: "isdigit c"
    using dec_hd by blast
  have drop: "dropWhile isspace (dec n @ r) = dec n @ r"
    and b: "byte (dec n @ r) = c"
    using d c isdigit_not_special(6) by auto
  show ?thesis
    using assms isdigit_not_special [OF c]
    by (simp add: atol_def drop b Let_def digits_val_dec_append)
qed

lemma atol_dec_int [dec_simps]:
  assumes "\<not> isdigit (byte r)" and "- (2 ^ 63) \<le> i" and "i < 2 ^ 63"
  shows "atol (dec_int i @ r) = i"
proof (cases "i < 0")
  case True
  have "dropWhile isspace (CHR ''-'' # dec (nat (- i)) @ r) = CHR ''-'' # dec (nat (- i)) @ r"
    by (simp add: isspace_def)
  then show ?thesis
    using True assms by (simp add: dec_int_def atol_def Let_def digits_val_dec_append)
next
  case False
  then show ?thesis using assms by (simp add: dec_int_def atol_dec)
qed

text \<open>The number of decimal digits.\<close>

lemma length_dec_less: "n < 10 \<Longrightarrow> length (dec n) = 1"
  by (subst dec.simps) simp

lemma length_dec_ge: "10 \<le> n \<Longrightarrow> length (dec n) = Suc (length (dec (n div 10)))"
  by (subst dec.simps) simp

lemma length_dec_bounds: "n < 10 ^ length (dec n) \<and> (0 < n \<longrightarrow> 10 ^ (length (dec n) - 1) \<le> n)"
proof (induction n rule: dec.induct)
  case (1 n)
  show ?case
  proof (cases "n < 10")
    case True
    then show ?thesis by (simp add: length_dec_less)
  next
    case False
    let ?k = "length (dec (n div 10))"
    from False have IH: "n div 10 < 10 ^ ?k" "10 ^ (?k - 1) \<le> n div 10"
      using 1 by auto
    have k: "10 * 10 ^ (?k - 1) = (10 :: nat) ^ ?k"
      by (cases ?k) auto
    have "n < 10 * 10 ^ ?k" using IH(1) by (simp add: div_less_iff_less_mult mult.commute)
    moreover have "10 * 10 ^ (?k - 1) \<le> n"
      using IH(2) by (simp add: less_eq_div_iff_mult_less_eq mult.commute)
    ultimately show ?thesis using False k by (simp add: length_dec_ge)
  qed
qed

lemma length_dec_pos [simp]: "0 < length (dec n)"
  by simp

lemma length_dec_unique:
  assumes "0 < k" and "n < 10 ^ k" and "k = 1 \<or> 10 ^ (k - 1) \<le> n"
  shows "length (dec n) = k"
proof (rule antisym)
  let ?l = "length (dec n)"
  show "?l \<le> k"
  proof (rule ccontr)
    assume "\<not> ?l \<le> k"
    then have "k \<le> ?l - 1" by simp
    moreover have "0 < n"
    proof (rule ccontr)
      assume "\<not> 0 < n"
      then show False using \<open>\<not> ?l \<le> k\<close> assms(1) by (simp add: length_dec_less)
    qed
    ultimately have "(10 :: nat) ^ k \<le> n"
      using length_dec_bounds [of n] power_increasing [of k "?l - 1" "10 :: nat"] by linarith
    with assms(2) show False by simp
  qed
  show "k \<le> ?l"
  proof (rule ccontr)
    assume "\<not> k \<le> ?l"
    then have "?l \<le> k - 1" and "k \<noteq> 1"
      using length_dec_pos [of n] by linarith+
    then have "(10 :: nat) ^ ?l \<le> n"
      using assms(3) power_increasing [of ?l "k - 1" "10 :: nat"] by linarith
    with length_dec_bounds [of n] show False by simp
  qed
qed

lemma length_dec_le: "0 < k \<Longrightarrow> n < 10 ^ k \<Longrightarrow> length (dec n) \<le> k"
proof (rule ccontr)
  assume k: "0 < k" "n < 10 ^ k" and "\<not> length (dec n) \<le> k"
  then have "k \<le> length (dec n) - 1" and "10 \<le> n"
    using length_dec_less [of n] by (force simp: not_le)+
  then have "(10 :: nat) ^ k \<le> n"
    using length_dec_bounds [of n] power_increasing [of k "length (dec n) - 1" "10 :: nat"]
    by linarith
  with k show False by simp
qed

section \<open>Blocks of memory\<close>

text \<open>Copying bytes to an offset of a block; nothing is written past its end.\<close>

definition mem_write :: "nat \<Rightarrow> char list \<Rightarrow> char list \<Rightarrow> fault + char list" where
  "mem_write p bs m =
     (if p + length bs \<le> length m then Inr (take p m @ bs @ drop (p + length bs) m)
      else Inl OutOfBounds)"

text \<open>The difference of two offsets as an \<open>apr_size_t\<close> of 64 bits, which wraps around.\<close>

definition size_diff :: "nat \<Rightarrow> nat \<Rightarrow> nat" where
  "size_diff a b = (if b \<le> a then a - b else 2 ^ 64 - (b - a))"

lemma size_diff_le [simp]: "b \<le> a \<Longrightarrow> size_diff a b = a - b"
  by (simp add: size_diff_def)

lemma mem_write_Inr_iff:
  "mem_write p bs m = Inr m' \<longleftrightarrow>
     p + length bs \<le> length m \<and> m' = take p m @ bs @ drop (p + length bs) m"
  by (auto simp: mem_write_def)

lemma length_mem_write [mem_simps]: "mem_write p bs m = Inr m' \<Longrightarrow> length m' = length m"
  by (auto simp: mem_write_Inr_iff)

lemma take_mem_write [mem_simps]:
  "mem_write p bs m = Inr m' \<Longrightarrow> take p m' = take p m"
  by (auto simp: mem_write_Inr_iff)

lemma take_mem_write_end [mem_simps]:
  "mem_write p bs m = Inr m' \<Longrightarrow> take (p + length bs) m' = take p m @ bs"
  by (auto simp: mem_write_Inr_iff)

lemma mem_write_mid:
  "p = length xs \<Longrightarrow> length bs = length ys \<Longrightarrow> mem_write p bs (xs @ ys @ zs) = Inr (xs @ bs @ zs)"
  by (simp add: mem_write_def)

section \<open>Lists\<close>

lemma takeWhile_append_stop:
  "\<forall>x \<in> set xs. P x \<Longrightarrow> \<not> P y \<Longrightarrow> takeWhile P (xs @ y # ys) = xs"
  by (induction xs) auto

lemma dropWhile_append_stop:
  "\<forall>x \<in> set xs. P x \<Longrightarrow> \<not> P y \<Longrightarrow> dropWhile P (xs @ y # ys) = y # ys"
  by (induction xs) auto

lemma takeWhile_none: "(xs \<noteq> [] \<Longrightarrow> \<not> P (hd xs)) \<Longrightarrow> takeWhile P xs = []"
  by (cases xs) auto

lemma takeWhile_stops: "x \<in> set xs \<Longrightarrow> \<not> P x \<Longrightarrow> length (takeWhile P xs) < length xs"
  by (induction xs) auto

end
