(* ===== verification/AptString.thy ===== *)
theory AptString
  imports Prelude
begin

text \<open>
  The string type of the APR toolkit layer (\<open>apt_string.h\<close>), tables of strings looked up
  case-insensitively through a key character (\<open>apt_string_table.c\<close>), and arrays of
  name-value pairs (\<open>apt_pair.c\<close>).

  \<open>apt_str_t\<close> is a pointer and a length: \<open>str_buf\<close> holds the bytes from the pointer to
  the end of the block it points into (\<open>None\<close> for NULL), \<open>str_length\<close> the length field.
  Strings copied by the code are followed by a NUL (\<open>apr_pstrmemdup\<close>), strings read
  from a stream are followed by the rest of the stream.
\<close>

section \<open>Strings\<close>

record apt_str =
  str_buf :: "char list option"
  str_length :: nat

text \<open>The bytes of a string, and the bytes from its pointer on.\<close>

definition str_mem :: "apt_str \<Rightarrow> char list" where
  "str_mem s = (case str_buf s of None \<Rightarrow> [] | Some b \<Rightarrow> b)"

definition str_bytes :: "apt_str \<Rightarrow> char list" where
  "str_bytes s = take (str_length s) (str_mem s)"

text \<open>The length field counts bytes that exist.\<close>

definition str_wf :: "apt_str \<Rightarrow> bool" where
  "str_wf s \<longleftrightarrow> str_length s \<le> length (str_mem s)"

text \<open>A string literal with the length the source gives it.\<close>

definition c_literal :: "char list \<Rightarrow> nat \<Rightarrow> apt_str" where
  "c_literal t n = \<lparr>str_buf = Some (t @ [NUL]), str_length = n\<rparr>"

definition apt_string_reset :: apt_str where
  "apt_string_reset = \<lparr>str_buf = None, str_length = 0\<rparr>"

definition apt_string_buffer_get :: "apt_str \<Rightarrow> char list" where
  "apt_string_buffer_get s = (case str_buf s of Some b \<Rightarrow> b | None \<Rightarrow> [NUL])"

definition apt_string_length_get :: "apt_str \<Rightarrow> nat" where
  "apt_string_length_get s = str_length s"

definition apt_string_is_empty :: "apt_str \<Rightarrow> bool" where
  "apt_string_is_empty s = (if str_length s \<noteq> 0 then False else True)"

definition apt_string_set :: "char list option \<Rightarrow> apt_str" where
  "apt_string_set src =
     \<lparr>str_buf = src, str_length = (case src of Some p \<Rightarrow> strlen p | None \<Rightarrow> 0)\<rparr>"

definition apr_pstrmemdup :: "char list \<Rightarrow> nat \<Rightarrow> char list" where
  "apr_pstrmemdup p n = take n p @ [NUL]"

definition apt_string_assign_n :: "char list option \<Rightarrow> nat \<Rightarrow> apt_str" where
  "apt_string_assign_n src n =
     \<lparr>str_buf = (if n \<noteq> 0 then Some (apr_pstrmemdup (case src of Some p \<Rightarrow> p | None \<Rightarrow> []) n)
                 else None),
      str_length = n\<rparr>"

definition apt_string_assign :: "char list option \<Rightarrow> apt_str" where
  "apt_string_assign src =
     (let n = (case src of Some p \<Rightarrow> strlen p | None \<Rightarrow> 0) in
      \<lparr>str_buf = (if n \<noteq> 0 then Some (apr_pstrmemdup (case src of Some p \<Rightarrow> p | None \<Rightarrow> []) n)
                  else None),
       str_length = n\<rparr>)"

definition apt_string_copy :: "apt_str \<Rightarrow> apt_str" where
  "apt_string_copy src =
     \<lparr>str_buf = (if str_length src \<noteq> 0 then Some (apr_pstrmemdup (str_mem src) (str_length src))
                 else None),
      str_length = str_length src\<rparr>"

definition apt_string_compare :: "apt_str \<Rightarrow> apt_str \<Rightarrow> bool" where
  "apt_string_compare s1 s2 =
     (if str_length s1 \<noteq> str_length s2 \<or> str_length s1 = 0 then False
      else strncasecmp_eq (str_mem s1) (str_mem s2) (str_length s1))"

lemma length_str_bytes [simp]: "str_wf s \<Longrightarrow> length (str_bytes s) = str_length s"
  by (simp add: str_bytes_def str_wf_def)

lemma str_bytes_eq_Nil: "str_wf s \<Longrightarrow> str_bytes s = [] \<longleftrightarrow> str_length s = 0"
  by (auto simp: str_bytes_def str_wf_def)

lemma str_wf_reset [simp]: "str_wf apt_string_reset"
  by (simp add: str_wf_def apt_string_reset_def)

lemma str_bytes_reset [simp]: "str_bytes apt_string_reset = []"
  by (simp add: str_bytes_def apt_string_reset_def)

lemma str_length_reset [simp]: "str_length apt_string_reset = 0"
  by (simp add: apt_string_reset_def)

lemma str_literal_simps [simp]:
  "str_length (c_literal t n) = n"
  "str_mem (c_literal t n) = t @ [NUL]"
  by (simp_all add: c_literal_def str_mem_def)

lemma str_bytes_literal [simp]: "str_bytes (c_literal t (length t)) = t"
  by (simp add: str_bytes_def)

lemma str_length_copy [simp]: "str_length (apt_string_copy s) = str_length s"
  by (simp add: apt_string_copy_def)

lemma str_bytes_copy [simp]: "str_wf s \<Longrightarrow> str_bytes (apt_string_copy s) = str_bytes s"
  by (auto simp: apt_string_copy_def str_bytes_def str_mem_def apr_pstrmemdup_def str_wf_def)

lemma str_wf_copy [simp]: "str_wf s \<Longrightarrow> str_wf (apt_string_copy s)"
  by (auto simp: apt_string_copy_def str_wf_def str_mem_def apr_pstrmemdup_def)

lemma str_mem_copy: "str_length s \<noteq> 0 \<Longrightarrow> str_mem (apt_string_copy s) = str_bytes s @ [NUL]"
  by (simp add: apt_string_copy_def str_mem_def str_bytes_def apr_pstrmemdup_def)

lemma str_mem_split: "str_wf s \<Longrightarrow> str_mem s = str_bytes s @ drop (str_length s) (str_mem s)"
  by (simp add: str_bytes_def)

lemma str_bytes_assign_n:
  "n \<le> length p \<Longrightarrow> str_bytes (apt_string_assign_n (Some p) n) = take n p"
  by (simp add: apt_string_assign_n_def str_bytes_def str_mem_def apr_pstrmemdup_def)

text \<open>On strings without NUL bytes the comparison is equality up to the case of letters.\<close>

lemma apt_string_compare_iff:
  assumes "str_wf s1" and "str_wf s2" and "NUL \<notin> set (str_bytes s1)" and "NUL \<notin> set (str_bytes s2)"
  shows "apt_string_compare s1 s2 \<longleftrightarrow>
    str_bytes s1 \<noteq> [] \<and> map tolower (str_bytes s1) = map tolower (str_bytes s2)"
proof -
  have l: "length (str_bytes s1) = str_length s1" "length (str_bytes s2) = str_length s2"
    using assms by simp_all
  show ?thesis
  proof (cases "str_length s1 = str_length s2 \<and> str_length s1 \<noteq> 0")
    case True
    then have "strncasecmp_eq (str_bytes s1 @ p) (str_bytes s2 @ q) (length (str_bytes s1)) \<longleftrightarrow>
        map tolower (str_bytes s1) = map tolower (str_bytes s2)" for p q
      using l assms(3,4) by (intro strncasecmp_eq_map) simp_all
    then have "strncasecmp_eq (str_mem s1) (str_mem s2) (str_length s1) \<longleftrightarrow>
        map tolower (str_bytes s1) = map tolower (str_bytes s2)"
      using str_mem_split [OF assms(1)] str_mem_split [OF assms(2)] l by metis
    with True l show ?thesis by (auto simp: apt_string_compare_def)
  next
    case False
    then have "str_bytes s1 = [] \<or> length (str_bytes s1) \<noteq> length (str_bytes s2)"
      using l by auto
    then have "str_bytes s1 = [] \<or> map tolower (str_bytes s1) \<noteq> map tolower (str_bytes s2)"
      by (blast dest: map_eq_imp_length_eq)
    with False show ?thesis by (simp add: apt_string_compare_def)
  qed
qed

section \<open>String tables\<close>

record apt_str_table_item =
  item_value :: apt_str
  item_key :: nat

definition table_item :: "char list \<Rightarrow> nat \<Rightarrow> nat \<Rightarrow> apt_str_table_item" where
  "table_item t n k = \<lparr>item_value = c_literal t n, item_key = k\<rparr>"

definition apt_string_table_str_get :: "apt_str_table_item list \<Rightarrow> nat \<Rightarrow> nat \<Rightarrow> apt_str option" where
  "apt_string_table_str_get table sz i =
     (if i < sz then Some (item_value (table ! i)) else None)"

text \<open>One iteration of the search: does the item match the value?\<close>

definition table_item_match :: "apt_str_table_item \<Rightarrow> apt_str \<Rightarrow> bool" where
  "table_item_match it value =
     (if str_length (item_value it) \<noteq> str_length value then False
      else if item_key it < str_length value
      then str_length value = str_length (item_value it) \<and>
           tolower (byte (drop (item_key it) (str_mem (item_value it)))) =
             tolower (byte (drop (item_key it) (str_mem value))) \<and>
           apt_string_compare (item_value it) value
      else apt_string_compare (item_value it) value)"

fun id_find_loop :: "nat \<Rightarrow> apt_str_table_item list \<Rightarrow> apt_str \<Rightarrow> nat option" where
  "id_find_loop i [] value = None"
| "id_find_loop i (it # items) value =
     (if table_item_match it value then Some i else id_find_loop (Suc i) items value)"

definition apt_string_table_id_find :: "apt_str_table_item list \<Rightarrow> nat \<Rightarrow> apt_str \<Rightarrow> nat" where
  "apt_string_table_id_find table sz value =
     (case id_find_loop 0 (take sz table) value of Some i \<Rightarrow> i | None \<Rightarrow> sz)"

text \<open>
  The key character only rejects early: equal strings agree on it, so the item matches
  exactly when the whole strings compare equal.
\<close>

lemma strncasecmp_eq_at:
  "strncasecmp_eq a b n \<Longrightarrow> NUL \<notin> set (take n a) \<Longrightarrow> k < n \<Longrightarrow> k < length a \<Longrightarrow>
   tolower (byte (drop k a)) = tolower (byte (drop k b))"
proof (induction a b n arbitrary: k rule: strncasecmp_eq.induct)
  case (2 a b n)
  show ?case
  proof (cases k)
    case 0
    with 2 show ?thesis by auto
  next
    case (Suc j)
    from 2 Suc obtain x a' where a: "a = x # a'" by (cases a) auto
    with 2 have ne: "x \<noteq> NUL" and "strncasecmp_eq a' (tl b) n" and "NUL \<notin> set (take n a')"
      by auto
    then have "tolower (byte (drop j a')) = tolower (byte (drop j (tl b)))"
      using 2 Suc a by simp
    then show ?thesis using Suc a by (simp add: drop_Suc)
  qed
qed simp

lemma table_item_match_compare:
  assumes "str_wf (item_value it)" and "NUL \<notin> set (str_bytes (item_value it))"
  shows "table_item_match it value \<longleftrightarrow> apt_string_compare (item_value it) value"
proof -
  have "tolower (byte (drop (item_key it) (str_mem (item_value it)))) =
      tolower (byte (drop (item_key it) (str_mem value)))"
    if "apt_string_compare (item_value it) value" and "item_key it < str_length value"
    using that assms strncasecmp_eq_at
    by (auto simp: apt_string_compare_def str_bytes_def str_wf_def split: if_splits)
  then show ?thesis
    by (auto simp: table_item_match_def apt_string_compare_def split: if_splits)
qed

lemma id_find_loop_Some:
  "id_find_loop i items v = Some j \<Longrightarrow>
     i \<le> j \<and> j - i < length items \<and> table_item_match (items ! (j - i)) v \<and>
     (\<forall>k < j - i. \<not> table_item_match (items ! k) v)"
proof (induction items arbitrary: i)
  case (Cons it items)
  show ?case
  proof (cases "table_item_match it v")
    case False
    with Cons.prems have "id_find_loop (Suc i) items v = Some j" by simp
    from Cons.IH [OF this] have IH: "i < j" "j - Suc i < length items"
      "table_item_match (items ! (j - Suc i)) v" "\<forall>k < j - Suc i. \<not> table_item_match (items ! k) v"
      by auto
    moreover have "j - i = Suc (j - Suc i)" using IH(1) by simp
    ultimately show ?thesis using False by (auto simp: less_Suc_eq_0_disj)
  qed (use Cons.prems in simp)
qed simp

lemma id_find_loop_None:
  "id_find_loop i items v = None \<longleftrightarrow> (\<forall>it \<in> set items. \<not> table_item_match it v)"
  by (induction items arbitrary: i) auto

text \<open>
  What a table promises to its clients: names of the declared length, not empty, without
  NUL, and different from each other whatever the case of their letters.
\<close>

definition item_ok :: "apt_str_table_item \<Rightarrow> bool" where
  "item_ok it \<longleftrightarrow> str_wf (item_value it) \<and> str_length (item_value it) \<noteq> 0 \<and>
     NUL \<notin> set (str_bytes (item_value it))"

definition item_fold :: "apt_str_table_item \<Rightarrow> char list" where
  "item_fold it = map tolower (str_bytes (item_value it))"

locale string_table =
  fixes table :: "apt_str_table_item list" and sz :: nat
  assumes table_size: "length table = sz"
    and items_ok: "list_all item_ok table"
    and names_distinct: "distinct (map item_fold table)"
begin

lemma item_okD: "i < sz \<Longrightarrow> item_ok (table ! i)"
  using items_ok table_size by (simp add: list_all_length)

lemma match_iff:
  assumes "i < sz" and "str_wf v" and "NUL \<notin> set (str_bytes v)"
  shows "table_item_match (table ! i) v \<longleftrightarrow> item_fold (table ! i) = map tolower (str_bytes v)"
proof -
  have ok: "item_ok (table ! i)" using assms(1) by (rule item_okD)
  then have "length (str_bytes (item_value (table ! i))) \<noteq> 0"
    by (simp add: item_ok_def)
  then have "str_bytes (item_value (table ! i)) \<noteq> []" by simp
  with ok assms show ?thesis
    by (simp add: table_item_match_compare item_ok_def apt_string_compare_iff item_fold_def)
qed

text \<open>Looking a string up gives the position of the name equal to it up to case.\<close>

lemma id_find_eq:
  assumes "i < sz" and "str_wf v" and "NUL \<notin> set (str_bytes v)"
    and "item_fold (table ! i) = map tolower (str_bytes v)"
  shows "apt_string_table_id_find table sz v = i"
proof -
  have m: "table_item_match (table ! i) v" using assms by (simp add: match_iff)
  have "id_find_loop 0 table v \<noteq> None"
    using m assms(1) table_size by (auto simp: id_find_loop_None)
  then obtain j where j: "id_find_loop 0 table v = Some j" by blast
  from id_find_loop_Some [OF j] have jm: "j < sz" "table_item_match (table ! j) v"
    using table_size by auto
  then have "item_fold (table ! j) = item_fold (table ! i)"
    using assms by (simp add: match_iff)
  then have "j = i"
    using names_distinct jm(1) assms(1) table_size by (simp add: distinct_conv_nth) metis
  with j show ?thesis by (simp add: apt_string_table_id_find_def table_size)
qed

lemma id_find_str_get:
  assumes "apt_string_table_str_get table sz i = Some v"
  shows "apt_string_table_id_find table sz v = i"
proof -
  from assms have i: "i < sz" and v: "v = item_value (table ! i)"
    by (auto simp: apt_string_table_str_get_def split: if_splits)
  from item_okD [OF i] show ?thesis
    by (intro id_find_eq) (auto simp: i v item_ok_def item_fold_def)
qed

lemma id_find_fold:
  assumes "apt_string_table_id_find table sz v = i" and "i < sz" and "str_wf v" and "NUL \<notin> set (str_bytes v)"
  shows "item_fold (table ! i) = map tolower (str_bytes v)"
proof -
  have "id_find_loop 0 table v = Some i"
    using assms(1,2) table_size by (auto simp: apt_string_table_id_find_def split: option.splits)
  from id_find_loop_Some [OF this] show ?thesis using assms(2-4) by (simp add: match_iff)
qed

text \<open>A string that names no item is reported by an identifier out of range.\<close>

lemma id_find_range: "apt_string_table_id_find table sz v \<le> sz"
  using table_size
  by (auto simp: apt_string_table_id_find_def dest: id_find_loop_Some split: option.split)

lemma id_find_unknown:
  assumes "str_wf v" and "NUL \<notin> set (str_bytes v)"
  shows "apt_string_table_id_find table sz v = sz \<longleftrightarrow>
    (\<forall>i < sz. item_fold (table ! i) \<noteq> map tolower (str_bytes v))"
proof
  assume unk: "apt_string_table_id_find table sz v = sz"
  show "\<forall>i < sz. item_fold (table ! i) \<noteq> map tolower (str_bytes v)"
    using unk id_find_eq [OF _ assms] by fastforce
next
  assume "\<forall>i < sz. item_fold (table ! i) \<noteq> map tolower (str_bytes v)"
  then have "id_find_loop 0 table v = None"
    using match_iff [OF _ assms] table_size by (auto simp: id_find_loop_None in_set_conv_nth)
  then show "apt_string_table_id_find table sz v = sz"
    by (simp add: apt_string_table_id_find_def table_size)
qed

end

section \<open>Name-value pairs\<close>

record apt_pair =
  pair_name :: apt_str
  pair_value :: apt_str

type_synonym apt_pair_arr = "apt_pair list"

definition apt_pair_init :: apt_pair where
  "apt_pair_init = \<lparr>pair_name = apt_string_reset, pair_value = apt_string_reset\<rparr>"

definition apt_pair_copy :: "apt_pair \<Rightarrow> apt_pair" where
  "apt_pair_copy p =
     \<lparr>pair_name = apt_string_copy (pair_name p), pair_value = apt_string_copy (pair_value p)\<rparr>"

definition apt_pair_array_create :: apt_pair_arr where
  "apt_pair_array_create = []"

definition apt_pair_array_copy :: "apt_pair_arr option \<Rightarrow> apt_pair_arr option" where
  "apt_pair_array_copy src = (case src of None \<Rightarrow> None | Some arr \<Rightarrow> Some (map apt_pair_copy arr))"

definition apt_pair_array_append ::
  "apt_pair_arr \<Rightarrow> apt_str option \<Rightarrow> apt_str option \<Rightarrow> apt_pair_arr \<times> bool" where
  "apt_pair_array_append arr name value =
     (let p = apt_pair_init;
          p = (case name of Some n \<Rightarrow> p\<lparr>pair_name := apt_string_copy n\<rparr> | None \<Rightarrow> p);
          p = (case value of Some v \<Rightarrow> p\<lparr>pair_value := apt_string_copy v\<rparr> | None \<Rightarrow> p)
      in (arr @ [p], True))"

fun apt_pair_array_find :: "apt_pair_arr \<Rightarrow> apt_str \<Rightarrow> apt_pair option" where
  "apt_pair_array_find [] name = None"
| "apt_pair_array_find (p # ps) name =
     (if apt_string_compare (pair_name p) name then Some p else apt_pair_array_find ps name)"

definition apt_pair_array_size_get :: "apt_pair_arr \<Rightarrow> nat" where
  "apt_pair_array_size_get arr = length arr"

text \<open>The identifier is an \<open>int\<close> compared with the number of elements only.\<close>

definition apt_pair_array_get :: "apt_pair_arr \<Rightarrow> int \<Rightarrow> fault + apt_pair option" where
  "apt_pair_array_get arr i =
     (if i < int (length arr)
      then if i < 0 then Inl OutOfBounds else Inr (Some (arr ! nat i))
      else Inr None)"

text \<open>The pair found is the first one with the name.\<close>

lemma apt_pair_array_find_eq:
  "apt_pair_array_find arr name = find (\<lambda>p. apt_string_compare (pair_name p) name) arr"
  by (induction arr) auto

lemma apt_pair_array_find_Some:
  "apt_pair_array_find arr name = Some p \<longleftrightarrow>
     (\<exists>i < length arr. apt_string_compare (pair_name (arr ! i)) name \<and> p = arr ! i \<and>
        (\<forall>k < i. \<not> apt_string_compare (pair_name (arr ! k)) name))"
  by (simp add: apt_pair_array_find_eq find_Some_iff)

end
