(* ===== verification/AptTextStream.thy ===== *)
theory AptTextStream
  imports AptString
begin

text \<open>
  Text streams (\<open>apt_text_stream.c\<close>, \<open>apt_text_stream.h\<close>): reading lines, header fields
  and separated fields of a message, inserting them into an output buffer, and the
  conversions of values to and from text.

  A stream holds the whole block of memory its pointers point into (\<open>ts_mem\<close>) and its
  pointers as offsets into the block: \<open>ts_buf\<close> for \<open>text.buf\<close>, \<open>ts_pos\<close>, \<open>ts_end\<close>.
  A scanning loop \<open>while(pos < end)\<close> is a recursion over the bytes from \<open>pos\<close> to \<open>end\<close>.
  An insertion writes into the block and faults when it would write outside it.

  Functions of the Apache Portable Runtime whose results the code depends on are
  parameters, collected in the record \<open>apr\<close>; \<open>apr_ok\<close> states what their documentation
  promises.
\<close>

section \<open>What the code uses of the Apache Portable Runtime\<close>

text \<open>
  The unspecified contents of a freshly allocated block, \<open>apr_snprintf\<close> of an integer in
  decimal into a buffer of a given size (the bytes stored and the number returned),
  \<open>apr_psprintf\<close> of an unsigned number, the contents of a freshly pushed array element, and
  the value of a number in a structure that was allocated but not set.
\<close>

record apr =
  apr_palloc :: "nat \<Rightarrow> char list"
  apr_snprintf :: "nat \<Rightarrow> int \<Rightarrow> char list \<times> int"
  apr_psprintf :: "nat \<Rightarrow> char list"
  apr_array_slot :: apt_pair
  apr_uninit :: nat

definition apr_ok :: "apr \<Rightarrow> bool" where
  "apr_ok A \<longleftrightarrow>
     (\<forall>n. length (apr_palloc A n) = n) \<and>
     (\<forall>n v. length (dec_int v) < n \<longrightarrow>
        apr_snprintf A n v = (dec_int v @ [NUL], int (length (dec_int v)))) \<and>
     (\<forall>n v. length (fst (apr_snprintf A n v)) \<le> n) \<and>
     (\<forall>n v. 0 < n \<longrightarrow> snd (apr_snprintf A n v) < int n) \<and>
     (\<forall>v. apr_psprintf A v = dec v @ [NUL])"

section \<open>The stream\<close>

abbreviation APT_TOKEN_SP :: char where "APT_TOKEN_SP \<equiv> CHR 0x20"
abbreviation APT_TOKEN_HTAB :: char where "APT_TOKEN_HTAB \<equiv> CHR 0x09"
abbreviation APT_TOKEN_CR :: char where "APT_TOKEN_CR \<equiv> CHR 0x0D"
abbreviation APT_TOKEN_LF :: char where "APT_TOKEN_LF \<equiv> CHR 0x0A"

record apt_text_stream =
  ts_mem :: "char list"
  ts_buf :: nat
  ts_length :: nat
  ts_pos :: nat
  ts_end :: nat
  ts_is_eos :: bool

definition apt_text_stream_reset :: "apt_text_stream \<Rightarrow> apt_text_stream" where
  "apt_text_stream_reset s =
     s\<lparr>ts_pos := ts_buf s, ts_end := ts_buf s + ts_length s, ts_is_eos := False\<rparr>"

definition apt_text_stream_init :: "char list \<Rightarrow> nat \<Rightarrow> apt_text_stream" where
  "apt_text_stream_init buffer n =
     apt_text_stream_reset
       \<lparr>ts_mem = buffer, ts_buf = 0, ts_length = n, ts_pos = 0, ts_end = 0, ts_is_eos = False\<rparr>"

text \<open>\<open>stream.text = *str; apt_text_stream_reset(&stream)\<close>.\<close>

definition stream_of_str :: "apt_str \<Rightarrow> apt_text_stream" where
  "stream_of_str s = apt_text_stream_init (str_mem s) (str_length s)"

text \<open>The bytes from the current position to the end of the stream.\<close>

definition ts_rest :: "apt_text_stream \<Rightarrow> char list" where
  "ts_rest s = take (ts_end s - ts_pos s) (drop (ts_pos s) (ts_mem s))"

text \<open>The position stays between the text and the end, and the end inside the block.\<close>

definition ts_wf :: "apt_text_stream \<Rightarrow> bool" where
  "ts_wf s \<longleftrightarrow> ts_pos s \<le> ts_end s \<and> ts_end s \<le> length (ts_mem s)"

definition apt_text_is_eos :: "apt_text_stream \<Rightarrow> bool" where
  "apt_text_is_eos s = (if ts_pos s \<ge> ts_end s \<or> ts_is_eos s then True else False)"

definition apt_text_is_wsp :: "char \<Rightarrow> bool" where
  "apt_text_is_wsp ch = (if ch = APT_TOKEN_SP \<or> ch = APT_TOKEN_HTAB then True else False)"

text \<open>The string that starts at an offset of the stream's block.\<close>

definition ts_str :: "apt_text_stream \<Rightarrow> nat \<Rightarrow> nat \<Rightarrow> apt_str" where
  "ts_str s off n = \<lparr>str_buf = Some (drop off (ts_mem s)), str_length = n\<rparr>"

section \<open>Reading\<close>

text \<open>
  The scan of \<open>apt_text_line_read\<close>: status, length of the line and how far the position
  moved, counted from the beginning of the line.
\<close>

fun line_scan :: "nat \<Rightarrow> char list \<Rightarrow> bool \<times> nat \<times> nat" where
  "line_scan n [] = (False, n, n)"
| "line_scan n (c # cs) =
     (if c = APT_TOKEN_CR
      then (True, n, if cs \<noteq> [] \<and> hd cs = APT_TOKEN_LF then n + 2 else n + 1)
      else if c = APT_TOKEN_LF then (True, n, n + 1)
      else line_scan (n + 1) cs)"

definition apt_text_line_read :: "apt_text_stream \<Rightarrow> bool \<times> apt_str \<times> apt_text_stream" where
  "apt_text_line_read s =
     (case line_scan 0 (ts_rest s) of (status, len, adv) \<Rightarrow>
        (status, ts_str s (ts_pos s) len,
         if status then s\<lparr>ts_pos := ts_pos s + adv\<rparr> else s\<lparr>ts_is_eos := True\<rparr>))"

text \<open>
  The scan of \<open>apt_text_header_read\<close>: the pointers into the line are offsets from its
  beginning, \<open>n\<close> is the current one.
\<close>

fun header_scan ::
  "nat \<Rightarrow> nat option \<Rightarrow> nat \<Rightarrow> nat option \<Rightarrow> nat \<Rightarrow> char list \<Rightarrow>
   bool \<times> nat \<times> nat option \<times> nat \<times> nat option \<times> nat" where
  "header_scan n nb nl vb vl [] = (False, n, nb, nl, vb, vl)"
| "header_scan n nb nl vb vl (c # cs) =
     (if c = APT_TOKEN_CR
      then (True, if cs \<noteq> [] \<and> hd cs = APT_TOKEN_LF then n + 2 else n + 1, nb, nl, vb,
            case vb of Some v \<Rightarrow> n - v | None \<Rightarrow> vl)
      else if c = APT_TOKEN_LF
      then (True, n + 1, nb, nl, vb, case vb of Some v \<Rightarrow> n - v | None \<Rightarrow> vl)
      else if nl = 0
      then let nb' = (if nb = None \<and> \<not> apt_text_is_wsp c then Some n else nb);
               nl' = (if c = CHR '':'' then (case nb' of Some b \<Rightarrow> n - b | None \<Rightarrow> nl) else nl)
           in header_scan (n + 1) nb' nl' vb vl cs
      else if vl = 0
      then header_scan (n + 1) nb nl (if vb = None \<and> \<not> apt_text_is_wsp c then Some n else vb) vl cs
      else header_scan (n + 1) nb nl vb vl cs)"

definition apt_text_header_read :: "apt_text_stream \<Rightarrow> bool \<times> apt_pair \<times> apt_text_stream" where
  "apt_text_header_read s =
     (case header_scan 0 None 0 None 0 (ts_rest s) of (status, adv, nb, nl, vb, vl) \<Rightarrow>
        let ptr = map_option (\<lambda>off. drop (ts_pos s + off) (ts_mem s));
            pair = \<lparr>pair_name = \<lparr>str_buf = ptr nb, str_length = nl\<rparr>,
                    pair_value = \<lparr>str_buf = ptr vb, str_length = vl\<rparr>\<rparr>
        in if status
           then (if nl = 0 \<and> nb \<noteq> None then False else True, pair, s\<lparr>ts_pos := ts_pos s + adv\<rparr>)
           else (False, pair, s\<lparr>ts_is_eos := True\<rparr>))"

definition apt_text_field_read ::
  "apt_text_stream \<Rightarrow> char \<Rightarrow> bool \<Rightarrow> bool \<times> apt_str \<times> apt_text_stream" where
  "apt_text_field_read s separator skip_spaces =
     (let k = (if skip_spaces then length (takeWhile (\<lambda>c. c = APT_TOKEN_SP) (ts_rest s)) else 0);
          n = length (takeWhile (\<lambda>c. c \<noteq> separator) (drop k (ts_rest s)));
          p = ts_pos s + k + n
      in (if n \<noteq> 0 then True else False, ts_str s (ts_pos s + k) n,
          s\<lparr>ts_pos := (if p < ts_end s then p + 1 else p)\<rparr>))"

definition apt_text_spaces_skip :: "apt_text_stream \<Rightarrow> apt_text_stream" where
  "apt_text_spaces_skip s =
     s\<lparr>ts_pos := ts_pos s + length (takeWhile (\<lambda>c. c = APT_TOKEN_SP) (ts_rest s))\<rparr>"

definition apt_text_white_spaces_skip :: "apt_text_stream \<Rightarrow> apt_text_stream" where
  "apt_text_white_spaces_skip s =
     s\<lparr>ts_pos := ts_pos s + length (takeWhile apt_text_is_wsp (ts_rest s))\<rparr>"

definition apt_text_char_skip :: "apt_text_stream \<Rightarrow> char \<Rightarrow> apt_text_stream" where
  "apt_text_char_skip s ch =
     (if ts_rest s \<noteq> [] \<and> hd (ts_rest s) = ch then s\<lparr>ts_pos := ts_pos s + 1\<rparr> else s)"

definition apt_text_chars_skip :: "apt_text_stream \<Rightarrow> char \<Rightarrow> apt_text_stream" where
  "apt_text_chars_skip s ch =
     s\<lparr>ts_pos := ts_pos s + length (takeWhile (\<lambda>c. c = ch) (ts_rest s))\<rparr>"

definition apt_text_skip_to_char :: "apt_text_stream \<Rightarrow> char \<Rightarrow> apt_text_stream" where
  "apt_text_skip_to_char s ch =
     s\<lparr>ts_pos := ts_pos s + length (takeWhile (\<lambda>c. c \<noteq> ch) (ts_rest s))\<rparr>"

text \<open>Moving the unread bytes of a receive buffer to its beginning.\<close>

definition apt_text_stream_scroll :: "apt_text_stream \<Rightarrow> fault + bool \<times> apt_text_stream" where
  "apt_text_stream_scroll s =
     (if ts_pos s = ts_end s
      then sbind (mem_write (ts_buf s) [NUL] (ts_mem s))
             (\<lambda>m. Inr (True, s\<lparr>ts_pos := ts_buf s, ts_mem := m\<rparr>))
      else let remaining = ts_buf s + ts_length s - ts_pos s
           in if remaining = 0 \<or> remaining = ts_length s
              then Inr (False, s\<lparr>ts_pos := ts_buf s + remaining\<rparr>)
              else sbind (mem_write (ts_buf s) (take remaining (drop (ts_pos s) (ts_mem s))) (ts_mem s))
                     (\<lambda>m. sbind (mem_write (ts_buf s + remaining) [NUL] m)
                       (\<lambda>m. Inr (True, s\<lparr>ts_pos := ts_buf s + remaining,
                                         ts_length := remaining, ts_mem := m\<rparr>))))"

section \<open>Inserting\<close>

text \<open>\<open>memcpy(stream->pos, bytes, n); stream->pos += n\<close>, and the same for a string.\<close>

definition ts_write :: "apt_text_stream \<Rightarrow> char list \<Rightarrow> fault + apt_text_stream" where
  "ts_write s bs =
     sbind (mem_write (ts_pos s) bs (ts_mem s))
       (\<lambda>m. Inr (s\<lparr>ts_mem := m, ts_pos := ts_pos s + length bs\<rparr>))"

definition ts_write_str :: "apt_text_stream \<Rightarrow> apt_str \<Rightarrow> fault + apt_text_stream" where
  "ts_write_str s str = (if str_wf str then ts_write s (str_bytes str) else Inl OutOfBounds)"

definition apt_text_eol_insert :: "apt_text_stream \<Rightarrow> fault + bool \<times> apt_text_stream" where
  "apt_text_eol_insert s =
     (if ts_pos s + 2 < ts_end s
      then sbind (ts_write s [APT_TOKEN_CR, APT_TOKEN_LF]) (\<lambda>s. Inr (True, s))
      else Inr (False, s))"

definition apt_text_char_insert :: "apt_text_stream \<Rightarrow> char \<Rightarrow> fault + bool \<times> apt_text_stream" where
  "apt_text_char_insert s ch =
     (if ts_pos s + 1 < ts_end s then sbind (ts_write s [ch]) (\<lambda>s. Inr (True, s))
      else Inr (False, s))"

definition apt_text_space_insert :: "apt_text_stream \<Rightarrow> fault + bool \<times> apt_text_stream" where
  "apt_text_space_insert s = apt_text_char_insert s APT_TOKEN_SP"

definition apt_text_htab_insert :: "apt_text_stream \<Rightarrow> fault + bool \<times> apt_text_stream" where
  "apt_text_htab_insert s = apt_text_char_insert s APT_TOKEN_HTAB"

definition apt_text_string_insert :: "apt_text_stream \<Rightarrow> apt_str \<Rightarrow> fault + bool \<times> apt_text_stream" where
  "apt_text_string_insert s str =
     (if ts_pos s + str_length str \<ge> ts_end s then Inr (False, s)
      else if str_length str \<noteq> 0 then sbind (ts_write_str s str) (\<lambda>s. Inr (True, s))
      else Inr (True, s))"

definition apt_text_name_value_insert ::
  "apt_text_stream \<Rightarrow> apt_str \<Rightarrow> apt_str \<Rightarrow> fault + bool \<times> apt_text_stream" where
  "apt_text_name_value_insert s name value =
     (if ts_pos s + str_length name + str_length value + 2 \<ge> ts_end s then Inr (False, s)
      else sbind (ts_write_str s name) (\<lambda>s.
           sbind (ts_write s [CHR '':'', APT_TOKEN_SP]) (\<lambda>s.
           sbind (if \<not> apt_string_is_empty value then ts_write_str s value else Inr s)
             apt_text_eol_insert)))"

definition apt_text_header_name_insert ::
  "apt_text_stream \<Rightarrow> apt_str \<Rightarrow> fault + bool \<times> apt_text_stream" where
  "apt_text_header_name_insert s name =
     (if ts_pos s + str_length name + 2 \<ge> ts_end s then Inr (False, s)
      else sbind (ts_write_str s name) (\<lambda>s.
           sbind (ts_write s [CHR '':'', APT_TOKEN_SP]) (\<lambda>s. Inr (True, s))))"

text \<open>
  A number printed at the current position by \<open>apr_snprintf\<close> with the room up to the end
  of the stream as the buffer size; the position moves by the number returned.
\<close>

definition apt_text_int_insert :: "apr \<Rightarrow> apt_text_stream \<Rightarrow> int \<Rightarrow> fault + bool \<times> apt_text_stream" where
  "apt_text_int_insert A s v =
     (case apr_snprintf A (size_diff (ts_end s) (ts_pos s)) v of (stored, ret) \<Rightarrow>
        sbind (mem_write (ts_pos s) stored (ts_mem s)) (\<lambda>m.
          if ret \<le> 0 then Inr (False, s\<lparr>ts_mem := m\<rparr>)
          else Inr (True, s\<lparr>ts_mem := m, ts_pos := ts_pos s + nat ret\<rparr>)))"

definition apt_text_size_value_insert ::
  "apr \<Rightarrow> apt_text_stream \<Rightarrow> 64 word \<Rightarrow> fault + bool \<times> apt_text_stream" where
  "apt_text_size_value_insert A s value = apt_text_int_insert A s (uint value)"

section \<open>Values as text\<close>

text \<open>\<open>strchr\<close> runs from the pointer to the separator or to the terminating NUL.\<close>

definition apt_id_resource_parse :: "apt_str \<Rightarrow> char \<Rightarrow> fault + (apt_str \<times> apt_str) option" where
  "apt_id_resource_parse str separator =
     (case str_buf str of None \<Rightarrow> Inl NullDeref
      | Some p \<Rightarrow>
          let n = length (takeWhile (\<lambda>c. c \<noteq> separator \<and> c \<noteq> NUL) p)
          in if n \<ge> length p then Inl OutOfBounds
             else if p ! n \<noteq> separator then Inr None
             else if n \<ge> str_length str then Inr None
             else Inr (Some (apt_string_copy \<lparr>str_buf = Some p, str_length = n\<rparr>,
                             apt_string_copy \<lparr>str_buf = Some (drop (n + 1) p),
                                              str_length = str_length str - (n + 1)\<rparr>)))"

definition apt_id_resource_generate :: "apt_str \<Rightarrow> apt_str \<Rightarrow> char \<Rightarrow> fault + apt_str" where
  "apt_id_resource_generate id_str resource separator =
     (if str_wf id_str \<and> str_wf resource
      then Inr \<lparr>str_buf = Some (str_bytes id_str @ separator # str_bytes resource @ [NUL]),
                str_length = str_length id_str + str_length resource + 1\<rparr>
      else Inl OutOfBounds)"

definition apt_pair_parse :: "apt_pair \<Rightarrow> apt_str \<Rightarrow> apt_pair \<times> bool" where
  "apt_pair_parse pair field =
     (case apt_text_field_read (stream_of_str field) (CHR ''='') True of (ok, item, s) \<Rightarrow>
        if \<not> ok then (pair, False)
        else case apt_text_field_read s (CHR '';'') True of (_, item', _) \<Rightarrow>
          (pair\<lparr>pair_name := apt_string_copy item, pair_value := apt_string_copy item'\<rparr>, True))"

text \<open>A field that is read moves the position forward, so the loop over fields ends.\<close>

lemma field_read_advance:
  assumes "apt_text_field_read s sep skip = (True, f, s')"
  shows "ts_pos s < ts_pos s' \<and> ts_pos s' \<le> ts_end s \<and> ts_end s' = ts_end s \<and> ts_mem s' = ts_mem s"
proof -
  define k where "k = (if skip then length (takeWhile (\<lambda>c. c = APT_TOKEN_SP) (ts_rest s)) else 0)"
  define n where "n = length (takeWhile (\<lambda>c. c \<noteq> sep) (drop k (ts_rest s)))"
  have eq: "n \<noteq> 0" "s' = s\<lparr>ts_pos := if ts_pos s + k + n < ts_end s then ts_pos s + k + n + 1
      else ts_pos s + k + n\<rparr>"
    using assms by (auto simp: apt_text_field_read_def Let_def k_def n_def split: if_splits)
  have "k \<le> length (ts_rest s)" by (simp add: k_def length_takeWhile_le)
  moreover have "n \<le> length (ts_rest s) - k"
    unfolding n_def using length_takeWhile_le [of _ "drop k (ts_rest s)"] by simp
  moreover have "length (ts_rest s) \<le> ts_end s - ts_pos s" by (simp add: ts_rest_def)
  ultimately have "k + n \<le> ts_end s - ts_pos s" by linarith
  with eq show ?thesis by auto
qed

function pair_array_loop :: "apt_pair \<Rightarrow> apt_pair_arr \<Rightarrow> apt_text_stream \<Rightarrow> apt_pair_arr" where
  "pair_array_loop slot arr s =
     (case apt_text_field_read s (CHR '';'') True of (ok, field, s') \<Rightarrow>
        if ok then pair_array_loop slot (arr @ [fst (apt_pair_parse slot field)]) s' else arr)"
  by pat_completeness auto
termination
  by (relation "measure (\<lambda>(slot, arr, s). ts_end s - ts_pos s)")
    (auto dest!: field_read_advance [OF sym])

declare pair_array_loop.simps [simp del]

definition apt_pair_array_parse ::
  "apr \<Rightarrow> apt_pair_arr option \<Rightarrow> apt_str option \<Rightarrow> apt_pair_arr option \<times> bool" where
  "apt_pair_array_parse A arr value =
     (case (arr, value) of
        (Some ps, Some v) \<Rightarrow> (Some (pair_array_loop (apr_array_slot A) ps (stream_of_str v)), True)
      | _ \<Rightarrow> (arr, False))"

text \<open>
  The text of one pair, and the length the code computes for the whole array before it
  allocates it; a pair without a name adds its value to the length but not to the text.
\<close>

definition pair_text :: "apt_pair \<Rightarrow> char list" where
  "pair_text p =
     (if str_length (pair_name p) \<noteq> 0
      then str_bytes (pair_name p) @
           (if str_length (pair_value p) \<noteq> 0 then CHR ''='' # str_bytes (pair_value p) else [])
      else [])"

definition pair_length :: "apt_pair \<Rightarrow> nat" where
  "pair_length p =
     str_length (pair_name p) +
     (if str_length (pair_value p) \<noteq> 0 then 1 + str_length (pair_value p) else 0)"

fun pairs_text :: "apt_pair_arr \<Rightarrow> char list" where
  "pairs_text [] = []"
| "pairs_text [p] = pair_text p"
| "pairs_text (p # ps) = pair_text p @ CHR '';'' # pairs_text ps"

definition apt_pair_array_generate :: "apr \<Rightarrow> apt_pair_arr option \<Rightarrow> apt_str \<Rightarrow> fault + bool \<times> apt_str" where
  "apt_pair_array_generate A arr str =
     (case arr of None \<Rightarrow> Inr (False, str)
      | Some ps \<Rightarrow>
          let n = sum_list (map pair_length ps) + (if ps \<noteq> [] then length ps - 1 else 0)
          in if \<not> list_all (\<lambda>p. str_wf (pair_name p) \<and> str_wf (pair_value p)) ps
             then Inl OutOfBounds
             else sbind (mem_write 0 (pairs_text ps @ [NUL]) (apr_palloc A (n + 1)))
               (\<lambda>m. Inr (True, \<lparr>str_buf = Some m, str_length = n\<rparr>)))"

definition apt_boolean_value_parse :: "apt_str \<Rightarrow> bool option" where
  "apt_boolean_value_parse str =
     (if str_buf str = None then None
      else if strncasecmp_eq (str_mem str) (''true'' @ [NUL]) 4 then Some True
      else if strncasecmp_eq (str_mem str) (''false'' @ [NUL]) 5 then Some False
      else None)"

definition apt_boolean_value_generate :: "bool \<Rightarrow> apt_str" where
  "apt_boolean_value_generate value =
     (if value then \<lparr>str_buf = Some ''true'', str_length = 4\<rparr>
      else \<lparr>str_buf = Some ''false'', str_length = 5\<rparr>)"

definition apt_size_value_parse :: "apt_str \<Rightarrow> 64 word" where
  "apt_size_value_parse str = (case str_buf str of Some p \<Rightarrow> word_of_int (atol p) | None \<Rightarrow> 0)"

definition apt_size_value_generate :: "apr \<Rightarrow> 64 word \<Rightarrow> apt_str" where
  "apt_size_value_generate A value =
     (let p = apr_psprintf A (unat value) in \<lparr>str_buf = Some p, str_length = strlen p\<rparr>)"

text \<open>The number of decimal digits as the code counts them.\<close>

fun digit_count :: "nat \<Rightarrow> nat" where
  "digit_count n = (if n div 10 = 0 then 1 else 1 + digit_count (n div 10))"

declare digit_count.simps [simp del]

text \<open>
  \<open>apt_var_length_value_generate\<close>: the new value, and the bytes printed (with their NUL)
  when the number of digits is allowed. Arithmetic is that of \<open>apr_size_t\<close>.
\<close>

definition apt_var_length_value_generate ::
  "64 word \<Rightarrow> nat \<Rightarrow> 64 word \<times> char list option" where
  "apt_var_length_value_generate value max_count =
     (let count = digit_count (unat value);
          bounds = 10 ^ count;
          count = (if value \<ge> bounds - of_nat count then count + 1 else count);
          value = value + of_nat count
      in if count > max_count then (value, None) else (value, Some (dec (unat value) @ [NUL])))"

definition apt_completion_cause_generate ::
  "apt_str_table_item list \<Rightarrow> nat \<Rightarrow> nat \<Rightarrow> apt_str option" where
  "apt_completion_cause_generate table sz cause =
     (case apt_string_table_str_get table sz cause of None \<Rightarrow> None
      | Some name \<Rightarrow>
          let num = replicate (3 - length (dec cause)) (CHR ''0'') @ dec cause @ [APT_TOKEN_SP]
          in if length num \<noteq> 4 then None
             else Some \<lparr>str_buf = Some (num @ str_bytes name @ [NUL]),
                        str_length = 4 + str_length name\<rparr>)"

text \<open>
  \<open>apt_unique_id_generate\<close>: the hexadecimal digits of the octets of a UUID, which
  \<open>apr_uuid_get\<close> supplies; a longer identifier keeps what the allocated block held.
\<close>

definition hex_digit :: "nat \<Rightarrow> char" where
  "hex_digit n = char_of (if n < 10 then 48 + n else 87 + n)"

definition hex2 :: "8 word \<Rightarrow> char list" where
  "hex2 w = [hex_digit (unat w div 16), hex_digit (unat w mod 16)]"

definition apt_unique_id_generate :: "apr \<Rightarrow> 8 word list \<Rightarrow> nat \<Rightarrow> fault + apt_str" where
  "apt_unique_id_generate A uuid n =
     (let count = (if n div 2 > length uuid then length uuid else n div 2)
      in sbind (mem_write 0 (if count = 0 then [] else concat (map hex2 (take count uuid)) @ [NUL])
                 (apr_palloc A (n + 1))) (\<lambda>m.
         sbind (mem_write n [NUL] m) (\<lambda>m.
           Inr \<lparr>str_buf = Some m, str_length = n\<rparr>)))"

section \<open>Reading lemmas\<close>

lemma ts_rest_advance:
  assumes "ts_rest s = xs @ ys"
  shows "ts_rest (s\<lparr>ts_pos := ts_pos s + length xs\<rparr>) = ys"
proof -
  have "ts_rest (s\<lparr>ts_pos := ts_pos s + length xs\<rparr>) = drop (length xs) (ts_rest s)"
    by (simp add: ts_rest_def drop_take add.commute)
  then show ?thesis using assms by simp
qed

lemma ts_rest_drop:
  "ts_rest s = xs @ ys \<Longrightarrow> \<exists>zs. drop (ts_pos s + length xs) (ts_mem s) = ys @ zs"
proof -
  assume a: "ts_rest s = xs @ ys"
  have "drop (ts_pos s) (ts_mem s) = ts_rest s @ drop (ts_end s - ts_pos s) (drop (ts_pos s) (ts_mem s))"
    by (simp only: ts_rest_def append_take_drop_id)
  then have "drop (length xs) (drop (ts_pos s) (ts_mem s)) =
      ys @ drop (ts_end s - ts_pos s) (drop (ts_pos s) (ts_mem s))"
    by (metis a append.assoc append_eq_conv_conj)
  then show ?thesis by (auto simp: add.commute)
qed

lemma ts_str_rest:
  assumes "ts_rest s = xs @ ys @ zs"
  shows "str_bytes (ts_str s (ts_pos s + length xs) (length ys)) = ys"
    and "str_wf (ts_str s (ts_pos s + length xs) (length ys))"
proof -
  obtain ws where ws: "drop (ts_pos s + length xs) (ts_mem s) = ys @ zs @ ws"
    using ts_rest_drop [OF assms] by auto
  show "str_bytes (ts_str s (ts_pos s + length xs) (length ys)) = ys"
    by (simp add: str_bytes_def str_mem_def ts_str_def ws)
  have "length ys \<le> length (drop (ts_pos s + length xs) (ts_mem s))" by (simp only: ws) simp
  then show "str_wf (ts_str s (ts_pos s + length xs) (length ys))"
    by (simp add: str_wf_def str_mem_def ts_str_def)
qed

lemma length_ts_rest_le: "length (ts_rest s) \<le> ts_end s - ts_pos s"
  by (simp add: ts_rest_def)

lemma length_ts_rest: "ts_wf s \<Longrightarrow> length (ts_rest s) = ts_end s - ts_pos s"
  unfolding ts_rest_def ts_wf_def by auto

lemma ts_rest_eos [simp]: "ts_rest (s\<lparr>ts_is_eos := b\<rparr>) = ts_rest s"
  by (simp add: ts_rest_def)

text \<open>The ends of line the readers accept: CRLF, LF, and CR when no LF follows.\<close>

definition line_end :: "char list \<Rightarrow> char list \<Rightarrow> bool" where
  "line_end e r \<longleftrightarrow>
     e = [APT_TOKEN_CR, APT_TOKEN_LF] \<or> e = [APT_TOKEN_LF] \<or>
     (e = [APT_TOKEN_CR] \<and> (r = [] \<or> hd r \<noteq> APT_TOKEN_LF))"

definition no_eol :: "char list \<Rightarrow> bool" where
  "no_eol xs \<longleftrightarrow> APT_TOKEN_CR \<notin> set xs \<and> APT_TOKEN_LF \<notin> set xs"

lemma no_eol_simps [simp]:
  "no_eol []"
  "no_eol (c # cs) \<longleftrightarrow> c \<noteq> APT_TOKEN_CR \<and> c \<noteq> APT_TOKEN_LF \<and> no_eol cs"
  "no_eol (xs @ ys) \<longleftrightarrow> no_eol xs \<and> no_eol ys"
  by (auto simp: no_eol_def)

lemma line_scan_end [scan_simps]:
  "line_end e r \<Longrightarrow> line_scan n (e @ r) = (True, n, n + length e)"
  by (cases r) (auto simp: line_end_def)

lemma line_scan_skip [scan_simps]:
  "no_eol xs \<Longrightarrow> line_scan n (xs @ ys) = line_scan (n + length xs) ys"
  by (induction xs arbitrary: n) auto

lemma line_scan_bounds:
  "line_scan n xs = (ok, len, adv) \<Longrightarrow> n \<le> len \<and> len \<le> adv \<and> adv \<le> n + length xs \<and> (ok \<longrightarrow> n < adv)"
  by (induction n xs rule: line_scan.induct) (fastforce split: if_splits simp: neq_Nil_conv)+

text \<open>The line is what stands before the first end of line.\<close>

lemma apt_text_line_read_eq:
  assumes "ts_rest s = l @ e @ r" and "no_eol l" and "line_end e r"
  shows "apt_text_line_read s =
     (True, ts_str s (ts_pos s) (length l), s\<lparr>ts_pos := ts_pos s + (length l + length e)\<rparr>)"
  using assms by (simp add: apt_text_line_read_def scan_simps)

lemma apt_text_line_read_eos:
  assumes "no_eol (ts_rest s)"
  shows "apt_text_line_read s = (False, ts_str s (ts_pos s) (length (ts_rest s)), s\<lparr>ts_is_eos := True\<rparr>)"
  using line_scan_skip [OF assms, of 0 "[]"] by (simp add: apt_text_line_read_def)

text \<open>Every sequence of bytes has an end of line, or has none.\<close>

lemma line_end_cases:
  obtains (none) "no_eol xs" | (line) l e r where "xs = l @ e @ r" "no_eol l" "line_end e r"
proof (induction xs)
  case (Cons c cs)
  show ?case
  proof (cases "c = APT_TOKEN_CR \<or> c = APT_TOKEN_LF")
    case True
    have "\<exists>e r. c # cs = e @ r \<and> line_end e r"
    proof (cases "c = APT_TOKEN_CR \<and> cs \<noteq> [] \<and> hd cs = APT_TOKEN_LF")
      case True
      then have "c # cs = [APT_TOKEN_CR, APT_TOKEN_LF] @ tl cs" by (cases cs) auto
      then show ?thesis by (metis line_end_def)
    next
      case False
      then have "c # cs = [c] @ cs \<and> line_end [c] cs" using True by (auto simp: line_end_def)
      then show ?thesis by blast
    qed
    then show ?thesis using Cons.prems(2) [of "[]"] by auto
  next
    case False
    show ?thesis
    proof (rule Cons.IH)
      assume "no_eol cs" then show thesis using False Cons.prems(1) by simp
    next
      fix l e r assume "cs = l @ e @ r" "no_eol l" "line_end e r"
      then show thesis using False Cons.prems(2) [of "c # l" e r] by simp
    qed
  qed
qed simp

section \<open>Header lines\<close>

lemma header_scan_end [scan_simps]:
  "line_end e r \<Longrightarrow> header_scan n nb nl vb vl (e @ r) =
     (True, n + length e, nb, nl, vb, case vb of Some v \<Rightarrow> n - v | None \<Rightarrow> vl)"
  by (cases r) (auto simp: line_end_def)

lemma header_scan_name:
  "no_eol xs \<Longrightarrow> CHR '':'' \<notin> set xs \<Longrightarrow>
   header_scan n (Some b) 0 vb vl (xs @ ys) = header_scan (n + length xs) (Some b) 0 vb vl ys"
  by (induction xs arbitrary: n) (auto simp: Let_def)

lemma header_scan_wsp:
  "list_all apt_text_is_wsp xs \<Longrightarrow> 0 < nl \<Longrightarrow>
   header_scan n nb nl None 0 (xs @ ys) = header_scan (n + length xs) nb nl None 0 ys"
  by (induction xs arbitrary: n) (auto simp: apt_text_is_wsp_def split: if_splits)

lemma header_scan_leading_wsp:
  "list_all apt_text_is_wsp xs \<Longrightarrow>
   header_scan n None 0 None 0 (xs @ ys) = header_scan (n + length xs) None 0 None 0 ys"
  by (induction xs arbitrary: n) (auto simp: apt_text_is_wsp_def split: if_splits)

lemma header_scan_value:
  "no_eol xs \<Longrightarrow> 0 < nl \<Longrightarrow>
   header_scan n nb nl (Some b) 0 (xs @ ys) = header_scan (n + length xs) nb nl (Some b) 0 ys"
  by (induction xs arbitrary: n) auto

lemma header_scan_no_eol:
  "no_eol xs \<Longrightarrow> fst (header_scan n nb nl vb vl xs) = False"
  by (induction xs arbitrary: n nb nl vb vl) (auto simp: Let_def)

text \<open>What a header line may hold: a name and a value the reader can give back.\<close>

definition header_name_ok :: "char list \<Rightarrow> bool" where
  "header_name_ok name \<longleftrightarrow>
     name \<noteq> [] \<and> no_eol name \<and> CHR '':'' \<notin> set name \<and> \<not> apt_text_is_wsp (hd name)"

definition header_value_ok :: "char list \<Rightarrow> bool" where
  "header_value_ok value \<longleftrightarrow> no_eol value \<and> (value \<noteq> [] \<longrightarrow> \<not> apt_text_is_wsp (hd value))"

lemma header_scan_line:
  assumes "header_name_ok name" and "list_all apt_text_is_wsp ws" and "header_value_ok value"
    and "line_end e r"
  shows "header_scan 0 None 0 None 0 (name @ CHR '':'' # ws @ value @ e @ r) =
     (True, length name + 1 + length ws + length value + length e, Some 0, length name,
      if value = [] then None else Some (length name + 1 + length ws), length value)"
proof -
  obtain c cs where name: "name = c # cs" using assms(1) by (cases name) (auto simp: header_name_ok_def)
  let ?n = "length name + 1 + length ws"
  have "header_scan 0 None 0 None 0 (name @ CHR '':'' # ws @ value @ e @ r) =
      header_scan 1 (Some 0) 0 None 0 (cs @ CHR '':'' # ws @ value @ e @ r)"
    using assms(1) by (simp add: name header_name_ok_def Let_def)
  also have "\<dots> = header_scan (length name) (Some 0) 0 None 0 (CHR '':'' # ws @ value @ e @ r)"
    using assms(1) by (simp add: name header_name_ok_def header_scan_name)
  also have "\<dots> = header_scan ?n (Some 0) (length name) None 0 (value @ e @ r)"
    using assms(2) by (simp add: name header_scan_wsp Let_def)
  also have "\<dots> = (True, ?n + length value + length e, Some 0, length name,
      if value = [] then None else Some ?n, length value)"
  proof (cases "value")
    case (Cons v vs)
    then have "header_scan ?n (Some 0) (length name) None 0 (value @ e @ r) =
        header_scan (?n + 1) (Some 0) (length name) (Some ?n) 0 (vs @ e @ r)"
      using assms(3) by (simp add: header_value_ok_def name)
    then show ?thesis
      using assms(3,4) Cons
      by (simp add: header_scan_value header_value_ok_def name header_scan_end)
  qed (simp add: assms(4) header_scan_end)
  finally show ?thesis by simp
qed

lemma header_read_line:
  assumes "ts_rest s = name @ CHR '':'' # ws @ value @ e @ r"
    and "header_name_ok name" and "list_all apt_text_is_wsp ws" and "header_value_ok value"
    and "line_end e r"
  shows "\<exists>pair. apt_text_header_read s =
       (True, pair, s\<lparr>ts_pos := ts_pos s + (length name + 1 + length ws + length value + length e)\<rparr>) \<and>
     str_bytes (pair_name pair) = name \<and> str_bytes (pair_value pair) = value \<and>
     str_wf (pair_name pair) \<and> str_wf (pair_value pair) \<and>
     str_buf (pair_name pair) \<noteq> None \<and> (str_buf (pair_value pair) = None \<longleftrightarrow> value = [])"
proof -
  let ?voff = "length name + 1 + length ws"
  define pair where "pair = \<lparr>pair_name = ts_str s (ts_pos s) (length name),
    pair_value = (if value = [] then apt_string_reset else ts_str s (ts_pos s + ?voff) (length value))\<rparr>"
  have "length name \<noteq> 0" using assms(2) by (auto simp: header_name_ok_def)
  then have eq: "apt_text_header_read s =
      (True, pair, s\<lparr>ts_pos := ts_pos s + (?voff + length value + length e)\<rparr>)"
    using header_scan_line [OF assms(2-5)]
    by (auto simp: apt_text_header_read_def assms(1) pair_def ts_str_def apt_string_reset_def Let_def)
  have n: "str_bytes (pair_name pair) = name" "str_wf (pair_name pair)"
    using ts_str_rest [of s "[]" name] assms(1) by (auto simp: pair_def)
  have v: "str_bytes (pair_value pair) = value" "str_wf (pair_value pair)"
    using ts_str_rest [of s "name @ CHR '':'' # ws" "value" "e @ r"] assms(1)
    by (auto simp: pair_def)
  have "str_buf (pair_name pair) \<noteq> None" "str_buf (pair_value pair) = None \<longleftrightarrow> value = []"
    by (auto simp: pair_def ts_str_def apt_string_reset_def)
  with eq n v show ?thesis by (intro exI [of _ pair] conjI)
qed

lemma header_read_empty:
  assumes "ts_rest s = ws @ e @ r" and "list_all apt_text_is_wsp ws" and "line_end e r"
  shows "apt_text_header_read s =
    (True, \<lparr>pair_name = apt_string_reset, pair_value = apt_string_reset\<rparr>,
     s\<lparr>ts_pos := ts_pos s + (length ws + length e)\<rparr>)"
  using assms
  by (simp add: apt_text_header_read_def header_scan_leading_wsp header_scan_end apt_string_reset_def)

lemma header_read_eos:
  assumes "no_eol (ts_rest s)"
  shows "\<exists>pair. apt_text_header_read s = (False, pair, s\<lparr>ts_is_eos := True\<rparr>)"
  using header_scan_no_eol [OF assms, of 0 None 0 None 0]
  by (auto simp: apt_text_header_read_def Let_def split: prod.split)

lemma header_scan_nameless:
  "no_eol xs \<Longrightarrow> CHR '':'' \<notin> set xs \<Longrightarrow> line_end e r \<Longrightarrow>
   \<exists>nb'. header_scan n nb 0 None 0 (xs @ e @ r) = (True, n + length xs + length e, nb', 0, None, 0) \<and>
     (nb' = None \<longleftrightarrow> nb = None \<and> list_all apt_text_is_wsp xs)"
proof (induction xs arbitrary: n nb)
  case (Cons c cs)
  show ?case
    using Cons.prems Cons.IH [of "n + 1" "if nb = None \<and> \<not> apt_text_is_wsp c then Some n else nb"]
    by (auto simp: Let_def)
qed (simp add: header_scan_end)

lemma header_read_malformed:
  assumes "ts_rest s = xs @ e @ r" and "no_eol xs" and "CHR '':'' \<notin> set xs" and "line_end e r"
    and "\<not> list_all apt_text_is_wsp xs"
  shows "\<exists>pair. apt_text_header_read s =
    (False, pair, s\<lparr>ts_pos := ts_pos s + (length xs + length e)\<rparr>)"
  using header_scan_nameless [OF assms(2-4), of 0 None] assms(1,5)
  by (auto simp: apt_text_header_read_def Let_def)

section \<open>Insertion lemmas\<close>

text \<open>What a successful insertion does: the bytes are appended at the position.\<close>

definition ts_wrote :: "apt_text_stream \<Rightarrow> char list \<Rightarrow> apt_text_stream \<Rightarrow> bool" where
  "ts_wrote s bs s' \<longleftrightarrow>
     ts_pos s' = ts_pos s + length bs \<and> ts_pos s' \<le> length (ts_mem s') \<and>
     length (ts_mem s') = length (ts_mem s) \<and>
     take (ts_pos s + length bs) (ts_mem s') = take (ts_pos s) (ts_mem s) @ bs \<and>
     ts_buf s' = ts_buf s \<and> ts_length s' = ts_length s \<and> ts_end s' = ts_end s \<and>
     ts_is_eos s' = ts_is_eos s"

lemma ts_wrote_refl: "ts_pos s \<le> length (ts_mem s) \<Longrightarrow> ts_wrote s [] s"
  by (simp add: ts_wrote_def)

lemma ts_wrote_trans: "ts_wrote s a t \<Longrightarrow> ts_wrote t b u \<Longrightarrow> ts_wrote s (a @ b) u"
  by (simp add: ts_wrote_def add.assoc)

lemma ts_wroteD:
  assumes "ts_wrote s bs s'"
  shows "ts_pos s' = ts_pos s + length bs" "ts_end s' = ts_end s"
    "length (ts_mem s') = length (ts_mem s)" "ts_pos s' \<le> length (ts_mem s')" "ts_buf s' = ts_buf s"
    "ts_length s' = ts_length s"
  using assms by (auto simp: ts_wrote_def)

text \<open>Bytes written before the insertion stay.\<close>

lemma ts_wrote_mem:
  assumes "ts_wrote s bs s'"
  shows "ts_mem s' = take (ts_pos s) (ts_mem s) @ bs @ drop (ts_pos s') (ts_mem s')"
    and "length (take (ts_pos s) (ts_mem s)) = ts_pos s"
proof -
  have "take (ts_pos s + length bs) (ts_mem s') = take (ts_pos s) (ts_mem s) @ bs"
    using assms by (simp add: ts_wrote_def)
  then show "ts_mem s' = take (ts_pos s) (ts_mem s) @ bs @ drop (ts_pos s') (ts_mem s')"
    using ts_wroteD(1) [OF assms] append_take_drop_id [of "ts_pos s'" "ts_mem s'"] by (metis append.assoc)
  show "length (take (ts_pos s) (ts_mem s)) = ts_pos s"
    using assms by (simp add: ts_wrote_def)
qed

lemma ts_wrote_take:
  assumes "ts_wrote s bs s'" and "n \<le> ts_pos s"
  shows "take n (ts_mem s') = take n (ts_mem s)"
proof -
  have "take n (take (ts_pos s + length bs) (ts_mem s')) = take n (take (ts_pos s) (ts_mem s) @ bs)"
    using assms(1) by (simp add: ts_wrote_def)
  moreover have "ts_pos s \<le> length (ts_mem s)" using assms(1) by (auto simp: ts_wrote_def)
  ultimately show ?thesis using assms(2) by (simp add: min_def)
qed

text \<open>The stream that reads back what was inserted between two positions.\<close>

definition ts_reader :: "apt_text_stream \<Rightarrow> apt_text_stream \<Rightarrow> apt_text_stream" where
  "ts_reader s s' = s'\<lparr>ts_pos := ts_pos s, ts_end := ts_pos s'\<rparr>"

lemma ts_rest_reader: "ts_wrote s bs s' \<Longrightarrow> ts_rest (ts_reader s s') = bs"
proof -
  assume w: "ts_wrote s bs s'"
  then have e: "take (ts_pos s + length bs) (ts_mem s') = take (ts_pos s) (ts_mem s) @ bs"
    and l: "ts_pos s \<le> length (ts_mem s)" by (auto simp: ts_wrote_def)
  have "ts_rest (ts_reader s s') = drop (ts_pos s) (take (ts_pos s + length bs) (ts_mem s'))"
    by (simp add: ts_rest_def ts_reader_def drop_take ts_wroteD(1) [OF w])
  also have "\<dots> = bs" unfolding e using l by simp
  finally show ?thesis .
qed

lemma ts_write_wrote [mem_simps]: "ts_write s bs = Inr s' \<Longrightarrow> ts_wrote s bs s'"
  by (auto simp: ts_write_def sbind_eq_Inr_iff mem_write_Inr_iff ts_wrote_def)

lemma ts_write_ok: "ts_pos s + length bs \<le> length (ts_mem s) \<Longrightarrow> no_fault (ts_write s bs)"
  by (simp add: ts_write_def mem_write_def)

lemma ts_write_str_wrote:
  "ts_write_str s str = Inr s' \<Longrightarrow> ts_wrote s (str_bytes str) s' \<and> str_wf str"
  by (auto simp: ts_write_str_def ts_write_wrote split: if_splits)

lemma eol_insert_wrote:
  "apt_text_eol_insert s = Inr (True, s') \<Longrightarrow> ts_wrote s [APT_TOKEN_CR, APT_TOKEN_LF] s'"
  by (auto simp: apt_text_eol_insert_def sbind_eq_Inr_iff ts_write_wrote split: if_splits)

lemma char_insert_wrote: "apt_text_char_insert s c = Inr (True, s') \<Longrightarrow> ts_wrote s [c] s'"
  by (auto simp: apt_text_char_insert_def sbind_eq_Inr_iff ts_write_wrote split: if_splits)

lemma space_insert_wrote: "apt_text_space_insert s = Inr (True, s') \<Longrightarrow> ts_wrote s [APT_TOKEN_SP] s'"
  by (simp add: apt_text_space_insert_def char_insert_wrote)

lemma string_insert_wrote:
  assumes "apt_text_string_insert s str = Inr (True, s')" and "ts_pos s \<le> length (ts_mem s)"
  shows "ts_wrote s (str_bytes str) s'"
  using assms
  by (auto simp: apt_text_string_insert_def sbind_eq_Inr_iff str_bytes_def ts_wrote_refl
      dest: ts_write_str_wrote split: if_splits)

text \<open>The line a name and a value make.\<close>

definition header_line :: "char list \<Rightarrow> char list \<Rightarrow> char list" where
  "header_line name value =
     name @ CHR '':'' # APT_TOKEN_SP # value @ [APT_TOKEN_CR, APT_TOKEN_LF]"

lemma name_value_insert_wrote:
  assumes "apt_text_name_value_insert s name value = Inr (True, s')"
  shows "ts_wrote s (header_line (str_bytes name) (str_bytes value)) s'"
proof -
  obtain s1 s2 s3 where
    1: "ts_write_str s name = Inr s1" and 2: "ts_write s1 [CHR '':'', APT_TOKEN_SP] = Inr s2" and
    3: "(if \<not> apt_string_is_empty value then ts_write_str s2 value else Inr s2) = Inr s3" and
    4: "apt_text_eol_insert s3 = Inr (True, s')"
    using assms unfolding apt_text_name_value_insert_def
    by (cases "ts_pos s + str_length name + str_length value + 2 \<ge> ts_end s")
      (auto simp: sbind_eq_Inr_iff)
  have w2: "ts_wrote s (str_bytes name @ [CHR '':'', APT_TOKEN_SP]) s2"
    using ts_write_str_wrote [OF 1] ts_write_wrote [OF 2] ts_wrote_trans by blast
  have "ts_wrote s2 (str_bytes value) s3"
    using 3 ts_wroteD(4) [OF w2]
    by (auto simp: apt_string_is_empty_def str_bytes_def ts_wrote_refl
        dest: ts_write_str_wrote split: if_splits)
  with w2 have "ts_wrote s ((str_bytes name @ [CHR '':'', APT_TOKEN_SP]) @ str_bytes value) s3"
    by (rule ts_wrote_trans)
  from ts_wrote_trans [OF this eol_insert_wrote [OF 4]] show ?thesis
    by (simp add: header_line_def)
qed

text \<open>Inserting succeeds, and stays inside the block, when there is room before the end.\<close>

definition ts_room :: "apt_text_stream \<Rightarrow> nat \<Rightarrow> bool" where
  "ts_room s n \<longleftrightarrow> ts_pos s + n < ts_end s \<and> ts_end s \<le> length (ts_mem s)"

lemma ts_roomD: "ts_room s n \<Longrightarrow> ts_pos s + n < ts_end s \<and> ts_pos s + n \<le> length (ts_mem s)"
  by (auto simp: ts_room_def)

lemma ts_room_wrote: "ts_wrote s bs s' \<Longrightarrow> ts_room s' n \<longleftrightarrow> ts_room s (length bs + n)"
  by (auto simp: ts_room_def ts_wrote_def)

lemma ts_room_mono: "ts_room s n \<Longrightarrow> m \<le> n \<Longrightarrow> ts_room s m"
  by (auto simp: ts_room_def)

lemma ts_write_room:
  assumes "ts_room s (length bs)"
  shows "\<exists>s'. ts_write s bs = Inr s' \<and> ts_wrote s bs s'"
  using ts_write_ok [of s bs] ts_roomD [OF assms] ts_write_wrote [of s bs]
  by (auto simp: no_fault_def)

lemma ts_write_str_room:
  assumes "ts_room s (str_length str)" and "str_wf str"
  shows "\<exists>s'. ts_write_str s str = Inr s' \<and> ts_wrote s (str_bytes str) s'"
  using ts_write_room [of s "str_bytes str"] assms by (simp add: ts_write_str_def)

lemma eol_insert_room:
  assumes "ts_room s 2"
  shows "\<exists>s'. apt_text_eol_insert s = Inr (True, s') \<and> ts_wrote s [APT_TOKEN_CR, APT_TOKEN_LF] s'"
proof -
  obtain s' where "ts_write s [APT_TOKEN_CR, APT_TOKEN_LF] = Inr s'"
      "ts_wrote s [APT_TOKEN_CR, APT_TOKEN_LF] s'"
    using ts_write_room [of s "[APT_TOKEN_CR, APT_TOKEN_LF]"] assms by (auto simp: numeral_2_eq_2)
  then show ?thesis using ts_roomD [OF assms] by (simp add: apt_text_eol_insert_def)
qed

lemma char_insert_room:
  assumes "ts_room s 1"
  shows "\<exists>s'. apt_text_char_insert s c = Inr (True, s') \<and> ts_wrote s [c] s'"
proof -
  obtain s' where "ts_write s [c] = Inr s'" "ts_wrote s [c] s'"
    using ts_write_room [of s "[c]"] assms by auto
  then show ?thesis using ts_roomD [OF assms] by (simp add: apt_text_char_insert_def)
qed

lemma string_insert_room:
  assumes "ts_room s (str_length str)" and "str_wf str"
  shows "\<exists>s'. apt_text_string_insert s str = Inr (True, s') \<and> ts_wrote s (str_bytes str) s'"
proof -
  obtain s' where "ts_write_str s str = Inr s'" "ts_wrote s (str_bytes str) s'"
    using ts_write_str_room [OF assms] by blast
  moreover have "ts_wrote s [] s" using ts_roomD [OF assms(1)] by (simp add: ts_wrote_refl)
  ultimately show ?thesis
    using ts_roomD [OF assms(1)] by (auto simp: apt_text_string_insert_def str_bytes_def)
qed

lemma name_value_insert_room:
  assumes "ts_room s (str_length name + str_length value + 4)" and "str_wf name" and "str_wf value"
  shows "\<exists>s'. apt_text_name_value_insert s name value = Inr (True, s') \<and>
    ts_wrote s (header_line (str_bytes name) (str_bytes value)) s'"
proof -
  have r0: "ts_room s (str_length name)" by (rule ts_room_mono [OF assms(1)]) simp
  obtain s1 where 1: "ts_write_str s name = Inr s1" "ts_wrote s (str_bytes name) s1"
    using ts_write_str_room [OF r0 assms(2)] by blast
  then have r1: "ts_room s1 (str_length value + 4)"
    using assms(1,2) by (simp add: ts_room_wrote add.assoc)
  have "ts_room s1 (length [CHR '':'', APT_TOKEN_SP])" by (rule ts_room_mono [OF r1]) simp
  from ts_write_room [OF this] obtain s2 where
    2: "ts_write s1 [CHR '':'', APT_TOKEN_SP] = Inr s2" "ts_wrote s1 [CHR '':'', APT_TOKEN_SP] s2"
    by blast
  then have r2: "ts_room s2 (str_length value + 2)"
    using r1 by (simp add: ts_room_def ts_wrote_def)
  have "ts_room s2 (str_length value)" by (rule ts_room_mono [OF r2]) simp
  from ts_write_str_room [OF this assms(3)] obtain t where
    t: "ts_write_str s2 value = Inr t" "ts_wrote s2 (str_bytes value) t" by blast
  moreover have "ts_wrote s2 [] s2" using ts_wroteD(4) [OF 2(2)] by (simp add: ts_wrote_refl)
  ultimately obtain s3 where
    3: "(if \<not> apt_string_is_empty value then ts_write_str s2 value else Inr s2) = Inr s3"
      "ts_wrote s2 (str_bytes value) s3"
    by (cases "str_length value = 0") (auto simp: apt_string_is_empty_def str_bytes_def)
  then have "ts_room s3 2" using r2 assms(3) by (simp add: ts_room_wrote)
  then obtain s' where 4: "apt_text_eol_insert s3 = Inr (True, s')" using eol_insert_room by blast
  have ok: "apt_text_name_value_insert s name value = Inr (True, s')"
    using 1 2 3 4 ts_roomD [OF assms(1)] by (simp add: apt_text_name_value_insert_def)
  with name_value_insert_wrote [OF ok] show ?thesis by blast
qed

lemma int_insert_wrote:
  assumes "apr_ok A" and "length (dec_int v) < ts_end s - ts_pos s"
    and "apt_text_int_insert A s v = Inr (b, s')"
  shows "b \<and> ts_wrote s (dec_int v) s'"
proof -
  have "dec_int v \<noteq> []" by (simp add: dec_int_def)
  moreover have "size_diff (ts_end s) (ts_pos s) = ts_end s - ts_pos s" using assms(2) by simp
  moreover from this have "apr_snprintf A (size_diff (ts_end s) (ts_pos s)) v = (dec_int v @ [NUL], int (length (dec_int v)))"
    using assms(1,2) by (simp only: apr_ok_def)
  ultimately show ?thesis
    using assms(3)
    by (auto simp: apt_text_int_insert_def sbind_eq_Inr_iff mem_write_Inr_iff ts_wrote_def)
qed

lemma int_insert_room:
  assumes "apr_ok A" and "ts_room s (length (dec_int v))"
  shows "\<exists>s'. apt_text_int_insert A s v = Inr (True, s') \<and> ts_wrote s (dec_int v) s'"
proof -
  have l: "length (dec_int v) < ts_end s - ts_pos s" using assms(2) by (auto simp: ts_room_def)
  then have "size_diff (ts_end s) (ts_pos s) = ts_end s - ts_pos s" by simp
  then have "apr_snprintf A (size_diff (ts_end s) (ts_pos s)) v = (dec_int v @ [NUL], int (length (dec_int v)))"
    using assms(1) l by (simp only: apr_ok_def)
  then have "no_fault (apt_text_int_insert A s v)"
    using assms(2) by (auto simp: apt_text_int_insert_def no_fault_sbind mem_write_def ts_room_def)
  then obtain b s' where "apt_text_int_insert A s v = Inr (b, s')" by (auto simp: no_fault_def)
  with int_insert_wrote [OF assms(1) l this] show ?thesis by auto
qed

text \<open>
  Generators that, given room, append a text and report success; sequences of them are
  generators of the concatenated text.
\<close>

definition gen_ok :: "(apt_text_stream \<Rightarrow> fault + bool \<times> apt_text_stream) \<Rightarrow> char list \<Rightarrow> bool" where
  "gen_ok g t \<longleftrightarrow> (\<forall>s. ts_room s (length t) \<longrightarrow> (\<exists>s'. g s = Inr (True, s') \<and> ts_wrote s t s'))"

named_theorems gen_intros

lemma gen_okD: "gen_ok g t \<Longrightarrow> ts_room s (length t) \<Longrightarrow> \<exists>s'. g s = Inr (True, s') \<and> ts_wrote s t s'"
  by (simp add: gen_ok_def)

lemma gen_ok_seq [gen_intros]:
  assumes "gen_ok g a" and "gen_ok h b"
  shows "gen_ok (\<lambda>s. sbind (g s) (\<lambda>(_, s). h s)) (a @ b)"
  unfolding gen_ok_def
proof (intro allI impI)
  fix s assume r: "ts_room s (length (a @ b))"
  then have "ts_room s (length a)" by (rule ts_room_mono) simp
  then obtain s1 where s1: "g s = Inr (True, s1)" "ts_wrote s a s1" using gen_okD [OF assms(1)] by blast
  then have "ts_room s1 (length b)" using r by (simp add: ts_room_wrote)
  then obtain s2 where "h s1 = Inr (True, s2)" "ts_wrote s1 b s2" using gen_okD [OF assms(2)] by blast
  then show "\<exists>s'. sbind (g s) (\<lambda>(_, s). h s) = Inr (True, s') \<and> ts_wrote s (a @ b) s'"
    using s1 ts_wrote_trans by auto
qed

lemma gen_ok_write [gen_intros]:
  assumes "gen_ok h b" shows "gen_ok (\<lambda>s. sbind (ts_write s bs) h) (bs @ b)"
proof -
  have "gen_ok (\<lambda>s. sbind (ts_write s bs) (\<lambda>s. Inr (True, s))) bs"
    using ts_write_room by (fastforce simp: gen_ok_def)
  from gen_ok_seq [OF this assms]
  show ?thesis by (rule back_subst [where P = "\<lambda>g. gen_ok g (bs @ b)"])
      (auto simp: sbind_def split: sum.split)
qed

lemma gen_ok_write_str [gen_intros]:
  assumes "str_wf str" and "gen_ok h b"
  shows "gen_ok (\<lambda>s. sbind (ts_write_str s str) h) (str_bytes str @ b)"
  using gen_ok_write [OF assms(2), of "str_bytes str"] assms(1) by (simp add: ts_write_str_def)

lemma gen_ok_done [gen_intros]: "gen_ok (\<lambda>s. Inr (True, s)) []"
  using ts_roomD by (fastforce simp: gen_ok_def ts_wrote_refl)

lemma gen_ok_int [gen_intros]: "apr_ok A \<Longrightarrow> gen_ok (\<lambda>s. apt_text_int_insert A s v) (dec_int v)"
  using int_insert_room by (simp add: gen_ok_def)

lemma gen_ok_eol [gen_intros]: "gen_ok apt_text_eol_insert [APT_TOKEN_CR, APT_TOKEN_LF]"
  using eol_insert_room by (simp add: gen_ok_def numeral_2_eq_2)

section \<open>Separated fields\<close>

lemma stream_of_str_simps [simp]:
  "ts_rest (stream_of_str str) = str_bytes str"
  "ts_pos (stream_of_str str) = 0"
  "ts_end (stream_of_str str) = str_length str"
  "ts_mem (stream_of_str str) = str_mem str"
  "ts_is_eos (stream_of_str str) = False"
  by (simp_all add: stream_of_str_def apt_text_stream_init_def apt_text_stream_reset_def
      ts_rest_def str_bytes_def)

lemma stream_of_str_wf [simp]: "str_wf str \<Longrightarrow> ts_wf (stream_of_str str)"
  by (simp add: ts_wf_def str_wf_def)

text \<open>
  A field without the separator and without a leading space, followed by the separator
  or by the end of the stream.
\<close>

lemma field_read_eq:
  assumes "ts_wf s" and "ts_rest s = f @ r" and "sep \<notin> set f" and "r = [] \<or> hd r = sep"
    and "skip \<longrightarrow> f @ r = [] \<or> hd (f @ r) \<noteq> APT_TOKEN_SP"
  shows "apt_text_field_read s sep skip =
    (f \<noteq> [], ts_str s (ts_pos s) (length f),
     s\<lparr>ts_pos := ts_pos s + length f + (if r = [] then 0 else 1)\<rparr>)"
proof -
  have k: "(if skip then length (takeWhile (\<lambda>c. c = APT_TOKEN_SP) (f @ r)) else 0) = 0"
    using assms(5) by (auto intro!: takeWhile_none)
  have n: "takeWhile (\<lambda>c. c \<noteq> sep) (f @ r) = f"
    using assms(3,4) by (cases r) (auto simp: takeWhile_append takeWhile_eq_all_conv)
  have "ts_end s - ts_pos s = length f + length r"
    using length_ts_rest [OF assms(1)] assms(2) by simp
  then have "ts_pos s + length f < ts_end s \<longleftrightarrow> r \<noteq> []"
    using assms(1) by (cases r) (auto simp: ts_wf_def)
  then show ?thesis
    unfolding apt_text_field_read_def Let_def assms(2) k drop_0 n by simp
qed

lemma field_read_field:
  assumes "ts_wf s" and "ts_rest s = f @ r" and "sep \<notin> set f" and "r = [] \<or> hd r = sep"
    and "skip \<longrightarrow> f @ r = [] \<or> hd (f @ r) \<noteq> APT_TOKEN_SP"
  shows "\<exists>str s'. apt_text_field_read s sep skip = (f \<noteq> [], str, s') \<and>
    str_bytes str = f \<and> str_wf str \<and> str_length str = length f \<and> str_buf str \<noteq> None \<and>
    ts_rest s' = drop 1 r \<and> ts_wf s' \<and> ts_mem s' = ts_mem s \<and> ts_end s' = ts_end s"
proof -
  let ?s = "s\<lparr>ts_pos := ts_pos s + length f + (if r = [] then 0 else 1)\<rparr>"
  have "ts_rest ?s = drop 1 r"
  proof (cases r)
    case Nil
    then show ?thesis using ts_rest_advance [of s f "[]"] assms(2) by simp
  next
    case (Cons c cs)
    then show ?thesis using ts_rest_advance [of s "f @ [c]" cs] assms(2) by (simp add: add.assoc)
  qed
  moreover have "length f + length r = ts_end s - ts_pos s"
    using length_ts_rest [OF assms(1)] assms(2) by simp
  then have "ts_wf ?s" using assms(1) by (cases r) (auto simp: ts_wf_def)
  ultimately show ?thesis
    using field_read_eq [OF assms] ts_str_rest [of s "[]" f r] assms(2)
    by (simp add: ts_str_def)
qed

lemma field_read_some:
  assumes "ts_wf s" and "ts_rest s = f @ r" and "f \<noteq> []" and "sep \<notin> set f"
    and "r = [] \<or> hd r = sep" and "skip \<longrightarrow> hd f \<noteq> APT_TOKEN_SP"
  shows "\<exists>str s'. apt_text_field_read s sep skip = (True, str, s') \<and>
    str_bytes str = f \<and> str_wf str \<and> str_length str = length f \<and> str_buf str \<noteq> None \<and>
    ts_rest s' = drop 1 r \<and> ts_wf s' \<and> ts_mem s' = ts_mem s \<and> ts_end s' = ts_end s"
  using field_read_field [OF assms(1,2,4,5), of skip] assms(3,6) by simp

section \<open>Numbers, identifiers and pairs\<close>

lemma digit_count_eq: "digit_count n = length (dec n)"
proof (induction n rule: digit_count.induct)
  case (1 n)
  show ?case
  proof (cases "n div 10 = 0")
    case True
    then show ?thesis by (subst digit_count.simps) (simp add: length_dec_less)
  next
    case False
    then show ?thesis using 1 by (subst digit_count.simps) (simp add: length_dec_ge)
  qed
qed

text \<open>The number the length correction of the code gives, on unbounded numbers.\<close>

lemma var_length_fixpoint:
  fixes v :: nat
  defines "m \<equiv> length (dec v)"
  defines "c \<equiv> (if v \<ge> 10 ^ m - m then m + 1 else m)"
  shows "length (dec (v + c)) = c"
proof -
  have m: "0 < m" "v < 10 ^ m" "m = 1 \<or> 10 ^ (m - 1) \<le> v"
    using length_dec_bounds [of v] length_dec_pos [of v] by (auto simp: m_def length_dec_less)
  have mm: "m + 1 < 10 ^ m"
  proof -
    have "Suc k + 1 < 10 ^ Suc k" for k :: nat by (induction k) simp_all
    then show ?thesis using m(1) by (metis Suc_pred)
  qed
  show ?thesis
  proof (cases "v \<ge> 10 ^ m - m")
    case True
    then have "v + (m + 1) < 10 ^ (m + 1)" "10 ^ m \<le> v + (m + 1)" using m(2) mm by simp_all
    then show ?thesis using True by (intro length_dec_unique) (simp_all add: c_def)
  next
    case False
    then have "v + m < 10 ^ m" by linarith
    then show ?thesis using False m by (intro length_dec_unique) (auto simp: c_def)
  qed
qed

lemma var_length_value_generate_eq:
  fixes v :: "64 word"
  assumes "unat v < 10 ^ 18"
  defines "m \<equiv> length (dec (unat v))"
  defines "c \<equiv> (if unat v \<ge> 10 ^ m - m then m + 1 else m)"
  shows "apt_var_length_value_generate v max_count =
     (v + of_nat c, if c > max_count then None else Some (dec (unat v + c) @ [NUL]))"
    and "unat (v + of_nat c) = unat v + c"
proof -
  have m: "0 < m" "m \<le> 18" using length_dec_le [of 18 "unat v"] assms(1) by (auto simp: m_def)
  have p: "(10 :: nat) ^ m \<le> 10 ^ 18" using m(2) by (intro power_increasing) auto
  have ub: "unat ((10 :: 64 word) ^ m) = 10 ^ m"
  proof -
    have "(10 :: 64 word) ^ m = of_nat (10 ^ m)" by simp
    moreover have "unat (of_nat (10 ^ m) :: 64 word) = 10 ^ m"
      using p unfolding unat_of_nat by (intro mod_less) simp
    ultimately show ?thesis by (simp only:)
  qed
  have um: "unat (of_nat m :: 64 word) = m" using m(2) by (simp add: unat_of_nat)
  have "m < 10 ^ m" by (simp add: power_gt_expt)
  then have "(of_nat m :: 64 word) \<le> 10 ^ m" by (simp add: word_le_nat_alt ub um)
  then have "unat ((10 :: 64 word) ^ m - of_nat m) = 10 ^ m - m" by (simp add: unat_sub ub um)
  then have cond: "v \<ge> 10 ^ m - of_nat m \<longleftrightarrow> unat v \<ge> 10 ^ m - m"
    by (simp add: word_le_nat_alt)
  have "c \<le> 19" using m by (auto simp: c_def)
  then have uc: "unat (of_nat c :: 64 word) = c" by (simp add: unat_of_nat)
  show s: "unat (v + of_nat c) = unat v + c"
    using assms(1) \<open>c \<le> 19\<close> unfolding unat_word_ariths uc by simp
  show "apt_var_length_value_generate v max_count =
     (v + of_nat c, if c > max_count then None else Some (dec (unat v + c) @ [NUL]))"
    unfolding apt_var_length_value_generate_def Let_def digit_count_eq m_def [symmetric] cond
      c_def [symmetric] using s by simp
qed

text \<open>What a reader sees of a pair, and the pairs that have a textual form.\<close>

definition pair_view :: "apt_pair \<Rightarrow> char list \<times> char list" where
  "pair_view p = (str_bytes (pair_name p), str_bytes (pair_value p))"

definition pair_ok :: "apt_pair \<Rightarrow> bool" where
  "pair_ok p \<longleftrightarrow>
     str_wf (pair_name p) \<and> str_wf (pair_value p) \<and>
     str_bytes (pair_name p) \<noteq> [] \<and> hd (str_bytes (pair_name p)) \<noteq> APT_TOKEN_SP \<and>
     CHR ''='' \<notin> set (str_bytes (pair_name p)) \<and> CHR '';'' \<notin> set (str_bytes (pair_name p)) \<and>
     (str_bytes (pair_value p) \<noteq> [] \<longrightarrow> hd (str_bytes (pair_value p)) \<noteq> APT_TOKEN_SP) \<and>
     CHR '';'' \<notin> set (str_bytes (pair_value p))"

lemma pair_ok_text:
  assumes "pair_ok p"
  shows "pair_text p = str_bytes (pair_name p) @
      (if str_bytes (pair_value p) = [] then [] else CHR ''='' # str_bytes (pair_value p))"
    and "pair_text p \<noteq> []" and "hd (pair_text p) \<noteq> APT_TOKEN_SP" and "CHR '';'' \<notin> set (pair_text p)"
    and "length (pair_text p) = pair_length p"
  using assms by (auto simp: pair_ok_def pair_text_def pair_length_def str_bytes_eq_Nil)

lemma pair_parse_text:
  assumes "pair_ok p" and "str_bytes field = pair_text p" and "str_wf field"
  shows "snd (apt_pair_parse slot field) \<and> pair_view (fst (apt_pair_parse slot field)) = pair_view p"
proof -
  let ?n = "str_bytes (pair_name p)" and ?v = "str_bytes (pair_value p)"
  let ?r = "if ?v = [] then [] else CHR ''='' # ?v"
  have n: "?n \<noteq> []" "hd ?n \<noteq> APT_TOKEN_SP" "CHR ''='' \<notin> set ?n"
    using assms(1) by (auto simp: pair_ok_def)
  have "ts_rest (stream_of_str field) = ?n @ ?r" using assms(2) pair_ok_text(1) [OF assms(1)] by simp
  moreover have "?r = [] \<or> hd ?r = CHR ''=''" by simp
  ultimately obtain str s where 1: "apt_text_field_read (stream_of_str field) (CHR ''='') True = (True, str, s)"
      "str_bytes str = ?n" "str_wf str" "ts_rest s = drop 1 ?r" "ts_wf s"
    using field_read_some [OF stream_of_str_wf [OF assms(3)] _ n(1,3), of ?r True] n(2) by blast
  then have "ts_rest s = ?v @ []" by simp
  from field_read_field [OF 1(5) this, of "CHR '';''" True]
  obtain str' s' where 2: "apt_text_field_read s (CHR '';'') True = (?v \<noteq> [], str', s')"
      "str_bytes str' = ?v" "str_wf str'"
    using assms(1) by (auto simp: pair_ok_def)
  show ?thesis using 1 2 by (simp add: apt_pair_parse_def pair_view_def)
qed

lemma pairs_text_shape:
  assumes "pair_ok p"
  obtains r where "pairs_text (p # ps) = pair_text p @ r" and "r = [] \<or> hd r = CHR '';''"
    and "drop 1 r = pairs_text ps"
  using that by (cases ps) auto

lemma pair_array_loop_text:
  "list_all pair_ok ps \<Longrightarrow> ts_wf s \<Longrightarrow> ts_rest s = pairs_text ps \<Longrightarrow>
   map pair_view (pair_array_loop slot arr s) = map pair_view arr @ map pair_view ps"
proof (induction ps arbitrary: arr s)
  case Nil
  then have "\<not> fst (apt_text_field_read s (CHR '';'') True)"
    using field_read_field [of s "[]" "[]" "CHR '';''" True] by auto
  then show ?case by (subst pair_array_loop.simps) (auto split: prod.split)
next
  case (Cons p ps)
  obtain r where r: "pairs_text (p # ps) = pair_text p @ r" "r = [] \<or> hd r = CHR '';''"
      "drop 1 r = pairs_text ps"
    using pairs_text_shape [of p ps] Cons.prems(1) by auto
  have p: "pair_ok p" using Cons.prems(1) by simp
  obtain f s' where f: "apt_text_field_read s (CHR '';'') True = (True, f, s')"
      "str_bytes f = pair_text p" "str_wf f" "ts_rest s' = pairs_text ps" "ts_wf s'"
    using field_read_field [of s "pair_text p" r "CHR '';''" True] Cons.prems(2,3) r
      pair_ok_text(2-4) [OF p]
    by auto
  have "pair_array_loop slot arr s = pair_array_loop slot (arr @ [fst (apt_pair_parse slot f)]) s'"
    by (subst pair_array_loop.simps) (simp add: f(1))
  then show ?case
    using Cons.IH [of s'] Cons.prems(1) f pair_parse_text [OF p f(2,3)] by simp
qed

lemma length_pair_text: "length (pair_text p) \<le> pair_length p"
  unfolding pair_text_def pair_length_def str_bytes_def
  by (auto intro: add_mono min.cobounded2)

lemma length_pairs_text:
  "length (pairs_text ps) \<le> sum_list (map pair_length ps) + (if ps \<noteq> [] then length ps - 1 else 0)"
proof (induction ps rule: pairs_text.induct)
  case (3 p q qs)
  then show ?case using length_pair_text [of p] by simp
qed (simp_all add: length_pair_text)

lemma length_pairs_text_ok:
  "list_all pair_ok ps \<Longrightarrow>
   length (pairs_text ps) = sum_list (map pair_length ps) + (if ps \<noteq> [] then length ps - 1 else 0)"
  by (induction ps rule: pairs_text.induct) (auto simp: pair_ok_text(5))

lemma id_resource_generate_parse:
  assumes "str_wf i" and "str_wf r" and "sep \<notin> set (str_bytes i)" and "NUL \<notin> set (str_bytes i)"
    and "apt_id_resource_generate i r sep = Inr str"
  shows "\<exists>i' r'. apt_id_resource_parse str sep = Inr (Some (i', r')) \<and>
    str_bytes i' = str_bytes i \<and> str_bytes r' = str_bytes r \<and> str_wf i' \<and> str_wf r' \<and>
    str_length i' = str_length i \<and> str_length r' = str_length r"
proof -
  let ?p = "str_bytes i @ sep # str_bytes r @ [NUL]"
  have str: "str = \<lparr>str_buf = Some ?p, str_length = str_length i + str_length r + 1\<rparr>"
    using assms by (simp add: apt_id_resource_generate_def split: if_splits)
  have "takeWhile (\<lambda>c. c \<noteq> sep \<and> c \<noteq> NUL) ?p = str_bytes i"
    using assms(3,4) by (intro takeWhile_append_stop) auto
  moreover have "?p ! length (str_bytes i) = sep" by simp
  ultimately have eq: "apt_id_resource_parse str sep =
      Inr (Some (apt_string_copy \<lparr>str_buf = Some ?p, str_length = str_length i\<rparr>,
         apt_string_copy \<lparr>str_buf = Some (str_bytes r @ [NUL]), str_length = str_length r\<rparr>))"
    using assms(1) by (simp add: apt_id_resource_parse_def str)
  have "str_wf \<lparr>str_buf = Some ?p, str_length = str_length i\<rparr>"
    "str_wf \<lparr>str_buf = Some (str_bytes r @ [NUL]), str_length = str_length r\<rparr>"
    using assms(1,2) by (simp_all add: str_wf_def str_mem_def str_bytes_def)
  then show ?thesis
    using assms(1,2) unfolding eq by (simp add: str_bytes_def [of "\<lparr>str_buf = _, str_length = _\<rparr>"] str_mem_def)
qed

lemma scroll_keeps_unread:
  assumes "ts_wf s" and "ts_end s = ts_buf s + ts_length s" and "ts_end s < length (ts_mem s)"
    and "ts_buf s \<le> ts_pos s"
  obtains b s' where "apt_text_stream_scroll s = Inr (b, s')" and "ts_buf s' = ts_buf s"
    and "take (ts_pos s' - ts_buf s) (drop (ts_buf s) (ts_mem s')) = ts_rest s"
    and "ts_pos s' = ts_buf s + length (ts_rest s)"
proof -
  let ?n = "ts_end s - ts_pos s"
  have n: "length (ts_rest s) = ?n" "ts_pos s \<le> ts_end s" using assms(1) length_ts_rest by (auto simp: ts_wf_def)
  show thesis
  proof (cases "ts_pos s = ts_end s")
    case True
    then show ?thesis
      using assms that n by (simp add: apt_text_stream_scroll_def mem_write_def ts_rest_def)
  next
    case False
    show ?thesis
    proof (cases "?n = ts_length s")
      case True
      then have "ts_pos s = ts_buf s" using assms n by linarith
      then show ?thesis
        using that [of False "s\<lparr>ts_pos := ts_buf s + ?n\<rparr>"] assms False n True
        by (simp add: apt_text_stream_scroll_def ts_rest_def)
    next
      case neq: False
      let ?m = "take (ts_buf s) (ts_mem s) @ ts_rest s @ NUL # drop (ts_buf s + ?n + 1) (ts_mem s)"
      have "apt_text_stream_scroll s =
          Inr (True, s\<lparr>ts_pos := ts_buf s + ?n, ts_length := ?n, ts_mem := ?m\<rparr>)"
        using assms n False neq
        by (simp add: apt_text_stream_scroll_def mem_write_def ts_rest_def Let_def)
      then show ?thesis
        using that assms n by simp
    qed
  qed
qed

section \<open>A runtime library that keeps its promises\<close>

definition apr_ref :: apr where
  "apr_ref = \<lparr>apr_palloc = (\<lambda>n. replicate n NUL),
     apr_snprintf = (\<lambda>n v. if n = 0 then ([], int (length (dec_int v)))
        else if length (dec_int v) < n then (dec_int v @ [NUL], int (length (dec_int v)))
        else (take (n - 1) (dec_int v) @ [NUL], int n - 1)),
     apr_psprintf = (\<lambda>v. dec v @ [NUL]),
     apr_array_slot = \<lparr>pair_name = apt_string_reset, pair_value = apt_string_reset\<rparr>,
     apr_uninit = 0\<rparr>"

lemma apr_ref_ok [simp]: "apr_ok apr_ref"
  unfolding apr_ok_def apr_ref_def by simp

lemma size_value_generate_text:
  assumes "apr_ok A" and "n < 2 ^ 64"
  shows "str_bytes (apt_size_value_generate A (of_nat n)) = dec n" and "str_wf (apt_size_value_generate A (of_nat n))"
    and "str_mem (apt_size_value_generate A (of_nat n)) = dec n @ [NUL]"
proof -
  have "\<forall>c \<in> set (dec n). c \<noteq> NUL" using isdigit_not_special(1) dec_isdigitD by blast
  then have "strlen (dec n @ [NUL]) = length (dec n)"
    unfolding strlen_def c_str_def by (subst takeWhile_append_stop) auto
  moreover have "unat (of_nat n :: 64 word) = n" using assms(2) by (simp add: unat_of_nat)
  ultimately show "str_bytes (apt_size_value_generate A (of_nat n)) = dec n"
    "str_wf (apt_size_value_generate A (of_nat n))"
    "str_mem (apt_size_value_generate A (of_nat n)) = dec n @ [NUL]"
    using assms(1) by (simp_all add: apt_size_value_generate_def apr_ok_def Let_def str_bytes_def str_mem_def str_wf_def)
qed

section \<open>Properties\<close>

text \<open>A header field inserted into an output stream with enough room is read back
  unchanged: \<open>apt_text_name_value_insert\<close> succeeds, writes nothing before the position it
  started at, and \<open>apt_text_header_read\<close> on the inserted bytes returns the name and the value
  and stops where the insertion stopped. This holds for every non-empty name without ':' and
  end-of-line characters, and every value without end-of-line characters, that do not start
  with white space.\<close>

theorem header_field_roundtrip:
  assumes "ts_room s (str_length name + str_length value + 4)" and "str_wf name" and "str_wf value"
    and "header_name_ok (str_bytes name)" and "header_value_ok (str_bytes value)"
  shows "\<exists>s' pair. apt_text_name_value_insert s name value = Inr (True, s') \<and>
    take (ts_pos s) (ts_mem s') = take (ts_pos s) (ts_mem s) \<and>
    apt_text_header_read (ts_reader s s') = (True, pair, (ts_reader s s')\<lparr>ts_pos := ts_pos s'\<rparr>) \<and>
    str_bytes (pair_name pair) = str_bytes name \<and> str_bytes (pair_value pair) = str_bytes value"
proof -
  obtain s' where s': "apt_text_name_value_insert s name value = Inr (True, s')"
      "ts_wrote s (header_line (str_bytes name) (str_bytes value)) s'"
    using name_value_insert_room [OF assms(1-3)] by blast
  let ?e = "[APT_TOKEN_CR, APT_TOKEN_LF]"
  have rest: "ts_rest (ts_reader s s') =
      str_bytes name @ CHR '':'' # [APT_TOKEN_SP] @ str_bytes value @ ?e @ []"
    using ts_rest_reader [OF s'(2)] by (simp add: header_line_def)
  have ws: "list_all apt_text_is_wsp [APT_TOKEN_SP]" "line_end ?e []"
    by (simp_all add: apt_text_is_wsp_def line_end_def)
  have pos: "ts_pos (ts_reader s s') + (length (str_bytes name) + 1 + length [APT_TOKEN_SP] +
      length (str_bytes value) + length ?e) = ts_pos s'"
    using ts_wroteD(1) [OF s'(2)] by (simp add: header_line_def ts_reader_def)
  from header_read_line [OF rest assms(4) ws(1) assms(5) ws(2), unfolded pos] obtain pair where
    "apt_text_header_read (ts_reader s s') = (True, pair, (ts_reader s s')\<lparr>ts_pos := ts_pos s'\<rparr>)"
    "str_bytes (pair_name pair) = str_bytes name" "str_bytes (pair_value pair) = str_bytes value"
    by blast
  with s'(1) ts_wrote_take [OF s'(2) order_refl] show ?thesis by blast
qed

text \<open>An empty output stream over a block of 256 bytes.\<close>

definition out_stream :: apt_text_stream where
  "out_stream = apt_text_stream_init (replicate 256 NUL) 256"

lemma out_stream_room: "n < 256 \<Longrightarrow> ts_room out_stream n"
  by (simp add: ts_room_def out_stream_def apt_text_stream_init_def apt_text_stream_reset_def)

theorem header_field_roundtrip_witness:
  "\<exists>s' pair.
    apt_text_name_value_insert out_stream (c_literal ''Content-Length'' 14) (c_literal ''42'' 2) = Inr (True, s') \<and>
    apt_text_header_read (ts_reader out_stream s') = (True, pair, (ts_reader out_stream s')\<lparr>ts_pos := ts_pos s'\<rparr>) \<and>
    str_bytes (pair_name pair) = ''Content-Length'' \<and> str_bytes (pair_value pair) = ''42''"
proof -
  have b: "str_bytes (c_literal ''Content-Length'' 14) = ''Content-Length''"
    "str_bytes (c_literal ''42'' 2) = ''42''"
    by (simp_all add: str_bytes_def)
  have "ts_room out_stream (str_length (c_literal ''Content-Length'' 14) + str_length (c_literal ''42'' 2) + 4)"
    by (rule out_stream_room) simp
  moreover have "str_wf (c_literal ''Content-Length'' 14)" "str_wf (c_literal ''42'' 2)"
    by (simp_all add: str_wf_def)
  moreover have "header_name_ok ''Content-Length''" "header_value_ok ''42''"
    by (simp_all add: header_name_ok_def header_value_ok_def apt_text_is_wsp_def)
  ultimately show ?thesis
    using header_field_roundtrip [of out_stream "c_literal ''Content-Length'' 14" "c_literal ''42'' 2"]
    unfolding b by blast
qed

text \<open>The header field reader accepts and rejects exactly as its specification says, for
  every input: with no end of line it fails, leaves the position and sets the end-of-stream
  flag; a line of white space only is an empty header; a line without ':' is malformed, and is
  skipped; and in \<open>name:value\<close> with any white space before the value and any of the ends of
  line CRLF, LF and CR, the name and the value are found and the position moves to the next
  line.\<close>

theorem header_read_cases:
  "(no_eol (ts_rest s) \<longrightarrow> (\<exists>pair. apt_text_header_read s = (False, pair, s\<lparr>ts_is_eos := True\<rparr>))) \<and>
   (\<forall>xs e r. ts_rest s = xs @ e @ r \<and> no_eol xs \<and> line_end e r \<longrightarrow>
     (list_all apt_text_is_wsp xs \<longrightarrow>
        apt_text_header_read s =
          (True, \<lparr>pair_name = apt_string_reset, pair_value = apt_string_reset\<rparr>,
           s\<lparr>ts_pos := ts_pos s + (length xs + length e)\<rparr>)) \<and>
     (\<not> list_all apt_text_is_wsp xs \<and> CHR '':'' \<notin> set xs \<longrightarrow>
        (\<exists>pair. apt_text_header_read s =
          (False, pair, s\<lparr>ts_pos := ts_pos s + (length xs + length e)\<rparr>))) \<and>
     (\<forall>name ws value. xs = name @ CHR '':'' # ws @ value \<and> header_name_ok name \<and>
        list_all apt_text_is_wsp ws \<and> header_value_ok value \<longrightarrow>
        (\<exists>pair. apt_text_header_read s =
            (True, pair, s\<lparr>ts_pos := ts_pos s + (length xs + length e)\<rparr>) \<and>
          str_bytes (pair_name pair) = name \<and> str_bytes (pair_value pair) = value)))"
proof (intro conjI allI impI, goal_cases)
  case 1
  then show ?case by (rule header_read_eos)
next
  case (2 xs e r)
  then show ?case using header_read_empty [of s xs e r] by simp
next
  case (3 xs e r)
  then show ?case using header_read_malformed [of s xs e r] by simp
next
  case (4 xs e r name ws v)
  then have "ts_rest s = name @ CHR '':'' # ws @ v @ e @ r" by simp
  moreover have "length name + 1 + length ws + length v + length e = length xs + length e"
    using 4 by simp
  ultimately show ?case using header_read_line [of s name ws v e r] 4 by metis
qed

theorem header_read_cases_witness:
  "\<exists>pair. apt_text_header_read (apt_text_stream_init (''A:  b'' @ [APT_TOKEN_LF]) 6) =
     (True, pair, (apt_text_stream_init (''A:  b'' @ [APT_TOKEN_LF]) 6)\<lparr>ts_pos := 6\<rparr>) \<and>
     str_bytes (pair_name pair) = ''A'' \<and> str_bytes (pair_value pair) = ''b''"
proof -
  let ?s = "apt_text_stream_init (''A:  b'' @ [APT_TOKEN_LF]) 6"
  have "ts_rest ?s = ''A:  b'' @ [APT_TOKEN_LF] @ [] \<and> no_eol ''A:  b'' \<and> line_end [APT_TOKEN_LF] []"
    "''A:  b'' = ''A'' @ CHR '':'' # ''  '' @ ''b'' \<and> header_name_ok ''A'' \<and>
     list_all apt_text_is_wsp ''  '' \<and> header_value_ok ''b''"
    by (simp_all add: ts_rest_def apt_text_stream_init_def apt_text_stream_reset_def line_end_def
        header_name_ok_def header_value_ok_def apt_text_is_wsp_def)
  moreover have "ts_pos ?s + (length ''A:  b'' + length [APT_TOKEN_LF]) = 6"
    by (simp add: apt_text_stream_init_def apt_text_stream_reset_def)
  ultimately show ?thesis
    using header_read_cases [of ?s, THEN conjunct2] by metis
qed

text \<open>Line reading splits the stream at the first end of line and loses nothing: on every
  stream either there is no end of line, and then the read fails, leaves the position and marks
  the end of the stream, or the line returned holds no end-of-line character and what was
  unread is the line, an end of line and what is unread afterwards.\<close>

theorem line_read_splits:
  "(\<not> fst (apt_text_line_read s) \<and> no_eol (ts_rest s) \<and>
      snd (snd (apt_text_line_read s)) = s\<lparr>ts_is_eos := True\<rparr>) \<or>
   (\<exists>line s' e. apt_text_line_read s = (True, line, s') \<and> no_eol (str_bytes line) \<and>
      line_end e (ts_rest s') \<and> ts_rest s = str_bytes line @ e @ ts_rest s' \<and>
      ts_pos s < ts_pos s' \<and> ts_pos s' \<le> ts_end s \<and> ts_mem s' = ts_mem s \<and> ts_end s' = ts_end s)"
proof (cases "ts_rest s" rule: line_end_cases)
  case none
  then show ?thesis using apt_text_line_read_eos by simp
next
  case (line l e r)
  let ?s = "s\<lparr>ts_pos := ts_pos s + (length l + length e)\<rparr>"
  have eq: "apt_text_line_read s = (True, ts_str s (ts_pos s) (length l), ?s)"
    using apt_text_line_read_eq line by simp
  have b: "str_bytes (ts_str s (ts_pos s) (length l)) = l"
    using ts_str_rest(1) [of s "[]" l "e @ r"] line(1) by simp
  have r: "ts_rest ?s = r" using ts_rest_advance [of s "l @ e" r] line(1) by simp
  have "length l + length e \<le> ts_end s - ts_pos s"
    using length_ts_rest_le [of s] line(1) by simp
  moreover have "0 < length e" using line(3) by (auto simp: line_end_def)
  ultimately have "ts_pos s + (length l + length e) \<le> ts_end s" by linarith
  with eq b r line \<open>0 < length e\<close> show ?thesis by auto
qed

text \<open>\<open>apt_var_length_value_generate\<close>, which the start line of an MRCPv2 message needs
  because the length of the message counts the digits of the length field itself, gives a
  number that is the given value plus the number of its own decimal digits, and prints exactly
  that number, whenever the digits fit into the reserved field; there is no wrap-around for
  values below 10 to the 18.\<close>

theorem var_length_value_self_consistent:
  assumes "unat v < 10 ^ 18"
  shows "\<exists>v' c. unat v' = unat v + c \<and> c = length (dec (unat v')) \<and>
    apt_var_length_value_generate v max_count =
      (v', if c \<le> max_count then Some (dec (unat v') @ [NUL]) else None)"
proof -
  let ?m = "length (dec (unat v))"
  let ?c = "if unat v \<ge> 10 ^ ?m - ?m then ?m + 1 else ?m"
  have "length (dec (unat v + ?c)) = ?c" by (rule var_length_fixpoint)
  then show ?thesis
    using var_length_value_generate_eq(1) [OF assms, of max_count] var_length_value_generate_eq(2) [OF assms]
    by (intro exI [of _ "v + of_nat ?c"] exI [of _ ?c]) simp
qed

theorem var_length_value_self_consistent_witness:
  "unat (99 :: 64 word) < 10 ^ 18 \<and>
   (\<exists>v' c. unat v' = unat (99 :: 64 word) + c \<and> c = length (dec (unat v')) \<and>
    apt_var_length_value_generate 99 4 = (v', if c \<le> 4 then Some (dec (unat v') @ [NUL]) else None))"
  using var_length_value_self_consistent [of 99 4] by simp

text \<open>An array of name-value pairs survives its textual form: \<open>apt_pair_array_generate\<close>
  never writes outside the string it allocates, and parsing that string into an empty array
  gives back the names and the values in order, for pairs whose names are not empty and hold
  no '=' and no ';', whose values hold no ';', and which do not start with a space.\<close>

lemma pair_array_roundtrip:
  assumes "apr_ok A" and "list_all pair_ok ps"
  shows "\<exists>str ps'. apt_pair_array_generate A (Some ps) str0 = Inr (True, str) \<and> str_wf str \<and>
    apt_pair_array_parse A (Some apt_pair_array_create) (Some str) = (Some ps', True) \<and>
    map pair_view ps' = map pair_view ps"
proof -
  let ?n = "sum_list (map pair_length ps) + (if ps \<noteq> [] then length ps - 1 else 0)"
  have n: "length (pairs_text ps) = ?n" by (rule length_pairs_text_ok [OF assms(2)])
  have "length (apr_palloc A (?n + 1)) = ?n + 1" using assms(1) by (simp add: apr_ok_def)
  then have w: "mem_write 0 (pairs_text ps @ [NUL]) (apr_palloc A (?n + 1)) = Inr (pairs_text ps @ [NUL])"
    using n by (simp add: mem_write_def)
  let ?str = "\<lparr>str_buf = Some (pairs_text ps @ [NUL]), str_length = ?n\<rparr>"
  have wf: "list_all (\<lambda>p. str_wf (pair_name p) \<and> str_wf (pair_value p)) ps"
    using assms(2) by (auto simp: list_all_iff pair_ok_def)
  have g: "apt_pair_array_generate A (Some ps) str0 = Inr (True, ?str)"
    using w wf by (simp add: apt_pair_array_generate_def)
  have b: "str_bytes ?str = pairs_text ps" "str_wf ?str"
    using n by (simp_all add: str_bytes_def str_mem_def str_wf_def)
  have "map pair_view (pair_array_loop (apr_array_slot A) [] (stream_of_str ?str)) = map pair_view ps"
    using pair_array_loop_text [OF assms(2), of "stream_of_str ?str" "apr_array_slot A" "[]"] b by simp
  then show ?thesis
    using g b(2) by (auto simp: apt_pair_array_parse_def apt_pair_array_create_def)
qed

text \<open>An identifier of the form \<open>id@resource\<close> is taken apart as it was put together, for
  every separator: the identifier must not hold the separator or a NUL, the resource may.\<close>

theorem id_resource_roundtrip:
  assumes "str_wf i" and "str_wf r" and "sep \<notin> set (str_bytes i)" and "NUL \<notin> set (str_bytes i)"
  shows "\<exists>str i' r'. apt_id_resource_generate i r sep = Inr str \<and>
    apt_id_resource_parse str sep = Inr (Some (i', r')) \<and>
    str_bytes i' = str_bytes i \<and> str_bytes r' = str_bytes r"
proof -
  obtain str where str: "apt_id_resource_generate i r sep = Inr str"
    using assms by (simp add: apt_id_resource_generate_def)
  from id_resource_generate_parse [OF assms this] str show ?thesis by blast
qed

theorem id_resource_roundtrip_witness:
  "\<exists>str i' r'. apt_id_resource_generate (c_literal ''32AECB23433801'' 14) (c_literal ''speechsynth'' 11)
      (CHR ''@'') = Inr str \<and>
    apt_id_resource_parse str (CHR ''@'') = Inr (Some (i', r')) \<and>
    str_bytes i' = ''32AECB23433801'' \<and> str_bytes r' = ''speechsynth''"
proof -
  have b: "str_bytes (c_literal ''32AECB23433801'' 14) = ''32AECB23433801''"
    "str_bytes (c_literal ''speechsynth'' 11) = ''speechsynth''"
    "str_wf (c_literal ''32AECB23433801'' 14)" "str_wf (c_literal ''speechsynth'' 11)"
    by (simp_all add: str_bytes_def str_wf_def)
  show ?thesis using id_resource_roundtrip [OF b(3,4), of "CHR ''@''"] unfolding b(1,2) by simp
qed

text \<open>C28. Scrolling a receive buffer keeps the unread bytes: they are moved to the beginning of
  the buffer, the position is set just behind them, and no byte is written outside the buffer,
  provided one byte is left for the terminating NUL.\<close>

theorem stream_scroll_keeps_unread:
  assumes "ts_wf s" and "ts_end s = ts_buf s + ts_length s" and "ts_end s < length (ts_mem s)"
    and "ts_buf s \<le> ts_pos s"
  shows "\<exists>b s'. apt_text_stream_scroll s = Inr (b, s') \<and>
    take (ts_pos s' - ts_buf s') (drop (ts_buf s') (ts_mem s')) = ts_rest s \<and>
    ts_pos s' = ts_buf s' + length (ts_rest s) \<and> ts_buf s' = ts_buf s"
  by (rule scroll_keeps_unread [OF assms]) auto

theorem stream_scroll_keeps_unread_witness:
  "\<exists>b s'. apt_text_stream_scroll ((apt_text_stream_init ''abcdef'' 5)\<lparr>ts_pos := 3\<rparr>) = Inr (b, s') \<and>
    take (ts_pos s' - ts_buf s') (drop (ts_buf s') (ts_mem s')) = ''de'' \<and> ts_pos s' = ts_buf s' + 2"
  using stream_scroll_keeps_unread [of "(apt_text_stream_init ''abcdef'' 5)\<lparr>ts_pos := 3\<rparr>"]
  by (auto simp: ts_wf_def apt_text_stream_init_def apt_text_stream_reset_def ts_rest_def)

text \<open>A size printed by \<open>apt_size_value_generate\<close> is parsed back to itself by
  \<open>apt_size_value_parse\<close>, for every 64-bit value that fits into a signed long.\<close>

lemma size_value_roundtrip:
  assumes "apr_ok A" and "uint v < 2 ^ 63"
  shows "apt_size_value_parse (apt_size_value_generate A v) = v"
proof -
  have "atol (dec (unat v) @ [NUL]) = int (unat v)"
    using assms(2) by (intro atol_dec) (auto simp: byte_def isdigit_def)
  then show ?thesis
    using assms(1) by (simp add: apt_size_value_parse_def apt_size_value_generate_def apr_ok_def Let_def)
qed

end
