(* ===== verification/AptHeader.thy ===== *)
theory AptHeader
  imports AptTextStream
begin

text \<open>
  Header fields and header sections (\<open>apt_header_field.c\<close>, \<open>apt_header_field.h\<close>), and
  reading and writing them as text (the first part of \<open>apt_text_message.c\<close>).

  A section links its fields into a ring and, for fields with a numeric identifier, also
  refers to them from an array. Both hold pointers to the same fields, and the code changes
  fields through either, so the section is modelled with a store: \<open>hs_fields\<close> holds the
  fields by address, \<open>hs_ring\<close> and \<open>hs_arr\<close> hold addresses.
\<close>

section \<open>Header fields\<close>

record header_field =
  hf_name :: apt_str
  hf_value :: apt_str
  hf_id :: nat

definition UNKNOWN_HEADER_FIELD_ID :: nat where
  "UNKNOWN_HEADER_FIELD_ID = 2 ^ 64 - 1"

definition apt_header_field_alloc :: header_field where
  "apt_header_field_alloc =
     \<lparr>hf_name = apt_string_reset, hf_value = apt_string_reset, hf_id = UNKNOWN_HEADER_FIELD_ID\<rparr>"

definition apt_header_field_create :: "apt_str option \<Rightarrow> apt_str option \<Rightarrow> header_field option" where
  "apt_header_field_create name value =
     (case (name, value) of
        (Some n, Some v) \<Rightarrow>
          Some \<lparr>hf_name = apt_string_copy n, hf_value = apt_string_copy v,
                hf_id = UNKNOWN_HEADER_FIELD_ID\<rparr>
      | _ \<Rightarrow> None)"

definition apt_header_field_create_c ::
  "char list option \<Rightarrow> char list option \<Rightarrow> header_field option" where
  "apt_header_field_create_c name value =
     (if name = None \<or> value = None then None
      else Some \<lparr>hf_name = apt_string_assign name, hf_value = apt_string_assign value,
                 hf_id = UNKNOWN_HEADER_FIELD_ID\<rparr>)"

definition apt_header_field_create_from_line :: "apt_str option \<Rightarrow> char \<Rightarrow> header_field option" where
  "apt_header_field_create_from_line line separator =
     (case line of None \<Rightarrow> None
      | Some l \<Rightarrow>
          (case apt_text_field_read (stream_of_str l) separator True of (ok, item, s) \<Rightarrow>
             if \<not> ok then None
             else case apt_text_field_read s NUL True of (_, item', _) \<Rightarrow>
               Some \<lparr>hf_name = apt_string_copy item, hf_value = apt_string_copy item',
                     hf_id = UNKNOWN_HEADER_FIELD_ID\<rparr>))"

definition apt_header_field_copy :: "header_field \<Rightarrow> header_field" where
  "apt_header_field_copy src =
     \<lparr>hf_name = apt_string_copy (hf_name src), hf_value = apt_string_copy (hf_value src),
      hf_id = hf_id src\<rparr>"

section \<open>Header sections\<close>

record header_section =
  hs_fields :: "header_field list"
  hs_ring :: "nat list"
  hs_arr :: "nat option list"

text \<open>Storing a field that the caller allocated; the result is its address.\<close>

definition hs_store :: "header_section \<Rightarrow> header_field \<Rightarrow> nat \<times> header_section" where
  "hs_store h f = (length (hs_fields h), h\<lparr>hs_fields := hs_fields h @ [f]\<rparr>)"

definition hs_field :: "header_section \<Rightarrow> nat \<Rightarrow> header_field" where
  "hs_field h a = hs_fields h ! a"

definition hs_update :: "header_section \<Rightarrow> nat \<Rightarrow> header_field \<Rightarrow> header_section" where
  "hs_update h a f = h\<lparr>hs_fields := (hs_fields h)[a := f]\<rparr>"

definition apt_header_section_init :: "header_section \<Rightarrow> header_section" where
  "apt_header_section_init h = h\<lparr>hs_ring := [], hs_arr := []\<rparr>"

definition apt_header_section_array_alloc :: "header_section \<Rightarrow> nat \<Rightarrow> bool \<times> header_section" where
  "apt_header_section_array_alloc h max_field_count =
     (if max_field_count = 0 then (False, h)
      else (True, h\<lparr>hs_arr := replicate max_field_count None\<rparr>))"

definition apt_header_section_field_check :: "header_section \<Rightarrow> nat \<Rightarrow> bool" where
  "apt_header_section_field_check h i =
     (if i < length (hs_arr h) then hs_arr h ! i \<noteq> None else False)"

definition apt_header_section_field_get :: "header_section \<Rightarrow> nat \<Rightarrow> nat option" where
  "apt_header_section_field_get h i = (if i < length (hs_arr h) then hs_arr h ! i else None)"

definition apt_header_section_field_add :: "header_section \<Rightarrow> nat \<Rightarrow> bool \<times> header_section" where
  "apt_header_section_field_add h a =
     (let i = hf_id (hs_field h a)
      in if i < length (hs_arr h)
         then if hs_arr h ! i \<noteq> None then (False, h)
              else (True, h\<lparr>hs_arr := (hs_arr h)[i := Some a], hs_ring := hs_ring h @ [a]\<rparr>)
         else (True, h\<lparr>hs_ring := hs_ring h @ [a]\<rparr>))"

text \<open>The loop that looks for the first field with a greater identifier.\<close>

fun ring_insert :: "header_section \<Rightarrow> nat \<Rightarrow> nat list \<Rightarrow> nat list" where
  "ring_insert h a [] = [a]"
| "ring_insert h a (it # ring) =
     (if hf_id (hs_field h a) < hf_id (hs_field h it) then a # it # ring
      else it # ring_insert h a ring)"

definition apt_header_section_field_insert :: "header_section \<Rightarrow> nat \<Rightarrow> bool \<times> header_section" where
  "apt_header_section_field_insert h a =
     (let i = hf_id (hs_field h a)
      in if i < length (hs_arr h)
         then if hs_arr h ! i \<noteq> None then (False, h)
              else (True, h\<lparr>hs_arr := (hs_arr h)[i := Some a],
                            hs_ring := ring_insert h a (hs_ring h)\<rparr>)
         else (True, h\<lparr>hs_ring := hs_ring h @ [a]\<rparr>))"

definition apt_header_section_field_set :: "header_section \<Rightarrow> nat \<Rightarrow> bool \<times> header_section" where
  "apt_header_section_field_set h a =
     (let i = hf_id (hs_field h a)
      in if i \<ge> length (hs_arr h) then (False, h)
         else if hs_arr h ! i \<noteq> None then (False, h)
         else (True, h\<lparr>hs_arr := (hs_arr h)[i := Some a]\<rparr>))"

definition apt_header_section_field_remove :: "header_section \<Rightarrow> nat \<Rightarrow> bool \<times> header_section" where
  "apt_header_section_field_remove h a =
     (let i = hf_id (hs_field h a);
          h = (if i < length (hs_arr h) then h\<lparr>hs_arr := (hs_arr h)[i := None]\<rparr> else h)
      in (True, h\<lparr>hs_ring := removeAll a (hs_ring h)\<rparr>))"

section \<open>Header fields as text\<close>

lemma line_read_pos:
  "apt_text_line_read s = (ok, l, s') \<Longrightarrow> ts_pos s \<le> ts_pos s' \<and> ts_end s' = ts_end s \<and>
    ts_mem s' = ts_mem s \<and> (ts_is_eos s \<longrightarrow> ts_is_eos s')"
  by (auto simp: apt_text_line_read_def split: prod.splits if_splits)

text \<open>The lines a folded value spans, after the first one.\<close>

function fold_loop :: "apt_text_stream \<Rightarrow> apt_str list \<Rightarrow> apt_str list \<times> apt_text_stream" where
  "fold_loop s lines =
     (if ts_rest s \<noteq> [] \<and> apt_text_is_wsp (hd (ts_rest s))
      then let s1 = apt_text_white_spaces_skip (s\<lparr>ts_pos := ts_pos s + 1\<rparr>)
           in case apt_text_line_read s1 of (_, line, s2) \<Rightarrow> fold_loop s2 (lines @ [line])
      else (lines, s))"
  by pat_completeness auto
termination
proof (relation "measure (\<lambda>(s, lines). ts_end s - ts_pos s)", goal_cases)
  case (2 s lines s1 ok p line s2)
  then have "apt_text_line_read s1 = (ok, line, s2)" by simp
  from line_read_pos [OF this] have "ts_pos s1 \<le> ts_pos s2 \<and> ts_end s2 = ts_end s1" by simp
  moreover have "ts_pos s < ts_pos s1 \<and> ts_end s1 = ts_end s"
    by (simp add: 2(2) apt_text_white_spaces_skip_def)
  moreover have "ts_pos s < ts_end s" using 2(1) by (auto simp: ts_rest_def)
  ultimately show ?case by auto
qed simp

declare fold_loop.simps [simp del]

text \<open>
  The copy of the name and of the value: a freshly allocated string that ends with NUL,
  never a null pointer.
\<close>

definition apt_header_field_parse :: "apt_text_stream \<Rightarrow> header_field option \<times> apt_text_stream" where
  "apt_header_field_parse s =
     (case apt_text_header_read s of (ok, pair, s) \<Rightarrow>
        if \<not> ok then (None, s)
        else case fold_loop s [] of (lines, s) \<Rightarrow>
          let folding_length = sum_list (map str_length lines);
              name = pair_name pair;
              val = pair_value pair;
              folded = (if folding_length \<noteq> 0 then concat (map str_bytes lines) else [])
          in (Some (apt_header_field_alloc
                \<lparr>hf_name := \<lparr>str_buf = Some (str_bytes name @ [NUL]), str_length = str_length name\<rparr>,
                 hf_value := \<lparr>str_buf = Some (str_bytes val @ folded @ [NUL]),
                              str_length = str_length val + folding_length\<rparr>\<rparr>), s))"

definition apt_header_field_generate ::
  "header_field \<Rightarrow> apt_text_stream \<Rightarrow> fault + bool \<times> apt_text_stream" where
  "apt_header_field_generate f s = apt_text_name_value_insert s (hf_name f) (hf_value f)"

text \<open>Reading a field either moves the position forward or marks the end of the stream.\<close>

lemma header_scan_adv:
  "header_scan n nb nl vb vl xs = (True, adv, r) \<Longrightarrow> n < adv \<and> adv \<le> n + length xs"
  by (induction n nb nl vb vl xs arbitrary: adv r rule: header_scan.induct)
    (fastforce simp: Let_def neq_Nil_conv split: if_splits)+

lemma header_read_progress:
  assumes "apt_text_header_read s = (ok, pair, s')"
  shows "ts_end s' = ts_end s \<and> ts_mem s' = ts_mem s \<and> (ts_is_eos s \<longrightarrow> ts_is_eos s') \<and>
    (ts_pos s < ts_pos s' \<and> ts_pos s' \<le> ts_end s \<or> ts_pos s' = ts_pos s \<and> ts_is_eos s' \<and> \<not> ok)"
proof (cases "header_scan 0 None 0 None 0 (ts_rest s)")
  case (fields st adv nb nl vb vl)
  show ?thesis
  proof (cases st)
    case True
    then have "0 < adv" "adv \<le> length (ts_rest s)" using header_scan_adv fields by fastforce+
    moreover have "length (ts_rest s) \<le> ts_end s - ts_pos s" by (rule length_ts_rest_le)
    ultimately show ?thesis
      using assms fields True by (auto simp: apt_text_header_read_def Let_def split: if_splits)
  next
    case False
    then show ?thesis using assms fields by (auto simp: apt_text_header_read_def Let_def)
  qed
qed

lemma fold_loop_pos:
  "fold_loop s lines = (lines', s') \<Longrightarrow> ts_pos s \<le> ts_pos s' \<and> ts_end s' = ts_end s \<and>
    ts_mem s' = ts_mem s \<and> (ts_is_eos s \<longrightarrow> ts_is_eos s')"
proof (induction s lines rule: fold_loop.induct)
  case (1 s lines)
  show ?case
  proof (cases "ts_rest s \<noteq> [] \<and> apt_text_is_wsp (hd (ts_rest s))")
    case True
    let ?s1 = "apt_text_white_spaces_skip (s\<lparr>ts_pos := ts_pos s + 1\<rparr>)"
    obtain ok line s2 where l: "apt_text_line_read ?s1 = (ok, line, s2)" by (metis prod_cases3)
    have "fold_loop s2 (lines @ [line]) = (lines', s')"
      using "1.prems" True l by (subst (asm) fold_loop.simps) (simp add: Let_def)
    then show ?thesis
      using "1.IH" [OF True refl l [symmetric] refl] line_read_pos [OF l]
      by (auto simp: apt_text_white_spaces_skip_def)
  next
    case False
    then show ?thesis using "1.prems" by (subst (asm) fold_loop.simps) auto
  qed
qed

lemma header_field_parse_progress:
  assumes "apt_header_field_parse s = (f, s')"
  shows "ts_end s' = ts_end s \<and> ts_mem s' = ts_mem s \<and> (ts_pos s < ts_pos s' \<or> ts_is_eos s')"
proof -
  obtain ok pair s1 where h: "apt_text_header_read s = (ok, pair, s1)" by (metis prod_cases3)
  obtain ls s2 where l: "fold_loop s1 [] = (ls, s2)" by fastforce
  from header_read_progress [OF h] fold_loop_pos [OF l] assms h l show ?thesis
    by (auto simp: apt_header_field_parse_def Let_def split: if_splits)
qed

function apt_header_section_parse ::
  "header_section \<Rightarrow> apt_text_stream \<Rightarrow> bool \<times> header_section \<times> apt_text_stream" where
  "apt_header_section_parse h s =
     (case apt_header_field_parse s of (field, s') \<Rightarrow>
        (case field of
           Some f \<Rightarrow>
             if \<not> apt_string_is_empty (hf_name f)
             then case hs_store h f of (a, h1) \<Rightarrow>
                    case apt_header_section_field_add h1 a of (_, h2) \<Rightarrow>
                      if apt_text_is_eos s' then (False, h2, s')
                      else apt_header_section_parse h2 s'
             else (True, h, s')
         | None \<Rightarrow>
             if apt_text_is_eos s' then (False, h, s') else apt_header_section_parse h s'))"
  by pat_completeness auto
termination
  by (relation "measure (\<lambda>(h, s). ts_end s - ts_pos s)")
    (auto simp: apt_text_is_eos_def dest!: header_field_parse_progress [OF sym] split: if_splits)

declare apt_header_section_parse.simps [simp del]

text \<open>A field that does not fit is left out; the code does not look at the result.\<close>

fun header_fields_generate ::
  "header_field list \<Rightarrow> apt_text_stream \<Rightarrow> fault + apt_text_stream" where
  "header_fields_generate [] s = Inr s"
| "header_fields_generate (f # fs) s =
     sbind (apt_header_field_generate f s) (\<lambda>(_, s). header_fields_generate fs s)"

definition apt_header_section_generate ::
  "header_section \<Rightarrow> apt_text_stream \<Rightarrow> fault + bool \<times> apt_text_stream" where
  "apt_header_section_generate h s =
     sbind (header_fields_generate (map (hs_field h) (hs_ring h)) s) apt_text_eol_insert"

section \<open>The invariant of header sections\<close>

text \<open>
  The ring links each field once; an entry of the array refers to a field of the ring that
  has the index of the entry as its identifier.
\<close>

definition hs_wf :: "header_section \<Rightarrow> bool" where
  "hs_wf h \<longleftrightarrow>
     distinct (hs_ring h) \<and> (\<forall>a \<in> set (hs_ring h). a < length (hs_fields h)) \<and>
     (\<forall>i < length (hs_arr h). \<forall>a. hs_arr h ! i = Some a \<longrightarrow>
        a \<in> set (hs_ring h) \<and> hf_id (hs_field h a) = i)"

text \<open>An address that may be linked: it is in the store and not in the ring yet.\<close>

definition hs_free :: "header_section \<Rightarrow> nat \<Rightarrow> bool" where
  "hs_free h a \<longleftrightarrow> a < length (hs_fields h) \<and> a \<notin> set (hs_ring h)"

lemma hs_wf_init: "hs_wf (apt_header_section_init h)"
  by (simp add: hs_wf_def apt_header_section_init_def)

lemma hs_wf_array_alloc: "hs_wf h \<Longrightarrow> hs_wf (snd (apt_header_section_array_alloc h n))"
  by (simp add: hs_wf_def apt_header_section_array_alloc_def hs_field_def)

lemma hs_wf_store: "hs_wf h \<Longrightarrow> hs_wf (snd (hs_store h f)) \<and> hs_free (snd (hs_store h f)) (fst (hs_store h f))"
  by (auto simp: hs_wf_def hs_store_def hs_field_def hs_free_def nth_append)

lemma hs_wf_add: "hs_wf h \<Longrightarrow> hs_free h a \<Longrightarrow> hs_wf (snd (apt_header_section_field_add h a))"
  by (auto simp: hs_wf_def apt_header_section_field_add_def hs_field_def hs_free_def Let_def
      nth_list_update split: if_splits)

lemma set_ring_insert [simp]: "set (ring_insert h a ring) = insert a (set ring)"
  by (induction ring) auto

lemma distinct_ring_insert [simp]:
  "distinct (ring_insert h a ring) \<longleftrightarrow> distinct ring \<and> a \<notin> set ring"
  by (induction ring) auto

lemma hs_wf_insert: "hs_wf h \<Longrightarrow> hs_free h a \<Longrightarrow> hs_wf (snd (apt_header_section_field_insert h a))"
  by (auto simp: hs_wf_def apt_header_section_field_insert_def hs_field_def hs_free_def Let_def
      nth_list_update split: if_splits)

lemma hs_wf_set:
  "hs_wf h \<Longrightarrow> a \<in> set (hs_ring h) \<Longrightarrow> hs_wf (snd (apt_header_section_field_set h a))"
  by (auto simp: hs_wf_def apt_header_section_field_set_def hs_field_def Let_def nth_list_update
      split: if_splits)

lemma hs_wf_remove: "hs_wf h \<Longrightarrow> hs_wf (snd (apt_header_section_field_remove h a))"
  by (auto simp: hs_wf_def apt_header_section_field_remove_def hs_field_def Let_def nth_list_update
      distinct_removeAll split: if_splits)

lemma hs_wf_update_value:
  "hs_wf h \<Longrightarrow> hf_id f = hf_id (hs_field h a) \<Longrightarrow> hs_wf (hs_update h a f)"
  by (cases "a < length (hs_fields h)")
    (auto simp: hs_wf_def hs_update_def hs_field_def nth_list_update list_update_beyond not_less)

lemmas hs_wf_ops = hs_wf_init hs_wf_array_alloc hs_wf_store hs_wf_add hs_wf_insert hs_wf_set
  hs_wf_remove

section \<open>Sections as collections of fields\<close>

text \<open>Allocating a field and adding it, looking one up, and all fields in ring order.\<close>

definition hs_put :: "header_section \<Rightarrow> header_field \<Rightarrow> bool \<times> header_section" where
  "hs_put h f = (case hs_store h f of (a, h1) \<Rightarrow> apt_header_section_field_add h1 a)"

lemma hs_field_update: "a < length (hs_fields h) \<Longrightarrow> hs_field (hs_update h a f) b = (if b = a then f else hs_field h b)"
  by (simp add: hs_field_def hs_update_def)

definition hs_lookup :: "header_section \<Rightarrow> nat \<Rightarrow> header_field option" where
  "hs_lookup h i = map_option (hs_field h) (apt_header_section_field_get h i)"

definition hs_listing :: "header_section \<Rightarrow> header_field list" where
  "hs_listing h = map (hs_field h) (hs_ring h)"

text \<open>
  What the operations on message headers rely on: fields with an identifier below a bound are
  found again, a second field with the same identifier is refused, nothing else changes.
\<close>

locale field_collection =
  fixes inv :: "'s \<Rightarrow> bool"
    and bound :: "'s \<Rightarrow> nat"
    and put :: "'s \<Rightarrow> header_field \<Rightarrow> bool \<times> 's"
    and lookup :: "'s \<Rightarrow> nat \<Rightarrow> header_field option"
    and listing :: "'s \<Rightarrow> header_field list"
  assumes put_inv: "inv s \<Longrightarrow> inv (snd (put s f))"
    and put_bound: "bound (snd (put s f)) = bound s"
    and put_status: "fst (put s f) \<longleftrightarrow> lookup s (hf_id f) = None"
    and lookup_put: "inv s \<Longrightarrow> lookup (snd (put s f)) i =
      (if lookup s i = None \<and> i = hf_id f \<and> i < bound s then Some f else lookup s i)"
    and listing_put: "inv s \<Longrightarrow> listing (snd (put s f)) =
      (if lookup s (hf_id f) = None then listing s @ [f] else listing s)"
    and lookup_bound: "lookup s i \<noteq> None \<Longrightarrow> i < bound s"
    and lookup_id: "inv s \<Longrightarrow> lookup s i = Some f \<Longrightarrow> hf_id f = i \<and> f \<in> set (listing s)"
begin

text \<open>Adding the fields that are not there yet, as inheriting and answering a GET-PARAMS do.\<close>

fun put_missing :: "(header_field \<Rightarrow> header_field) \<Rightarrow> header_field list \<Rightarrow> 's \<Rightarrow> 's" where
  "put_missing g [] s = s"
| "put_missing g (f # fs) s =
     put_missing g fs (if lookup s (hf_id f) \<noteq> None then s else snd (put s (g f)))"

lemma put_missing_inv: "inv s \<Longrightarrow> inv (put_missing g fs s) \<and> bound (put_missing g fs s) = bound s"
  by (induction fs arbitrary: s) (simp_all add: put_inv put_bound)

lemma put_missing_lookup:
  assumes "inv s" and "\<And>f. hf_id (g f) = hf_id f" and "i < bound s"
  shows "lookup (put_missing g fs s) i =
    (case lookup s i of Some f \<Rightarrow> Some f | None \<Rightarrow> map_option g (find (\<lambda>f. hf_id f = i) fs))"
  using assms(1,3)
proof (induction fs arbitrary: s)
  case (Cons f fs)
  show ?case
  proof (cases "lookup s (hf_id f)")
    case None
    then show ?thesis
      using Cons put_inv [OF Cons.prems(1)] put_bound
      by (auto simp: lookup_put assms(2) split: option.split)
  next
    case (Some f')
    then show ?thesis using Cons by (auto split: option.split)
  qed
qed (simp split: option.split)

lemma put_missing_keeps:
  "inv s \<Longrightarrow> lookup s i = Some f \<Longrightarrow> lookup (put_missing g fs s) i = Some f"
  by (induction fs arbitrary: s) (simp_all add: put_inv lookup_put)

lemma put_missing_listing:
  "inv s \<Longrightarrow> \<exists>fs'. listing (put_missing g fs s) = listing s @ map g fs' \<and> set fs' \<subseteq> set fs"
proof (induction fs arbitrary: s)
  case (Cons f fs)
  show ?case
  proof (cases "lookup s (hf_id f)")
    case None
    obtain fs' where "listing (put_missing g fs (snd (put s (g f)))) = listing (snd (put s (g f))) @ map g fs'"
      "set fs' \<subseteq> set fs"
      using Cons.IH [of "snd (put s (g f))"] put_inv [OF Cons.prems] by blast
    then have "listing (put_missing g (f # fs) s) = listing s @ map g (f # fs') \<or>
        listing (put_missing g (f # fs) s) = listing s @ map g fs'"
      using None Cons.prems by (auto simp: listing_put)
    moreover have "set (f # fs') \<subseteq> set (f # fs)" "set fs' \<subseteq> set (f # fs)"
      using \<open>set fs' \<subseteq> set fs\<close> by auto
    ultimately show ?thesis by blast
  next
    case (Some f')
    then show ?thesis using Cons by fastforce
  qed
qed simp

end

lemma hs_free_store: "hs_store h f = (a, h1) \<Longrightarrow>
    a = length (hs_fields h) \<and> hs_field h1 a = f \<and> hs_arr h1 = hs_arr h \<and> hs_ring h1 = hs_ring h \<and>
    (\<forall>b < a. hs_field h1 b = hs_field h b)"
  by (auto simp: hs_store_def hs_field_def nth_append)

interpretation hsc: field_collection hs_wf "\<lambda>h. length (hs_arr h)" hs_put hs_lookup hs_listing
proof (unfold_locales, goal_cases)
  case (1 s f)
  then show ?case
    using hs_wf_add hs_wf_store by (simp add: hs_put_def split: prod.split) (metis fst_conv snd_conv)
next
  case (2 s f)
  show ?case by (simp add: hs_put_def hs_store_def apt_header_section_field_add_def Let_def)
next
  case (3 s f)
  show ?case
    by (simp add: hs_put_def hs_store_def apt_header_section_field_add_def Let_def hs_lookup_def
        apt_header_section_field_get_def hs_field_def)
next
  case (4 s f i)
  let ?h = "snd (hs_put s f)"
  have "map_option (hs_field ?h) (hs_arr s ! i) = map_option (hs_field s) (hs_arr s ! i)"
    if "i < length (hs_arr s)"
    using 4 that
    by (cases "hs_arr s ! i") (auto simp: hs_put_def hs_store_def apt_header_section_field_add_def
        hs_field_def nth_append hs_wf_def Let_def)
  then show ?case
    using 4 by (auto simp: hs_put_def hs_store_def apt_header_section_field_add_def Let_def hs_lookup_def
        apt_header_section_field_get_def hs_field_def nth_list_update)
next
  case (5 s f)
  then show ?case
    by (auto simp: hs_put_def hs_store_def apt_header_section_field_add_def Let_def hs_lookup_def
        apt_header_section_field_get_def hs_field_def nth_append hs_wf_def hs_listing_def)
next
  case (6 s i)
  then show ?case by (auto simp: hs_lookup_def apt_header_section_field_get_def split: if_splits)
next
  case (7 s i f)
  then show ?case
    by (auto simp: hs_lookup_def apt_header_section_field_get_def hs_wf_def hs_listing_def
        split: if_splits)
qed

section \<open>Reading back generated sections\<close>

definition field_view :: "header_field \<Rightarrow> char list \<times> char list" where
  "field_view f = (str_bytes (hf_name f), str_bytes (hf_value f))"

definition field_ok :: "header_field \<Rightarrow> bool" where
  "field_ok f \<longleftrightarrow>
     str_wf (hf_name f) \<and> str_wf (hf_value f) \<and>
     header_name_ok (str_bytes (hf_name f)) \<and> header_value_ok (str_bytes (hf_value f))"

definition fields_text :: "header_field list \<Rightarrow> char list" where
  "fields_text fs = concat (map (\<lambda>f. header_line (str_bytes (hf_name f)) (str_bytes (hf_value f))) fs)"

abbreviation CRLF :: "char list" where "CRLF \<equiv> [APT_TOKEN_CR, APT_TOKEN_LF]"

text \<open>Text that is not a continuation of a folded value.\<close>

definition unfolded :: "char list \<Rightarrow> bool" where
  "unfolded r \<longleftrightarrow> r = [] \<or> \<not> apt_text_is_wsp (hd r)"

lemma fold_loop_unfolded: "unfolded (ts_rest s) \<Longrightarrow> fold_loop s ls = (ls, s)"
  by (subst fold_loop.simps) (auto simp: unfolded_def)

lemma unfolded_fields:
  "list_all field_ok fs \<Longrightarrow> unfolded (fields_text fs @ CRLF @ r)"
  by (cases fs) (auto simp: unfolded_def fields_text_def header_line_def field_ok_def
      header_name_ok_def apt_text_is_wsp_def)

lemma header_fields_generate_room:
  "ts_room s (length (fields_text fs)) \<Longrightarrow> list_all field_ok fs \<Longrightarrow>
   \<exists>s'. header_fields_generate fs s = Inr s' \<and> ts_wrote s (fields_text fs) s'"
proof (induction fs arbitrary: s)
  case Nil
  then show ?case using ts_roomD [of s 0] by (simp add: fields_text_def ts_wrote_refl)
next
  case (Cons f fs)
  let ?l = "header_line (str_bytes (hf_name f)) (str_bytes (hf_value f))"
  have f: "str_wf (hf_name f)" "str_wf (hf_value f)" using Cons.prems(2) by (auto simp: field_ok_def)
  then have "length ?l = str_length (hf_name f) + str_length (hf_value f) + 4"
    by (simp add: header_line_def)
  then have "ts_room s (str_length (hf_name f) + str_length (hf_value f) + 4)"
    using ts_room_mono [OF Cons.prems(1)] by (simp add: fields_text_def)
  from name_value_insert_room [OF this f] obtain s1 where
    s1: "apt_text_name_value_insert s (hf_name f) (hf_value f) = Inr (True, s1)" "ts_wrote s ?l s1"
    by blast
  then have "ts_room s1 (length (fields_text fs))"
    using Cons.prems(1) by (simp add: fields_text_def ts_room_wrote)
  with Cons.IH Cons.prems(2) obtain s2 where
    s2: "header_fields_generate fs s1 = Inr s2" "ts_wrote s1 (fields_text fs) s2"
    by auto
  have "ts_wrote s (fields_text (f # fs)) s2"
    using ts_wrote_trans [OF s1(2) s2(2)] by (simp add: fields_text_def)
  then show ?case using s1 s2 by (simp add: apt_header_field_generate_def)
qed

lemma section_generate_room:
  assumes "ts_room s (length (fields_text (hs_listing h)) + 2)" and "list_all field_ok (hs_listing h)"
  shows "\<exists>s'. apt_header_section_generate h s = Inr (True, s') \<and>
    ts_wrote s (fields_text (hs_listing h) @ CRLF) s'"
proof -
  obtain s1 where s1: "header_fields_generate (hs_listing h) s = Inr s1"
      "ts_wrote s (fields_text (hs_listing h)) s1"
    using header_fields_generate_room [OF ts_room_mono [OF assms(1) le_add1] assms(2)] by blast
  then have "ts_room s1 2" using assms(1) by (simp add: ts_room_wrote)
  from eol_insert_room [OF this] obtain s2 where
    "apt_text_eol_insert s1 = Inr (True, s2)" "ts_wrote s1 CRLF s2" by blast
  with s1 show ?thesis
    using ts_wrote_trans [OF s1(2)] by (auto simp: apt_header_section_generate_def hs_listing_def)
qed

text \<open>Parsing one field line that no continuation follows.\<close>

lemma line_end_CRLF [simp]: "line_end CRLF r"
  by (simp add: line_end_def)

lemma field_parse_line:
  assumes "ts_rest s = header_line name v @ r" and "header_name_ok name" and "header_value_ok v"
    and "unfolded r"
  shows "\<exists>f. apt_header_field_parse s = (Some f, s\<lparr>ts_pos := ts_pos s + length (header_line name v)\<rparr>) \<and>
    field_view f = (name, v) \<and> str_wf (hf_name f) \<and> str_wf (hf_value f) \<and>
    hf_id f = UNKNOWN_HEADER_FIELD_ID \<and> str_length (hf_name f) = length name \<and>
    str_length (hf_value f) = length v \<and> str_mem (hf_name f) = name @ [NUL] \<and>
    str_mem (hf_value f) = v @ [NUL]"
proof -
  let ?s = "s\<lparr>ts_pos := ts_pos s + length (header_line name v)\<rparr>"
  have ws: "list_all apt_text_is_wsp [APT_TOKEN_SP]" by (simp add: apt_text_is_wsp_def)
  have rest: "ts_rest s = name @ CHR '':'' # [APT_TOKEN_SP] @ v @ CRLF @ r"
    using assms(1) by (simp add: header_line_def)
  have pos: "length name + 1 + length [APT_TOKEN_SP] + length v + length CRLF = length (header_line name v)"
    by (simp add: header_line_def)
  from header_read_line [OF rest assms(2) ws assms(3) line_end_CRLF, unfolded pos] obtain pair where
    p: "apt_text_header_read s = (True, pair, ?s)"
      "str_bytes (pair_name pair) = name" "str_bytes (pair_value pair) = v"
      "str_wf (pair_name pair)" "str_wf (pair_value pair)" by blast
  have "ts_rest ?s = r" by (rule ts_rest_advance [OF assms(1)])
  then have "fold_loop ?s [] = ([], ?s)" using assms(4) by (simp add: fold_loop_unfolded)
  moreover have "str_length (pair_name pair) = length name" "str_length (pair_value pair) = length v"
    using p length_str_bytes by metis+
  ultimately show ?thesis
    using p by (simp add: apt_header_field_parse_def apt_header_field_alloc_def field_view_def
        str_bytes_def [of "\<lparr>str_buf = _, str_length = _\<rparr>"] str_mem_def str_wf_def)
qed

lemma field_parse_empty:
  assumes "ts_rest s = CRLF @ r" and "unfolded r"
  shows "\<exists>f. apt_header_field_parse s = (Some f, s\<lparr>ts_pos := ts_pos s + 2\<rparr>) \<and> str_length (hf_name f) = 0"
proof -
  let ?s = "s\<lparr>ts_pos := ts_pos s + 2\<rparr>"
  have "apt_text_header_read s =
      (True, \<lparr>pair_name = apt_string_reset, pair_value = apt_string_reset\<rparr>, ?s)"
    using header_read_empty [of s "[]" CRLF r] assms(1) by (simp add: numeral_2_eq_2)
  moreover have "ts_rest ?s = r" using ts_rest_advance [OF assms(1)] by (simp add: numeral_2_eq_2)
  then have "fold_loop ?s [] = ([], ?s)" using assms(2) by (simp add: fold_loop_unfolded)
  ultimately show ?thesis by (simp add: apt_header_field_parse_def apt_header_field_alloc_def)
qed

text \<open>Adding a field without an identifier appends it.\<close>

lemma add_unknown:
  assumes "hf_id f = UNKNOWN_HEADER_FIELD_ID" and "length (hs_arr h) \<le> UNKNOWN_HEADER_FIELD_ID"
    and "hs_wf h"
  shows "\<exists>h'. hs_put h f = (True, h') \<and> hs_wf h' \<and> hs_arr h' = hs_arr h \<and>
    hs_listing h' = hs_listing h @ [f] \<and> (\<forall>i. hs_lookup h' i = hs_lookup h i)"
proof -
  obtain b h' where p: "hs_put h f = (b, h')" by fastforce
  have n: "hs_lookup h (hf_id f) = None"
    using assms hsc.lookup_bound [of h "hf_id f"] by (metis not_le)
  have "b" using hsc.put_status [of h f] n p by simp
  moreover have "hs_wf h'" "hs_listing h' = hs_listing h @ [f]" "\<forall>i. hs_lookup h' i = hs_lookup h i"
    using hsc.put_inv [OF assms(3), of f] hsc.listing_put [OF assms(3), of f]
      hsc.lookup_put [OF assms(3), of f] n p assms(1,2) by auto
  moreover have "hs_arr h' = hs_arr h"
    using p assms(1,2)
    by (auto simp: hs_put_def hs_store_def apt_header_section_field_add_def Let_def hs_field_def
        split: if_splits)
  ultimately show ?thesis using p by simp
qed

lemma section_parse_put:
  "apt_header_section_parse h s =
     (case apt_header_field_parse s of (field, s') \<Rightarrow>
        (case field of
           Some f \<Rightarrow>
             if \<not> apt_string_is_empty (hf_name f)
             then if apt_text_is_eos s' then (False, snd (hs_put h f), s')
                  else apt_header_section_parse (snd (hs_put h f)) s'
             else (True, h, s')
         | None \<Rightarrow>
             if apt_text_is_eos s' then (False, h, s') else apt_header_section_parse h s'))"
  by (subst apt_header_section_parse.simps) (auto simp: hs_put_def split: prod.split option.split)

text \<open>How the parser allocates the strings of a field: each one in a block of its own, with a NUL.\<close>

definition parsed_ok :: "header_field \<Rightarrow> bool" where
  "parsed_ok f \<longleftrightarrow> str_wf (hf_name f) \<and> str_wf (hf_value f) \<and>
     str_mem (hf_name f) = str_bytes (hf_name f) @ [NUL] \<and> str_mem (hf_value f) = str_bytes (hf_value f) @ [NUL]"

lemma section_parse_text:
  assumes "list_all field_ok fs" and "unfolded r" and "hs_wf h"
    and "length (hs_arr h) \<le> UNKNOWN_HEADER_FIELD_ID"
    and "ts_rest s = fields_text fs @ CRLF @ r" and "ts_wf s" and "\<not> ts_is_eos s"
  shows "\<exists>h' fs'. apt_header_section_parse h s =
      (True, h', s\<lparr>ts_pos := ts_pos s + length (fields_text fs @ CRLF)\<rparr>) \<and>
    hs_wf h' \<and> hs_arr h' = hs_arr h \<and> hs_listing h' = hs_listing h @ fs' \<and>
    map field_view fs' = map field_view fs \<and> list_all parsed_ok fs' \<and>
    (\<forall>i. hs_lookup h' i = hs_lookup h i)"
  using assms(1,3-)
proof (induction fs arbitrary: h s)
  case Nil
  from Nil field_parse_empty [of s r] assms(2) show ?case
    by (auto simp: fields_text_def section_parse_put [of h s] apt_string_is_empty_def)
next
  case (Cons f fs)
  let ?n = "str_bytes (hf_name f)" and ?v = "str_bytes (hf_value f)"
  let ?r = "fields_text fs @ CRLF @ r"
  let ?s = "s\<lparr>ts_pos := ts_pos s + length (header_line ?n ?v)\<rparr>"
  have ok: "header_name_ok ?n" "header_value_ok ?v" "list_all field_ok fs"
    using Cons.prems(1) by (simp_all add: field_ok_def [of f])
  have rest: "ts_rest s = header_line ?n ?v @ ?r" using Cons.prems(4) by (simp add: fields_text_def)
  obtain g where g: "apt_header_field_parse s = (Some g, ?s)" "field_view g = (?n, ?v)"
      "hf_id g = UNKNOWN_HEADER_FIELD_ID" "str_length (hf_name g) = length ?n" "parsed_ok g"
    using field_parse_line [OF rest ok(1,2) unfolded_fields [OF ok(3)]]
    unfolding parsed_ok_def field_view_def by (metis prod.inject)
  have ne: "\<not> apt_string_is_empty (hf_name g)"
    using ok(1) g(4) by (auto simp: apt_string_is_empty_def header_name_ok_def)
  have rest': "ts_rest ?s = ?r" by (rule ts_rest_advance [OF rest])
  have wf': "ts_wf ?s"
    using Cons.prems(5) length_ts_rest [OF Cons.prems(5)] rest by (auto simp: ts_wf_def)
  have neos: "\<not> apt_text_is_eos ?s"
    using rest' Cons.prems(6) by (auto simp: apt_text_is_eos_def ts_rest_def)
  obtain h1 where h1: "hs_put h g = (True, h1)" "hs_wf h1" "hs_arr h1 = hs_arr h"
      "hs_listing h1 = hs_listing h @ [g]" "\<forall>i. hs_lookup h1 i = hs_lookup h i"
    using add_unknown [OF g(3) Cons.prems(3,2)] by blast
  obtain h' fs' where h': "apt_header_section_parse h1 ?s =
        (True, h', ?s\<lparr>ts_pos := ts_pos ?s + length (fields_text fs @ CRLF)\<rparr>)"
      "hs_wf h'" "hs_arr h' = hs_arr h1" "hs_listing h' = hs_listing h1 @ fs'"
      "map field_view fs' = map field_view fs" "list_all parsed_ok fs'"
      "\<forall>i. hs_lookup h' i = hs_lookup h1 i"
    using Cons.IH [OF ok(3) h1(2) _ rest' wf'] h1(3) Cons.prems(3,6) by auto
  have "apt_header_section_parse h s = apt_header_section_parse h1 ?s"
    using g ne neos h1(1) by (subst section_parse_put) simp
  then show ?case
    using h' h1 g(2,5)
    by (intro exI [of _ h'] exI [of _ "g # fs'"])
      (simp add: fields_text_def field_view_def [of f] add.assoc)
qed

section \<open>Folded values\<close>

text \<open>Continuation lines: white space, the text of the line, an end of line.\<close>

type_synonym continuation = "char list \<times> char list \<times> char list"

fun continuation_ok :: "continuation \<Rightarrow> bool" where
  "continuation_ok (ws, l, e) \<longleftrightarrow>
     ws \<noteq> [] \<and> list_all apt_text_is_wsp ws \<and> no_eol l \<and> unfolded l \<and> (e = CRLF \<or> e = [APT_TOKEN_LF])"

fun continuation_text :: "continuation \<Rightarrow> char list" where
  "continuation_text (ws, l, e) = ws @ l @ e"

fun continuation_line :: "continuation \<Rightarrow> char list" where
  "continuation_line (ws, l, e) = l"

lemma wsp_skip:
  assumes "ts_rest s = ws @ r" and "list_all apt_text_is_wsp ws" and "unfolded r"
  shows "apt_text_white_spaces_skip s = s\<lparr>ts_pos := ts_pos s + length ws\<rparr>"
proof -
  have "takeWhile apt_text_is_wsp (ws @ r) = ws"
    using assms(2,3) by (cases r) (auto simp: unfolded_def list_all_iff takeWhile_append)
  then show ?thesis by (simp add: apt_text_white_spaces_skip_def assms(1))
qed

lemma fold_loop_step:
  assumes "continuation_ok c" and "ts_rest s = continuation_text c @ r"
  shows "\<exists>l. fold_loop s ls = fold_loop (s\<lparr>ts_pos := ts_pos s + length (continuation_text c)\<rparr>) (ls @ [l]) \<and>
    str_bytes l = continuation_line c \<and> str_wf l"
proof -
  obtain ws l e where c: "c = (ws, l, e)" by (cases c)
  have ok: "ws \<noteq> []" "list_all apt_text_is_wsp ws" "no_eol l" "unfolded (l @ e @ r)" "line_end e r"
    using assms(1) by (auto simp: c unfolded_def line_end_def apt_text_is_wsp_def hd_append)
  obtain w ws' where ws: "ws = w # ws'" using ok(1) by (cases ws) auto
  have rest: "ts_rest s = ws @ l @ e @ r" using assms(2) by (simp add: c)
  let ?s1 = "s\<lparr>ts_pos := ts_pos s + length ws\<rparr>"
  have "ts_rest (s\<lparr>ts_pos := ts_pos s + 1\<rparr>) = ws' @ l @ e @ r"
    using ts_rest_advance [of s "[w]" "ws' @ l @ e @ r"] rest by (simp add: ws)
  then have s1: "apt_text_white_spaces_skip (s\<lparr>ts_pos := Suc (ts_pos s)\<rparr>) = ?s1"
    using wsp_skip [of "s\<lparr>ts_pos := ts_pos s + 1\<rparr>" ws' "l @ e @ r"] ok(2,4) by (simp add: ws)
  have r1: "ts_rest ?s1 = [] @ l @ e @ r" using ts_rest_advance [OF rest] by simp
  have "apt_text_line_read ?s1 = (True, ts_str ?s1 (ts_pos ?s1) (length l),
      ?s1\<lparr>ts_pos := ts_pos ?s1 + (length l + length e)\<rparr>)"
    using apt_text_line_read_eq r1 ok(3,5) by simp
  moreover have "str_bytes (ts_str ?s1 (ts_pos ?s1) (length l)) = l"
      "str_wf (ts_str ?s1 (ts_pos ?s1) (length l))"
    using ts_str_rest [OF r1] by simp_all
  moreover have "ts_rest s \<noteq> [] \<and> apt_text_is_wsp (hd (ts_rest s))"
    using rest ok(2) by (simp add: ws)
  ultimately show ?thesis
    by (subst fold_loop.simps) (auto simp: s1 c Let_def add.assoc)
qed

lemma fold_loop_lines:
  "list_all continuation_ok cs \<Longrightarrow> ts_rest s = concat (map continuation_text cs) @ r \<Longrightarrow> unfolded r \<Longrightarrow>
   \<exists>ls'. fold_loop s ls =
      (ls @ ls', s\<lparr>ts_pos := ts_pos s + length (concat (map continuation_text cs))\<rparr>) \<and>
     map str_bytes ls' = map continuation_line cs \<and> list_all str_wf ls'"
proof (induction cs arbitrary: s ls)
  case Nil
  then show ?case by (simp add: fold_loop_unfolded)
next
  case (Cons c cs)
  let ?r = "concat (map continuation_text cs) @ r"
  let ?s = "s\<lparr>ts_pos := ts_pos s + length (continuation_text c)\<rparr>"
  have rest: "ts_rest s = continuation_text c @ ?r" using Cons.prems(2) by simp
  obtain l where l: "fold_loop s ls = fold_loop ?s (ls @ [l])" "str_bytes l = continuation_line c" "str_wf l"
    using fold_loop_step [OF _ rest, of ls] Cons.prems(1) by auto
  have rest': "ts_rest ?s = ?r" by (rule ts_rest_advance [OF rest])
  obtain ls' where ls': "fold_loop ?s (ls @ [l]) = ((ls @ [l]) @ ls',
        ?s\<lparr>ts_pos := ts_pos ?s + length (concat (map continuation_text cs))\<rparr>)"
      "map str_bytes ls' = map continuation_line cs" "list_all str_wf ls'"
    using Cons.IH [OF _ rest' Cons.prems(3), of "ls @ [l]"] Cons.prems(1) by auto
  then show ?case using l by (intro exI [of _ "l # ls'"]) (simp add: add.assoc)
qed

lemma folded_length: "list_all str_wf ls \<Longrightarrow> sum_list (map str_length ls) = length (concat (map str_bytes ls))"
  by (induction ls) auto

section \<open>Properties\<close>

text \<open>C22. Every operation on a header section keeps its two views consistent: the ring links
  each field at most once, and an entry of the array always refers to a field of the ring that
  carries the index of the entry as its identifier.\<close>

theorem header_section_invariant:
  "hs_wf (apt_header_section_init h0) \<and>
   (hs_wf h \<longrightarrow>
     hs_wf (snd (apt_header_section_array_alloc h n)) \<and>
     hs_wf (snd (hs_put h f)) \<and>
     (hs_free h a \<longrightarrow> hs_wf (snd (apt_header_section_field_add h a)) \<and>
        hs_wf (snd (apt_header_section_field_insert h a))) \<and>
     (a \<in> set (hs_ring h) \<longrightarrow> hs_wf (snd (apt_header_section_field_set h a))) \<and>
     hs_wf (snd (apt_header_section_field_remove h a)))"
  by (intro conjI impI hs_wf_ops hsc.put_inv; simp)

text \<open>A section with one field of identifier 1 for the witnesses.\<close>

definition sample_section :: header_section where
  "sample_section =
     snd (hs_put (snd (apt_header_section_array_alloc
             \<lparr>hs_fields = [], hs_ring = [], hs_arr = []\<rparr> 3))
        \<lparr>hf_name = c_literal ''Accept'' 6, hf_value = c_literal ''text/plain'' 10, hf_id = 1\<rparr>)"

lemmas sample_section_eval = sample_section_def hs_put_def hs_store_def apt_header_section_array_alloc_def
  apt_header_section_field_add_def hs_field_def Let_def numeral_3_eq_3

lemma sample_section_wf: "hs_wf sample_section"
  unfolding sample_section_def by (rule hsc.put_inv, rule hs_wf_array_alloc) (simp add: hs_wf_def)

theorem header_section_invariant_witness:
  "hs_wf (snd (apt_header_section_field_remove sample_section 0)) \<and>
   hs_listing (snd (apt_header_section_field_remove sample_section 0)) = [] \<and>
   hs_listing sample_section \<noteq> []"
  using header_section_invariant [of sample_section sample_section 0 _ 0] sample_section_wf
  by (simp add: sample_section_eval hs_listing_def apt_header_section_field_remove_def)

text \<open>C17. A header section survives its textual form. When the output stream has room,
  \<open>apt_header_section_generate\<close> writes all fields and the empty line, and
  \<open>apt_header_section_parse\<close> reading what was written, followed by anything that does not
  start with white space, returns the names and the values of all fields in order and stops
  right behind the empty line.\<close>

theorem header_section_roundtrip:
  assumes "ts_room s (length (fields_text (hs_listing h)) + 2)" and "list_all field_ok (hs_listing h)"
    and "hs_wf h0" and "hs_listing h0 = []" and "length (hs_arr h0) \<le> UNKNOWN_HEADER_FIELD_ID"
    and "unfolded body"
  shows "\<exists>s'. apt_header_section_generate h s = Inr (True, s') \<and>
    (\<forall>t. ts_rest t = ts_rest (ts_reader s s') @ body \<and> ts_wf t \<and> \<not> ts_is_eos t \<longrightarrow>
      (\<exists>h' t'. apt_header_section_parse h0 t = (True, h', t') \<and> hs_wf h' \<and> ts_rest t' = body \<and>
        map field_view (hs_listing h') = map field_view (hs_listing h)))"
proof -
  let ?text = "fields_text (hs_listing h) @ CRLF"
  obtain s' where s': "apt_header_section_generate h s = Inr (True, s')" "ts_wrote s ?text s'"
    using section_generate_room [OF assms(1,2)] by blast
  have "\<exists>h' t'. apt_header_section_parse h0 t = (True, h', t') \<and> hs_wf h' \<and> ts_rest t' = body \<and>
        map field_view (hs_listing h') = map field_view (hs_listing h)"
    if t: "ts_rest t = ts_rest (ts_reader s s') @ body" "ts_wf t" "\<not> ts_is_eos t" for t
  proof -
    have rest: "ts_rest t = ?text @ body" using t(1) ts_rest_reader [OF s'(2)] by simp
    then have rest2: "ts_rest t = fields_text (hs_listing h) @ CRLF @ body" by simp
    obtain h' fs' where "apt_header_section_parse h0 t = (True, h', t\<lparr>ts_pos := ts_pos t + length ?text\<rparr>)"
        "hs_wf h'" "hs_listing h' = fs'" "map field_view fs' = map field_view (hs_listing h)"
      using section_parse_text [OF assms(2,6,3,5) rest2 t(2,3)] assms(4) by auto
    then show ?thesis using ts_rest_advance [OF rest] by blast
  qed
  with s'(1) show ?thesis by blast
qed

lemma sample_section_listing:
  "hs_listing sample_section =
     [\<lparr>hf_name = c_literal ''Accept'' 6, hf_value = c_literal ''text/plain'' 10, hf_id = 1\<rparr>]"
  by (simp add: sample_section_eval hs_listing_def)

lemma sample_section_ok: "list_all field_ok (hs_listing sample_section)"
  by (simp add: sample_section_listing field_ok_def str_wf_def str_bytes_def header_name_ok_def
      header_value_ok_def apt_text_is_wsp_def)

abbreviation empty_section :: header_section where
  "empty_section \<equiv> \<lparr>hs_fields = [], hs_ring = [], hs_arr = []\<rparr>"

theorem header_section_roundtrip_witness:
  "\<exists>s'. apt_header_section_generate sample_section out_stream = Inr (True, s') \<and>
    (\<forall>t. ts_rest t = ts_rest (ts_reader out_stream s') @ ''body'' \<and> ts_wf t \<and> \<not> ts_is_eos t \<longrightarrow>
      (\<exists>h' t'. apt_header_section_parse empty_section t = (True, h', t') \<and> hs_wf h' \<and>
        ts_rest t' = ''body'' \<and> map field_view (hs_listing h') = [(''Accept'', ''text/plain'')]))"
proof -
  have v: "map field_view (hs_listing sample_section) = [(''Accept'', ''text/plain'')]"
    by (simp add: sample_section_listing field_view_def str_bytes_def)
  have "length (fields_text (hs_listing sample_section)) + 2 < 256"
    by (simp add: sample_section_listing fields_text_def header_line_def str_bytes_def)
  then have r: "ts_room out_stream (length (fields_text (hs_listing sample_section)) + 2)"
    by (rule out_stream_room)
  have e: "hs_wf empty_section" "hs_listing empty_section = []"
    "length (hs_arr empty_section) \<le> UNKNOWN_HEADER_FIELD_ID" "unfolded ''body''"
    by (simp_all add: hs_wf_def hs_listing_def unfolded_def apt_text_is_wsp_def)
  show ?thesis using header_section_roundtrip [OF r sample_section_ok e] unfolding v .
qed

text \<open>C29. A value that is folded over several lines is put together: after \<open>name: value\<close> any
  number of continuation lines may follow that start with white space, and the value returned
  is the first line followed by the texts of the continuation lines.\<close>

theorem folded_value_parsed:
  assumes "ts_rest s = header_line name v @ concat (map continuation_text cs) @ r"
    and "header_name_ok name" and "header_value_ok v" and "list_all continuation_ok cs" and "unfolded r"
  shows "\<exists>f s'. apt_header_field_parse s = (Some f, s') \<and> str_bytes (hf_name f) = name \<and>
    str_bytes (hf_value f) = v @ concat (map continuation_line cs) \<and> ts_rest s' = r"
proof -
  let ?c = "concat (map continuation_text cs)"
  let ?s1 = "s\<lparr>ts_pos := ts_pos s + length (header_line name v)\<rparr>"
  have ws: "list_all apt_text_is_wsp [APT_TOKEN_SP]" by (simp add: apt_text_is_wsp_def)
  have rest: "ts_rest s = name @ CHR '':'' # [APT_TOKEN_SP] @ v @ CRLF @ ?c @ r"
    using assms(1) by (simp add: header_line_def)
  have pos: "length name + 1 + length [APT_TOKEN_SP] + length v + length CRLF = length (header_line name v)"
    by (simp add: header_line_def)
  from header_read_line [OF rest assms(2) ws assms(3) line_end_CRLF, unfolded pos] obtain pair where
    p: "apt_text_header_read s = (True, pair, ?s1)"
      "str_bytes (pair_name pair) = name" "str_bytes (pair_value pair) = v"
      "str_wf (pair_name pair)" "str_wf (pair_value pair)" by blast
  have rest1: "ts_rest ?s1 = ?c @ r" by (rule ts_rest_advance [OF assms(1)])
  obtain ls where ls: "fold_loop ?s1 [] = (ls, ?s1\<lparr>ts_pos := ts_pos ?s1 + length ?c\<rparr>)"
      "map str_bytes ls = map continuation_line cs" "list_all str_wf ls"
    using fold_loop_lines [OF assms(4) rest1 assms(5), of "[]"] by auto
  have len: "str_length (pair_name pair) = length name" "str_length (pair_value pair) = length v"
    "sum_list (map str_length ls) = length (concat (map continuation_line cs))"
    using p length_str_bytes folded_length [OF ls(3)] ls(2) by metis+
  have "ts_rest (?s1\<lparr>ts_pos := ts_pos ?s1 + length ?c\<rparr>) = r" by (rule ts_rest_advance [OF rest1])
  then show ?thesis
    using p ls len
    by (auto simp: apt_header_field_parse_def Let_def str_bytes_def [of "\<lparr>str_buf = _, str_length = _\<rparr>"]
        str_mem_def)
qed

text \<open>A stream over exactly the given bytes.\<close>

definition text_stream :: "char list \<Rightarrow> apt_text_stream" where
  "text_stream t = apt_text_stream_init t (length t)"

lemma text_stream_simps [simp]:
  "ts_rest (text_stream t) = t" "ts_wf (text_stream t)" "\<not> ts_is_eos (text_stream t)"
  "ts_pos (text_stream t) = 0" "ts_mem (text_stream t) = t" "ts_end (text_stream t) = length t"
  by (simp_all add: text_stream_def apt_text_stream_init_def apt_text_stream_reset_def ts_rest_def ts_wf_def)

theorem folded_value_parsed_witness:
  "\<exists>f s'. apt_header_field_parse (text_stream (''A: b'' @ CRLF @ '' c'' @ [APT_TOKEN_LF])) = (Some f, s') \<and>
    str_bytes (hf_name f) = ''A'' \<and> str_bytes (hf_value f) = ''bc'' \<and> ts_rest s' = []"
  using folded_value_parsed [of "text_stream (''A: b'' @ CRLF @ '' c'' @ [APT_TOKEN_LF])" "''A''" "''b''"
      "[('' '', ''c'', [APT_TOKEN_LF])]" "[]"]
  by (simp add: header_line_def header_name_ok_def header_value_ok_def apt_text_is_wsp_def unfolded_def)

text \<open>C30. The check for continuation lines is also made after the empty line that ends the
  header section. Whatever follows the header section and starts with white space is therefore
  taken for a continuation line up to its end of line and dropped: a message body whose first
  line is indented loses that line.\<close>

theorem indented_body_line_dropped:
  assumes "ts_rest s = CRLF @ continuation_text c @ body" and "continuation_ok c" and "unfolded body"
  shows "\<exists>s'. apt_header_section_parse h s = (True, h, s') \<and> ts_rest s' = body"
proof -
  let ?s1 = "s\<lparr>ts_pos := ts_pos s + length CRLF\<rparr>"
  have "apt_text_header_read s =
      (True, \<lparr>pair_name = apt_string_reset, pair_value = apt_string_reset\<rparr>, ?s1)"
    using header_read_empty [of s "[]" CRLF "continuation_text c @ body"] assms(1) by simp
  moreover have rest: "ts_rest ?s1 = concat (map continuation_text [c]) @ body"
    using ts_rest_advance [OF assms(1)] by simp
  obtain ls where "fold_loop ?s1 [] = (ls, ?s1\<lparr>ts_pos := ts_pos ?s1 + length (continuation_text c)\<rparr>)"
    using fold_loop_lines [of "[c]", OF _ rest assms(3), of "[]"] assms(2) by auto
  moreover have "ts_rest (?s1\<lparr>ts_pos := ts_pos ?s1 + length (continuation_text c)\<rparr>) = body"
    using ts_rest_advance [of ?s1 "continuation_text c" body] rest by simp
  ultimately show ?thesis
    by (subst section_parse_put)
      (simp add: apt_header_field_parse_def apt_header_field_alloc_def apt_string_is_empty_def Let_def)
qed

theorem indented_body_line_dropped_witness:
  "\<exists>s'. apt_header_section_parse empty_section (text_stream (CRLF @ '' line1'' @ CRLF @ ''line2'')) =
      (True, empty_section, s') \<and> ts_rest s' = ''line2''"
  using indented_body_line_dropped [of "text_stream (CRLF @ '' line1'' @ CRLF @ ''line2'')"
      "('' '', ''line1'', CRLF)" "''line2''" empty_section]
  by (simp add: apt_text_is_wsp_def unfolded_def)

end
