(* ===== verification/MrcpStartLine.thy ===== *)
theory MrcpStartLine
  imports AptHeader
begin

text \<open>
  The start line of MRCP messages (\<open>mrcp_start_line.c\<close>): requests, responses and events of
  MRCPv1 and MRCPv2, and the correction of the message length that MRCPv2 needs.

  Enumerations are datatypes; a status code is the number itself, kept at the 32 bits of the
  C enumeration, and a request identifier is a 32-bit word as in the default build (without
  \<open>TOO_LONG_MRCP_REQUEST_ID\<close>).
\<close>

datatype mrcp_version = MRCP_VERSION_UNKNOWN | MRCP_VERSION_1 | MRCP_VERSION_2

datatype mrcp_message_type =
  MRCP_MESSAGE_TYPE_UNKNOWN | MRCP_MESSAGE_TYPE_REQUEST | MRCP_MESSAGE_TYPE_RESPONSE |
  MRCP_MESSAGE_TYPE_EVENT

datatype mrcp_request_state =
  MRCP_REQUEST_STATE_COMPLETE | MRCP_REQUEST_STATE_INPROGRESS | MRCP_REQUEST_STATE_PENDING |
  MRCP_REQUEST_STATE_UNKNOWN

type_synonym request_id = "32 word"
type_synonym status_code = "32 word"

abbreviation MRCP_STATUS_CODE_UNKNOWN :: status_code where "MRCP_STATUS_CODE_UNKNOWN \<equiv> 0"
abbreviation MRCP_STATUS_CODE_SUCCESS :: status_code where "MRCP_STATUS_CODE_SUCCESS \<equiv> 200"
abbreviation MRCP_STATUS_CODE_METHOD_NOT_VALID :: status_code where
  "MRCP_STATUS_CODE_METHOD_NOT_VALID \<equiv> 402"
abbreviation MRCP_STATUS_CODE_METHOD_FAILED :: status_code where
  "MRCP_STATUS_CODE_METHOD_FAILED \<equiv> 407"

text \<open>The numbers of the enumerations.\<close>

fun version_num :: "mrcp_version \<Rightarrow> nat" where
  "version_num MRCP_VERSION_UNKNOWN = 0"
| "version_num MRCP_VERSION_1 = 1"
| "version_num MRCP_VERSION_2 = 2"

fun request_state_num :: "mrcp_request_state \<Rightarrow> nat" where
  "request_state_num MRCP_REQUEST_STATE_COMPLETE = 0"
| "request_state_num MRCP_REQUEST_STATE_INPROGRESS = 1"
| "request_state_num MRCP_REQUEST_STATE_PENDING = 2"
| "request_state_num MRCP_REQUEST_STATE_UNKNOWN = 3"

definition request_state_of :: "nat \<Rightarrow> mrcp_request_state" where
  "request_state_of n =
     (if n = 0 then MRCP_REQUEST_STATE_COMPLETE
      else if n = 1 then MRCP_REQUEST_STATE_INPROGRESS
      else if n = 2 then MRCP_REQUEST_STATE_PENDING
      else MRCP_REQUEST_STATE_UNKNOWN)"

record mrcp_start_line =
  sl_message_type :: mrcp_message_type
  sl_version :: mrcp_version
  sl_length :: "64 word"
  sl_request_id :: request_id
  sl_method_name :: apt_str
  sl_method_id :: nat
  sl_status_code :: status_code
  sl_request_state :: mrcp_request_state

definition MRCP_NAME :: "char list" where "MRCP_NAME = ''MRCP''"

abbreviation MAX_DIGIT_COUNT :: nat where "MAX_DIGIT_COUNT \<equiv> 6"
abbreviation MRCP_REQUEST_STATE_COUNT :: nat where "MRCP_REQUEST_STATE_COUNT \<equiv> 3"

definition mrcp_request_state_string_table :: "apt_str_table_item list" where
  "mrcp_request_state_string_table =
     [table_item ''COMPLETE'' 8 0, table_item ''IN-PROGRESS'' 11 0, table_item ''PENDING'' 7 0]"

section \<open>Fields of the start line\<close>

definition mrcp_version_parse :: "apt_str \<Rightarrow> mrcp_version" where
  "mrcp_version_parse field =
     (if str_length field \<le> length MRCP_NAME \<or>
         \<not> strncasecmp_eq (str_mem field) (MRCP_NAME @ [NUL]) (length MRCP_NAME)
      then MRCP_VERSION_UNKNOWN
      else let pos = drop (length MRCP_NAME) (str_mem field)
           in if byte pos = CHR ''/''
              then if byte (drop 1 pos) = CHR ''1'' then MRCP_VERSION_1
                   else if byte (drop 1 pos) = CHR ''2'' then MRCP_VERSION_2
                   else MRCP_VERSION_UNKNOWN
              else MRCP_VERSION_UNKNOWN)"

definition mrcp_version_generate ::
  "apr \<Rightarrow> mrcp_version \<Rightarrow> apt_text_stream \<Rightarrow> fault + bool \<times> apt_text_stream" where
  "mrcp_version_generate A version s =
     (if ts_pos s + length MRCP_NAME + 1 \<ge> ts_end s then Inr (False, s)
      else sbind (ts_write s (MRCP_NAME @ [CHR ''/''])) (\<lambda>s.
           sbind (apt_text_size_value_insert A s (of_nat (version_num version))) (\<lambda>(ok, s).
             if \<not> ok then Inr (False, s)
             else if ts_pos s + 2 \<ge> ts_end s then Inr (False, s)
             else sbind (ts_write s [CHR ''.'', CHR ''0'']) (\<lambda>s. Inr (True, s)))))"

definition mrcp_request_state_parse :: "apt_str \<Rightarrow> mrcp_request_state" where
  "mrcp_request_state_parse str =
     request_state_of (apt_string_table_id_find mrcp_request_state_string_table MRCP_REQUEST_STATE_COUNT str)"

definition mrcp_request_state_generate ::
  "mrcp_request_state \<Rightarrow> apt_text_stream \<Rightarrow> fault + bool \<times> apt_text_stream" where
  "mrcp_request_state_generate state s =
     (case apt_string_table_str_get mrcp_request_state_string_table MRCP_REQUEST_STATE_COUNT
             (request_state_num state) of
        Some name \<Rightarrow> sbind (ts_write_str s name) (\<lambda>s. Inr (True, s))
      | None \<Rightarrow> Inr (True, s))"

definition mrcp_status_code_parse :: "apt_str \<Rightarrow> status_code" where
  "mrcp_status_code_parse field = ucast (apt_size_value_parse field)"

definition mrcp_status_code_generate ::
  "apr \<Rightarrow> status_code \<Rightarrow> apt_text_stream \<Rightarrow> fault + bool \<times> apt_text_stream" where
  "mrcp_status_code_generate A code s = apt_text_size_value_insert A s (ucast code)"

definition mrcp_request_id_parse :: "apt_str \<Rightarrow> request_id" where
  "mrcp_request_id_parse field =
     (case str_buf field of Some p \<Rightarrow> word_of_int (atol p) | None \<Rightarrow> 0)"

text \<open>The format is \<open>%d\<close>: the identifier is printed as a signed number.\<close>

definition mrcp_request_id_generate ::
  "apr \<Rightarrow> request_id \<Rightarrow> apt_text_stream \<Rightarrow> fault + bool \<times> apt_text_stream" where
  "mrcp_request_id_generate A rid s = apt_text_int_insert A s (sint rid)"

section \<open>Lines\<close>

definition mrcp_start_line_init :: "mrcp_start_line \<Rightarrow> mrcp_start_line" where
  "mrcp_start_line_init sl =
     sl\<lparr>sl_message_type := MRCP_MESSAGE_TYPE_UNKNOWN, sl_version := MRCP_VERSION_UNKNOWN,
        sl_length := 0, sl_request_id := 0, sl_method_name := apt_string_reset,
        sl_status_code := MRCP_STATUS_CODE_UNKNOWN,
        sl_request_state := MRCP_REQUEST_STATE_UNKNOWN\<rparr>"

definition mrcp_request_line_parse ::
  "mrcp_start_line \<Rightarrow> apt_text_stream \<Rightarrow> bool \<times> mrcp_start_line" where
  "mrcp_request_line_parse sl s =
     (case apt_text_field_read s APT_TOKEN_SP True of (ok, field, s) \<Rightarrow>
      if \<not> ok then (False, sl)
      else let sl = sl\<lparr>sl_request_id := mrcp_request_id_parse field\<rparr>
      in case apt_text_field_read s APT_TOKEN_SP True of (ok, field, s) \<Rightarrow>
      if \<not> ok then (False, sl)
      else let sl = sl\<lparr>sl_request_state := mrcp_request_state_parse field\<rparr>;
               (ok, field, sl) =
                 (if sl_request_state sl = MRCP_REQUEST_STATE_UNKNOWN
                  then (True, field, sl\<lparr>sl_message_type := MRCP_MESSAGE_TYPE_REQUEST\<rparr>)
                  else case apt_text_field_read s APT_TOKEN_SP True of (ok, field, s) \<Rightarrow>
                         (ok, field, sl\<lparr>sl_message_type := MRCP_MESSAGE_TYPE_EVENT\<rparr>))
      in if \<not> ok then (False, sl)
         else let sl = sl\<lparr>sl_version := mrcp_version_parse field\<rparr>
              in if sl_version sl = MRCP_VERSION_UNKNOWN then (False, sl) else (True, sl))"

definition mrcp_request_line_generate ::
  "apr \<Rightarrow> mrcp_start_line \<Rightarrow> apt_text_stream \<Rightarrow> fault + bool \<times> apt_text_stream" where
  "mrcp_request_line_generate A sl s =
     sbind (ts_write_str s (sl_method_name sl)) (\<lambda>s.
     sbind (ts_write s [APT_TOKEN_SP]) (\<lambda>s.
     sbind (mrcp_request_id_generate A (sl_request_id sl) s) (\<lambda>(_, s).
     sbind (ts_write s [APT_TOKEN_SP]) (\<lambda>s.
     sbind (if sl_message_type sl = MRCP_MESSAGE_TYPE_REQUEST
            then if sl_status_code sl \<noteq> MRCP_STATUS_CODE_UNKNOWN
                 then sbind (mrcp_status_code_generate A (sl_status_code sl) s) (\<lambda>(_, s).
                      sbind (ts_write s [APT_TOKEN_SP]) (\<lambda>s. Inr (True, s)))
                 else Inr (True, s)
            else if sl_message_type sl = MRCP_MESSAGE_TYPE_EVENT
            then sbind (mrcp_request_state_generate (sl_request_state sl) s) (\<lambda>(_, s).
                 sbind (ts_write s [APT_TOKEN_SP]) (\<lambda>s. Inr (True, s)))
            else Inr (True, s)) (\<lambda>(_, s).
     sbind (mrcp_version_generate A (sl_version sl) s) (\<lambda>(_, s). Inr (True, s)))))))"

definition mrcp_response_line_parse ::
  "mrcp_start_line \<Rightarrow> apt_text_stream \<Rightarrow> bool \<times> mrcp_start_line" where
  "mrcp_response_line_parse sl s =
     (let sl = sl\<lparr>sl_length := 0\<rparr>;
          (ok, sl, s) =
            (if sl_version sl = MRCP_VERSION_2
             then case apt_text_field_read s APT_TOKEN_SP True of (ok, field, s) \<Rightarrow>
                    if \<not> ok then (False, sl, s)
                    else (True, sl\<lparr>sl_length := apt_size_value_parse field\<rparr>, s)
             else (True, sl, s))
      in if \<not> ok then (False, sl)
      else case apt_text_field_read s APT_TOKEN_SP True of (ok, field, s) \<Rightarrow>
      if \<not> ok then (False, sl)
      else let sl = sl\<lparr>sl_request_id := mrcp_request_id_parse field\<rparr>
      in case apt_text_field_read s APT_TOKEN_SP True of (ok, field, s) \<Rightarrow>
      if \<not> ok then (False, sl)
      else let sl = sl\<lparr>sl_status_code := mrcp_status_code_parse field\<rparr>
      in case apt_text_field_read s APT_TOKEN_SP True of (ok, field, s) \<Rightarrow>
      if \<not> ok then (False, sl)
      else (True, sl\<lparr>sl_request_state := mrcp_request_state_parse field\<rparr>))"

definition mrcp_response_line_generate ::
  "apr \<Rightarrow> mrcp_start_line \<Rightarrow> apt_text_stream \<Rightarrow> fault + bool \<times> apt_text_stream" where
  "mrcp_response_line_generate A sl s =
     sbind (mrcp_version_generate A (sl_version sl) s) (\<lambda>(_, s).
     sbind (ts_write s [APT_TOKEN_SP]) (\<lambda>s.
     sbind (mrcp_request_id_generate A (sl_request_id sl) s) (\<lambda>(_, s).
     sbind (ts_write s [APT_TOKEN_SP]) (\<lambda>s.
     sbind (mrcp_status_code_generate A (sl_status_code sl) s) (\<lambda>(_, s).
     sbind (ts_write s [APT_TOKEN_SP]) (\<lambda>s.
     sbind (mrcp_request_state_generate (sl_request_state sl) s) (\<lambda>(_, s). Inr (True, s))))))))"

definition mrcp_v2_start_line_parse ::
  "mrcp_start_line \<Rightarrow> apt_text_stream \<Rightarrow> bool \<times> mrcp_start_line" where
  "mrcp_v2_start_line_parse sl s =
     (case apt_text_field_read s APT_TOKEN_SP True of (ok, field, s) \<Rightarrow>
      if \<not> ok then (False, sl)
      else let sl = sl\<lparr>sl_length := apt_size_value_parse field\<rparr>
      in case apt_text_field_read s APT_TOKEN_SP True of (ok, field, s) \<Rightarrow>
      if \<not> ok then (False, sl)
      else let sl = sl\<lparr>sl_request_id := mrcp_request_id_parse field\<rparr>
      in if sl_request_id sl = 0 \<and> byte (str_mem field) \<noteq> CHR ''0''
         then let sl = sl\<lparr>sl_message_type := MRCP_MESSAGE_TYPE_REQUEST,
                          sl_method_name := apt_string_copy field\<rparr>
              in case apt_text_field_read s APT_TOKEN_SP True of (ok, field, s) \<Rightarrow>
              if \<not> ok then (False, sl)
              else let sl = sl\<lparr>sl_request_id := mrcp_request_id_parse field\<rparr>
              in case apt_text_field_read s APT_TOKEN_SP True of (ok, field, s) \<Rightarrow>
              if ok then (True, sl\<lparr>sl_request_state := mrcp_request_state_parse field,
                                   sl_message_type := MRCP_MESSAGE_TYPE_EVENT\<rparr>)
              else (True, sl)
         else let sl = sl\<lparr>sl_message_type := MRCP_MESSAGE_TYPE_RESPONSE\<rparr>
              in case apt_text_field_read s APT_TOKEN_SP True of (ok, field, s) \<Rightarrow>
              if \<not> ok then (False, sl)
              else let sl = sl\<lparr>sl_status_code := mrcp_status_code_parse field\<rparr>
              in case apt_text_field_read s APT_TOKEN_SP True of (ok, field, s) \<Rightarrow>
              if \<not> ok then (False, sl)
              else (True, sl\<lparr>sl_request_state := mrcp_request_state_parse field\<rparr>))"

text \<open>
  The fields behind the space reserved for the length, and the whole line. The length field of
  the structure temporarily stores the offset of the reserved space.
\<close>

definition v2_fields_generate ::
  "apr \<Rightarrow> mrcp_start_line \<Rightarrow> apt_text_stream \<Rightarrow> fault + bool \<times> apt_text_stream" where
  "v2_fields_generate A sl s =
     (if sl_message_type sl = MRCP_MESSAGE_TYPE_RESPONSE
      then sbind (mrcp_request_id_generate A (sl_request_id sl) s) (\<lambda>(_, s).
           sbind (ts_write s [APT_TOKEN_SP]) (\<lambda>s.
           sbind (mrcp_status_code_generate A (sl_status_code sl) s) (\<lambda>(_, s).
           sbind (ts_write s [APT_TOKEN_SP]) (\<lambda>s.
           sbind (mrcp_request_state_generate (sl_request_state sl) s) (\<lambda>(_, s). Inr (True, s))))))
      else sbind (ts_write_str s (sl_method_name sl)) (\<lambda>s.
           sbind (ts_write s [APT_TOKEN_SP]) (\<lambda>s.
           sbind (mrcp_request_id_generate A (sl_request_id sl) s) (\<lambda>(_, s).
           if sl_message_type sl = MRCP_MESSAGE_TYPE_EVENT
           then sbind (ts_write s [APT_TOKEN_SP]) (\<lambda>s.
                sbind (mrcp_request_state_generate (sl_request_state sl) s) (\<lambda>(_, s). Inr (True, s)))
           else Inr (True, s)))))"

definition mrcp_v2_start_line_generate ::
  "apr \<Rightarrow> mrcp_start_line \<Rightarrow> apt_text_stream \<Rightarrow> fault + (bool \<times> mrcp_start_line \<times> apt_text_stream)" where
  "mrcp_v2_start_line_generate A sl s0 =
     sbind (mrcp_version_generate A (sl_version sl) s0) (\<lambda>(_, s).
     sbind (ts_write s [APT_TOKEN_SP]) (\<lambda>s.
     let sl' = sl\<lparr>sl_length := of_nat (ts_pos s - ts_pos s0)\<rparr>
     in sbind (ts_write s (replicate (MAX_DIGIT_COUNT + 1) APT_TOKEN_SP)) (\<lambda>s.
        sbind (v2_fields_generate A sl s) (\<lambda>(ok, s). Inr (ok, sl', s)))))"

definition mrcp_start_line_parse :: "mrcp_start_line \<Rightarrow> apt_str \<Rightarrow> bool \<times> mrcp_start_line" where
  "mrcp_start_line_parse sl str =
     (let sl = sl\<lparr>sl_message_type := MRCP_MESSAGE_TYPE_UNKNOWN\<rparr>
      in case apt_text_field_read (stream_of_str str) APT_TOKEN_SP True of (ok, field, s) \<Rightarrow>
      if \<not> ok then (False, sl)
      else if take (length MRCP_NAME) (str_mem field) = MRCP_NAME
      then let sl = sl\<lparr>sl_version := mrcp_version_parse field\<rparr>
           in if sl_version sl = MRCP_VERSION_1
              then mrcp_response_line_parse (sl\<lparr>sl_message_type := MRCP_MESSAGE_TYPE_RESPONSE\<rparr>) s
              else if sl_version sl = MRCP_VERSION_2 then mrcp_v2_start_line_parse sl s
              else (False, sl)
      else mrcp_request_line_parse (sl\<lparr>sl_method_name := apt_string_copy field\<rparr>) s)"

definition mrcp_start_line_generate ::
  "apr \<Rightarrow> mrcp_start_line \<Rightarrow> apt_text_stream \<Rightarrow> fault + (bool \<times> mrcp_start_line \<times> apt_text_stream)" where
  "mrcp_start_line_generate A sl s =
     sbind (if sl_version sl = MRCP_VERSION_1
            then (case sl_message_type sl of
                    MRCP_MESSAGE_TYPE_REQUEST \<Rightarrow>
                      sbind (mrcp_request_line_generate A sl s) (\<lambda>(ok, s). Inr (ok, sl, s))
                  | MRCP_MESSAGE_TYPE_RESPONSE \<Rightarrow>
                      sbind (mrcp_response_line_generate A sl s) (\<lambda>(ok, s). Inr (ok, sl, s))
                  | MRCP_MESSAGE_TYPE_EVENT \<Rightarrow>
                      sbind (mrcp_request_line_generate A sl s) (\<lambda>(ok, s). Inr (ok, sl, s))
                  | MRCP_MESSAGE_TYPE_UNKNOWN \<Rightarrow> Inr (False, sl, s))
            else if sl_version sl = MRCP_VERSION_2 then mrcp_v2_start_line_generate A sl s
            else Inr (False, sl, s)) (\<lambda>(status, sl, s).
     if \<not> status then Inr (False, sl, s)
     else sbind (apt_text_eol_insert s) (\<lambda>(ok, s). Inr (ok, sl, s)))"

definition mrcp_start_line_finalize ::
  "mrcp_start_line \<Rightarrow> nat \<Rightarrow> apt_text_stream \<Rightarrow> fault + (bool \<times> mrcp_start_line \<times> apt_text_stream)" where
  "mrcp_start_line_finalize sl content_length s =
     (let len = of_nat (ts_pos s - ts_buf s + content_length)
      in if sl_version sl = MRCP_VERSION_2
         then let field = ts_buf s + unat (sl_length sl)
              in case apt_var_length_value_generate (len - of_nat MAX_DIGIT_COUNT) MAX_DIGIT_COUNT of
                   (len, None) \<Rightarrow> Inr (False, sl, s)
                 | (len, Some printed) \<Rightarrow>
                     let n = length printed - 1
                     in sbind (mem_write field printed (ts_mem s)) (\<lambda>m.
                        sbind (mem_write (field + n) [APT_TOKEN_SP] m) (\<lambda>m.
                        let off = unat (sl_length sl + of_nat n); k = MAX_DIGIT_COUNT - n
                        in if k \<noteq> 0
                           then sbind (mem_write (ts_buf s + k) (take off (drop (ts_buf s) m)) m) (\<lambda>m.
                                  Inr (True, sl\<lparr>sl_length := len\<rparr>,
                                       s\<lparr>ts_mem := m, ts_buf := ts_buf s + k, ts_length := ts_length s - k\<rparr>))
                           else Inr (True, sl\<lparr>sl_length := len\<rparr>, s\<lparr>ts_mem := m\<rparr>)))
         else Inr (True, sl\<lparr>sl_length := len\<rparr>, s))"

section \<open>Fields at the position of a stream\<close>

text \<open>
  The unread bytes are a text, and what follows it in memory; numbers are parsed from the
  memory and not from the bytes of their field, so what follows matters.
\<close>

definition ts_at :: "apt_text_stream \<Rightarrow> char list \<Rightarrow> char list \<Rightarrow> bool" where
  "ts_at s text tail \<longleftrightarrow>
     ts_wf s \<and> ts_rest s = text \<and> drop (ts_pos s) (ts_mem s) = text @ tail"

lemma field_at:
  assumes "ts_at s (f @ r) tail" and "f \<noteq> []" and "sep \<notin> set f" and "r = [] \<or> hd r = sep" and "hd f \<noteq> APT_TOKEN_SP"
  shows "\<exists>str s'. apt_text_field_read s sep True = (True, str, s') \<and>
    str_bytes str = f \<and> str_wf str \<and> str_length str = length f \<and>
    str_buf str = Some (f @ r @ tail) \<and> ts_at s' (drop 1 r) tail"
proof -
  have a: "ts_wf s" "ts_rest s = f @ r" "drop (ts_pos s) (ts_mem s) = f @ r @ tail"
    using assms(1) by (auto simp: ts_at_def)
  have h: "True \<longrightarrow> f @ r = [] \<or> hd (f @ r) \<noteq> APT_TOKEN_SP"
    using assms(2,5) by (cases f) auto
  let ?s = "s\<lparr>ts_pos := ts_pos s + length f + (if r = [] then 0 else 1)\<rparr>"
  have eq: "apt_text_field_read s sep True = (True, ts_str s (ts_pos s) (length f), ?s)"
    using field_read_eq [OF a(1,2) assms(3,4) h] assms(2) by simp
  moreover obtain str where "ts_rest ?s = drop 1 r" "ts_wf ?s"
    using field_read_field [OF a(1,2) assms(3,4) h] eq by auto
  moreover have "drop (ts_pos ?s) (ts_mem s) = drop (length f + (if r = [] then 0 else 1)) (f @ r @ tail)"
    by (simp add: a(3) [symmetric] add.commute add.left_commute)
  then have "drop (ts_pos ?s) (ts_mem ?s) = drop 1 r @ tail"
    by (cases r) auto
  ultimately show ?thesis
    using a(3) by (simp add: ts_str_def str_bytes_def str_mem_def str_wf_def ts_at_def)
qed

lemma field_at_some:
  assumes "ts_at s (f @ r) tail" and "f \<noteq> []" and "APT_TOKEN_SP \<notin> set f"
    and "r = [] \<or> hd r = APT_TOKEN_SP"
  shows "\<exists>str s'. apt_text_field_read s APT_TOKEN_SP True = (True, str, s') \<and>
    str_bytes str = f \<and> str_wf str \<and> str_length str = length f \<and>
    str_buf str = Some (f @ r @ tail) \<and> ts_at s' (drop 1 r) tail"
  by (rule field_at [OF assms]) (use assms(2,3) in \<open>cases f; auto\<close>)

lemma field_at_none:
  assumes "ts_at s [] tail"
  shows "\<exists>str. apt_text_field_read s sep True = (False, str, s)"
proof -
  have a: "ts_wf s" "ts_rest s = [] @ []" using assms by (auto simp: ts_at_def)
  show ?thesis using field_read_eq [OF a, of sep True] by simp
qed

section \<open>Values of the fields\<close>

lemma request_id_parse_text:
  assumes "str_buf f = Some (dec_int (sint rid) @ r)" and "\<not> isdigit (byte r)"
  shows "mrcp_request_id_parse f = rid"
proof -
  have "- (2 ^ 63) \<le> sint rid" "sint rid < 2 ^ 63"
    using sint_greater_eq [of rid] sint_less [of rid] by simp_all
  then have "atol (dec_int (sint rid) @ r) = sint rid" using assms(2) by (intro atol_dec_int) auto
  then show ?thesis using assms(1) by (simp add: mrcp_request_id_parse_def)
qed

lemma size_value_parse_text:
  assumes "str_buf f = Some (dec n @ r)" and "\<not> isdigit (byte r)" and "n < 2 ^ 63"
  shows "apt_size_value_parse f = of_nat n"
proof -
  have "int n < 2 ^ 63" using assms(3) by (metis of_nat_less_iff of_nat_numeral of_nat_power)
  then have "atol (dec n @ r) = int n" using assms(2) by (intro atol_dec)
  then show ?thesis using assms(1) by (simp add: apt_size_value_parse_def)
qed

lemma status_code_parse_text:
  fixes code :: status_code
  assumes "str_buf f = Some (dec (unat code) @ r)" and "\<not> isdigit (byte r)"
  shows "mrcp_status_code_parse f = code"
proof -
  have "unat code < 2 ^ LENGTH(32)" by (rule unsigned_less)
  then have "unat code < 2 ^ 63" by simp
  from size_value_parse_text [OF assms this] show ?thesis
    by (simp add: mrcp_status_code_parse_def unsigned_ucast_eq take_bit_word_eq_self)
qed

interpretation request_states: string_table mrcp_request_state_string_table MRCP_REQUEST_STATE_COUNT
  by unfold_locales
    (simp_all add: mrcp_request_state_string_table_def table_item_def item_ok_def item_fold_def str_wf_def
      str_bytes_def tolower_def)

fun state_text :: "mrcp_request_state \<Rightarrow> char list" where
  "state_text MRCP_REQUEST_STATE_COMPLETE = ''COMPLETE''"
| "state_text MRCP_REQUEST_STATE_INPROGRESS = ''IN-PROGRESS''"
| "state_text MRCP_REQUEST_STATE_PENDING = ''PENDING''"
| "state_text MRCP_REQUEST_STATE_UNKNOWN = []"

lemma state_name:
  assumes "st \<noteq> MRCP_REQUEST_STATE_UNKNOWN"
  obtains name where
    "apt_string_table_str_get mrcp_request_state_string_table MRCP_REQUEST_STATE_COUNT
       (request_state_num st) = Some name"
    and "str_bytes name = state_text st" and "str_wf name"
  using assms that
  by (cases st) (simp_all add: apt_string_table_str_get_def mrcp_request_state_string_table_def
      table_item_def str_bytes_def str_wf_def)

lemma request_state_of_num [simp]: "request_state_of (request_state_num st) = st"
  by (cases st) (simp_all add: request_state_of_def)

lemma request_state_parse_text:
  assumes "st \<noteq> MRCP_REQUEST_STATE_UNKNOWN" and "str_bytes f = state_text st" and "str_wf f"
  shows "mrcp_request_state_parse f = st"
proof -
  have "request_state_num st < 3" using assms(1) by (cases st) simp_all
  moreover have "NUL \<notin> set (str_bytes f)" using assms(1,2) by (cases st) simp_all
  moreover have "item_fold (mrcp_request_state_string_table ! request_state_num st) = map tolower (str_bytes f)"
    using assms(1,2)
    by (cases st) (simp_all add: mrcp_request_state_string_table_def table_item_def item_fold_def str_bytes_def)
  ultimately have "apt_string_table_id_find mrcp_request_state_string_table 3 f = request_state_num st"
    using assms(3) by (intro request_states.id_find_eq)
  then show ?thesis by (simp add: mrcp_request_state_parse_def)
qed

lemma request_state_parse_unknown:
  assumes "str_wf f" and "NUL \<notin> set (str_bytes f)"
    and "\<forall>st. st \<noteq> MRCP_REQUEST_STATE_UNKNOWN \<longrightarrow> map tolower (state_text st) \<noteq> map tolower (str_bytes f)"
  shows "mrcp_request_state_parse f = MRCP_REQUEST_STATE_UNKNOWN"
proof -
  have "item_fold (mrcp_request_state_string_table ! i) \<noteq> map tolower (str_bytes f)" if "i < 3" for i
  proof -
    have "\<exists>st. st \<noteq> MRCP_REQUEST_STATE_UNKNOWN \<and>
        item_fold (mrcp_request_state_string_table ! i) = map tolower (state_text st)"
      using that
      by (auto simp: mrcp_request_state_string_table_def table_item_def item_fold_def str_bytes_def
          numeral_3_eq_3 less_Suc_eq intro: exI [of _ MRCP_REQUEST_STATE_COMPLETE]
          exI [of _ MRCP_REQUEST_STATE_INPROGRESS] exI [of _ MRCP_REQUEST_STATE_PENDING])
    then show ?thesis using assms(3) by metis
  qed
  then have "apt_string_table_id_find mrcp_request_state_string_table 3 f = 3"
    using request_states.id_find_unknown [OF assms(1,2)] by blast
  then show ?thesis by (simp add: mrcp_request_state_parse_def request_state_of_def)
qed

definition version_text :: "mrcp_version \<Rightarrow> char list" where
  "version_text v = ''MRCP/'' @ dec (version_num v) @ ''.0''"

lemma version_text_simps [simp]:
  "version_text MRCP_VERSION_1 = ''MRCP/1.0''"
  "version_text MRCP_VERSION_2 = ''MRCP/2.0''"
  by code_simp+

lemma version_parse_text:
  assumes "v \<noteq> MRCP_VERSION_UNKNOWN" and "str_length f = 8" and "str_buf f = Some (version_text v @ r)"
  shows "mrcp_version_parse f = v"
  using assms
  by (cases v) (simp_all add: mrcp_version_parse_def str_mem_def MRCP_NAME_def byte_def numeral_eq_Suc)

section \<open>What the generators write\<close>

lemma gen_ok_version [gen_intros]:
  assumes "apr_ok A" shows "gen_ok (mrcp_version_generate A v) (version_text v)"
  unfolding gen_ok_def
proof (intro allI impI)
  fix s assume room: "ts_room s (length (version_text v))"
  have d: "dec_int (uint (of_nat (version_num v) :: 64 word)) = dec (version_num v)"
    by (cases v) (simp_all add: dec_int_def)
  have len: "length (version_text v) = 8" by (cases v) (simp_all, code_simp)
  have "ts_room s (length (MRCP_NAME @ [CHR ''/'']))"
    by (rule ts_room_mono [OF room]) (simp add: len MRCP_NAME_def)
  from ts_write_room [OF this] obtain s1 where
    s1: "ts_write s (MRCP_NAME @ [CHR ''/'']) = Inr s1" "ts_wrote s (MRCP_NAME @ [CHR ''/'']) s1" by blast
  have "ts_room s1 (length (dec (version_num v)) + 2)"
    using room len by (simp add: ts_room_wrote [OF s1(2)] MRCP_NAME_def version_text_def)
  then have r1: "ts_room s1 (length (dec_int (uint (of_nat (version_num v) :: 64 word))))" and
    r2: "ts_room s1 (length (dec (version_num v)) + 2)"
    unfolding d by (auto intro: ts_room_mono)
  from int_insert_room [OF assms r1] obtain s2 where
    s2: "apt_text_int_insert A s1 (uint (of_nat (version_num v) :: 64 word)) = Inr (True, s2)"
      "ts_wrote s1 (dec (version_num v)) s2" unfolding d by blast
  have r3: "ts_room s2 (length ''.0'')" using r2 by (simp add: ts_room_wrote [OF s2(2)])
  from ts_write_room [OF r3] obtain s3 where s3: "ts_write s2 ''.0'' = Inr s3" "ts_wrote s2 ''.0'' s3" by blast
  have "ts_wrote s (version_text v) s3"
    using ts_wrote_trans [OF ts_wrote_trans [OF s1(2) s2(2)] s3(2)] by (simp add: version_text_def MRCP_NAME_def)
  moreover have "mrcp_version_generate A v s = Inr (True, s3)"
    using s1(1) s2(1) s3(1) ts_roomD [OF room] ts_roomD [OF r3] len
    by (simp add: mrcp_version_generate_def apt_text_size_value_insert_def MRCP_NAME_def)
  ultimately show "\<exists>s'. mrcp_version_generate A v s = Inr (True, s') \<and> ts_wrote s (version_text v) s'"
    by blast
qed

lemma gen_ok_state [gen_intros]: "gen_ok (mrcp_request_state_generate st) (state_text st)"
proof (cases "st = MRCP_REQUEST_STATE_UNKNOWN")
  case True
  then show ?thesis
    using gen_ok_done by (simp add: mrcp_request_state_generate_def [abs_def] apt_string_table_str_get_def)
next
  case False
  then obtain name where "apt_string_table_str_get mrcp_request_state_string_table MRCP_REQUEST_STATE_COUNT
       (request_state_num st) = Some name" "str_bytes name = state_text st" "str_wf name"
    by (rule state_name)
  then show ?thesis
    using gen_ok_write_str [OF _ gen_ok_done, of name]
    by (simp add: mrcp_request_state_generate_def [abs_def])
qed

lemma gen_ok_status [gen_intros]:
  assumes "apr_ok A" shows "gen_ok (mrcp_status_code_generate A code) (dec (unat code))"
proof -
  have "uint code < 2 ^ LENGTH(32)" by (rule unsigned_less)
  then have "uint (ucast code :: 64 word) = uint code"
    by (simp add: unsigned_ucast_eq take_bit_int_eq_self)
  then show ?thesis
    using gen_ok_int [OF assms, of "uint code"]
    by (simp add: mrcp_status_code_generate_def [abs_def] apt_text_size_value_insert_def dec_int_def)
qed

lemma gen_ok_id [gen_intros]:
  "apr_ok A \<Longrightarrow> gen_ok (mrcp_request_id_generate A rid) (dec_int (sint rid))"
  using gen_ok_int by (simp add: mrcp_request_id_generate_def [abs_def])

text \<open>The texts of the lines; \<open>n\<close> is the message length of MRCPv2.\<close>

definition id_text :: "mrcp_start_line \<Rightarrow> char list" where
  "id_text sl = dec_int (sint (sl_request_id sl))"

definition v2_tail :: "mrcp_start_line \<Rightarrow> char list" where
  "v2_tail sl =
     (if sl_message_type sl = MRCP_MESSAGE_TYPE_RESPONSE
      then id_text sl @ [APT_TOKEN_SP] @ dec (unat (sl_status_code sl)) @ [APT_TOKEN_SP] @
           state_text (sl_request_state sl)
      else str_bytes (sl_method_name sl) @ [APT_TOKEN_SP] @ id_text sl @
           (if sl_message_type sl = MRCP_MESSAGE_TYPE_EVENT
            then [APT_TOKEN_SP] @ state_text (sl_request_state sl) else []))"

definition v1_line :: "mrcp_start_line \<Rightarrow> char list" where
  "v1_line sl =
     (if sl_message_type sl = MRCP_MESSAGE_TYPE_RESPONSE
      then version_text (sl_version sl) @ [APT_TOKEN_SP] @ id_text sl @ [APT_TOKEN_SP] @
           dec (unat (sl_status_code sl)) @ [APT_TOKEN_SP] @ state_text (sl_request_state sl)
      else str_bytes (sl_method_name sl) @ [APT_TOKEN_SP] @ id_text sl @ [APT_TOKEN_SP] @
           (if sl_message_type sl = MRCP_MESSAGE_TYPE_EVENT
            then state_text (sl_request_state sl) @ [APT_TOKEN_SP] else []) @
           version_text (sl_version sl))"

lemma gen_ok_response_line:
  assumes "apr_ok A" and "sl_message_type sl = MRCP_MESSAGE_TYPE_RESPONSE"
  shows "gen_ok (mrcp_response_line_generate A sl) (v1_line sl)"
proof -
  have "gen_ok (mrcp_response_line_generate A sl)
    (version_text (sl_version sl) @ [APT_TOKEN_SP] @ dec_int (sint (sl_request_id sl)) @ [APT_TOKEN_SP] @
     dec (unat (sl_status_code sl)) @ [APT_TOKEN_SP] @ state_text (sl_request_state sl) @ [])"
    unfolding mrcp_response_line_generate_def by (intro gen_intros assms(1))
  then show ?thesis using assms(2) by (simp add: v1_line_def id_text_def)
qed

lemma gen_ok_request_line:
  assumes "apr_ok A" and "str_wf (sl_method_name sl)"
    and "sl_message_type sl = MRCP_MESSAGE_TYPE_REQUEST \<and> sl_status_code sl = MRCP_STATUS_CODE_UNKNOWN \<or>
      sl_message_type sl = MRCP_MESSAGE_TYPE_EVENT"
  shows "gen_ok (mrcp_request_line_generate A sl) (v1_line sl)"
proof -
  let ?mid = "if sl_message_type sl = MRCP_MESSAGE_TYPE_EVENT
      then state_text (sl_request_state sl) @ [APT_TOKEN_SP] @ [] else []"
  have mid: "gen_ok (\<lambda>s. if sl_message_type sl = MRCP_MESSAGE_TYPE_REQUEST
            then if sl_status_code sl \<noteq> MRCP_STATUS_CODE_UNKNOWN
                 then sbind (mrcp_status_code_generate A (sl_status_code sl) s) (\<lambda>(_, s).
                      sbind (ts_write s [APT_TOKEN_SP]) (\<lambda>s. Inr (True, s)))
                 else Inr (True, s)
            else if sl_message_type sl = MRCP_MESSAGE_TYPE_EVENT
            then sbind (mrcp_request_state_generate (sl_request_state sl) s) (\<lambda>(_, s).
                 sbind (ts_write s [APT_TOKEN_SP]) (\<lambda>s. Inr (True, s)))
            else Inr (True, s)) ?mid"
    using assms(3) gen_ok_done gen_ok_seq [OF gen_ok_state gen_ok_write [OF gen_ok_done]] by auto
  have "gen_ok (mrcp_request_line_generate A sl)
    (str_bytes (sl_method_name sl) @ [APT_TOKEN_SP] @ dec_int (sint (sl_request_id sl)) @ [APT_TOKEN_SP] @
     ?mid @ version_text (sl_version sl) @ [])"
    unfolding mrcp_request_line_generate_def by (intro gen_intros assms(1,2) mid)
  then show ?thesis using assms(3) by (auto simp: v1_line_def id_text_def)
qed

definition v2_reserved :: "mrcp_start_line \<Rightarrow> char list" where
  "v2_reserved sl =
     version_text MRCP_VERSION_2 @ [APT_TOKEN_SP] @ replicate (MAX_DIGIT_COUNT + 1) APT_TOKEN_SP @ v2_tail sl"

lemma gen_ok_v2_fields:
  assumes "apr_ok A" and "sl_message_type sl = MRCP_MESSAGE_TYPE_RESPONSE \<or> str_wf (sl_method_name sl)"
  shows "gen_ok (v2_fields_generate A sl) (v2_tail sl)"
proof (cases "sl_message_type sl = MRCP_MESSAGE_TYPE_RESPONSE")
  case True
  have "gen_ok (v2_fields_generate A sl) (dec_int (sint (sl_request_id sl)) @ [APT_TOKEN_SP] @
      dec (unat (sl_status_code sl)) @ [APT_TOKEN_SP] @ state_text (sl_request_state sl) @ [])"
    unfolding v2_fields_generate_def if_P [OF True] by (intro gen_intros assms(1))
  then show ?thesis using True by (simp add: v2_tail_def id_text_def)
next
  case False
  have ev: "gen_ok (\<lambda>s. if sl_message_type sl = MRCP_MESSAGE_TYPE_EVENT
               then sbind (ts_write s [APT_TOKEN_SP]) (\<lambda>s.
                    sbind (mrcp_request_state_generate (sl_request_state sl) s) (\<lambda>(_, s). Inr (True, s)))
               else Inr (True, s))
     (if sl_message_type sl = MRCP_MESSAGE_TYPE_EVENT
      then [APT_TOKEN_SP] @ state_text (sl_request_state sl) @ [] else [])"
    using gen_ok_done
      gen_ok_write [OF gen_ok_seq [OF gen_ok_state gen_ok_done], of "[APT_TOKEN_SP]" "sl_request_state sl"]
    by auto
  have "gen_ok (v2_fields_generate A sl) (str_bytes (sl_method_name sl) @ [APT_TOKEN_SP] @
      dec_int (sint (sl_request_id sl)) @ (if sl_message_type sl = MRCP_MESSAGE_TYPE_EVENT
        then [APT_TOKEN_SP] @ state_text (sl_request_state sl) @ [] else []))"
    unfolding v2_fields_generate_def if_not_P [OF False]
    using assms(2) False by (intro gen_intros assms(1) ev) auto
  then show ?thesis using False by (auto simp: v2_tail_def id_text_def split: if_splits)
qed

lemma v2_generate_room:
  assumes "apr_ok A" and "sl_version sl = MRCP_VERSION_2"
    and "sl_message_type sl = MRCP_MESSAGE_TYPE_RESPONSE \<or> str_wf (sl_method_name sl)"
    and "ts_room s (length (v2_reserved sl))"
  shows "\<exists>s'. mrcp_v2_start_line_generate A sl s = Inr (True, sl\<lparr>sl_length := 9\<rparr>, s') \<and>
    ts_wrote s (v2_reserved sl) s'"
proof -
  let ?sp = "replicate (MAX_DIGIT_COUNT + 1) APT_TOKEN_SP"
  have "ts_room s (length (version_text MRCP_VERSION_2))"
    by (rule ts_room_mono [OF assms(4)]) (simp add: v2_reserved_def)
  with gen_okD [OF gen_ok_version [OF assms(1)]] obtain s1 where
    s1: "mrcp_version_generate A MRCP_VERSION_2 s = Inr (True, s1)" "ts_wrote s (version_text MRCP_VERSION_2) s1"
    by blast
  then have r1: "ts_room s1 (length ([APT_TOKEN_SP] @ ?sp @ v2_tail sl))"
    using assms(4) by (simp add: ts_room_wrote [OF s1(2)] v2_reserved_def)
  then have "ts_room s1 (length [APT_TOKEN_SP])" by (rule ts_room_mono) simp
  from ts_write_room [OF this] obtain s2 where
    s2: "ts_write s1 [APT_TOKEN_SP] = Inr s2" "ts_wrote s1 [APT_TOKEN_SP] s2" by blast
  have w2: "ts_wrote s (version_text MRCP_VERSION_2 @ [APT_TOKEN_SP]) s2" by (rule ts_wrote_trans [OF s1(2) s2(2)])
  have r2: "ts_room s2 (length ?sp + length (v2_tail sl))"
    using r1 by (simp add: ts_room_wrote [OF s2(2)] del: replicate_Suc)
  then have "ts_room s2 (length ?sp)" by (rule ts_room_mono) simp
  from ts_write_room [OF this] obtain s3 where s3: "ts_write s2 ?sp = Inr s3" "ts_wrote s2 ?sp s3" by blast
  have "ts_room s3 (length (v2_tail sl))" using r2 by (simp add: ts_room_wrote [OF s3(2)])
  with gen_okD [OF gen_ok_v2_fields [OF assms(1,3)]] obtain s4 where
    s4: "v2_fields_generate A sl s3 = Inr (True, s4)" "ts_wrote s3 (v2_tail sl) s4" by blast
  have "ts_pos s2 - ts_pos s = 9" using ts_wroteD(1) [OF w2] by simp
  then have "mrcp_v2_start_line_generate A sl s = Inr (True, sl\<lparr>sl_length := 9\<rparr>, s4)"
    using s1(1) s2(1) s3(1) s4(1) assms(2) by (simp add: mrcp_v2_start_line_generate_def Let_def del: replicate_Suc)
  moreover have "ts_wrote s (v2_reserved sl) s4"
    using ts_wrote_trans [OF ts_wrote_trans [OF w2 s3(2)] s4(2)] by (simp add: v2_reserved_def)
  ultimately show ?thesis by blast
qed

text \<open>
  Finalizing fills in the length: the reserved space shrinks to the digits that are needed, by
  moving the beginning of the message forward, and the number is the length of what results
  plus the length of the body.
\<close>

lemma var_length_six:
  assumes "v < 999994"
  obtains c where "c = length (dec (v + c))" and "c \<le> 6"
    and "apt_var_length_value_generate (of_nat v) 6 = (of_nat (v + c), Some (dec (v + c) @ [NUL]))"
proof -
  let ?m = "length (dec v)"
  define c where "c = (if v \<ge> 10 ^ ?m - ?m then ?m + 1 else ?m)"
  have u: "unat (of_nat v :: 64 word) = v" using assms by (simp add: unat_of_nat)
  have m: "?m \<le> 6" using length_dec_le [of 6 v] assms by simp
  have "c \<le> 6"
  proof (cases "?m = 6")
    case True
    then show ?thesis using assms by (simp add: c_def)
  next
    case False
    then show ?thesis using m by (simp add: c_def)
  qed
  moreover have "c = length (dec (v + c))" using var_length_fixpoint [of v] by (simp add: c_def)
  moreover have "apt_var_length_value_generate (of_nat v) 6 =
      (of_nat v + of_nat c, if c > 6 then None else Some (dec (v + c) @ [NUL]))"
    using var_length_value_generate_eq(1) [of "of_nat v" 6] assms unfolding u c_def by simp
  ultimately show thesis using that [of c] by simp
qed

lemma finalize_v2:
  assumes "sl_version sl = MRCP_VERSION_2" and "sl_length sl = 9"
    and mem: "ts_mem s = xs @ (version_text MRCP_VERSION_2 @ [APT_TOKEN_SP]) @
        replicate (MAX_DIGIT_COUNT + 1) APT_TOKEN_SP @ r @ zs"
    and buf: "ts_buf s = length xs" and pos: "ts_pos s = length xs + 16 + length r"
    and small: "10 + length r + content < 999994"
  shows "\<exists>n s'. mrcp_start_line_finalize sl content s = Inr (True, sl\<lparr>sl_length := of_nat n\<rparr>, s') \<and>
    n = ts_pos s' - ts_buf s' + content \<and> n < 10 ^ 6 \<and>
    ts_pos s' = ts_pos s \<and> ts_end s' = ts_end s \<and> ts_buf s \<le> ts_buf s' \<and> ts_buf s' \<le> ts_pos s' \<and>
    ts_length s' = ts_length s - (ts_buf s' - ts_buf s) \<and> length (ts_mem s') = length (ts_mem s) \<and>
    drop (ts_buf s') (ts_mem s') =
      version_text MRCP_VERSION_2 @ [APT_TOKEN_SP] @ dec n @ [APT_TOKEN_SP] @ r @ zs"
proof -
  let ?v = "10 + length r + content"
  define head where "head = version_text MRCP_VERSION_2 @ [APT_TOKEN_SP]"
  have hl: "length head = 9" by (simp add: head_def)
  obtain c where c: "c = length (dec (?v + c))" "c \<le> 6"
    "apt_var_length_value_generate (of_nat ?v) 6 = (of_nat (?v + c), Some (dec (?v + c) @ [NUL]))"
    using var_length_six [OF small] by blast
  define n where "n = ?v + c"
  define d where "d = dec n"
  define k where "k = 6 - c"
  have dl: "length d = c" using c(1) by (simp add: d_def n_def)
  have len: "of_nat (ts_pos s - ts_buf s + content) - of_nat MAX_DIGIT_COUNT = (of_nat ?v :: 64 word)"
    using buf pos by simp
  have sp: "replicate (MAX_DIGIT_COUNT + 1) APT_TOKEN_SP = replicate (c + 1) APT_TOKEN_SP @ replicate k APT_TOKEN_SP"
    unfolding replicate_add [symmetric] using c(2) by (simp add: k_def)
  define t where "t = replicate k APT_TOKEN_SP @ r @ zs"
  have mem': "ts_mem s = (xs @ head) @ replicate (c + 1) APT_TOKEN_SP @ t"
    unfolding mem sp by (simp add: t_def head_def)
  have w1: "mem_write (ts_buf s + 9) (d @ [NUL]) (ts_mem s) = Inr ((xs @ head) @ (d @ [NUL]) @ t)"
    unfolding mem' by (rule mem_write_mid) (simp_all add: buf hl dl)
  have "(xs @ head) @ (d @ [NUL]) @ t = (xs @ head @ d) @ [NUL] @ t" by simp
  then have w2: "mem_write (ts_buf s + 9 + c) [APT_TOKEN_SP] ((xs @ head) @ (d @ [NUL]) @ t) =
      Inr ((xs @ head @ d) @ [APT_TOKEN_SP] @ t)"
    using mem_write_mid [of "ts_buf s + 9 + c" "xs @ head @ d" "[APT_TOKEN_SP]" "[NUL]" t]
    by (simp add: buf hl dl)
  let ?m2 = "(xs @ head @ d) @ [APT_TOKEN_SP] @ t"
  define hd where "hd = head @ d"
  have hdl: "length hd = 9 + c" by (simp add: hd_def hl dl)
  have "?m2 = xs @ hd @ [APT_TOKEN_SP] @ t" by (simp add: hd_def)
  also have "\<dots> = xs @ (take k hd @ drop k hd) @ [APT_TOKEN_SP] @ t"
    by (simp only: append_take_drop_id)
  also have "\<dots> = (xs @ take k hd) @ (drop k hd @ replicate k APT_TOKEN_SP) @ [APT_TOKEN_SP] @ r @ zs"
    by (simp add: t_def replicate_app_Cons_same del: append_take_drop_id)
  finally have m2: "?m2 = (xs @ take k hd) @ (drop k hd @ replicate k APT_TOKEN_SP) @ [APT_TOKEN_SP] @ r @ zs" .
  let ?m3 = "(xs @ take k hd) @ hd @ [APT_TOKEN_SP] @ r @ zs"
  have kl: "k \<le> 9" using c(2) by (simp add: k_def)
  have w3: "mem_write (ts_buf s + k) hd ?m2 = Inr ?m3"
    unfolding m2 by (rule mem_write_mid) (use kl hdl buf in simp_all)
  have off: "unat (sl_length sl + of_nat c) = 9 + c"
  proof -
    have "sl_length sl + of_nat c = of_nat (9 + c)" using assms(2) by simp
    then show ?thesis using c(2) by (simp only: unat_of_nat) simp
  qed
  have tk: "take (9 + c) (drop (ts_buf s) ?m2) = hd" using buf hl dl by (simp add: hd_def)
  have o: "unat (sl_length sl) = 9" using assms(2) by simp
  let ?s = "s\<lparr>ts_mem := ?m3, ts_buf := ts_buf s + k, ts_length := ts_length s - k\<rparr>"
  have fin: "mrcp_start_line_finalize sl content s = Inr (True, sl\<lparr>sl_length := of_nat n\<rparr>, ?s)"
  proof (cases "k = 0")
    case True
    then have "?m3 = ?m2" by (simp add: t_def hd_def)
    then show ?thesis
      using w1 w2 True c(3) dl
      unfolding mrcp_start_line_finalize_def len o Let_def n_def [symmetric] d_def [symmetric] k_def
      by (simp add: assms(1))
  next
    case False
    then show ?thesis
      using w1 w2 w3 c(3) dl off tk
      unfolding mrcp_start_line_finalize_def len o Let_def n_def [symmetric] d_def [symmetric] k_def
      by (simp add: assms(1))
  qed
  have "n = ts_pos s - (ts_buf s + k) + content"
    using c(2) buf pos by (simp add: n_def k_def)
  moreover have "n < 10 ^ 6" using small c(2) by (simp add: n_def)
  moreover have "length ?m3 = length (ts_mem s)"
    using hdl kl c(2) by (simp add: mem' t_def hl k_def)
  moreover have "drop (ts_buf s + k) ?m3 =
      version_text MRCP_VERSION_2 @ [APT_TOKEN_SP] @ dec n @ [APT_TOKEN_SP] @ r @ zs"
    using kl hdl buf by (simp add: hd_def head_def d_def)
  moreover have "ts_buf s + k \<le> ts_pos s" using kl buf pos by simp
  ultimately show ?thesis
    by (intro exI [of _ n] exI [of _ ?s] conjI fin) simp_all
qed

section \<open>Reading back start lines\<close>

text \<open>
  Method names that the parsers can tell from a request identifier and from a version: they
  start with a letter or another character that is not part of a number.
\<close>

definition method_ok :: "char list \<Rightarrow> bool" where
  "method_ok m \<longleftrightarrow>
     m \<noteq> [] \<and> APT_TOKEN_SP \<notin> set m \<and> no_eol m \<and> \<not> isdigit (hd m) \<and> \<not> isspace (hd m) \<and>
     hd m \<noteq> CHR ''-'' \<and> hd m \<noteq> CHR ''+'' \<and> take (length MRCP_NAME) m \<noteq> MRCP_NAME"

definition start_line_ok :: "mrcp_start_line \<Rightarrow> bool" where
  "start_line_ok sl \<longleftrightarrow>
     sl_version sl \<noteq> MRCP_VERSION_UNKNOWN \<and> sl_message_type sl \<noteq> MRCP_MESSAGE_TYPE_UNKNOWN \<and>
     (sl_message_type sl \<noteq> MRCP_MESSAGE_TYPE_RESPONSE \<longrightarrow>
        str_wf (sl_method_name sl) \<and> method_ok (str_bytes (sl_method_name sl))) \<and>
     (sl_message_type sl \<noteq> MRCP_MESSAGE_TYPE_REQUEST \<longrightarrow> sl_request_state sl \<noteq> MRCP_REQUEST_STATE_UNKNOWN) \<and>
     (sl_message_type sl = MRCP_MESSAGE_TYPE_REQUEST \<longrightarrow> sl_status_code sl = MRCP_STATUS_CODE_UNKNOWN)"

text \<open>Two start lines that say the same on the wire, apart from the length.\<close>

definition start_line_equiv :: "mrcp_start_line \<Rightarrow> mrcp_start_line \<Rightarrow> bool" where
  "start_line_equiv sl sl' \<longleftrightarrow>
     sl_version sl' = sl_version sl \<and> sl_message_type sl' = sl_message_type sl \<and>
     sl_request_id sl' = sl_request_id sl \<and>
     (sl_message_type sl = MRCP_MESSAGE_TYPE_RESPONSE \<longrightarrow> sl_status_code sl' = sl_status_code sl) \<and>
     (sl_message_type sl \<noteq> MRCP_MESSAGE_TYPE_REQUEST \<longrightarrow> sl_request_state sl' = sl_request_state sl) \<and>
     (sl_message_type sl \<noteq> MRCP_MESSAGE_TYPE_RESPONSE \<longrightarrow>
        str_bytes (sl_method_name sl') = str_bytes (sl_method_name sl) \<and> str_wf (sl_method_name sl'))"

lemma dec_token: "dec n \<noteq> []" "APT_TOKEN_SP \<notin> set (dec n)" "no_eol (dec n)"
  using isdigit_not_special(2,7,8) [OF dec_isdigitD, of _ n] by (simp, auto simp: no_eol_def)

lemma dec_int_token: "dec_int i \<noteq> []" "APT_TOKEN_SP \<notin> set (dec_int i)" "no_eol (dec_int i)"
  using dec_token by (auto simp: dec_int_def)

lemma id_token: "id_text sl \<noteq> []" "APT_TOKEN_SP \<notin> set (id_text sl)" "no_eol (id_text sl)"
  using dec_int_token by (auto simp: id_text_def)

lemma state_token:
  assumes "st \<noteq> MRCP_REQUEST_STATE_UNKNOWN"
  shows "state_text st \<noteq> []" "APT_TOKEN_SP \<notin> set (state_text st)" "no_eol (state_text st)"
  using assms by (cases st; simp)+

lemma version_token:
  assumes "v \<noteq> MRCP_VERSION_UNKNOWN"
  shows "version_text v \<noteq> []" "APT_TOKEN_SP \<notin> set (version_text v)" "no_eol (version_text v)"
    "length (version_text v) = 8"
  using assms by (cases v; simp)+

lemma not_digit_SP [simp]: "\<not> isdigit (byte (APT_TOKEN_SP # r))" "\<not> isdigit APT_TOKEN_SP"
  by (simp_all add: byte_def isdigit_def)

lemma method_not_id:
  assumes "method_ok m" and "str_buf f = Some (m @ r)"
  shows "mrcp_request_id_parse f = 0" and "byte (str_mem f) \<noteq> CHR ''0''"
proof -
  obtain c cs where m: "m = c # cs" using assms(1) by (cases m) (auto simp: method_ok_def)
  have c: "\<not> isdigit c" "\<not> isspace c" "c \<noteq> CHR ''-''" "c \<noteq> CHR ''+''"
    using assms(1) by (auto simp: method_ok_def m)
  then have "atol (m @ r) = 0" by (simp add: atol_def m byte_def Let_def)
  then show "mrcp_request_id_parse f = 0" using assms(2) by (simp add: mrcp_request_id_parse_def)
  show "byte (str_mem f) \<noteq> CHR ''0''"
    using c(1) assms(2) by (auto simp: str_mem_def m byte_def isdigit_def)
qed

lemma id_not_method:
  fixes rid :: request_id
  assumes "str_buf f = Some (dec_int (sint rid) @ r)" and "\<not> isdigit (byte r)"
  shows "\<not> (mrcp_request_id_parse f = 0 \<and> byte (str_mem f) \<noteq> CHR ''0'')"
proof -
  have "byte (str_mem f) = CHR ''0''" if "rid = 0"
    using that assms(1) by (simp add: str_mem_def dec_int_def dec.simps [of 0] byte_def digit_char_def) code_simp
  then show ?thesis using request_id_parse_text [OF assms] by auto
qed

lemma field_at_next:
  assumes "ts_at s (f @ [APT_TOKEN_SP] @ r) tail" and "f \<noteq> []" and "APT_TOKEN_SP \<notin> set f"
  obtains str s' where "apt_text_field_read s APT_TOKEN_SP True = (True, str, s')"
    and "str_bytes str = f" and "str_wf str" and "str_length str = length f"
    and "str_buf str = Some (f @ APT_TOKEN_SP # r @ tail)" and "ts_at s' r tail"
  using field_at_some [OF assms] that by auto

lemma field_at_last:
  assumes "ts_at s f tail" and "f \<noteq> []" and "APT_TOKEN_SP \<notin> set f"
  obtains str s' where "apt_text_field_read s APT_TOKEN_SP True = (True, str, s')"
    and "str_bytes str = f" and "str_wf str" and "str_length str = length f"
    and "str_buf str = Some (f @ tail)" and "ts_at s' [] tail"
  using field_at_some [of s f "[]" tail] assms that by auto

text \<open>The three parts of reading an MRCPv2 line: the length, then one of two kinds of fields.\<close>

lemma v2_parse_length:
  assumes "ts_at s (dec n @ [APT_TOKEN_SP] @ r) tail" and "n < 2 ^ 63"
  obtains f s' where "apt_text_field_read s APT_TOKEN_SP True = (True, f, s')"
    and "apt_size_value_parse f = of_nat n" and "ts_at s' r tail"
proof -
  obtain f s' where f: "apt_text_field_read s APT_TOKEN_SP True = (True, f, s')"
      "str_buf f = Some (dec n @ APT_TOKEN_SP # r @ tail)" "ts_at s' r tail"
    using field_at_next [OF assms(1) dec_token(1,2)] by metis
  with size_value_parse_text [OF f(2) not_digit_SP(1) assms(2)] that show thesis by blast
qed

lemma v2_parse_response:
  assumes "start_line_ok sl" and "sl_message_type sl = MRCP_MESSAGE_TYPE_RESPONSE"
    and "sl_version sl = MRCP_VERSION_2" and "sl_version sl0 = MRCP_VERSION_2"
    and "ts_at s (dec n @ [APT_TOKEN_SP] @ v2_tail sl) tail" and "n < 2 ^ 63"
  shows "\<exists>sl'. mrcp_v2_start_line_parse sl0 s = (True, sl') \<and> start_line_equiv sl sl' \<and>
    sl_length sl' = of_nat n"
proof -
  let ?st = "sl_request_state sl" and ?code = "dec (unat (sl_status_code sl))"
  obtain f1 s1 where 1: "apt_text_field_read s APT_TOKEN_SP True = (True, f1, s1)"
      "apt_size_value_parse f1 = of_nat n" "ts_at s1 (v2_tail sl) tail"
    by (rule v2_parse_length [OF assms(5,6)])
  have st: "?st \<noteq> MRCP_REQUEST_STATE_UNKNOWN" using assms(1,2) by (auto simp: start_line_ok_def)
  have "ts_at s1 (id_text sl @ [APT_TOKEN_SP] @ ?code @ [APT_TOKEN_SP] @ state_text ?st) tail"
    using 1(3) assms(2) by (simp add: v2_tail_def)
  from field_at_next [OF this id_token(1,2)] obtain f2 s2 where
    2: "apt_text_field_read s1 APT_TOKEN_SP True = (True, f2, s2)"
      "str_buf f2 = Some (dec_int (sint (sl_request_id sl)) @
         APT_TOKEN_SP # (?code @ [APT_TOKEN_SP] @ state_text ?st) @ tail)"
      "ts_at s2 (?code @ [APT_TOKEN_SP] @ state_text ?st) tail"
    unfolding id_text_def by metis
  from field_at_next [OF 2(3) dec_token(1,2)] obtain f3 s3 where
    3: "apt_text_field_read s2 APT_TOKEN_SP True = (True, f3, s3)"
      "str_buf f3 = Some (?code @ APT_TOKEN_SP # state_text ?st @ tail)"
      "ts_at s3 (state_text ?st) tail" by metis
  from field_at_last [OF 3(3) state_token(1,2) [OF st]] obtain f4 s4 where
    4: "apt_text_field_read s3 APT_TOKEN_SP True = (True, f4, s4)" "str_bytes f4 = state_text ?st" "str_wf f4"
    by metis
  note v = request_id_parse_text [OF 2(2) not_digit_SP(1)] id_not_method [OF 2(2) not_digit_SP(1)]
    status_code_parse_text [OF 3(2) not_digit_SP(1)] request_state_parse_text [OF st 4(2,3)]
  then show ?thesis
    using 1(1,2) 2(1) 3(1) 4(1) assms(2-4)
    by (simp add: mrcp_v2_start_line_parse_def start_line_equiv_def Let_def)
qed

lemma v2_parse_method:
  assumes "start_line_ok sl" and "sl_message_type sl \<noteq> MRCP_MESSAGE_TYPE_RESPONSE"
    and "sl_version sl = MRCP_VERSION_2" and "sl_version sl0 = MRCP_VERSION_2"
    and "ts_at s (dec n @ [APT_TOKEN_SP] @ v2_tail sl) tail" and "n < 2 ^ 63" and "\<not> isdigit (byte tail)"
  shows "\<exists>sl'. mrcp_v2_start_line_parse sl0 s = (True, sl') \<and> start_line_equiv sl sl' \<and>
    sl_length sl' = of_nat n"
proof -
  let ?m = "str_bytes (sl_method_name sl)" and ?st = "sl_request_state sl"
  let ?ev = "if sl_message_type sl = MRCP_MESSAGE_TYPE_EVENT then [APT_TOKEN_SP] @ state_text ?st else []"
  have m: "method_ok ?m" using assms(1,2) by (auto simp: start_line_ok_def)
  obtain f1 s1 where 1: "apt_text_field_read s APT_TOKEN_SP True = (True, f1, s1)"
      "apt_size_value_parse f1 = of_nat n" "ts_at s1 (v2_tail sl) tail"
    by (rule v2_parse_length [OF assms(5,6)])
  have "ts_at s1 (?m @ [APT_TOKEN_SP] @ id_text sl @ ?ev) tail" using 1(3) assms(2) by (simp add: v2_tail_def)
  from field_at_next [OF this] obtain f2 s2 where
    2: "apt_text_field_read s1 APT_TOKEN_SP True = (True, f2, s2)" "str_bytes f2 = ?m" "str_wf f2"
      "str_buf f2 = Some (?m @ APT_TOKEN_SP # (id_text sl @ ?ev) @ tail)" "ts_at s2 (id_text sl @ ?ev) tail"
    using m unfolding method_ok_def by metis
  have "?ev = [] \<or> hd ?ev = APT_TOKEN_SP" by simp
  from field_at_some [OF 2(5) id_token(1,2) this] obtain f3 s3 where
    3: "apt_text_field_read s2 APT_TOKEN_SP True = (True, f3, s3)"
      "str_buf f3 = Some (dec_int (sint (sl_request_id sl)) @ ?ev @ tail)" "ts_at s3 (drop 1 ?ev) tail"
    unfolding id_text_def by metis
  have nd: "\<not> isdigit (byte (?ev @ tail))" using assms(7) by simp
  note v = 1(1,2) 2(1) 3(1) method_not_id [OF m 2(4)] request_id_parse_text [OF 3(2) nd]
  have nm: "str_bytes (apt_string_copy f2) = ?m" "str_wf (apt_string_copy f2)" using 2(2,3) by simp_all
  show ?thesis
  proof (cases "sl_message_type sl = MRCP_MESSAGE_TYPE_EVENT")
    case True
    then have st: "?st \<noteq> MRCP_REQUEST_STATE_UNKNOWN" using assms(1) by (auto simp: start_line_ok_def)
    have "ts_at s3 (state_text ?st) tail" using 3(3) True by simp
    from field_at_last [OF this state_token(1,2) [OF st]] obtain f4 s4 where
      4: "apt_text_field_read s3 APT_TOKEN_SP True = (True, f4, s4)" "str_bytes f4 = state_text ?st" "str_wf f4"
      by metis
    show ?thesis
      using v nm 4(1) request_state_parse_text [OF st 4(2,3)] True assms(3,4)
      by (simp add: mrcp_v2_start_line_parse_def start_line_equiv_def Let_def)
  next
    case False
    then have "sl_message_type sl = MRCP_MESSAGE_TYPE_REQUEST"
      using assms(1,2) by (cases "sl_message_type sl") (auto simp: start_line_ok_def)
    moreover have "ts_at s3 [] tail" using 3(3) False by simp
    then obtain f4 where "apt_text_field_read s3 APT_TOKEN_SP True = (False, f4, s3)"
      using field_at_none by blast
    ultimately show ?thesis
      using v nm assms(3,4) by (simp add: mrcp_v2_start_line_parse_def start_line_equiv_def Let_def)
  qed
qed

lemma v1_parse_response:
  assumes "start_line_ok sl" and "sl_message_type sl = MRCP_MESSAGE_TYPE_RESPONSE"
    and "sl_version sl = MRCP_VERSION_1" and "sl_version sl0 = MRCP_VERSION_1"
    and "sl_message_type sl0 = MRCP_MESSAGE_TYPE_RESPONSE"
    and "ts_at s (id_text sl @ [APT_TOKEN_SP] @ dec (unat (sl_status_code sl)) @ [APT_TOKEN_SP] @
      state_text (sl_request_state sl)) tail"
  shows "\<exists>sl'. mrcp_response_line_parse sl0 s = (True, sl') \<and> start_line_equiv sl sl'"
proof -
  let ?st = "sl_request_state sl" and ?code = "dec (unat (sl_status_code sl))"
  have st: "?st \<noteq> MRCP_REQUEST_STATE_UNKNOWN" using assms(1,2) by (auto simp: start_line_ok_def)
  from field_at_next [OF assms(6) id_token(1,2)] obtain f2 s2 where
    2: "apt_text_field_read s APT_TOKEN_SP True = (True, f2, s2)"
      "str_buf f2 = Some (dec_int (sint (sl_request_id sl)) @
         APT_TOKEN_SP # (?code @ [APT_TOKEN_SP] @ state_text ?st) @ tail)"
      "ts_at s2 (?code @ [APT_TOKEN_SP] @ state_text ?st) tail"
    unfolding id_text_def by metis
  from field_at_next [OF 2(3) dec_token(1,2)] obtain f3 s3 where
    3: "apt_text_field_read s2 APT_TOKEN_SP True = (True, f3, s3)"
      "str_buf f3 = Some (?code @ APT_TOKEN_SP # state_text ?st @ tail)"
      "ts_at s3 (state_text ?st) tail" by metis
  from field_at_last [OF 3(3) state_token(1,2) [OF st]] obtain f4 s4 where
    4: "apt_text_field_read s3 APT_TOKEN_SP True = (True, f4, s4)" "str_bytes f4 = state_text ?st" "str_wf f4"
    by metis
  note v = request_id_parse_text [OF 2(2) not_digit_SP(1)] status_code_parse_text [OF 3(2) not_digit_SP(1)]
    request_state_parse_text [OF st 4(2,3)]
  then show ?thesis
    using 2(1) 3(1) 4(1) assms(2-5) by (simp add: mrcp_response_line_parse_def start_line_equiv_def Let_def)
qed

lemma version_not_state:
  assumes "str_bytes f = version_text MRCP_VERSION_1" and "str_wf f"
  shows "mrcp_request_state_parse f = MRCP_REQUEST_STATE_UNKNOWN"
proof (rule request_state_parse_unknown [OF assms(2)])
  show "NUL \<notin> set (str_bytes f)" by (simp add: assms(1))
  show "\<forall>st. st \<noteq> MRCP_REQUEST_STATE_UNKNOWN \<longrightarrow> map tolower (state_text st) \<noteq> map tolower (str_bytes f)"
  proof (intro allI impI)
    fix st assume "st \<noteq> MRCP_REQUEST_STATE_UNKNOWN"
    then show "map tolower (state_text st) \<noteq> map tolower (str_bytes f)"
      by (cases st) (simp_all add: assms(1) tolower_def)
  qed
qed

lemma v1_parse_method:
  assumes "start_line_ok sl" and "sl_message_type sl \<noteq> MRCP_MESSAGE_TYPE_RESPONSE"
    and "sl_version sl = MRCP_VERSION_1"
    and "str_bytes (sl_method_name sl0) = str_bytes (sl_method_name sl)" and "str_wf (sl_method_name sl0)"
    and "ts_at s (id_text sl @ [APT_TOKEN_SP] @ (if sl_message_type sl = MRCP_MESSAGE_TYPE_EVENT
        then state_text (sl_request_state sl) @ [APT_TOKEN_SP] else []) @ version_text MRCP_VERSION_1) tail"
  shows "\<exists>sl'. mrcp_request_line_parse sl0 s = (True, sl') \<and> start_line_equiv sl sl'"
proof -
  let ?st = "sl_request_state sl" and ?vt = "version_text MRCP_VERSION_1"
  have vn: "MRCP_VERSION_1 \<noteq> MRCP_VERSION_UNKNOWN" by simp
  let ?r = "(if sl_message_type sl = MRCP_MESSAGE_TYPE_EVENT then state_text ?st @ [APT_TOKEN_SP] else []) @ ?vt"
  from field_at_next [OF assms(6) id_token(1,2)] obtain f2 s2 where
    2: "apt_text_field_read s APT_TOKEN_SP True = (True, f2, s2)"
      "str_buf f2 = Some (dec_int (sint (sl_request_id sl)) @ APT_TOKEN_SP # ?r @ tail)" "ts_at s2 ?r tail"
    unfolding id_text_def by metis
  note rid = request_id_parse_text [OF 2(2) not_digit_SP(1)]
  show ?thesis
  proof (cases "sl_message_type sl = MRCP_MESSAGE_TYPE_EVENT")
    case True
    then have st: "?st \<noteq> MRCP_REQUEST_STATE_UNKNOWN" using assms(1) by (auto simp: start_line_ok_def)
    have "ts_at s2 (state_text ?st @ [APT_TOKEN_SP] @ ?vt) tail" using 2(3) True by simp
    from field_at_next [OF this state_token(1,2) [OF st]] obtain f3 s3 where
      3: "apt_text_field_read s2 APT_TOKEN_SP True = (True, f3, s3)" "str_bytes f3 = state_text ?st" "str_wf f3"
        "ts_at s3 ?vt tail" by metis
    from field_at_last [OF 3(4) version_token(1,2) [OF vn]] obtain f4 s4 where
      4: "apt_text_field_read s3 APT_TOKEN_SP True = (True, f4, s4)" "str_length f4 = 8" "str_buf f4 = Some (?vt @ tail)"
      using version_token(4) [OF vn] by metis
    show ?thesis
      using 2(1) 3(1) 4(1) rid request_state_parse_text [OF st 3(2,3)] version_parse_text [OF vn 4(2,3)] True st assms(3-5)
      by (simp add: mrcp_request_line_parse_def start_line_equiv_def Let_def)
  next
    case False
    then have ty: "sl_message_type sl = MRCP_MESSAGE_TYPE_REQUEST"
      using assms(1,2) by (cases "sl_message_type sl") (auto simp: start_line_ok_def)
    have "ts_at s2 ?vt tail" using 2(3) False by simp
    from field_at_last [OF this version_token(1,2) [OF vn]] obtain f3 s3 where
      3: "apt_text_field_read s2 APT_TOKEN_SP True = (True, f3, s3)" "str_bytes f3 = ?vt" "str_wf f3"
        "str_length f3 = 8" "str_buf f3 = Some (?vt @ tail)"
      using version_token(4) [OF vn] by metis
    show ?thesis
      using 2(1) 3(1) rid version_not_state [OF 3(2,3)] version_parse_text [OF vn 3(4,5)] ty assms(3-5)
      by (simp add: mrcp_request_line_parse_def start_line_equiv_def Let_def)
  qed
qed

text \<open>The whole line, for both versions.\<close>

definition line_text :: "mrcp_start_line \<Rightarrow> nat \<Rightarrow> char list" where
  "line_text sl n =
     (if sl_version sl = MRCP_VERSION_2
      then version_text MRCP_VERSION_2 @ [APT_TOKEN_SP] @ dec n @ [APT_TOKEN_SP] @ v2_tail sl
      else v1_line sl)"

lemma ts_at_str:
  "str_buf str = Some (l @ tail) \<Longrightarrow> str_length str = length l \<Longrightarrow> ts_at (stream_of_str str) l tail"
  by (simp add: ts_at_def ts_wf_def str_mem_def str_bytes_def)

lemma version_prefix:
  "v \<noteq> MRCP_VERSION_UNKNOWN \<Longrightarrow> take (length MRCP_NAME) (version_text v @ r) = MRCP_NAME"
  by (cases v) (simp_all add: MRCP_NAME_def)

lemma method_prefix:
  assumes "method_ok m" shows "take (length MRCP_NAME) (m @ APT_TOKEN_SP # r) \<noteq> MRCP_NAME"
proof (cases "length m < 4")
  case True
  then obtain k where "4 - length m = Suc k" by (cases "4 - length m") auto
  then have "APT_TOKEN_SP \<in> set (take 4 (m @ APT_TOKEN_SP # r))" by simp
  moreover have "APT_TOKEN_SP \<notin> set MRCP_NAME" "length MRCP_NAME = 4" by (simp_all add: MRCP_NAME_def)
  ultimately show ?thesis by metis
next
  case False
  then show ?thesis using assms by (simp add: method_ok_def MRCP_NAME_def)
qed

lemma parse_line_version:
  assumes "start_line_ok sl" and "\<not> isdigit (byte tail)" and "n < 2 ^ 63"
    and "ts_at (stream_of_str str) (line_text sl n) tail"
    and "line_text sl n = version_text (sl_version sl) @ [APT_TOKEN_SP] @ r"
    and "sl_version sl = MRCP_VERSION_2 \<and> r = dec n @ [APT_TOKEN_SP] @ v2_tail sl \<or>
       sl_version sl = MRCP_VERSION_1 \<and> sl_message_type sl = MRCP_MESSAGE_TYPE_RESPONSE \<and>
       r = id_text sl @ [APT_TOKEN_SP] @ dec (unat (sl_status_code sl)) @ [APT_TOKEN_SP] @ state_text (sl_request_state sl)"
  shows "\<exists>sl'. mrcp_start_line_parse sl0 str = (True, sl') \<and> start_line_equiv sl sl' \<and>
    (sl_version sl = MRCP_VERSION_2 \<longrightarrow> sl_length sl' = of_nat n)"
proof -
  have vn: "sl_version sl \<noteq> MRCP_VERSION_UNKNOWN" using assms(1) by (simp add: start_line_ok_def)
  let ?sl1 = "sl0\<lparr>sl_message_type := MRCP_MESSAGE_TYPE_UNKNOWN\<rparr>"
  obtain f s where f: "apt_text_field_read (stream_of_str str) APT_TOKEN_SP True = (True, f, s)"
      "str_length f = 8" "str_buf f = Some (version_text (sl_version sl) @ APT_TOKEN_SP # r @ tail)" "ts_at s r tail"
    using field_at_next [OF assms(4) [unfolded assms(5)] version_token(1,2) [OF vn]] version_token(4) [OF vn] by metis
  note ver = version_parse_text [OF vn f(2,3)]
  have pre: "take (length MRCP_NAME) (str_mem f) = MRCP_NAME"
    using version_prefix [OF vn] f(3) by (simp add: str_mem_def)
  from assms(6) show ?thesis
  proof
    assume 2: "sl_version sl = MRCP_VERSION_2 \<and> r = dec n @ [APT_TOKEN_SP] @ v2_tail sl"
    then have "mrcp_start_line_parse sl0 str = mrcp_v2_start_line_parse (?sl1\<lparr>sl_version := MRCP_VERSION_2\<rparr>) s"
      using f(1) pre ver by (simp add: mrcp_start_line_parse_def Let_def)
    then show ?thesis
      using 2 f(4) v2_parse_response [OF assms(1) _ _ _ _ assms(3)] v2_parse_method [OF assms(1) _ _ _ _ assms(3,2)]
      by (cases "sl_message_type sl = MRCP_MESSAGE_TYPE_RESPONSE") auto
  next
    assume 1: "sl_version sl = MRCP_VERSION_1 \<and> sl_message_type sl = MRCP_MESSAGE_TYPE_RESPONSE \<and>
     r = id_text sl @ [APT_TOKEN_SP] @ dec (unat (sl_status_code sl)) @ [APT_TOKEN_SP] @ state_text (sl_request_state sl)"
    then have "mrcp_start_line_parse sl0 str = mrcp_response_line_parse
        (?sl1\<lparr>sl_version := MRCP_VERSION_1, sl_message_type := MRCP_MESSAGE_TYPE_RESPONSE\<rparr>) s"
      using f(1) pre ver by (simp add: mrcp_start_line_parse_def Let_def)
    then show ?thesis using 1 f(4) v1_parse_response [OF assms(1)] by auto
  qed
qed

lemma parse_line_method:
  assumes "start_line_ok sl" and "ts_at (stream_of_str str) (line_text sl n) tail"
    and "sl_version sl = MRCP_VERSION_1" and "sl_message_type sl \<noteq> MRCP_MESSAGE_TYPE_RESPONSE"
  shows "\<exists>sl'. mrcp_start_line_parse sl0 str = (True, sl') \<and> start_line_equiv sl sl'"
proof -
  let ?sl1 = "sl0\<lparr>sl_message_type := MRCP_MESSAGE_TYPE_UNKNOWN\<rparr>"
  let ?m = "str_bytes (sl_method_name sl)"
  have mo: "method_ok ?m" using assms(1,4) by (auto simp: start_line_ok_def)
  obtain r where r: "line_text sl n = ?m @ [APT_TOKEN_SP] @ r"
    "r = id_text sl @ [APT_TOKEN_SP] @ (if sl_message_type sl = MRCP_MESSAGE_TYPE_EVENT
      then state_text (sl_request_state sl) @ [APT_TOKEN_SP] else []) @ version_text MRCP_VERSION_1"
    using assms(3,4) by (simp add: line_text_def v1_line_def)
  from field_at_next [OF assms(2) [unfolded r(1)]] obtain f s where
    f: "apt_text_field_read (stream_of_str str) APT_TOKEN_SP True = (True, f, s)" "str_bytes f = ?m" "str_wf f"
      "str_buf f = Some (?m @ APT_TOKEN_SP # r @ tail)" "ts_at s r tail"
    using mo unfolding method_ok_def by metis
  have "mrcp_start_line_parse sl0 str = mrcp_request_line_parse (?sl1\<lparr>sl_method_name := apt_string_copy f\<rparr>) s"
    using f(1,4) method_prefix [OF mo, of "r @ tail"]
    by (simp add: mrcp_start_line_parse_def Let_def str_mem_def)
  then show ?thesis
    using v1_parse_method [OF assms(1,4,3)] f(2,3,5) r(2) by simp
qed

lemma start_line_parse_text:
  assumes "start_line_ok sl" and "str_buf str = Some (line_text sl n @ tail)"
    and "str_length str = length (line_text sl n)" and "\<not> isdigit (byte tail)" and "n < 2 ^ 63"
  shows "\<exists>sl'. mrcp_start_line_parse sl0 str = (True, sl') \<and> start_line_equiv sl sl' \<and>
    (sl_version sl = MRCP_VERSION_2 \<longrightarrow> sl_length sl' = of_nat n)"
proof -
  note at = ts_at_str [OF assms(2,3)]
  have "sl_version sl \<noteq> MRCP_VERSION_UNKNOWN" using assms(1) by (simp add: start_line_ok_def)
  then consider (v2) "sl_version sl = MRCP_VERSION_2" |
    (response) "sl_version sl = MRCP_VERSION_1" "sl_message_type sl = MRCP_MESSAGE_TYPE_RESPONSE" |
    (request) "sl_version sl = MRCP_VERSION_1" "sl_message_type sl \<noteq> MRCP_MESSAGE_TYPE_RESPONSE"
    by (cases "sl_version sl") auto
  then show ?thesis
  proof cases
    case v2
    then show ?thesis by (intro parse_line_version [OF assms(1,4,5) at]) (simp_all add: line_text_def)
  next
    case response
    then show ?thesis
      by (intro parse_line_version [OF assms(1,4,5) at]) (simp_all add: line_text_def v1_line_def)
  next
    case request
    then show ?thesis using parse_line_method [OF assms(1) at request] by auto
  qed
qed

section \<open>Round trips of start lines\<close>

lemma no_eol_line_text:
  assumes "start_line_ok sl" shows "no_eol (line_text sl n)"
proof -
  have "no_eol (str_bytes (sl_method_name sl))" if "sl_message_type sl \<noteq> MRCP_MESSAGE_TYPE_RESPONSE"
    using assms that by (auto simp: start_line_ok_def method_ok_def)
  moreover have "no_eol (version_text (sl_version sl))"
    using assms version_token(3) by (auto simp: start_line_ok_def)
  moreover have "no_eol (state_text (sl_request_state sl))"
    using state_token(3) by (cases "sl_request_state sl = MRCP_REQUEST_STATE_UNKNOWN") auto
  ultimately show ?thesis
    by (auto simp: line_text_def v1_line_def v2_tail_def dec_token(3) id_token(3))
qed

text \<open>The message a generated stream holds, as the reader of the peer sees it.\<close>

definition ts_message :: "apt_text_stream \<Rightarrow> apt_text_stream" where
  "ts_message s = s\<lparr>ts_pos := ts_buf s, ts_end := ts_pos s\<rparr>"

lemma read_start_line:
  assumes "start_line_ok sl" and "ts_buf s \<le> ts_pos s" and "n < 2 ^ 63"
    and "drop (ts_buf s) (ts_mem s) = line_text sl n @ CRLF @ r @ zs"
    and "ts_pos s - ts_buf s = length (line_text sl n @ CRLF @ r)"
  shows "\<exists>line t sl'. apt_text_line_read (ts_message s) = (True, line, t) \<and> ts_rest t = r \<and>
    mrcp_start_line_parse sl0 line = (True, sl') \<and> start_line_equiv sl sl' \<and>
    (sl_version sl = MRCP_VERSION_2 \<longrightarrow> sl_length sl' = of_nat n)"
proof -
  let ?l = "line_text sl n" and ?t = "ts_message s"
  have "ts_rest ?t = take (length (?l @ CRLF @ r)) ((?l @ CRLF @ r) @ zs)"
    using assms(4,5) by (simp add: ts_rest_def ts_message_def)
  also have "\<dots> = ?l @ CRLF @ r"
    by (rule append_eq_conv_conj [THEN iffD1, THEN conjunct1, symmetric, OF refl])
  finally have rest: "ts_rest ?t = ?l @ CRLF @ r" .
  from apt_text_line_read_eq [OF this no_eol_line_text [OF assms(1)] line_end_CRLF]
  have line: "apt_text_line_read ?t = (True, ts_str ?t (ts_pos ?t) (length ?l),
      ?t\<lparr>ts_pos := ts_pos ?t + (length ?l + length CRLF)\<rparr>)" .
  have rest2: "ts_rest ?t = (?l @ CRLF) @ r" using rest by simp
  have "ts_rest (?t\<lparr>ts_pos := ts_pos ?t + (length ?l + length CRLF)\<rparr>) = r"
    using ts_rest_advance [OF rest2] by (simp only: length_append)
  moreover have "\<exists>sl'. mrcp_start_line_parse sl0 (ts_str ?t (ts_pos ?t) (length ?l)) = (True, sl') \<and>
      start_line_equiv sl sl' \<and> (sl_version sl = MRCP_VERSION_2 \<longrightarrow> sl_length sl' = of_nat n)"
    by (rule start_line_parse_text [OF assms(1), of _ n "CRLF @ r @ zs"])
      (use assms(3,4) in \<open>simp_all add: ts_str_def ts_message_def byte_def isdigit_def\<close>)
  ultimately show ?thesis using line by blast
qed

lemma generate_start_line_v1:
  assumes "apr_ok A" and "start_line_ok sl" and "sl_version sl = MRCP_VERSION_1"
    and "ts_room s (length (v1_line sl) + 2)"
  shows "\<exists>s'. mrcp_start_line_generate A sl s = Inr (True, sl, s') \<and> ts_wrote s (v1_line sl @ CRLF) s'"
proof -
  have r: "ts_room s (length (v1_line sl))" by (rule ts_room_mono [OF assms(4)]) simp
  have "\<exists>s1. (case sl_message_type sl of
        MRCP_MESSAGE_TYPE_REQUEST \<Rightarrow> mrcp_request_line_generate A sl s
      | MRCP_MESSAGE_TYPE_RESPONSE \<Rightarrow> mrcp_response_line_generate A sl s
      | MRCP_MESSAGE_TYPE_EVENT \<Rightarrow> mrcp_request_line_generate A sl s
      | MRCP_MESSAGE_TYPE_UNKNOWN \<Rightarrow> Inr (False, s)) = Inr (True, s1) \<and> ts_wrote s (v1_line sl) s1"
    using assms(2) gen_okD [OF gen_ok_response_line [OF assms(1)] r] gen_okD [OF gen_ok_request_line [OF assms(1)] r]
    by (cases "sl_message_type sl") (auto simp: start_line_ok_def)
  then obtain s1 where s1: "(case sl_message_type sl of
        MRCP_MESSAGE_TYPE_REQUEST \<Rightarrow> mrcp_request_line_generate A sl s
      | MRCP_MESSAGE_TYPE_RESPONSE \<Rightarrow> mrcp_response_line_generate A sl s
      | MRCP_MESSAGE_TYPE_EVENT \<Rightarrow> mrcp_request_line_generate A sl s
      | MRCP_MESSAGE_TYPE_UNKNOWN \<Rightarrow> Inr (False, s)) = Inr (True, s1)" "ts_wrote s (v1_line sl) s1" by blast
  have "ts_room s1 2" using assms(4) by (simp add: ts_room_wrote [OF s1(2)])
  from eol_insert_room [OF this] obtain s2 where
    s2: "apt_text_eol_insert s1 = Inr (True, s2)" "ts_wrote s1 CRLF s2" by blast
  have "mrcp_start_line_generate A sl s = Inr (True, sl, s2)"
    using s1(1) s2(1) assms(3) by (cases "sl_message_type sl") (simp_all add: mrcp_start_line_generate_def)
  then show ?thesis using ts_wrote_trans [OF s1(2) s2(2)] by blast
qed

lemma generate_start_line_v2:
  assumes "apr_ok A" and "start_line_ok sl" and "sl_version sl = MRCP_VERSION_2"
    and "ts_room s (length (v2_reserved sl) + 2)"
  shows "\<exists>s'. mrcp_start_line_generate A sl s = Inr (True, sl\<lparr>sl_length := 9\<rparr>, s') \<and>
    ts_wrote s (v2_reserved sl @ CRLF) s'"
proof -
  have r: "ts_room s (length (v2_reserved sl))" by (rule ts_room_mono [OF assms(4)]) simp
  have "sl_message_type sl = MRCP_MESSAGE_TYPE_RESPONSE \<or> str_wf (sl_method_name sl)"
    using assms(2) by (auto simp: start_line_ok_def)
  from v2_generate_room [OF assms(1,3) this r] obtain s1 where
    s1: "mrcp_v2_start_line_generate A sl s = Inr (True, sl\<lparr>sl_length := 9\<rparr>, s1)" "ts_wrote s (v2_reserved sl) s1"
    by blast
  have "ts_room s1 2" using assms(4) by (simp add: ts_room_wrote [OF s1(2)])
  from eol_insert_room [OF this] obtain s2 where
    s2: "apt_text_eol_insert s1 = Inr (True, s2)" "ts_wrote s1 CRLF s2" by blast
  have "mrcp_start_line_generate A sl s = Inr (True, sl\<lparr>sl_length := 9\<rparr>, s2)"
    using s1(1) s2(1) assms(3) by (simp add: mrcp_start_line_generate_def)
  then show ?thesis using ts_wrote_trans [OF s1(2) s2(2)] by blast
qed

text \<open>
  The length an MRCPv2 message gets when \<open>r\<close> follows the start line in the stream: the
  finalized message holds the start line with the length of the whole message.
\<close>

lemma finalize_text:
  assumes "sl_version sl = MRCP_VERSION_2"
    and "ts_wrote s (v2_reserved sl @ CRLF @ r) s2" and "ts_buf s = ts_pos s"
    and "12 + length (v2_tail sl) + length r + content < 999994"
  shows "\<exists>n s3 zs. mrcp_start_line_finalize (sl\<lparr>sl_length := 9\<rparr>) content s2 =
      Inr (True, sl\<lparr>sl_length := of_nat n\<rparr>, s3) \<and>
    n = ts_pos s3 - ts_buf s3 + content \<and> n < 10 ^ 6 \<and> ts_pos s3 = ts_pos s2 \<and> ts_end s3 = ts_end s2 \<and>
    ts_buf s \<le> ts_buf s3 \<and> ts_buf s3 \<le> ts_pos s3 \<and> length (ts_mem s3) = length (ts_mem s2) \<and>
    ts_length s3 = ts_length s2 - (ts_buf s3 - ts_buf s2) \<and>
    drop (ts_buf s3) (ts_mem s3) = line_text sl n @ CRLF @ r @ zs \<and>
    ts_pos s3 - ts_buf s3 = length (line_text sl n @ CRLF @ r)"
proof -
  let ?xs = "take (ts_pos s) (ts_mem s)" and ?zs = "drop (ts_pos s2) (ts_mem s2)"
  let ?r = "v2_tail sl @ CRLF @ r"
  have mem: "ts_mem s2 = ?xs @ (version_text MRCP_VERSION_2 @ [APT_TOKEN_SP]) @
      replicate (MAX_DIGIT_COUNT + 1) APT_TOKEN_SP @ ?r @ ?zs"
    using ts_wrote_mem(1) [OF assms(2)] by (simp add: v2_reserved_def)
  have buf: "ts_buf s2 = length ?xs" "ts_pos s2 = length ?xs + 16 + length ?r"
    using ts_wrote_mem(2) [OF assms(2)] ts_wroteD(1,5) [OF assms(2)] assms(3) by (simp_all add: v2_reserved_def)
  have small: "10 + length ?r + content < 999994" using assms(4) by simp
  obtain n s3 where fin: "mrcp_start_line_finalize (sl\<lparr>sl_length := 9\<rparr>) content s2 =
        Inr (True, sl\<lparr>sl_length := of_nat n\<rparr>, s3)"
      "n = ts_pos s3 - ts_buf s3 + content" "n < 10 ^ 6" "ts_pos s3 = ts_pos s2" "ts_end s3 = ts_end s2"
      "ts_buf s2 \<le> ts_buf s3" "ts_buf s3 \<le> ts_pos s3" "ts_length s3 = ts_length s2 - (ts_buf s3 - ts_buf s2)"
      "length (ts_mem s3) = length (ts_mem s2)"
      "drop (ts_buf s3) (ts_mem s3) = version_text MRCP_VERSION_2 @ [APT_TOKEN_SP] @ dec n @ [APT_TOKEN_SP] @ ?r @ ?zs"
    using finalize_v2 [OF _ _ mem buf small, of "sl\<lparr>sl_length := 9\<rparr>"] assms(1) by auto
  have line: "drop (ts_buf s3) (ts_mem s3) = line_text sl n @ CRLF @ r @ ?zs"
    using fin(10) assms(1) by (simp add: line_text_def)
  have "length (drop (ts_buf s3) (ts_mem s3)) = length (line_text sl n @ CRLF @ r) + length ?zs"
    by (simp only: line length_append)
  then have pos: "ts_pos s3 - ts_buf s3 = length (line_text sl n @ CRLF @ r)"
    using fin(4,7,9) ts_wroteD(4) [OF assms(2)] by simp
  have buf': "ts_buf s \<le> ts_buf s3" using fin(6) ts_wroteD(5) [OF assms(2)] by simp
  show ?thesis
    by (intro exI [of _ n] exI [of _ s3] exI [of _ ?zs] conjI fin(1-5,7-9) buf' line pos)
qed

lemma finalize_start_line:
  assumes "start_line_ok sl" and "sl_version sl = MRCP_VERSION_2"
    and "ts_wrote s (v2_reserved sl @ CRLF @ r) s2" and "ts_buf s = ts_pos s"
    and "12 + length (v2_tail sl) + length r + content < 999994"
  shows "\<exists>sl2 s3 line t sl'.
    mrcp_start_line_finalize (sl\<lparr>sl_length := 9\<rparr>) content s2 = Inr (True, sl2, s3) \<and>
    apt_text_line_read (ts_message s3) = (True, line, t) \<and> ts_rest t = r \<and>
    mrcp_start_line_parse sl0 line = (True, sl') \<and> start_line_equiv sl sl' \<and>
    sl_length sl' = of_nat (ts_pos s3 - ts_buf s3 + content)"
proof -
  obtain n s3 zs where fin: "mrcp_start_line_finalize (sl\<lparr>sl_length := 9\<rparr>) content s2 =
        Inr (True, sl\<lparr>sl_length := of_nat n\<rparr>, s3)"
      "n = ts_pos s3 - ts_buf s3 + content" "n < 10 ^ 6" "ts_buf s3 \<le> ts_pos s3"
      "drop (ts_buf s3) (ts_mem s3) = line_text sl n @ CRLF @ r @ zs"
      "ts_pos s3 - ts_buf s3 = length (line_text sl n @ CRLF @ r)"
    using finalize_text [OF assms(2-5)] by blast
  have "n < 2 ^ 63" using fin(3) by simp
  from read_start_line [OF assms(1) fin(4) this fin(5,6)] fin(1,2) assms(2) show ?thesis by blast
qed

section \<open>Properties\<close>

text \<open>C19. MRCPv2 start lines survive the wire, and the message length is right. For every
  request, response and event, generating the start line, writing any further header text and
  finalizing succeeds, never writes outside the buffer, and yields a message whose first line
  is read and parsed back to the same message type, request identifier, method, status and
  state; the length in the line is the number of bytes from the beginning of the message to
  its end, body included, although it counts its own digits.\<close>

theorem v2_start_line_roundtrip:
  assumes "apr_ok A" and "start_line_ok sl" and "sl_version sl = MRCP_VERSION_2"
    and "ts_room s (length (v2_reserved sl) + 2 + length header)" and "ts_buf s = ts_pos s"
    and "12 + length (v2_tail sl) + length header + content < 999994"
  shows "\<exists>sl1 s1 s2 sl2 s3 line t sl'.
    mrcp_start_line_generate A sl s = Inr (True, sl1, s1) \<and> ts_write s1 header = Inr s2 \<and>
    mrcp_start_line_finalize sl1 content s2 = Inr (True, sl2, s3) \<and>
    apt_text_line_read (ts_message s3) = (True, line, t) \<and> ts_rest t = header \<and>
    mrcp_start_line_parse sl0 line = (True, sl') \<and> start_line_equiv sl sl' \<and>
    sl_length sl' = of_nat (ts_pos s3 - ts_buf s3 + content)"
proof -
  have r: "ts_room s (length (v2_reserved sl) + 2)" by (rule ts_room_mono [OF assms(4)]) simp
  obtain s1 where s1: "mrcp_start_line_generate A sl s = Inr (True, sl\<lparr>sl_length := 9\<rparr>, s1)"
      "ts_wrote s (v2_reserved sl @ CRLF) s1"
    using generate_start_line_v2 [OF assms(1-3) r] by blast
  have "ts_room s1 (length header)" using assms(4) by (simp add: ts_room_wrote [OF s1(2)])
  from ts_write_room [OF this] obtain s2 where s2: "ts_write s1 header = Inr s2" "ts_wrote s1 header s2" by blast
  have "ts_wrote s (v2_reserved sl @ CRLF @ header) s2" using ts_wrote_trans [OF s1(2) s2(2)] by simp
  from finalize_start_line [OF assms(2,3) this assms(5,6), of sl0] s1(1) s2(1) show ?thesis by blast
qed

definition sample_response :: "mrcp_version \<Rightarrow> mrcp_start_line" where
  "sample_response v =
     \<lparr>sl_message_type = MRCP_MESSAGE_TYPE_RESPONSE, sl_version = v, sl_length = 0, sl_request_id = 543257,
      sl_method_name = apt_string_reset, sl_method_id = 0, sl_status_code = 200,
      sl_request_state = MRCP_REQUEST_STATE_COMPLETE\<rparr>"

lemma sample_response_ok: "v \<noteq> MRCP_VERSION_UNKNOWN \<Longrightarrow> start_line_ok (sample_response v)"
  by (simp add: sample_response_def start_line_ok_def)

lemma sample_response_short:
  "length (v2_reserved (sample_response MRCP_VERSION_2)) \<le> 64" "length (v1_line (sample_response MRCP_VERSION_1)) \<le> 64"
proof -
  have "sint (543257 :: 32 word) = 543257" "unat (200 :: 32 word) = 200" by simp_all
  then have "length (dec_int (sint (543257 :: 32 word))) \<le> 6" "length (dec (unat (200 :: 32 word))) \<le> 3"
    using length_dec_le [of 6 543257] length_dec_le [of 3 200] by (simp_all add: dec_int_def)
  then show "length (v2_reserved (sample_response MRCP_VERSION_2)) \<le> 64"
    "length (v1_line (sample_response MRCP_VERSION_1)) \<le> 64"
    by (simp_all add: v2_reserved_def v2_tail_def v1_line_def id_text_def sample_response_def del: replicate_Suc)
qed

lemma out_stream_start: "ts_buf out_stream = ts_pos out_stream"
  by (simp add: out_stream_def apt_text_stream_init_def apt_text_stream_reset_def)

theorem v2_start_line_roundtrip_witness:
  "\<exists>sl1 s1 s2 sl2 s3 line t sl'.
    mrcp_start_line_generate apr_ref (sample_response MRCP_VERSION_2) out_stream = Inr (True, sl1, s1) \<and>
    ts_write s1 CRLF = Inr s2 \<and> mrcp_start_line_finalize sl1 10 s2 = Inr (True, sl2, s3) \<and>
    apt_text_line_read (ts_message s3) = (True, line, t) \<and> ts_rest t = CRLF \<and>
    mrcp_start_line_parse (sample_response MRCP_VERSION_1) line = (True, sl') \<and>
    start_line_equiv (sample_response MRCP_VERSION_2) sl' \<and>
    sl_length sl' = of_nat (ts_pos s3 - ts_buf s3 + 10)"
proof -
  have r: "ts_room out_stream (length (v2_reserved (sample_response MRCP_VERSION_2)) + 2 + length CRLF)"
    using sample_response_short by (intro out_stream_room) simp
  have "length (v2_tail (sample_response MRCP_VERSION_2)) \<le> 64"
    using sample_response_short by (simp add: v2_reserved_def)
  then have l: "12 + length (v2_tail (sample_response MRCP_VERSION_2)) + length CRLF + 10 < 999994" by simp
  show ?thesis
    by (rule v2_start_line_roundtrip [OF apr_ref_ok sample_response_ok _ r out_stream_start l])
      (simp_all add: sample_response_def)
qed

text \<open>C20. MRCPv1 start lines survive the wire: the generated line of a request, a response or
  an event is read and parsed back to the same message.\<close>

theorem v1_start_line_roundtrip:
  assumes "apr_ok A" and "start_line_ok sl" and "sl_version sl = MRCP_VERSION_1"
    and "ts_room s (length (v1_line sl) + 2)" and "ts_buf s = ts_pos s"
  shows "\<exists>s1 line t sl'. mrcp_start_line_generate A sl s = Inr (True, sl, s1) \<and>
    apt_text_line_read (ts_message s1) = (True, line, t) \<and> ts_rest t = [] \<and>
    mrcp_start_line_parse sl0 line = (True, sl') \<and> start_line_equiv sl sl'"
proof -
  obtain s1 where s1: "mrcp_start_line_generate A sl s = Inr (True, sl, s1)" "ts_wrote s (v1_line sl @ CRLF) s1"
    using generate_start_line_v1 [OF assms(1-4)] by blast
  have buf: "ts_buf s1 = ts_pos s" using ts_wroteD(5) [OF s1(2)] assms(5) by simp
  have mem: "ts_mem s1 = take (ts_pos s) (ts_mem s) @ (v1_line sl @ CRLF) @ drop (ts_pos s1) (ts_mem s1)"
    by (rule ts_wrote_mem(1) [OF s1(2)])
  have "drop (ts_pos s) (ts_mem s1) = (v1_line sl @ CRLF) @ drop (ts_pos s1) (ts_mem s1)"
    by (subst mem) (use ts_wrote_mem(2) [OF s1(2)] in simp)
  then have d: "drop (ts_buf s1) (ts_mem s1) = line_text sl 0 @ CRLF @ [] @ drop (ts_pos s1) (ts_mem s1)"
    using assms(3) by (simp add: buf line_text_def)
  have p: "ts_buf s1 \<le> ts_pos s1" "ts_pos s1 - ts_buf s1 = length (line_text sl 0 @ CRLF @ [])"
    using ts_wroteD(1) [OF s1(2)] assms(3) by (simp_all add: buf line_text_def)
  show ?thesis using read_start_line [OF assms(2) p(1) _ d p(2), of sl0] s1(1) by auto
qed

theorem v1_start_line_roundtrip_witness:
  "\<exists>s1 line t sl'. mrcp_start_line_generate apr_ref (sample_response MRCP_VERSION_1) out_stream =
      Inr (True, sample_response MRCP_VERSION_1, s1) \<and>
    apt_text_line_read (ts_message s1) = (True, line, t) \<and> ts_rest t = [] \<and>
    mrcp_start_line_parse (sample_response MRCP_VERSION_2) line = (True, sl') \<and>
    start_line_equiv (sample_response MRCP_VERSION_1) sl'"
proof -
  have r: "ts_room out_stream (length (v1_line (sample_response MRCP_VERSION_1)) + 2)"
    using sample_response_short by (intro out_stream_room) simp
  show ?thesis
    by (rule v1_start_line_roundtrip [OF apr_ref_ok sample_response_ok _ r out_stream_start])
      (simp_all add: sample_response_def)
qed

text \<open>C31. A request identifier of 2147483648 or more is printed with a minus sign: the format
  takes the unsigned 32-bit identifier for a signed number. The code reads such an identifier
  back, but a peer that follows the grammar of the protocol, where the identifier is a sequence
  of digits, cannot.\<close>

theorem large_request_id_signed:
  fixes rid :: request_id
  assumes "apr_ok A" and "2 ^ 31 \<le> uint rid" and "ts_room s 11"
  shows "\<exists>s'. mrcp_request_id_generate A rid s = Inr (True, s') \<and>
    ts_rest (ts_reader s s') = CHR ''-'' # dec (nat (2 ^ 32 - uint rid))"
proof -
  have u: "uint rid < 2 ^ LENGTH(32)" by (rule unsigned_less)
  have s: "sint rid = uint rid - 2 ^ 32"
  proof -
    have "sint rid = (uint rid + 2 ^ 31) mod 2 ^ 32 - 2 ^ 31"
      by (simp add: sint_uint signed_take_bit_eq_take_bit_shift take_bit_eq_mod)
    also have "(uint rid + 2 ^ 31) mod 2 ^ 32 = uint rid + 2 ^ 31 - 2 ^ 32"
      using assms(2) u by (simp add: mod_pos_geq mod_pos_pos_trivial)
    finally show ?thesis by simp
  qed
  have "nat (2 ^ 32 - uint rid) < 10 ^ 10" using assms(2) by simp
  then have "length (dec (nat (2 ^ 32 - uint rid))) \<le> 10" by (intro length_dec_le) auto
  moreover have d: "dec_int (sint rid) = CHR ''-'' # dec (nat (2 ^ 32 - uint rid))"
    using u by (simp add: s dec_int_def)
  ultimately have "ts_room s (length (dec_int (sint rid)))" using assms(3) by (auto intro: ts_room_mono)
  from int_insert_room [OF assms(1) this] show ?thesis
    using ts_rest_reader unfolding mrcp_request_id_generate_def d by blast
qed

theorem large_request_id_signed_witness:
  "\<exists>s'. mrcp_request_id_generate apr_ref 4294967295 out_stream = Inr (True, s') \<and>
    ts_rest (ts_reader out_stream s') = CHR ''-'' # dec (nat (2 ^ 32 - uint (4294967295 :: 32 word)))"
  by (rule large_request_id_signed [OF apr_ref_ok]) (simp_all add: out_stream_room)

end
