(* ===== verification/MrcpHeader.thy ===== *)
theory MrcpHeader
  imports MrcpStartLine
begin

text \<open>
  Message headers: the interface through which the generic header and the headers of the
  resources are parsed, generated and copied (\<open>mrcp_header_accessor.c\<close>), the generic header
  (\<open>mrcp_generic_header.c\<close>), the message header that combines a generic header, a resource
  header and a section of header fields, and the channel identifier (\<open>mrcp_header.c\<close>).

  The data a \<open>void*\<close> of an accessor points to is the type parameter of the table of functions;
  the allocation function stores what it allocates in the accessor, so it is given here by the
  data alone. No table of the source has a \<open>destroy\<close> function.
\<close>

section \<open>Header accessors\<close>

record 'd header_vtable =
  vt_allocate :: 'd
  vt_parse :: "nat \<Rightarrow> apt_str \<Rightarrow> 'd \<Rightarrow> bool \<times> 'd"
  vt_generate :: "nat \<Rightarrow> 'd \<Rightarrow> apt_str \<Rightarrow> fault + bool \<times> apt_str"
  vt_duplicate :: "nat \<Rightarrow> 'd option \<Rightarrow> apt_str \<Rightarrow> 'd option \<Rightarrow> bool \<times> 'd option"
  vt_field_table :: "apt_str_table_item list"
  vt_field_count :: nat

record 'd header_accessor =
  acc_data :: "'d option"
  acc_vtable :: "'d header_vtable option"

definition mrcp_header_accessor_init :: "'d header_accessor" where
  "mrcp_header_accessor_init = \<lparr>acc_data = None, acc_vtable = None\<rparr>"

definition mrcp_header_allocate :: "'d header_accessor \<Rightarrow> 'd header_accessor" where
  "mrcp_header_allocate acc =
     (if acc_data acc \<noteq> None then acc
      else case acc_vtable acc of None \<Rightarrow> acc | Some vt \<Rightarrow> acc\<lparr>acc_data := Some (vt_allocate vt)\<rparr>)"

definition mrcp_header_field_value_parse ::
  "'d header_accessor \<Rightarrow> header_field \<Rightarrow> fault + bool \<times> 'd header_accessor \<times> header_field" where
  "mrcp_header_field_value_parse acc f =
     (case acc_vtable acc of None \<Rightarrow> Inr (False, acc, f)
      | Some vt \<Rightarrow>
          let i = apt_string_table_id_find (vt_field_table vt) (vt_field_count vt) (hf_name f)
          in if i \<ge> vt_field_count vt then Inr (False, acc, f)
             else let f = f\<lparr>hf_id := i\<rparr>
                  in if str_length (hf_value f) \<noteq> 0
                     then case acc_data acc of None \<Rightarrow> Inl NullDeref
                          | Some d \<Rightarrow> (case vt_parse vt i (hf_value f) d of (ok, d) \<Rightarrow>
                              Inr (ok, acc\<lparr>acc_data := Some d\<rparr>, f))
                     else Inr (True, acc, f))"

definition mrcp_header_field_value_generate ::
  "'d header_accessor \<Rightarrow> nat \<Rightarrow> bool \<Rightarrow> fault + header_field option" where
  "mrcp_header_field_value_generate acc i empty_value =
     (case acc_vtable acc of None \<Rightarrow> Inr None
      | Some vt \<Rightarrow>
          let f = apt_header_field_alloc;
              f = (case apt_string_table_str_get (vt_field_table vt) (vt_field_count vt) i of
                     Some name \<Rightarrow> f\<lparr>hf_name := name\<rparr> | None \<Rightarrow> f)
          in if \<not> empty_value
             then case acc_data acc of None \<Rightarrow> Inl NullDeref
                  | Some d \<Rightarrow> sbind (vt_generate vt i d (hf_value f)) (\<lambda>(ok, v).
                      if \<not> ok then Inr None else Inr (Some (f\<lparr>hf_value := v\<rparr>)))
             else Inr (Some f))"

definition mrcp_header_field_value_duplicate ::
  "'d header_accessor \<Rightarrow> 'd header_accessor \<Rightarrow> nat \<Rightarrow> apt_str \<Rightarrow> bool \<times> 'd header_accessor" where
  "mrcp_header_field_value_duplicate acc src i value =
     (case acc_vtable acc of None \<Rightarrow> (False, acc)
      | Some vt \<Rightarrow>
          if str_length value \<noteq> 0
          then case vt_duplicate vt i (acc_data src) value (acc_data acc) of (ok, d) \<Rightarrow>
                 (ok, acc\<lparr>acc_data := d\<rparr>)
          else (True, acc))"

section \<open>The generic header\<close>

abbreviation (input) MAX_ACTIVE_REQUEST_ID_COUNT :: nat where "MAX_ACTIVE_REQUEST_ID_COUNT \<equiv> 5"

abbreviation (input) GENERIC_HEADER_ACTIVE_REQUEST_ID_LIST :: nat where
  "GENERIC_HEADER_ACTIVE_REQUEST_ID_LIST \<equiv> 0"
abbreviation (input) GENERIC_HEADER_PROXY_SYNC_ID :: nat where "GENERIC_HEADER_PROXY_SYNC_ID \<equiv> 1"
abbreviation (input) GENERIC_HEADER_ACCEPT_CHARSET :: nat where "GENERIC_HEADER_ACCEPT_CHARSET \<equiv> 2"
abbreviation (input) GENERIC_HEADER_CONTENT_TYPE :: nat where "GENERIC_HEADER_CONTENT_TYPE \<equiv> 3"
abbreviation (input) GENERIC_HEADER_CONTENT_ID :: nat where "GENERIC_HEADER_CONTENT_ID \<equiv> 4"
abbreviation (input) GENERIC_HEADER_CONTENT_BASE :: nat where "GENERIC_HEADER_CONTENT_BASE \<equiv> 5"
abbreviation (input) GENERIC_HEADER_CONTENT_ENCODING :: nat where "GENERIC_HEADER_CONTENT_ENCODING \<equiv> 6"
abbreviation (input) GENERIC_HEADER_CONTENT_LOCATION :: nat where "GENERIC_HEADER_CONTENT_LOCATION \<equiv> 7"
abbreviation (input) GENERIC_HEADER_CONTENT_LENGTH :: nat where "GENERIC_HEADER_CONTENT_LENGTH \<equiv> 8"
abbreviation (input) GENERIC_HEADER_CACHE_CONTROL :: nat where "GENERIC_HEADER_CACHE_CONTROL \<equiv> 9"
abbreviation (input) GENERIC_HEADER_LOGGING_TAG :: nat where "GENERIC_HEADER_LOGGING_TAG \<equiv> 10"
abbreviation (input) GENERIC_HEADER_VENDOR_SPECIFIC_PARAMS :: nat where
  "GENERIC_HEADER_VENDOR_SPECIFIC_PARAMS \<equiv> 11"
abbreviation (input) GENERIC_HEADER_ACCEPT :: nat where "GENERIC_HEADER_ACCEPT \<equiv> 12"
abbreviation (input) GENERIC_HEADER_FETCH_TIMEOUT :: nat where "GENERIC_HEADER_FETCH_TIMEOUT \<equiv> 13"
abbreviation (input) GENERIC_HEADER_SET_COOKIE :: nat where "GENERIC_HEADER_SET_COOKIE \<equiv> 14"
abbreviation (input) GENERIC_HEADER_SET_COOKIE2 :: nat where "GENERIC_HEADER_SET_COOKIE2 \<equiv> 15"
abbreviation (input) GENERIC_HEADER_COUNT :: nat where "GENERIC_HEADER_COUNT \<equiv> 16"

definition generic_header_string_table :: "apt_str_table_item list" where
  "generic_header_string_table =
     [table_item ''Active-Request-Id-List'' 22 3,
      table_item ''Proxy-Sync-Id'' 13 0,
      table_item ''Accept-Charset'' 14 7,
      table_item ''Content-Type'' 12 9,
      table_item ''Content-Id'' 10 9,
      table_item ''Content-Base'' 12 8,
      table_item ''Content-Encoding'' 16 9,
      table_item ''Content-Location'' 16 9,
      table_item ''Content-Length'' 14 10,
      table_item ''Cache-Control'' 13 1,
      table_item ''Logging-Tag'' 11 0,
      table_item ''Vendor-Specific-Parameters'' 26 0,
      table_item ''Accept'' 6 6,
      table_item ''Fetch-Timeout'' 13 0,
      table_item ''Set-Cookie'' 10 10,
      table_item ''Set-Cookie2'' 11 10]"

text \<open>The list of request identifiers holds the first \<open>count\<close> entries of the array.\<close>

record generic_header =
  gh_active_request_id_list :: "request_id list"
  gh_proxy_sync_id :: apt_str
  gh_accept_charset :: apt_str
  gh_content_type :: apt_str
  gh_content_id :: apt_str
  gh_content_base :: apt_str
  gh_content_encoding :: apt_str
  gh_content_location :: apt_str
  gh_content_length :: "64 word"
  gh_cache_control :: apt_str
  gh_logging_tag :: apt_str
  gh_vendor_specific_params :: "apt_pair_arr option"
  gh_accept :: apt_str
  gh_fetch_timeout :: "64 word"
  gh_set_cookie :: apt_str
  gh_set_cookie2 :: apt_str

fun id_list_loop :: "nat \<Rightarrow> apt_text_stream \<Rightarrow> request_id list" where
  "id_list_loop 0 s = []"
| "id_list_loop (Suc n) s =
     (case apt_text_field_read s (CHR '','') True of (ok, field, s) \<Rightarrow>
        if \<not> ok then [] else mrcp_request_id_parse field # id_list_loop n s)"

definition mrcp_request_id_list_parse :: "apt_str \<Rightarrow> request_id list" where
  "mrcp_request_id_list_parse value = id_list_loop MAX_ACTIVE_REQUEST_ID_COUNT (stream_of_str value)"

text \<open>The loop that prints the identifiers into the block \<open>m\<close> of \<open>len + 1\<close> bytes.\<close>

fun id_list_write ::
  "apr \<Rightarrow> nat \<Rightarrow> request_id list \<Rightarrow> bool \<Rightarrow> nat \<Rightarrow> char list \<Rightarrow> fault + bool \<times> char list" where
  "id_list_write A len [] first pos m = sbind (mem_write pos [NUL] m) (\<lambda>m. Inr (True, m))"
| "id_list_write A len (i # is) first pos m =
     sbind (if first then Inr (pos, m) else sbind (mem_write pos '','' m) (\<lambda>m. Inr (pos + 1, m))) (\<lambda>(pos, m).
       case apr_snprintf A (size_diff len pos) (sint i) of (stored, ret) \<Rightarrow>
         sbind (mem_write pos stored m) (\<lambda>m.
           if ret < 0 then Inr (False, m) else id_list_write A len is False (pos + nat ret) m))"

definition mrcp_request_id_list_generate :: "apr \<Rightarrow> request_id list \<Rightarrow> fault + bool \<times> apt_str" where
  "mrcp_request_id_list_generate A ids =
     (let len = 10 * length ids + (if length ids > 1 then length ids - 1 else 0)
      in sbind (id_list_write A len ids True 0 (apr_palloc A (len + 1))) (\<lambda>(ok, m).
           Inr (ok, \<lparr>str_buf = Some m, str_length = len\<rparr>)))"

definition mrcp_generic_header_init :: generic_header where
  "mrcp_generic_header_init =
     \<lparr>gh_active_request_id_list = [], gh_proxy_sync_id = apt_string_reset,
      gh_accept_charset = apt_string_reset, gh_content_type = apt_string_reset,
      gh_content_id = apt_string_reset, gh_content_base = apt_string_reset,
      gh_content_encoding = apt_string_reset, gh_content_location = apt_string_reset,
      gh_content_length = 0, gh_cache_control = apt_string_reset,
      gh_logging_tag = apt_string_reset, gh_vendor_specific_params = None,
      gh_accept = apt_string_reset, gh_fetch_timeout = 0, gh_set_cookie = apt_string_reset,
      gh_set_cookie2 = apt_string_reset\<rparr>"

definition mrcp_generic_header_parse ::
  "apr \<Rightarrow> nat \<Rightarrow> apt_str \<Rightarrow> generic_header \<Rightarrow> bool \<times> generic_header" where
  "mrcp_generic_header_parse A i v gh =
     (if i = GENERIC_HEADER_ACTIVE_REQUEST_ID_LIST
      then (True, gh\<lparr>gh_active_request_id_list := mrcp_request_id_list_parse v\<rparr>)
      else if i = GENERIC_HEADER_PROXY_SYNC_ID then (True, gh\<lparr>gh_proxy_sync_id := v\<rparr>)
      else if i = GENERIC_HEADER_ACCEPT_CHARSET then (True, gh\<lparr>gh_accept_charset := v\<rparr>)
      else if i = GENERIC_HEADER_CONTENT_TYPE then (True, gh\<lparr>gh_content_type := v\<rparr>)
      else if i = GENERIC_HEADER_CONTENT_ID then (True, gh\<lparr>gh_content_id := v\<rparr>)
      else if i = GENERIC_HEADER_CONTENT_BASE then (True, gh\<lparr>gh_content_base := v\<rparr>)
      else if i = GENERIC_HEADER_CONTENT_ENCODING then (True, gh\<lparr>gh_content_encoding := v\<rparr>)
      else if i = GENERIC_HEADER_CONTENT_LOCATION then (True, gh\<lparr>gh_content_location := v\<rparr>)
      else if i = GENERIC_HEADER_CONTENT_LENGTH
      then (True, gh\<lparr>gh_content_length := apt_size_value_parse v\<rparr>)
      else if i = GENERIC_HEADER_CACHE_CONTROL then (True, gh\<lparr>gh_cache_control := v\<rparr>)
      else if i = GENERIC_HEADER_LOGGING_TAG then (True, gh\<lparr>gh_logging_tag := v\<rparr>)
      else if i = GENERIC_HEADER_VENDOR_SPECIFIC_PARAMS
      then let arr = (case gh_vendor_specific_params gh of
                        None \<Rightarrow> Some apt_pair_array_create | Some arr \<Rightarrow> Some arr)
           in (True, gh\<lparr>gh_vendor_specific_params := fst (apt_pair_array_parse A arr (Some v))\<rparr>)
      else if i = GENERIC_HEADER_ACCEPT then (True, gh\<lparr>gh_accept := v\<rparr>)
      else if i = GENERIC_HEADER_FETCH_TIMEOUT
      then (True, gh\<lparr>gh_fetch_timeout := apt_size_value_parse v\<rparr>)
      else if i = GENERIC_HEADER_SET_COOKIE then (True, gh\<lparr>gh_set_cookie := v\<rparr>)
      else if i = GENERIC_HEADER_SET_COOKIE2 then (True, gh\<lparr>gh_set_cookie2 := v\<rparr>)
      else (False, gh))"

definition mrcp_generic_header_generate ::
  "apr \<Rightarrow> nat \<Rightarrow> generic_header \<Rightarrow> apt_str \<Rightarrow> fault + bool \<times> apt_str" where
  "mrcp_generic_header_generate A i gh v =
     (if i = GENERIC_HEADER_ACTIVE_REQUEST_ID_LIST
      then sbind (mrcp_request_id_list_generate A (gh_active_request_id_list gh)) (\<lambda>(_, v). Inr (True, v))
      else if i = GENERIC_HEADER_PROXY_SYNC_ID then Inr (True, gh_proxy_sync_id gh)
      else if i = GENERIC_HEADER_ACCEPT_CHARSET then Inr (True, gh_accept_charset gh)
      else if i = GENERIC_HEADER_CONTENT_TYPE then Inr (True, gh_content_type gh)
      else if i = GENERIC_HEADER_CONTENT_ID then Inr (True, gh_content_id gh)
      else if i = GENERIC_HEADER_CONTENT_BASE then Inr (True, gh_content_base gh)
      else if i = GENERIC_HEADER_CONTENT_ENCODING then Inr (True, gh_content_encoding gh)
      else if i = GENERIC_HEADER_CONTENT_LOCATION then Inr (True, gh_content_location gh)
      else if i = GENERIC_HEADER_CONTENT_LENGTH
      then Inr (True, apt_size_value_generate A (gh_content_length gh))
      else if i = GENERIC_HEADER_CACHE_CONTROL then Inr (True, gh_cache_control gh)
      else if i = GENERIC_HEADER_LOGGING_TAG then Inr (True, gh_logging_tag gh)
      else if i = GENERIC_HEADER_VENDOR_SPECIFIC_PARAMS
      then sbind (apt_pair_array_generate A (gh_vendor_specific_params gh) v) (\<lambda>(_, v). Inr (True, v))
      else if i = GENERIC_HEADER_ACCEPT then Inr (True, gh_accept gh)
      else if i = GENERIC_HEADER_FETCH_TIMEOUT
      then Inr (True, apt_size_value_generate A (gh_fetch_timeout gh))
      else if i = GENERIC_HEADER_SET_COOKIE then Inr (True, gh_set_cookie gh)
      else if i = GENERIC_HEADER_SET_COOKIE2 then Inr (True, gh_set_cookie2 gh)
      else Inr (True, v))"

text \<open>The \<open>switch\<close> of \<open>mrcp_generic_header_duplicate\<close>, both headers present.\<close>

definition generic_field_duplicate ::
  "nat \<Rightarrow> generic_header \<Rightarrow> apt_str \<Rightarrow> generic_header \<Rightarrow> bool \<times> generic_header" where
  "generic_field_duplicate i src v gh =
     (if i = GENERIC_HEADER_ACTIVE_REQUEST_ID_LIST then (True, gh)
      else if i = GENERIC_HEADER_PROXY_SYNC_ID then (True, gh\<lparr>gh_proxy_sync_id := v\<rparr>)
      else if i = GENERIC_HEADER_ACCEPT_CHARSET then (True, gh\<lparr>gh_accept_charset := v\<rparr>)
      else if i = GENERIC_HEADER_CONTENT_TYPE then (True, gh\<lparr>gh_content_type := v\<rparr>)
      else if i = GENERIC_HEADER_CONTENT_ID then (True, gh\<lparr>gh_content_id := v\<rparr>)
      else if i = GENERIC_HEADER_CONTENT_BASE then (True, gh\<lparr>gh_content_base := v\<rparr>)
      else if i = GENERIC_HEADER_CONTENT_ENCODING then (True, gh\<lparr>gh_content_encoding := v\<rparr>)
      else if i = GENERIC_HEADER_CONTENT_LOCATION then (True, gh\<lparr>gh_content_location := v\<rparr>)
      else if i = GENERIC_HEADER_CONTENT_LENGTH
      then (True, gh\<lparr>gh_content_length := gh_content_length src\<rparr>)
      else if i = GENERIC_HEADER_CACHE_CONTROL then (True, gh\<lparr>gh_cache_control := v\<rparr>)
      else if i = GENERIC_HEADER_LOGGING_TAG then (True, gh\<lparr>gh_logging_tag := v\<rparr>)
      else if i = GENERIC_HEADER_VENDOR_SPECIFIC_PARAMS
      then (True, gh\<lparr>gh_vendor_specific_params := apt_pair_array_copy (gh_vendor_specific_params src)\<rparr>)
      else if i = GENERIC_HEADER_ACCEPT then (True, gh\<lparr>gh_accept := v\<rparr>)
      else if i = GENERIC_HEADER_FETCH_TIMEOUT
      then (True, gh\<lparr>gh_fetch_timeout := gh_fetch_timeout src\<rparr>)
      else if i = GENERIC_HEADER_SET_COOKIE then (True, gh\<lparr>gh_set_cookie := v\<rparr>)
      else if i = GENERIC_HEADER_SET_COOKIE2 then (True, gh\<lparr>gh_set_cookie2 := v\<rparr>)
      else (False, gh))"

definition mrcp_generic_header_duplicate ::
  "nat \<Rightarrow> generic_header option \<Rightarrow> apt_str \<Rightarrow> generic_header option \<Rightarrow>
   bool \<times> generic_header option" where
  "mrcp_generic_header_duplicate i source v target =
     (case (target, source) of
        (Some gh, Some src) \<Rightarrow> map_prod id Some (generic_field_duplicate i src v gh)
      | _ \<Rightarrow> (False, target))"

definition mrcp_generic_header_vtable :: "apr \<Rightarrow> generic_header header_vtable" where
  "mrcp_generic_header_vtable A =
     \<lparr>vt_allocate = mrcp_generic_header_init, vt_parse = mrcp_generic_header_parse A,
      vt_generate = mrcp_generic_header_generate A, vt_duplicate = mrcp_generic_header_duplicate,
      vt_field_table = generic_header_string_table, vt_field_count = GENERIC_HEADER_COUNT\<rparr>"

definition mrcp_generic_header_vtable_get :: "apr \<Rightarrow> mrcp_version \<Rightarrow> generic_header header_vtable" where
  "mrcp_generic_header_vtable_get A version = mrcp_generic_header_vtable A"

definition active_request_id_list_append :: "generic_header \<Rightarrow> request_id \<Rightarrow> bool \<times> generic_header" where
  "active_request_id_list_append gh rid =
     (if length (gh_active_request_id_list gh) \<ge> MAX_ACTIVE_REQUEST_ID_COUNT then (False, gh)
      else (True, gh\<lparr>gh_active_request_id_list := gh_active_request_id_list gh @ [rid]\<rparr>))"

definition active_request_id_list_find :: "generic_header \<Rightarrow> request_id \<Rightarrow> bool" where
  "active_request_id_list_find gh rid = list_ex (\<lambda>i. i = rid) (gh_active_request_id_list gh)"

section \<open>Message headers\<close>

record 'r message_header =
  mh_generic :: "generic_header header_accessor"
  mh_resource :: "'r header_accessor"
  mh_section :: header_section

definition mrcp_message_header_init :: "'r message_header \<Rightarrow> 'r message_header" where
  "mrcp_message_header_init h =
     h\<lparr>mh_generic := mrcp_header_accessor_init, mh_resource := mrcp_header_accessor_init,
       mh_section := apt_header_section_init (mh_section h)\<rparr>"

definition mrcp_message_header_data_alloc ::
  "'r message_header \<Rightarrow> generic_header header_vtable option \<Rightarrow> 'r header_vtable option \<Rightarrow>
   bool \<times> 'r message_header" where
  "mrcp_message_header_data_alloc h gvt rvt =
     (case (gvt, rvt) of
        (Some g, Some r) \<Rightarrow>
          (True, h\<lparr>mh_generic := mrcp_header_allocate \<lparr>acc_data = None, acc_vtable = Some g\<rparr>,
                   mh_resource := mrcp_header_allocate \<lparr>acc_data = None, acc_vtable = Some r\<rparr>,
                   mh_section := snd (apt_header_section_array_alloc (mh_section h)
                                       (vt_field_count g + vt_field_count r))\<rparr>)
      | _ \<Rightarrow> (False, h))"

text \<open>The first argument is what the allocated block holds.\<close>

definition mrcp_message_header_create ::
  "'r message_header \<Rightarrow> generic_header header_vtable option \<Rightarrow> 'r header_vtable option \<Rightarrow>
   'r message_header" where
  "mrcp_message_header_create h gvt rvt =
     snd (mrcp_message_header_data_alloc
            (h\<lparr>mh_section := apt_header_section_init (mh_section h)\<rparr>) gvt rvt)"

text \<open>Both interpretations of a field, the resource first; the identifier is the one in the
  section. The result says whether one of them accepted the field.\<close>

definition field_value_interpret ::
  "'r message_header \<Rightarrow> nat \<Rightarrow> fault + (bool \<times> bool) \<times> 'r message_header" where
  "field_value_interpret h a =
     sbind (mrcp_header_field_value_parse (mh_resource h) (hs_field (mh_section h) a)) (\<lambda>(ok, r, f).
       if ok
       then Inr ((True, False), h\<lparr>mh_resource := r,
              mh_section := hs_update (mh_section h) a (f\<lparr>hf_id := hf_id f + GENERIC_HEADER_COUNT\<rparr>)\<rparr>)
       else sbind (mrcp_header_field_value_parse (mh_generic h) f) (\<lambda>(ok, g, f).
              Inr ((False, ok), h\<lparr>mh_generic := g, mh_resource := r,
                     mh_section := hs_update (mh_section h) a f\<rparr>)))"

definition mrcp_header_field_add :: "'r message_header \<Rightarrow> nat \<Rightarrow> fault + bool \<times> 'r message_header" where
  "mrcp_header_field_add h a =
     (if apt_string_is_empty (hf_name (hs_field (mh_section h) a)) then Inr (False, h)
      else sbind (field_value_interpret h a) (\<lambda>((_, generic), h).
             let h = (if generic
                      then h\<lparr>mh_section := snd (apt_header_section_field_add (mh_section h) a)\<rparr> else h)
             in case apt_header_section_field_add (mh_section h) a of (ok, sec) \<Rightarrow>
                  Inr (ok, h\<lparr>mh_section := sec\<rparr>)))"

fun header_fields_parse_loop :: "nat list \<Rightarrow> 'r message_header \<Rightarrow> fault + 'r message_header" where
  "header_fields_parse_loop [] h = Inr h"
| "header_fields_parse_loop (a # ring) h =
     sbind (field_value_interpret h a) (\<lambda>((resource, generic), h).
       header_fields_parse_loop ring
         (if resource \<or> generic
          then h\<lparr>mh_section := snd (apt_header_section_field_set (mh_section h) a)\<rparr> else h))"

definition mrcp_header_fields_parse :: "'r message_header \<Rightarrow> fault + 'r message_header" where
  "mrcp_header_fields_parse h = header_fields_parse_loop (hs_ring (mh_section h)) h"

definition mrcp_header_accessor_value_duplicate ::
  "'r message_header \<Rightarrow> header_field \<Rightarrow> 'r message_header \<Rightarrow> 'r message_header" where
  "mrcp_header_accessor_value_duplicate h f src =
     (if hf_id f < GENERIC_HEADER_COUNT
      then h\<lparr>mh_generic := snd (mrcp_header_field_value_duplicate (mh_generic h) (mh_generic src)
                               (hf_id f) (hf_value f))\<rparr>
      else h\<lparr>mh_resource := snd (mrcp_header_field_value_duplicate (mh_resource h) (mh_resource src)
                               (hf_id f - GENERIC_HEADER_COUNT) (hf_value f))\<rparr>)"

text \<open>The loops of the next three functions run over the ring of another header, which they
  do not change: they are given its fields in ring order.\<close>

definition header_field_set_step :: "'r message_header \<Rightarrow> 'r message_header \<Rightarrow> header_field \<Rightarrow> 'r message_header" where
  "header_field_set_step src h sf =
     (case apt_header_section_field_get (mh_section h) (hf_id sf) of
        Some a \<Rightarrow>
          let f = (hs_field (mh_section h) a)\<lparr>hf_value := apt_string_copy (hf_value sf)\<rparr>;
              h = h\<lparr>mh_section := hs_update (mh_section h) a f\<rparr>
          in mrcp_header_accessor_value_duplicate h f src
      | None \<Rightarrow>
          let f = apt_header_field_copy sf;
              h = h\<lparr>mh_section := snd (hs_put (mh_section h) f)\<rparr>
          in mrcp_header_accessor_value_duplicate h f src)"

definition mrcp_header_fields_set :: "'r message_header \<Rightarrow> 'r message_header \<Rightarrow> 'r message_header" where
  "mrcp_header_fields_set h src = foldl (header_field_set_step src) h (hs_listing (mh_section src))"

definition header_field_get_step :: "'r message_header \<Rightarrow> 'r message_header \<Rightarrow> header_field \<Rightarrow> 'r message_header" where
  "header_field_get_step src h mf =
     (case apt_header_section_field_get (mh_section h) (hf_id mf) of
        Some _ \<Rightarrow> h
      | None \<Rightarrow>
          (case apt_header_section_field_get (mh_section src) (hf_id mf) of
             Some a \<Rightarrow>
               let f = apt_header_field_copy (hs_field (mh_section src) a);
                   h = mrcp_header_accessor_value_duplicate h f src
               in h\<lparr>mh_section := snd (hs_put (mh_section h) f)\<rparr>
           | None \<Rightarrow> h\<lparr>mh_section := snd (hs_put (mh_section h) (apt_header_field_copy mf))\<rparr>))"

definition mrcp_header_fields_get ::
  "'r message_header \<Rightarrow> 'r message_header \<Rightarrow> 'r message_header \<Rightarrow> 'r message_header" where
  "mrcp_header_fields_get h src msk =
     foldl (header_field_get_step src) h (hs_listing (mh_section msk))"

definition header_field_inherit_step ::
  "'r message_header \<Rightarrow> 'r message_header \<Rightarrow> header_field \<Rightarrow> 'r message_header" where
  "header_field_inherit_step src h sf =
     (case apt_header_section_field_get (mh_section h) (hf_id sf) of
        Some _ \<Rightarrow> h
      | None \<Rightarrow>
          let f = apt_header_field_copy sf;
              h = mrcp_header_accessor_value_duplicate h f src
          in h\<lparr>mh_section := snd (hs_put (mh_section h) f)\<rparr>)"

definition mrcp_header_fields_inherit :: "'r message_header \<Rightarrow> 'r message_header \<Rightarrow> 'r message_header" where
  "mrcp_header_fields_inherit h src =
     foldl (header_field_inherit_step src) h (hs_listing (mh_section src))"

section \<open>The channel identifier\<close>

definition MRCP_CHANNEL_ID :: "char list" where "MRCP_CHANNEL_ID = ''Channel-Identifier''"

record mrcp_channel_id =
  ch_session_id :: apt_str
  ch_resource_name :: apt_str

definition mrcp_channel_id_init :: mrcp_channel_id where
  "mrcp_channel_id_init = \<lparr>ch_session_id = apt_string_reset, ch_resource_name = apt_string_reset\<rparr>"

fun channel_id_loop ::
  "nat list \<Rightarrow> mrcp_channel_id \<Rightarrow> header_section \<Rightarrow> fault + bool \<times> mrcp_channel_id \<times> header_section" where
  "channel_id_loop [] ch h = Inr (False, ch, h)"
| "channel_id_loop (a # ring) ch h =
     (let f = hs_field h a
      in if str_length (hf_value f) \<noteq> 0 \<and> str_buf (hf_name f) = None then Inl NullDeref
         else if str_length (hf_value f) \<noteq> 0 \<and>
            strncasecmp_eq (str_mem (hf_name f)) (MRCP_CHANNEL_ID @ [NUL]) (length MRCP_CHANNEL_ID)
         then sbind (apt_id_resource_parse (hf_value f) (CHR ''@'')) (\<lambda>res.
                let ch = (case res of
                            Some (i, r) \<Rightarrow> ch\<lparr>ch_session_id := i, ch_resource_name := r\<rparr>
                          | None \<Rightarrow> ch)
                in Inr (True, ch, snd (apt_header_section_field_remove h a)))
         else channel_id_loop ring ch h)"

definition mrcp_channel_id_parse ::
  "mrcp_channel_id \<Rightarrow> 'r message_header \<Rightarrow> fault + bool \<times> mrcp_channel_id \<times> 'r message_header" where
  "mrcp_channel_id_parse ch h =
     sbind (channel_id_loop (hs_ring (mh_section h)) ch (mh_section h)) (\<lambda>(ok, ch, sec).
       Inr (ok, ch, h\<lparr>mh_section := sec\<rparr>))"

definition mrcp_channel_id_generate ::
  "mrcp_channel_id \<Rightarrow> apt_text_stream \<Rightarrow> fault + bool \<times> apt_text_stream" where
  "mrcp_channel_id_generate ch s =
     (if ts_pos s + length MRCP_CHANNEL_ID + 2 + str_length (ch_session_id ch) + 1 +
         str_length (ch_resource_name ch) \<ge> ts_end s then Inr (False, s)
      else sbind (ts_write s (MRCP_CHANNEL_ID @ [CHR '':'', APT_TOKEN_SP])) (\<lambda>s.
           sbind (ts_write_str s (ch_session_id ch)) (\<lambda>s.
           sbind (ts_write s ''@'') (\<lambda>s.
           sbind (ts_write_str s (ch_resource_name ch)) apt_text_eol_insert))))"

section \<open>Copying header fields\<close>

interpretation generic_names: string_table generic_header_string_table GENERIC_HEADER_COUNT
  by unfold_locales
    (simp_all add: generic_header_string_table_def table_item_def item_ok_def item_fold_def str_wf_def
      str_bytes_def tolower_def)

lemma section_accessor_duplicate [simp]:
  "mh_section (mrcp_header_accessor_value_duplicate h f src) = mh_section h"
  by (simp add: mrcp_header_accessor_value_duplicate_def)

lemma hf_id_copy [simp]: "hf_id (apt_header_field_copy f) = hf_id f"
  by (simp add: apt_header_field_copy_def)

lemma lookup_None_iff: "hs_lookup h i = None \<longleftrightarrow> apt_header_section_field_get h i = None"
  by (simp add: hs_lookup_def)

text \<open>What the answer to a GET-PARAMS holds for a field of the request.\<close>

definition answer_field :: "header_section \<Rightarrow> header_field \<Rightarrow> header_field" where
  "answer_field src mf =
     apt_header_field_copy (case hs_lookup src (hf_id mf) of Some f \<Rightarrow> f | None \<Rightarrow> mf)"

lemma hf_id_answer: "hs_wf src \<Longrightarrow> hf_id (answer_field src mf) = hf_id mf"
  using hsc.lookup_id [of src "hf_id mf"] by (auto simp: answer_field_def split: option.split)

lemma inherit_step_section:
  "mh_section (header_field_inherit_step src h f) =
    (if hs_lookup (mh_section h) (hf_id f) \<noteq> None then mh_section h
     else snd (hs_put (mh_section h) (apt_header_field_copy f)))"
  by (auto simp: header_field_inherit_step_def hs_lookup_def Let_def split: option.split)

lemma inherit_section:
  "mh_section (foldl (header_field_inherit_step src) h fs) =
     hsc.put_missing apt_header_field_copy fs (mh_section h)"
  by (induction fs arbitrary: h) (simp_all add: inherit_step_section)

lemma get_step_section:
  "mh_section (header_field_get_step src h f) =
    (if hs_lookup (mh_section h) (hf_id f) \<noteq> None then mh_section h
     else snd (hs_put (mh_section h) (answer_field (mh_section src) f)))"
  by (auto simp: header_field_get_step_def answer_field_def hs_lookup_def Let_def split: option.split)

lemma get_section:
  "mh_section (foldl (header_field_get_step src) h fs) =
     hsc.put_missing (answer_field (mh_section src)) fs (mh_section h)"
  by (induction fs arbitrary: h) (simp_all add: get_step_section)

text \<open>Setting a field either replaces the value of the field that is there or adds a copy.\<close>

definition set_field :: "header_field \<Rightarrow> header_field option \<Rightarrow> header_field" where
  "set_field sf old =
     (case old of Some f \<Rightarrow> f\<lparr>hf_value := apt_string_copy (hf_value sf)\<rparr> | None \<Rightarrow> apt_header_field_copy sf)"

lemma get_SomeD:
  assumes "hs_wf h" and "apt_header_section_field_get h i = Some a"
  shows "i < length (hs_arr h) \<and> a < length (hs_fields h) \<and> hf_id (hs_field h a) = i"
proof -
  have "i < length (hs_arr h)" "hs_arr h ! i = Some a"
    using assms(2) by (auto simp: apt_header_section_field_get_def split: if_splits)
  then show ?thesis using assms(1) unfolding hs_wf_def by blast
qed

lemma field_get_update [simp]:
  "apt_header_section_field_get (hs_update h a f) i = apt_header_section_field_get h i"
  by (simp add: apt_header_section_field_get_def hs_update_def)

lemma lookup_update:
  assumes "hs_wf h" and "apt_header_section_field_get h j = Some a" and "hf_id f = j"
  shows "hs_lookup (hs_update h a f) i = (if i = j then Some f else hs_lookup h i)"
proof (cases "apt_header_section_field_get h i")
  case None
  then have "i \<noteq> j" using assms(2) by auto
  with None show ?thesis by (simp add: hs_lookup_def)
next
  case (Some b)
  have a: "a < length (hs_fields h)" "hf_id (hs_field h a) = j" using get_SomeD [OF assms(1,2)] by blast+
  have b: "hf_id (hs_field h b) = i" using get_SomeD [OF assms(1) Some] by blast
  show ?thesis
  proof (cases "i = j")
    case True
    then have "b = a" using Some assms(2) by simp
    with True Some a(1) show ?thesis by (simp add: hs_lookup_def hs_field_update)
  next
    case False
    then have "b \<noteq> a" using a(2) b by blast
    with False Some a(1) show ?thesis by (simp add: hs_lookup_def hs_field_update)
  qed
qed

lemma set_step_section:
  assumes "hs_wf (mh_section h)"
  shows "hs_wf (mh_section (header_field_set_step src h sf)) \<and>
    length (hs_arr (mh_section (header_field_set_step src h sf))) = length (hs_arr (mh_section h)) \<and>
    (i < length (hs_arr (mh_section h)) \<longrightarrow>
     hs_lookup (mh_section (header_field_set_step src h sf)) i =
      (if i = hf_id sf then Some (set_field sf (hs_lookup (mh_section h) i)) else hs_lookup (mh_section h) i))"
proof (cases "apt_header_section_field_get (mh_section h) (hf_id sf)")
  case None
  then have n: "hs_lookup (mh_section h) (hf_id sf) = None" by (simp add: lookup_None_iff)
  show ?thesis
    using None n assms hsc.put_bound [of "mh_section h"]
    by (auto simp: header_field_set_step_def Let_def hsc.put_inv hsc.lookup_put set_field_def)
next
  case (Some a)
  let ?f = "(hs_field (mh_section h) a)\<lparr>hf_value := apt_string_copy (hf_value sf)\<rparr>"
  have id: "hf_id ?f = hf_id sf" using get_SomeD [OF assms Some] by simp
  have "mh_section (header_field_set_step src h sf) = hs_update (mh_section h) a ?f"
    using Some by (simp add: header_field_set_step_def Let_def)
  moreover have "hs_wf (hs_update (mh_section h) a ?f)" using assms by (intro hs_wf_update_value) simp_all
  moreover have "hs_lookup (mh_section h) (hf_id sf) = Some (hs_field (mh_section h) a)"
    using Some by (simp add: hs_lookup_def)
  ultimately show ?thesis
    using lookup_update [OF assms Some id, of i] by (simp add: set_field_def hs_update_def)
qed

text \<open>The value of the last field with an identifier, if there is one.\<close>

definition last_value :: "header_field list \<Rightarrow> nat \<Rightarrow> apt_str option" where
  "last_value fs i = map_option hf_value (find (\<lambda>f. hf_id f = i) (rev fs))"

lemma find_append: "find P (xs @ ys) = (case find P xs of Some x \<Rightarrow> Some x | None \<Rightarrow> find P ys)"
  by (induction xs) auto

lemma last_value_Cons:
  "last_value (f # fs) i =
     (case last_value fs i of Some v \<Rightarrow> Some v | None \<Rightarrow> if hf_id f = i then Some (hf_value f) else None)"
  by (auto simp: last_value_def find_append split: option.split)

lemma set_section:
  "hs_wf (mh_section h) \<Longrightarrow>
   hs_wf (mh_section (foldl (header_field_set_step src) h fs)) \<and>
   length (hs_arr (mh_section (foldl (header_field_set_step src) h fs))) = length (hs_arr (mh_section h)) \<and>
   (i < length (hs_arr (mh_section h)) \<longrightarrow>
    map_option hf_value (hs_lookup (mh_section (foldl (header_field_set_step src) h fs)) i) =
      (case last_value fs i of Some v \<Rightarrow> Some (apt_string_copy v)
       | None \<Rightarrow> map_option hf_value (hs_lookup (mh_section h) i)))"
proof (induction fs arbitrary: h)
  case Nil
  then show ?case by (simp add: last_value_def)
next
  case (Cons f fs)
  have v: "hf_value (set_field f old) = apt_string_copy (hf_value f)" for old
    by (simp add: set_field_def apt_header_field_copy_def split: option.split)
  show ?case
    using set_step_section [OF Cons.prems, of src f i] Cons.IH [of "header_field_set_step src h f"]
    by (simp add: last_value_Cons v split: option.split)
qed

section \<open>Interpreting the fields of a message\<close>

abbreviation generic_field_id :: "header_field \<Rightarrow> nat" where
  "generic_field_id f \<equiv> apt_string_table_id_find generic_header_string_table GENERIC_HEADER_COUNT (hf_name f)"

abbreviation resource_field_id :: "'r header_vtable \<Rightarrow> header_field \<Rightarrow> nat" where
  "resource_field_id vt f \<equiv> apt_string_table_id_find (vt_field_table vt) (vt_field_count vt) (hf_name f)"

text \<open>A header whose data are allocated, for a resource whose field names are not generic ones.\<close>

definition header_ready :: "apr \<Rightarrow> 'r header_vtable \<Rightarrow> 'r message_header \<Rightarrow> bool" where
  "header_ready A vt h \<longleftrightarrow>
     acc_vtable (mh_generic h) = Some (mrcp_generic_header_vtable A) \<and> acc_data (mh_generic h) \<noteq> None \<and>
     acc_vtable (mh_resource h) = Some vt \<and> acc_data (mh_resource h) \<noteq> None"

definition names_disjoint :: "'r header_vtable \<Rightarrow> bool" where
  "names_disjoint vt \<longleftrightarrow>
     (\<forall>name. apt_string_table_id_find (vt_field_table vt) (vt_field_count vt) name < vt_field_count vt \<longrightarrow>
        apt_string_table_id_find generic_header_string_table GENERIC_HEADER_COUNT name \<ge> GENERIC_HEADER_COUNT)"

definition generic_step :: "apr \<Rightarrow> header_field \<Rightarrow> generic_header \<Rightarrow> generic_header" where
  "generic_step A f gh =
     (if generic_field_id f < GENERIC_HEADER_COUNT \<and> str_length (hf_value f) \<noteq> 0
      then snd (mrcp_generic_header_parse A (generic_field_id f) (hf_value f) gh) else gh)"

lemma generic_parse_ok: "i < GENERIC_HEADER_COUNT \<Longrightarrow> fst (mrcp_generic_header_parse A i v gh)"
  by (simp add: mrcp_generic_header_parse_def Let_def) arith

lemma generic_value_parse:
  assumes "acc_vtable acc = Some (mrcp_generic_header_vtable A)" and "acc_data acc = Some g"
  shows "mrcp_header_field_value_parse acc f =
    Inr (generic_field_id f < GENERIC_HEADER_COUNT, acc\<lparr>acc_data := Some (generic_step A f g)\<rparr>,
         if generic_field_id f < GENERIC_HEADER_COUNT then f\<lparr>hf_id := generic_field_id f\<rparr> else f)"
proof -
  have same: "acc\<lparr>acc_data := Some g\<rparr> = acc" using assms(2) by simp
  show ?thesis
    using assms generic_parse_ok [of "generic_field_id f" A "hf_value f" g]
    by (cases "generic_field_id f < GENERIC_HEADER_COUNT"; cases "str_length (hf_value f) = 0";
        cases "mrcp_generic_header_parse A (generic_field_id f) (hf_value f) g")
      (simp_all add: mrcp_header_field_value_parse_def mrcp_generic_header_vtable_def generic_step_def same
        not_less Let_def)
qed

lemma resource_value_parse:
  assumes "acc_vtable acc = Some vt" and "acc_data acc \<noteq> None"
  shows "\<exists>ok acc' i. mrcp_header_field_value_parse acc f = Inr (ok, acc', f\<lparr>hf_id := i\<rparr>) \<and>
    acc_vtable acc' = Some vt \<and> acc_data acc' \<noteq> None \<and>
    (ok \<longrightarrow> i = resource_field_id vt f \<and> i < vt_field_count vt)"
proof -
  obtain d where d: "acc_data acc = Some d" using assms(2) by blast
  obtain ok d' where p: "vt_parse vt (resource_field_id vt f) (hf_value f) d = (ok, d')" by fastforce
  consider "vt_field_count vt \<le> resource_field_id vt f"
    | "resource_field_id vt f < vt_field_count vt" "str_length (hf_value f) = 0"
    | "resource_field_id vt f < vt_field_count vt" "str_length (hf_value f) \<noteq> 0"
    by fastforce
  then show ?thesis
  proof cases
    case 1
    then have "mrcp_header_field_value_parse acc f = Inr (False, acc, f\<lparr>hf_id := hf_id f\<rparr>)"
      using assms(1) by (simp add: mrcp_header_field_value_parse_def)
    then show ?thesis using assms by blast
  next
    case 2
    then have "mrcp_header_field_value_parse acc f = Inr (True, acc, f\<lparr>hf_id := resource_field_id vt f\<rparr>)"
      using assms(1) by (simp add: mrcp_header_field_value_parse_def)
    then show ?thesis using 2 assms by blast
  next
    case 3
    then have "mrcp_header_field_value_parse acc f =
        Inr (ok, acc\<lparr>acc_data := Some d'\<rparr>, f\<lparr>hf_id := resource_field_id vt f\<rparr>)"
      using assms(1) d p by (simp add: mrcp_header_field_value_parse_def Let_def)
    then show ?thesis using 3 assms(1) by auto
  qed
qed

lemma interpret_field:
  assumes "header_ready A vt h" and "names_disjoint vt" and "acc_data (mh_generic h) = Some g"
  shows "\<exists>res r' i. let f = hs_field (mh_section h) a in
    field_value_interpret h a =
      Inr ((res, generic_field_id f < GENERIC_HEADER_COUNT),
           h\<lparr>mh_generic := (mh_generic h)\<lparr>acc_data := Some (generic_step A f g)\<rparr>, mh_resource := r',
             mh_section := hs_update (mh_section h) a (f\<lparr>hf_id := i\<rparr>)\<rparr>) \<and>
    acc_vtable r' = Some vt \<and> acc_data r' \<noteq> None \<and>
    (generic_field_id f < GENERIC_HEADER_COUNT \<longrightarrow> i = generic_field_id f \<and> \<not> res) \<and>
    (res \<longrightarrow> i = resource_field_id vt f + GENERIC_HEADER_COUNT \<and> resource_field_id vt f < vt_field_count vt)"
proof -
  let ?f = "hs_field (mh_section h) a"
  have r: "acc_vtable (mh_resource h) = Some vt" "acc_data (mh_resource h) \<noteq> None"
    and g: "acc_vtable (mh_generic h) = Some (mrcp_generic_header_vtable A)"
    using assms(1) by (auto simp: header_ready_def)
  obtain ok r' i where p: "mrcp_header_field_value_parse (mh_resource h) ?f = Inr (ok, r', ?f\<lparr>hf_id := i\<rparr>)"
    "acc_vtable r' = Some vt" "acc_data r' \<noteq> None"
    "ok \<Longrightarrow> i = resource_field_id vt ?f \<and> i < vt_field_count vt"
    using resource_value_parse [OF r, of ?f] by blast
  show ?thesis
  proof (cases ok)
    case True
    then have d: "\<not> generic_field_id ?f < GENERIC_HEADER_COUNT"
      using p(4) assms(2) unfolding names_disjoint_def by (metis not_less)
    have "generic_step A ?f g = g" using d by (simp add: generic_step_def)
    then have "field_value_interpret h a =
        Inr ((True, False), h\<lparr>mh_generic := (mh_generic h)\<lparr>acc_data := Some (generic_step A ?f g)\<rparr>,
          mh_resource := r', mh_section := hs_update (mh_section h) a (?f\<lparr>hf_id := i + GENERIC_HEADER_COUNT\<rparr>)\<rparr>)"
      using p(1) True assms(3) by (simp add: field_value_interpret_def)
    then show ?thesis using p True d by (simp add: Let_def) blast
  next
    case False
    let ?j = "if generic_field_id ?f < GENERIC_HEADER_COUNT then generic_field_id ?f else i"
    have "field_value_interpret h a =
        Inr ((False, generic_field_id ?f < GENERIC_HEADER_COUNT),
          h\<lparr>mh_generic := (mh_generic h)\<lparr>acc_data := Some (generic_step A ?f g)\<rparr>,
          mh_resource := r', mh_section := hs_update (mh_section h) a (?f\<lparr>hf_id := ?j\<rparr>)\<rparr>)"
      using p(1) False by (simp add: field_value_interpret_def generic_value_parse [OF g assms(3)] generic_step_def)
    then show ?thesis using p(2,3) by (auto simp: Let_def)
  qed
qed

text \<open>Giving a field that no entry of the array refers to an identifier, and entering it.\<close>

lemma hs_wf_update_free:
  assumes "hs_wf h" and "\<And>j. apt_header_section_field_get h j \<noteq> Some a"
  shows "hs_wf (hs_update h a f)"
proof -
  have "a \<noteq> b" if "i < length (hs_arr h)" "hs_arr h ! i = Some b" for i b
    using assms(2) [of i] that by (auto simp: apt_header_section_field_get_def)
  then show ?thesis using assms(1) by (auto simp: hs_wf_def hs_update_def hs_field_def nth_list_update_neq)
qed

definition same_fields :: "header_section \<Rightarrow> header_section \<Rightarrow> bool" where
  "same_fields h h' \<longleftrightarrow> hs_ring h' = hs_ring h \<and> length (hs_arr h') = length (hs_arr h) \<and>
     (\<forall>a. hf_name (hs_field h' a) = hf_name (hs_field h a) \<and> hf_value (hs_field h' a) = hf_value (hs_field h a))"

lemma same_fields_refl [simp]: "same_fields h h"
  by (simp add: same_fields_def)

lemma same_fields_trans: "same_fields h h' \<Longrightarrow> same_fields h' h'' \<Longrightarrow> same_fields h h''"
  by (simp add: same_fields_def)

lemma same_fields_listing:
  "same_fields h h' \<Longrightarrow> map field_view (hs_listing h') = map field_view (hs_listing h)"
  by (simp add: same_fields_def hs_listing_def field_view_def)

lemma same_fields_id: "same_fields h (hs_update h a ((hs_field h a)\<lparr>hf_id := i\<rparr>))"
  by (cases "a < length (hs_fields h)")
    (auto simp: same_fields_def hs_update_def hs_field_def nth_list_update list_update_beyond)

lemma same_fields_set: "same_fields h (snd (apt_header_section_field_set h a))"
  by (simp add: same_fields_def apt_header_section_field_set_def hs_field_def Let_def)

lemma enter_field:
  fixes h :: header_section and i :: nat and acc :: bool
  assumes "hs_wf h" and "a \<in> set (hs_ring h)" and "\<And>j. apt_header_section_field_get h j \<noteq> Some a"
  defines "u \<equiv> hs_update h a ((hs_field h a)\<lparr>hf_id := i\<rparr>)"
  defines "h' \<equiv> if acc then snd (apt_header_section_field_set u a) else u"
  shows "hs_wf h'" and "same_fields h h'"
    and "apt_header_section_field_get h' j =
      (if acc \<and> j = i \<and> i < length (hs_arr h) \<and> apt_header_section_field_get h i = None then Some a
       else apt_header_section_field_get h j)"
proof -
  have u: "hs_wf u" unfolding u_def by (rule hs_wf_update_free [OF assms(1,3)])
  have r: "a \<in> set (hs_ring u)" using assms(2) by (simp add: u_def hs_update_def)
  show "hs_wf h'" using u hs_wf_set [OF u r] by (simp add: h'_def)
  have s: "same_fields h u" unfolding u_def by (rule same_fields_id)
  then show "same_fields h h'" using same_fields_trans [OF s same_fields_set] by (simp add: h'_def)
  have "a < length (hs_fields h)" using assms(1,2) by (simp add: hs_wf_def)
  then have "hf_id (hs_field u a) = i" by (simp add: u_def hs_field_update)
  then show "apt_header_section_field_get h' j =
      (if acc \<and> j = i \<and> i < length (hs_arr h) \<and> apt_header_section_field_get h i = None then Some a
       else apt_header_section_field_get h j)"
    by (auto simp: h'_def apt_header_section_field_set_def Let_def apt_header_section_field_get_def u_def
        hs_update_def nth_list_update)
qed

text \<open>What \<open>mrcp_header_fields_parse\<close> makes of the fields at the addresses \<open>rs\<close>.\<close>

definition fields_interpreted ::
  "apr \<Rightarrow> 'r header_vtable \<Rightarrow> nat list \<Rightarrow> 'r message_header \<Rightarrow> 'r message_header \<Rightarrow> bool" where
  "fields_interpreted A vt rs h h' \<longleftrightarrow>
     header_ready A vt h' \<and> hs_wf (mh_section h') \<and> same_fields (mh_section h) (mh_section h') \<and>
     acc_data (mh_generic h') =
       map_option (\<lambda>g. foldl (\<lambda>g a. generic_step A (hs_field (mh_section h) a) g) g rs) (acc_data (mh_generic h)) \<and>
     (\<forall>i < GENERIC_HEADER_COUNT. apt_header_section_field_get (mh_section h') i =
        (case apt_header_section_field_get (mh_section h) i of Some a \<Rightarrow> Some a
         | None \<Rightarrow> find (\<lambda>a. generic_field_id (hs_field (mh_section h) a) = i) rs))"

lemma fields_interpreted_Cons:
  assumes "same_fields (mh_section h) (mh_section h1)"
    and "acc_data (mh_generic h1) =
      map_option (generic_step A (hs_field (mh_section h) a)) (acc_data (mh_generic h))"
    and "\<And>i. i < GENERIC_HEADER_COUNT \<Longrightarrow> apt_header_section_field_get (mh_section h1) i =
      (if generic_field_id (hs_field (mh_section h) a) = i \<and> apt_header_section_field_get (mh_section h) i = None
       then Some a else apt_header_section_field_get (mh_section h) i)"
    and "fields_interpreted A vt rs h1 h'"
  shows "fields_interpreted A vt (a # rs) h h'"
proof -
  have n: "generic_field_id (hs_field (mh_section h1) b) = generic_field_id (hs_field (mh_section h) b)"
    "generic_step A (hs_field (mh_section h1) b) = generic_step A (hs_field (mh_section h) b)" for b
    using assms(1) by (auto simp: same_fields_def generic_step_def fun_eq_iff)
  show ?thesis
    using assms(2-4) same_fields_trans [OF assms(1)]
    by (auto simp: fields_interpreted_def n option.map_comp comp_def split: option.split)
qed

lemma parse_loop_interprets:
  "header_ready A vt h \<Longrightarrow> names_disjoint vt \<Longrightarrow> hs_wf (mh_section h) \<Longrightarrow> set rs \<subseteq> set (hs_ring (mh_section h)) \<Longrightarrow>
   distinct rs \<Longrightarrow> (\<And>j a. a \<in> set rs \<Longrightarrow> apt_header_section_field_get (mh_section h) j \<noteq> Some a) \<Longrightarrow>
   GENERIC_HEADER_COUNT \<le> length (hs_arr (mh_section h)) \<Longrightarrow>
   \<exists>h'. header_fields_parse_loop rs h = Inr h' \<and> fields_interpreted A vt rs h h'"
proof (induction rs arbitrary: h)
  case Nil
  then show ?case by (cases "acc_data (mh_generic h)") (simp_all add: fields_interpreted_def split: option.split)
next
  case (Cons a rs)
  let ?f = "hs_field (mh_section h) a"
  obtain g where g: "acc_data (mh_generic h) = Some g" using Cons.prems(1) by (auto simp: header_ready_def)
  obtain res r' i where p: "field_value_interpret h a =
      Inr ((res, generic_field_id ?f < GENERIC_HEADER_COUNT),
           h\<lparr>mh_generic := (mh_generic h)\<lparr>acc_data := Some (generic_step A ?f g)\<rparr>, mh_resource := r',
             mh_section := hs_update (mh_section h) a (?f\<lparr>hf_id := i\<rparr>)\<rparr>)"
    "acc_vtable r' = Some vt" "acc_data r' \<noteq> None"
    "generic_field_id ?f < GENERIC_HEADER_COUNT \<Longrightarrow> i = generic_field_id ?f \<and> \<not> res"
    "res \<Longrightarrow> i = resource_field_id vt ?f + GENERIC_HEADER_COUNT \<and> resource_field_id vt ?f < vt_field_count vt"
    using interpret_field [OF Cons.prems(1,2) g, of a] by (auto simp: Let_def)
  let ?acc = "res \<or> generic_field_id ?f < GENERIC_HEADER_COUNT"
  let ?u = "hs_update (mh_section h) a (?f\<lparr>hf_id := i\<rparr>)"
  let ?s = "if ?acc then snd (apt_header_section_field_set ?u a) else ?u"
  let ?h = "h\<lparr>mh_generic := (mh_generic h)\<lparr>acc_data := Some (generic_step A ?f g)\<rparr>, mh_resource := r',
             mh_section := ?s\<rparr>"
  have "a \<in> set (hs_ring (mh_section h))" "\<And>j. apt_header_section_field_get (mh_section h) j \<noteq> Some a"
    using Cons.prems(4,6) by auto
  note e = enter_field [OF Cons.prems(3) this, of ?acc i]
  have loop: "header_fields_parse_loop (a # rs) h = header_fields_parse_loop rs ?h"
    using p(1) by simp
  have sub: "set rs \<subseteq> set (hs_ring ?s)" "GENERIC_HEADER_COUNT \<le> length (hs_arr ?s)"
    using e(2) Cons.prems(4,7) unfolding same_fields_def by auto
  have ready: "header_ready A vt ?h" using Cons.prems(1) p(2,3) by (simp add: header_ready_def)
  have free: "apt_header_section_field_get ?s j \<noteq> Some b" if "b \<in> set rs" for j b
  proof -
    have "b \<noteq> a" "apt_header_section_field_get (mh_section h) j \<noteq> Some b"
      using that Cons.prems(5,6) by auto
    then show ?thesis unfolding e(3) by simp
  qed
  have "\<exists>h'. header_fields_parse_loop rs ?h = Inr h' \<and> fields_interpreted A vt rs ?h h'"
    by (rule Cons.IH) (use ready Cons.prems(2,5) e(1) sub free in simp_all)
  then obtain h' where h': "header_fields_parse_loop rs ?h = Inr h'" "fields_interpreted A vt rs ?h h'" by blast
  have get: "apt_header_section_field_get (mh_section ?h) j =
      (if generic_field_id ?f = j \<and> apt_header_section_field_get (mh_section h) j = None
       then Some a else apt_header_section_field_get (mh_section h) j)" if "j < GENERIC_HEADER_COUNT" for j
  proof -
    have "(?acc \<and> j = i \<and> i < length (hs_arr (mh_section h))) = (generic_field_id ?f = j)"
      using p(4,5) that Cons.prems(7) by auto
    then show ?thesis using e(3) [of j] by (cases "j = i") auto
  qed
  have "fields_interpreted A vt (a # rs) h h'"
    by (rule fields_interpreted_Cons [OF _ _ get h'(2)]) (use e(2) g in simp_all)
  with loop h'(1) show ?case by auto
qed

lemma fields_parse_interprets:
  assumes "header_ready A vt h" and "names_disjoint vt" and "hs_wf (mh_section h)"
    and "hs_arr (mh_section h) = replicate (GENERIC_HEADER_COUNT + vt_field_count vt) None"
  shows "\<exists>h'. mrcp_header_fields_parse h = Inr h' \<and>
    fields_interpreted A vt (hs_ring (mh_section h)) h h'"
proof -
  have "apt_header_section_field_get (mh_section h) j \<noteq> Some a" for j a
    using assms(4) by (simp add: apt_header_section_field_get_def)
  then show ?thesis
    unfolding mrcp_header_fields_parse_def
    by (intro parse_loop_interprets [OF assms(1-3)]) (use assms(3,4) in \<open>simp_all add: hs_wf_def\<close>)
qed

section \<open>Values of the generic header\<close>

datatype generic_value =
    GText apt_str
  | GSize "64 word"
  | GIds "request_id list"
  | GParams "(char list \<times> char list) list"

definition generic_value :: "nat \<Rightarrow> generic_header \<Rightarrow> generic_value" where
  "generic_value i gh =
     (if i = GENERIC_HEADER_ACTIVE_REQUEST_ID_LIST then GIds (gh_active_request_id_list gh)
      else if i = GENERIC_HEADER_PROXY_SYNC_ID then GText (gh_proxy_sync_id gh)
      else if i = GENERIC_HEADER_ACCEPT_CHARSET then GText (gh_accept_charset gh)
      else if i = GENERIC_HEADER_CONTENT_TYPE then GText (gh_content_type gh)
      else if i = GENERIC_HEADER_CONTENT_ID then GText (gh_content_id gh)
      else if i = GENERIC_HEADER_CONTENT_BASE then GText (gh_content_base gh)
      else if i = GENERIC_HEADER_CONTENT_ENCODING then GText (gh_content_encoding gh)
      else if i = GENERIC_HEADER_CONTENT_LOCATION then GText (gh_content_location gh)
      else if i = GENERIC_HEADER_CONTENT_LENGTH then GSize (gh_content_length gh)
      else if i = GENERIC_HEADER_CACHE_CONTROL then GText (gh_cache_control gh)
      else if i = GENERIC_HEADER_LOGGING_TAG then GText (gh_logging_tag gh)
      else if i = GENERIC_HEADER_VENDOR_SPECIFIC_PARAMS
      then GParams (case gh_vendor_specific_params gh of None \<Rightarrow> [] | Some ps \<Rightarrow> map pair_view ps)
      else if i = GENERIC_HEADER_ACCEPT then GText (gh_accept gh)
      else if i = GENERIC_HEADER_FETCH_TIMEOUT then GSize (gh_fetch_timeout gh)
      else if i = GENERIC_HEADER_SET_COOKIE then GText (gh_set_cookie gh)
      else if i = GENERIC_HEADER_SET_COOKIE2 then GText (gh_set_cookie2 gh)
      else GIds [])"

text \<open>Headers whose sizes fit in a signed number and whose parameters can be told apart.\<close>

definition generic_ok :: "generic_header \<Rightarrow> bool" where
  "generic_ok gh \<longleftrightarrow> uint (gh_content_length gh) < 2 ^ 63 \<and> uint (gh_fetch_timeout gh) < 2 ^ 63 \<and>
     (case gh_vendor_specific_params gh of None \<Rightarrow> False | Some ps \<Rightarrow> list_all pair_ok ps)"

lemma less_16_cases:
  "i < (16 :: nat) \<Longrightarrow> i \<in> {0, 1, 2, 3, 4, 5, 6, 7, 8, 9, 10, 11, 12, 13, 14, 15}"
  by simp arith

lemma generic_value_reparse:
  assumes "apr_ok A" and "i < GENERIC_HEADER_COUNT" and "i \<noteq> GENERIC_HEADER_ACTIVE_REQUEST_ID_LIST"
    and "generic_ok gh" and "gh_vendor_specific_params gh0 = None"
  shows "\<exists>v gh1. mrcp_generic_header_generate A i gh v0 = Inr (True, v) \<and>
    mrcp_generic_header_parse A i v gh0 = (True, gh1) \<and> generic_value i gh1 = generic_value i gh \<and>
    (\<forall>j < GENERIC_HEADER_COUNT. j \<noteq> i \<longrightarrow> generic_value j gh1 = generic_value j gh0)"
proof (cases "i = GENERIC_HEADER_VENDOR_SPECIFIC_PARAMS")
  case True
  obtain ps where ps: "gh_vendor_specific_params gh = Some ps" "list_all pair_ok ps"
    using assms(4) by (auto simp: generic_ok_def split: option.splits)
  obtain str ps' where g: "apt_pair_array_generate A (Some ps) v0 = Inr (True, str)"
    "apt_pair_array_parse A (Some apt_pair_array_create) (Some str) = (Some ps', True)"
    "map pair_view ps' = map pair_view ps"
    using pair_array_roundtrip [OF assms(1) ps(2)] by blast
  show ?thesis
    using True ps g assms(5)
    by (simp add: mrcp_generic_header_generate_def mrcp_generic_header_parse_def generic_value_def)
next
  case False
  have s: "apt_size_value_parse (apt_size_value_generate A (gh_content_length gh)) = gh_content_length gh"
    "apt_size_value_parse (apt_size_value_generate A (gh_fetch_timeout gh)) = gh_fetch_timeout gh"
    using assms(1,4) by (simp_all add: generic_ok_def size_value_roundtrip)
  have "i \<in> {1, 2, 3, 4, 5, 6, 7, 8, 9, 10, 12, 13, 14, 15}"
    using less_16_cases [OF assms(2)] assms(3) False by blast
  then show ?thesis
    by (elim insertE emptyE)
      (simp_all add: mrcp_generic_header_generate_def mrcp_generic_header_parse_def generic_value_def s)
qed

text \<open>Copying one value out of another header.\<close>

lemma generic_field_duplicate_value:
  assumes "i < GENERIC_HEADER_COUNT" and "generic_value i src = GText v"
  shows "\<exists>gh1. generic_field_duplicate i src w gh = (True, gh1) \<and> generic_value i gh1 = GText w \<and>
    (\<forall>j < GENERIC_HEADER_COUNT. j \<noteq> i \<longrightarrow> generic_value j gh1 = generic_value j gh)"
proof -
  have "i \<in> {1, 2, 3, 4, 5, 6, 7, 9, 10, 12, 14, 15}"
    using less_16_cases [OF assms(1)] assms(2) by (auto simp: generic_value_def)
  then show ?thesis
    by (elim insertE emptyE) (simp_all add: generic_field_duplicate_def generic_value_def)
qed

section \<open>Lists of request identifiers\<close>

fun ids_text :: "bool \<Rightarrow> request_id list \<Rightarrow> char list" where
  "ids_text first [] = []"
| "ids_text first (i # is) = (if first then [] else '','') @ dec_int (sint i) @ ids_text False is"

definition short_id :: "request_id \<Rightarrow> bool" where
  "short_id i \<longleftrightarrow> length (dec_int (sint i)) < 10"

lemma ids_text_length: "list_all short_id is \<Longrightarrow> length (ids_text False is) \<le> 10 * length is"
  by (induction "is") (auto simp: short_id_def)

lemma id_list_write_text:
  "apr_ok A \<Longrightarrow> list_all short_id ids \<Longrightarrow> length m = len + 1 \<Longrightarrow>
   pos + 11 * length ids \<le> len + (if first \<and> ids \<noteq> [] then 1 else 0) \<Longrightarrow>
   id_list_write A len ids first pos m =
     Inr (True, take pos m @ ids_text first ids @ [NUL] @ drop (pos + length (ids_text first ids) + 1) m)"
proof (induction ids arbitrary: first pos m)
  case Nil
  then show ?case by (simp add: mem_write_def)
next
  case (Cons i "is")
  let ?d = "dec_int (sint i)" and ?c = "if first then [] else '',''"
  let ?p = "pos + length ?c" and ?m = "take pos m @ ?c @ drop (pos + length ?c) m"
  have d: "length ?d < 10" using Cons.prems(2) by (simp add: short_id_def)
  have room: "?p + 10 \<le> len" using Cons.prems(4) by (simp split: if_splits)
  have 1: "(if first then Inr (pos, m) else sbind (mem_write pos '','' m) (\<lambda>m. Inr (pos + 1, m))) = Inr (?p, ?m)"
    using Cons.prems(3) room by (simp add: mem_write_def)
  have lm: "length ?m = len + 1" using Cons.prems(3) room by (simp split: if_splits)
  have 2: "apr_snprintf A (len - ?p) (sint i) = (?d @ [NUL], int (length ?d))"
    using Cons.prems(1) d room by (simp add: apr_ok_def)
  have 3: "mem_write ?p (?d @ [NUL]) ?m = Inr (take ?p ?m @ (?d @ [NUL]) @ drop (?p + length (?d @ [NUL])) ?m)"
    using lm d room by (simp add: mem_write_def)
  let ?m2 = "take ?p ?m @ (?d @ [NUL]) @ drop (?p + length (?d @ [NUL])) ?m"
  have "id_list_write A len (i # is) first pos m = id_list_write A len is False (?p + length ?d) ?m2"
    using 1 2 3 room by simp
  also have "\<dots> = Inr (True, take (?p + length ?d) ?m2 @ ids_text False is @ [NUL] @
      drop (?p + length ?d + length (ids_text False is) + 1) ?m2)"
  proof (rule Cons.IH)
    show "?p + length ?d + 11 * length is \<le> len + (if False \<and> is \<noteq> [] then 1 else 0)"
      using Cons.prems(4) d by (simp split: if_splits)
  qed (use Cons.prems lm d room in \<open>simp_all split: if_splits\<close>)
  also have "take (?p + length ?d) ?m2 = take pos m @ ?c @ ?d"
    using Cons.prems(3) room by (simp split: if_splits)
  also have "drop (?p + length ?d + length (ids_text False is) + 1) ?m2 =
      drop (pos + length (ids_text first (i # is)) + 1) m"
    using Cons.prems(3) room d by (simp add: ac_simps split: if_splits)
  finally show ?case by simp
qed

section \<open>The channel identifier as text\<close>

definition channel_value :: "mrcp_channel_id \<Rightarrow> char list" where
  "channel_value ch = str_bytes (ch_session_id ch) @ CHR ''@'' # str_bytes (ch_resource_name ch)"

definition channel_line :: "mrcp_channel_id \<Rightarrow> char list" where
  "channel_line ch = header_line MRCP_CHANNEL_ID (channel_value ch)"

definition channel_ok :: "mrcp_channel_id \<Rightarrow> bool" where
  "channel_ok ch \<longleftrightarrow> str_wf (ch_session_id ch) \<and> str_wf (ch_resource_name ch) \<and>
     CHR ''@'' \<notin> set (str_bytes (ch_session_id ch)) \<and> NUL \<notin> set (str_bytes (ch_session_id ch)) \<and>
     header_value_ok (channel_value ch)"

lemma gen_ok_channel_id [gen_intros]:
  assumes "str_wf (ch_session_id ch)" and "str_wf (ch_resource_name ch)"
  shows "gen_ok (mrcp_channel_id_generate ch) (channel_line ch)"
  unfolding gen_ok_def
proof (intro allI impI)
  fix s assume room: "ts_room s (length (channel_line ch))"
  let ?g = "\<lambda>s. sbind (ts_write s (MRCP_CHANNEL_ID @ [CHR '':'', APT_TOKEN_SP])) (\<lambda>s.
           sbind (ts_write_str s (ch_session_id ch)) (\<lambda>s.
           sbind (ts_write s ''@'') (\<lambda>s.
           sbind (ts_write_str s (ch_resource_name ch)) apt_text_eol_insert)))"
  have t: "channel_line ch = (MRCP_CHANNEL_ID @ [CHR '':'', APT_TOKEN_SP]) @ str_bytes (ch_session_id ch) @
      ''@'' @ str_bytes (ch_resource_name ch) @ CRLF"
    by (simp add: channel_line_def header_line_def channel_value_def)
  have "gen_ok ?g (channel_line ch)" unfolding t by (intro gen_intros assms)
  moreover have "mrcp_channel_id_generate ch s = ?g s"
    using ts_roomD [OF room] assms
    by (simp add: mrcp_channel_id_generate_def channel_line_def header_line_def channel_value_def)
  ultimately show "\<exists>s'. mrcp_channel_id_generate ch s = Inr (True, s') \<and> ts_wrote s (channel_line ch) s'"
    using gen_okD [OF _ room] by metis
qed

lemma id_resource_parse_text:
  assumes "str_mem str = a @ sep # b @ [NUL]" and "str_length str = length a + 1 + length b"
    and "sep \<notin> set a" and "NUL \<notin> set a" and "sep \<noteq> NUL"
  shows "\<exists>i r. apt_id_resource_parse str sep = Inr (Some (i, r)) \<and> str_bytes i = a \<and> str_bytes r = b \<and>
    str_wf i \<and> str_wf r"
proof -
  obtain p where p: "str_buf str = Some p" "p = a @ sep # b @ [NUL]"
    using assms(1) by (auto simp: str_mem_def split: option.splits)
  have "takeWhile (\<lambda>c. c \<noteq> sep \<and> c \<noteq> NUL) p = a"
    unfolding p(2) using assms(3,4) by (intro takeWhile_append_stop) auto
  then have eq: "apt_id_resource_parse str sep =
      Inr (Some (apt_string_copy \<lparr>str_buf = Some p, str_length = length a\<rparr>,
                 apt_string_copy \<lparr>str_buf = Some (b @ [NUL]), str_length = length b\<rparr>))"
    using p assms(2) by (simp add: apt_id_resource_parse_def)
  have "str_wf \<lparr>str_buf = Some p, str_length = length a\<rparr>"
    "str_wf \<lparr>str_buf = Some (b @ [NUL]), str_length = length b\<rparr>"
    "str_bytes \<lparr>str_buf = Some p, str_length = length a\<rparr> = a"
    "str_bytes \<lparr>str_buf = Some (b @ [NUL]), str_length = length b\<rparr> = b"
    using p(2) by (simp_all add: str_wf_def str_mem_def str_bytes_def)
  then show ?thesis unfolding eq by simp
qed

lemma channel_id_loop_found:
  assumes "parsed_ok (hs_field h a)" and "field_view (hs_field h a) = (MRCP_CHANNEL_ID, channel_value ch)"
    and "channel_ok ch"
  shows "\<exists>ch'. channel_id_loop (a # ring) ch0 h = Inr (True, ch', snd (apt_header_section_field_remove h a)) \<and>
    str_bytes (ch_session_id ch') = str_bytes (ch_session_id ch) \<and> str_wf (ch_session_id ch') \<and>
    str_bytes (ch_resource_name ch') = str_bytes (ch_resource_name ch) \<and> str_wf (ch_resource_name ch')"
proof -
  let ?f = "hs_field h a"
  have name: "str_mem (hf_name ?f) = MRCP_CHANNEL_ID @ [NUL]"
    and val: "str_mem (hf_value ?f) = channel_value ch @ [NUL]" "str_bytes (hf_value ?f) = channel_value ch"
      "str_wf (hf_value ?f)"
    using assms(1,2) by (simp_all add: parsed_ok_def field_view_def)
  have len: "str_length (hf_value ?f) = length (channel_value ch)" using length_str_bytes [OF val(3)] val(2) by simp
  obtain i r where ir: "apt_id_resource_parse (hf_value ?f) (CHR ''@'') = Inr (Some (i, r))"
    "str_bytes i = str_bytes (ch_session_id ch)" "str_bytes r = str_bytes (ch_resource_name ch)" "str_wf i" "str_wf r"
    using id_resource_parse_text [of "hf_value ?f" "str_bytes (ch_session_id ch)" "CHR ''@''"
        "str_bytes (ch_resource_name ch)"] val(1) len assms(3)
    by (auto simp: channel_ok_def channel_value_def)
  have "str_length (hf_value ?f) \<noteq> 0" using len by (simp add: channel_value_def)
  moreover have "str_buf (hf_name ?f) \<noteq> None" using name by (auto simp: str_mem_def split: option.splits)
  ultimately show ?thesis using ir name by (auto simp: Let_def)
qed

section \<open>Properties\<close>

text \<open>C24. Every value of the generic header except the list of active requests survives its
  textual form: \<open>mrcp_generic_header_generate\<close> followed by \<open>mrcp_generic_header_parse\<close> stores
  the same value again and leaves all other values of the receiving header as they are. Sizes
  have to fit into a signed long and the vendor-specific parameters have to be well formed.\<close>

theorem generic_header_roundtrip:
  assumes "apr_ok A" and "i < GENERIC_HEADER_COUNT" and "i \<noteq> GENERIC_HEADER_ACTIVE_REQUEST_ID_LIST"
    and "generic_ok gh" and "gh_vendor_specific_params gh0 = None"
  shows "\<exists>v gh1. mrcp_generic_header_generate A i gh v0 = Inr (True, v) \<and>
    mrcp_generic_header_parse A i v gh0 = (True, gh1) \<and> generic_value i gh1 = generic_value i gh \<and>
    (\<forall>j < GENERIC_HEADER_COUNT. j \<noteq> i \<longrightarrow> generic_value j gh1 = generic_value j gh0)"
  by (rule generic_value_reparse [OF assms])

definition sample_generic :: generic_header where
  "sample_generic = mrcp_generic_header_init
     \<lparr>gh_content_length := 42, gh_fetch_timeout := 5000, gh_vendor_specific_params := Some []\<rparr>"

theorem generic_header_roundtrip_witness:
  "\<exists>v gh1. mrcp_generic_header_generate apr_ref GENERIC_HEADER_CONTENT_LENGTH sample_generic apt_string_reset =
      Inr (True, v) \<and>
    mrcp_generic_header_parse apr_ref GENERIC_HEADER_CONTENT_LENGTH v mrcp_generic_header_init = (True, gh1) \<and>
    generic_value GENERIC_HEADER_CONTENT_LENGTH gh1 = GSize 42"
proof -
  have ok: "generic_ok sample_generic" "gh_vendor_specific_params mrcp_generic_header_init = None"
    by (simp_all add: generic_ok_def sample_generic_def mrcp_generic_header_init_def)
  have v: "generic_value GENERIC_HEADER_CONTENT_LENGTH sample_generic = GSize 42"
    by (simp add: generic_value_def sample_generic_def)
  show ?thesis
    using generic_header_roundtrip [OF apr_ref_ok _ _ ok, of GENERIC_HEADER_CONTENT_LENGTH apt_string_reset]
    unfolding v by auto
qed

text \<open>C32. The list of active requests is generated with a length that is only an estimate: for
  identifiers of fewer than ten digits the block holds the identifiers separated by commas and
  a NUL, but the length of the value counts ten digits for every identifier, so that the value
  contains the NUL and bytes of the block that were never written.\<close>

theorem active_request_list_length:
  assumes "apr_ok A" and "list_all short_id ids" and "ids \<noteq> []"
  shows "\<exists>v rest. mrcp_request_id_list_generate A ids = Inr (True, v) \<and>
    str_mem v = ids_text True ids @ NUL # rest \<and> str_length v = 11 * length ids - 1 \<and>
    length (ids_text True ids) < str_length v \<and> NUL \<in> set (str_bytes v)"
proof -
  let ?n = "11 * length ids - 1" and ?t = "ids_text True ids"
  have n: "10 * length ids + (if length ids > 1 then length ids - 1 else 0) = ?n"
    using assms(3) by (cases ids) auto
  have short: "length ?t < ?n"
    using ids_text_length [of "tl ids"] assms(2,3) by (cases ids) (auto simp: short_id_def)
  let ?m = "apr_palloc A (?n + 1)"
  have "length ?m = ?n + 1" using assms(1) by (simp add: apr_ok_def)
  then have w: "id_list_write A ?n ids True 0 ?m = Inr (True, ?t @ [NUL] @ drop (length ?t + 1) ?m)"
    using id_list_write_text [OF assms(1,2), of ?m ?n 0 True] assms(3) by (cases ids) simp_all
  let ?v = "\<lparr>str_buf = Some (?t @ [NUL] @ drop (length ?t + 1) ?m), str_length = ?n\<rparr>"
  have "mrcp_request_id_list_generate A ids = Inr (True, ?v)"
    using w n by (simp add: mrcp_request_id_list_generate_def Let_def)
  moreover have "str_bytes ?v = ?t @ NUL # take (?n - length ?t - 1) (drop (length ?t + 1) ?m)"
    using short by (simp add: str_bytes_def str_mem_def take_Cons')
  ultimately show ?thesis using short by (auto simp: str_mem_def)
qed

theorem active_request_list_length_witness:
  "\<exists>v rest. mrcp_request_id_list_generate apr_ref [7, 12] = Inr (True, v) \<and>
    str_mem v = ids_text True [7, 12] @ NUL # rest \<and> str_length v = 21"
proof -
  have "list_all short_id [7, 12]" by code_simp
  from active_request_list_length [OF apr_ref_ok this] show ?thesis by auto
qed

text \<open>C18. \<open>mrcp_header_fields_set\<close>, by which a session stores the parameters of a SET-PARAMS,
  gives every field of the source its last value there and keeps the values of all other
  fields; the section stays well formed. \<open>mrcp_header_fields_get\<close>, which answers a GET-PARAMS,
  takes for each field asked for the stored one and otherwise the field of the request.
  \<open>mrcp_header_fields_inherit\<close>, which completes a request with the stored parameters, keeps
  every field of the request and adds copies of the missing ones.\<close>

theorem params_set_get_inherit:
  assumes "hs_wf (mh_section h)" and "hs_wf (mh_section src)" and "i < length (hs_arr (mh_section h))"
  shows "map_option hf_value (hs_lookup (mh_section (mrcp_header_fields_set h src)) i) =
      (case last_value (hs_listing (mh_section src)) i of Some v \<Rightarrow> Some (apt_string_copy v)
       | None \<Rightarrow> map_option hf_value (hs_lookup (mh_section h) i)) \<and>
    hs_lookup (mh_section (mrcp_header_fields_get h src msk)) i =
      (case hs_lookup (mh_section h) i of Some f \<Rightarrow> Some f
       | None \<Rightarrow> map_option (answer_field (mh_section src))
                   (find (\<lambda>f. hf_id f = i) (hs_listing (mh_section msk)))) \<and>
    hs_lookup (mh_section (mrcp_header_fields_inherit h src)) i =
      (case hs_lookup (mh_section h) i of Some f \<Rightarrow> Some f
       | None \<Rightarrow> map_option apt_header_field_copy (find (\<lambda>f. hf_id f = i) (hs_listing (mh_section src)))) \<and>
    hs_wf (mh_section (mrcp_header_fields_set h src)) \<and>
    hs_wf (mh_section (mrcp_header_fields_get h src msk)) \<and>
    hs_wf (mh_section (mrcp_header_fields_inherit h src))"
  using set_section [OF assms(1), of src _ i] assms(3) hsc.put_missing_inv [OF assms(1)]
    hsc.put_missing_lookup [OF assms(1) hf_id_answer [OF assms(2)] assms(3)]
    hsc.put_missing_lookup [OF assms(1) hf_id_copy assms(3)]
  by (simp add: mrcp_header_fields_set_def mrcp_header_fields_get_def mrcp_header_fields_inherit_def
      get_section inherit_section)

definition empty_header :: "unit message_header" where
  "empty_header = \<lparr>mh_generic = mrcp_header_accessor_init, mh_resource = mrcp_header_accessor_init,
     mh_section = snd (apt_header_section_array_alloc empty_section 3)\<rparr>"

definition sample_header :: "unit message_header" where
  "sample_header = empty_header\<lparr>mh_section := sample_section\<rparr>"

theorem params_set_get_inherit_witness:
  "hs_lookup (mh_section (mrcp_header_fields_inherit empty_header sample_header)) 1 =
     map_option apt_header_field_copy (find (\<lambda>f. hf_id f = 1) (hs_listing sample_section))"
proof -
  have "hs_wf empty_section" by (simp add: hs_wf_def)
  then have e: "hs_wf (mh_section empty_header)" "hs_lookup (mh_section empty_header) 1 = None"
    "1 < length (hs_arr (mh_section empty_header))"
    unfolding empty_header_def
    by (simp_all add: hs_wf_array_alloc) (simp_all add: apt_header_section_array_alloc_def hs_lookup_def
        apt_header_section_field_get_def)
  have s: "mh_section sample_header = sample_section" by (simp add: sample_header_def)
  show ?thesis using params_set_get_inherit [OF e(1) _ e(3), of sample_header] e(2) sample_section_wf
    by (simp add: s)
qed

text \<open>C16. \<open>mrcp_header_fields_parse\<close> on the header of a received message never dereferences
  data that are not allocated, keeps the names, the values and the order of all fields, and
  enters into the array, for each identifier of the generic header, the first field of that
  name; the values of the generic header are those of the fields parsed one after the other.\<close>

theorem received_fields_interpreted:
  assumes "header_ready A vt h" and "names_disjoint vt" and "hs_wf (mh_section h)"
    and "hs_arr (mh_section h) = replicate (GENERIC_HEADER_COUNT + vt_field_count vt) None"
  shows "\<exists>h'. mrcp_header_fields_parse h = Inr h' \<and>
    fields_interpreted A vt (hs_ring (mh_section h)) h h'"
  by (rule fields_parse_interprets [OF assms])

text \<open>A resource header without fields, for the examples.\<close>

definition no_fields_vtable :: "unit header_vtable" where
  "no_fields_vtable =
     \<lparr>vt_allocate = (), vt_parse = (\<lambda>_ _ d. (False, d)), vt_generate = (\<lambda>_ _ v. Inr (False, v)),
      vt_duplicate = (\<lambda>_ _ _ d. (False, d)), vt_field_table = [], vt_field_count = 0\<rparr>"

definition received_header :: "unit message_header" where
  "received_header = snd (mrcp_message_header_data_alloc
     (sample_header\<lparr>mh_section := snd (hs_put empty_section
        \<lparr>hf_name = c_literal ''Content-Length'' 14, hf_value = c_literal ''42'' 2, hf_id = UNKNOWN_HEADER_FIELD_ID\<rparr>)\<rparr>)
     (Some (mrcp_generic_header_vtable apr_ref)) (Some no_fields_vtable))"

theorem received_fields_interpreted_witness:
  "\<exists>h'. mrcp_header_fields_parse received_header = Inr h' \<and>
    fields_interpreted apr_ref no_fields_vtable (hs_ring (mh_section received_header)) received_header h'"
proof (rule received_fields_interpreted)
  show "header_ready apr_ref no_fields_vtable received_header"
    by (simp add: header_ready_def received_header_def mrcp_message_header_data_alloc_def mrcp_header_allocate_def)
  show "names_disjoint no_fields_vtable" by (simp add: names_disjoint_def no_fields_vtable_def)
  have "hs_wf empty_section" by (simp add: hs_wf_def)
  then show "hs_wf (mh_section received_header)"
    by (simp add: received_header_def mrcp_message_header_data_alloc_def hs_wf_array_alloc hsc.put_inv)
  show "hs_arr (mh_section received_header) =
      replicate (GENERIC_HEADER_COUNT + vt_field_count no_fields_vtable) None"
    by (simp add: received_header_def mrcp_message_header_data_alloc_def apt_header_section_array_alloc_def
        mrcp_generic_header_vtable_def no_fields_vtable_def)
qed

end
