(* ===== verification/MrcpMessage.thy ===== *)
theory MrcpMessage
  imports MrcpHeader
begin

text \<open>
  Messages (\<open>mrcp_message.c\<close>, \<open>mrcp_message.h\<close>), the description of a resource
  (\<open>mrcp_resource.h\<close>) and the factory that finds resources by identifier and by name
  (\<open>mrcp_resource_factory.c\<close>).

  The data of a resource header are a type variable. A function pointer of a resource that is
  not set is \<open>None\<close>. The hash table of the factory is a map from the bytes of a name.
\<close>

section \<open>Resources\<close>

record 'r mrcp_resource =
  res_id :: nat
  res_name :: apt_str
  res_get_method_str_table :: "(mrcp_version \<Rightarrow> apt_str_table_item list) option"
  res_method_count :: nat
  res_get_event_str_table :: "(mrcp_version \<Rightarrow> apt_str_table_item list) option"
  res_event_count :: nat
  res_get_resource_header_vtable :: "(mrcp_version \<Rightarrow> 'r header_vtable) option"

definition mrcp_resource_create :: "'r mrcp_resource" where
  "mrcp_resource_create =
     \<lparr>res_id = 0, res_name = apt_string_reset, res_get_method_str_table = None, res_method_count = 0,
      res_get_event_str_table = None, res_event_count = 0, res_get_resource_header_vtable = None\<rparr>"

definition mrcp_resource_validate :: "'r mrcp_resource \<Rightarrow> bool" where
  "mrcp_resource_validate res \<longleftrightarrow>
     res_method_count res \<noteq> 0 \<and> res_event_count res \<noteq> 0 \<and>
     res_get_method_str_table res \<noteq> None \<and> res_get_event_str_table res \<noteq> None \<and>
     res_get_resource_header_vtable res \<noteq> None \<and>
     str_buf (res_name res) \<noteq> None \<and> str_length (res_name res) \<noteq> 0"

record 'r mrcp_resource_factory =
  rf_array :: "'r mrcp_resource option list"
  rf_hash :: "char list \<rightharpoonup> 'r mrcp_resource"

definition mrcp_resource_factory_create :: "nat \<Rightarrow> 'r mrcp_resource_factory option" where
  "mrcp_resource_factory_create resource_count =
     (if resource_count = 0 then None
      else Some \<lparr>rf_array = replicate resource_count None, rf_hash = Map.empty\<rparr>)"

definition mrcp_resource_factory_destroy :: "'r mrcp_resource_factory \<Rightarrow> 'r mrcp_resource_factory" where
  "mrcp_resource_factory_destroy rf = rf\<lparr>rf_array := []\<rparr>"

definition mrcp_resource_register ::
  "'r mrcp_resource_factory \<Rightarrow> 'r mrcp_resource option \<Rightarrow> bool \<times> 'r mrcp_resource_factory" where
  "mrcp_resource_register rf resource =
     (case resource of None \<Rightarrow> (False, rf)
      | Some r \<Rightarrow>
          if res_id r \<ge> length (rf_array rf) then (False, rf)
          else if rf_array rf ! res_id r \<noteq> None then (False, rf)
          else if \<not> mrcp_resource_validate r then (False, rf)
          else (True, rf\<lparr>rf_array := (rf_array rf)[res_id r := Some r],
                         rf_hash := (rf_hash rf)(str_bytes (res_name r) \<mapsto> r)\<rparr>))"

definition mrcp_resource_get :: "'r mrcp_resource_factory \<Rightarrow> nat \<Rightarrow> 'r mrcp_resource option" where
  "mrcp_resource_get rf resource_id =
     (if resource_id \<ge> length (rf_array rf) then None else rf_array rf ! resource_id)"

definition mrcp_resource_find :: "'r mrcp_resource_factory \<Rightarrow> apt_str \<Rightarrow> 'r mrcp_resource option" where
  "mrcp_resource_find rf name =
     (if str_buf name = None \<or> str_length name = 0 then None else rf_hash rf (str_bytes name))"

section \<open>Messages\<close>

record 'r mrcp_message =
  msg_start_line :: mrcp_start_line
  msg_channel_id :: mrcp_channel_id
  msg_header :: "'r message_header"
  msg_body :: apt_str
  msg_resource :: "'r mrcp_resource option"

text \<open>Calling the function pointers of a resource.\<close>

definition resource_header_alloc :: "apr \<Rightarrow> 'r mrcp_resource \<Rightarrow> 'r mrcp_message \<Rightarrow> fault + 'r mrcp_message" where
  "resource_header_alloc A res m =
     (case res_get_resource_header_vtable res of None \<Rightarrow> Inl NullDeref
      | Some get \<Rightarrow>
          let version = sl_version (msg_start_line m)
          in Inr (m\<lparr>msg_header := snd (mrcp_message_header_data_alloc (msg_header m)
                       (Some (mrcp_generic_header_vtable_get A version)) (Some (get version)))\<rparr>))"

definition resource_name_table ::
  "'r mrcp_resource \<Rightarrow> mrcp_message_type \<Rightarrow> mrcp_version \<Rightarrow> fault + (apt_str_table_item list \<times> nat) option" where
  "resource_name_table res type version =
     (if type = MRCP_MESSAGE_TYPE_REQUEST
      then case res_get_method_str_table res of None \<Rightarrow> Inl NullDeref
           | Some get \<Rightarrow> Inr (Some (get version, res_method_count res))
      else if type = MRCP_MESSAGE_TYPE_EVENT
      then case res_get_event_str_table res of None \<Rightarrow> Inl NullDeref
           | Some get \<Rightarrow> Inr (Some (get version, res_event_count res))
      else Inr None)"

definition mrcp_message_resource_set_by_id ::
  "apr \<Rightarrow> 'r mrcp_message \<Rightarrow> 'r mrcp_resource option \<Rightarrow> fault + bool \<times> 'r mrcp_message" where
  "mrcp_message_resource_set_by_id A m resource =
     (case resource of None \<Rightarrow> Inr (False, m)
      | Some res \<Rightarrow>
          let m = m\<lparr>msg_resource := Some res,
                    msg_channel_id := (msg_channel_id m)\<lparr>ch_resource_name := res_name res\<rparr>\<rparr>
          in sbind (resource_header_alloc A res m) (\<lambda>m.
             let sl = msg_start_line m
             in sbind (resource_name_table res (sl_message_type sl) (sl_version sl)) (\<lambda>table.
                case table of None \<Rightarrow> Inr (True, m)
                | Some (items, count) \<Rightarrow>
                    (case apt_string_table_str_get items count (sl_method_id sl) of
                       None \<Rightarrow> Inr (False, m)
                     | Some name \<Rightarrow> Inr (True, m\<lparr>msg_start_line := sl\<lparr>sl_method_name := name\<rparr>\<rparr>)))))"

definition mrcp_message_resource_set ::
  "apr \<Rightarrow> 'r mrcp_message \<Rightarrow> 'r mrcp_resource option \<Rightarrow> fault + bool \<times> 'r mrcp_message" where
  "mrcp_message_resource_set A m resource =
     (case resource of None \<Rightarrow> Inr (False, m)
      | Some res \<Rightarrow>
          sbind (resource_header_alloc A res (m\<lparr>msg_resource := Some res\<rparr>)) (\<lambda>m.
            let sl = msg_start_line m
            in sbind (resource_name_table res (sl_message_type sl) (sl_version sl)) (\<lambda>table.
               case table of None \<Rightarrow> Inr (True, m)
               | Some (items, count) \<Rightarrow>
                   let i = apt_string_table_id_find items count (sl_method_name sl)
                   in Inr (\<not> i \<ge> count, m\<lparr>msg_start_line := sl\<lparr>sl_method_id := i\<rparr>\<rparr>))))"

text \<open>\<open>mrcp_start_line_init\<close> does not set the method identifier.\<close>

definition blank_start_line :: "apr \<Rightarrow> mrcp_start_line" where
  "blank_start_line A =
     mrcp_start_line_init
       \<lparr>sl_message_type = MRCP_MESSAGE_TYPE_UNKNOWN, sl_version = MRCP_VERSION_UNKNOWN, sl_length = 0,
        sl_request_id = 0, sl_method_name = apt_string_reset, sl_method_id = apr_uninit A,
        sl_status_code = MRCP_STATUS_CODE_UNKNOWN, sl_request_state = MRCP_REQUEST_STATE_UNKNOWN\<rparr>"

definition mrcp_message_create :: "apr \<Rightarrow> 'r mrcp_message" where
  "mrcp_message_create A =
     \<lparr>msg_start_line = blank_start_line A, msg_channel_id = mrcp_channel_id_init,
      msg_header = mrcp_message_header_init
        \<lparr>mh_generic = mrcp_header_accessor_init, mh_resource = mrcp_header_accessor_init,
         mh_section = \<lparr>hs_fields = [], hs_ring = [], hs_arr = []\<rparr>\<rparr>,
      msg_body = apt_string_reset, msg_resource = None\<rparr>"

definition mrcp_request_create ::
  "apr \<Rightarrow> 'r mrcp_resource option \<Rightarrow> mrcp_version \<Rightarrow> nat \<Rightarrow> fault + 'r mrcp_message" where
  "mrcp_request_create A resource version method_id =
     (let m = mrcp_message_create A;
          m = m\<lparr>msg_start_line := (msg_start_line m)
                \<lparr>sl_message_type := MRCP_MESSAGE_TYPE_REQUEST, sl_version := version,
                 sl_method_id := method_id\<rparr>\<rparr>
      in sbind (mrcp_message_resource_set_by_id A m resource) (\<lambda>(_, m). Inr m))"

definition mrcp_response_create :: "apr \<Rightarrow> 'r mrcp_message option \<Rightarrow> fault + 'r mrcp_message" where
  "mrcp_response_create A request =
     (let m = mrcp_message_create A;
          sl = (msg_start_line m)\<lparr>sl_message_type := MRCP_MESSAGE_TYPE_RESPONSE,
                 sl_request_state := MRCP_REQUEST_STATE_COMPLETE,
                 sl_status_code := MRCP_STATUS_CODE_SUCCESS\<rparr>
      in case request of None \<Rightarrow> Inr (m\<lparr>msg_start_line := sl\<rparr>)
         | Some req \<Rightarrow>
             let rl = msg_start_line req;
                 m = m\<lparr>msg_channel_id := msg_channel_id req,
                       msg_start_line := sl\<lparr>sl_request_id := sl_request_id rl, sl_version := sl_version rl,
                         sl_method_id := sl_method_id rl, sl_method_name := sl_method_name rl\<rparr>\<rparr>
             in sbind (mrcp_message_resource_set_by_id A m (msg_resource req)) (\<lambda>(_, m). Inr m))"

definition mrcp_event_create :: "apr \<Rightarrow> 'r mrcp_message option \<Rightarrow> nat \<Rightarrow> fault + 'r mrcp_message" where
  "mrcp_event_create A request event_id =
     (let m = mrcp_message_create A;
          sl = (msg_start_line m)\<lparr>sl_message_type := MRCP_MESSAGE_TYPE_EVENT, sl_method_id := event_id\<rparr>
      in case request of None \<Rightarrow> Inr (m\<lparr>msg_start_line := sl\<rparr>)
         | Some req \<Rightarrow>
             let rl = msg_start_line req;
                 m = m\<lparr>msg_channel_id := msg_channel_id req,
                       msg_start_line := sl\<lparr>sl_request_id := sl_request_id rl, sl_version := sl_version rl\<rparr>\<rparr>
             in sbind (mrcp_message_resource_set_by_id A m (msg_resource req)) (\<lambda>(_, m). Inr m))"

definition mrcp_message_destroy :: "'r mrcp_message \<Rightarrow> 'r mrcp_message" where
  "mrcp_message_destroy m = m\<lparr>msg_body := apt_string_reset\<rparr>"

section \<open>Header fields of messages\<close>

definition section_update :: "(header_section \<Rightarrow> header_section) \<Rightarrow> 'r mrcp_message \<Rightarrow> 'r mrcp_message" where
  "section_update f m = m\<lparr>msg_header := (msg_header m)\<lparr>mh_section := f (mh_section (msg_header m))\<rparr>\<rparr>"

definition generated_field_add ::
  "'r mrcp_message \<Rightarrow> nat \<Rightarrow> fault + header_field option \<Rightarrow> fault + bool \<times> 'r mrcp_message" where
  "generated_field_add m i generated =
     sbind generated (\<lambda>field.
       case field of None \<Rightarrow> Inr (False, m)
       | Some f \<Rightarrow>
           let f = f\<lparr>hf_id := i\<rparr>
           in Inr (fst (hs_put (mh_section (msg_header m)) f), section_update (\<lambda>h. snd (hs_put h f)) m))"

definition mrcp_generic_header_property_add :: "'r mrcp_message \<Rightarrow> nat \<Rightarrow> fault + bool \<times> 'r mrcp_message" where
  "mrcp_generic_header_property_add m i =
     generated_field_add m i (mrcp_header_field_value_generate (mh_generic (msg_header m)) i False)"

definition mrcp_generic_header_name_property_add :: "'r mrcp_message \<Rightarrow> nat \<Rightarrow> fault + bool \<times> 'r mrcp_message" where
  "mrcp_generic_header_name_property_add m i =
     generated_field_add m i (mrcp_header_field_value_generate (mh_generic (msg_header m)) i True)"

definition mrcp_resource_header_property_add :: "'r mrcp_message \<Rightarrow> nat \<Rightarrow> fault + bool \<times> 'r mrcp_message" where
  "mrcp_resource_header_property_add m i =
     generated_field_add m (i + GENERIC_HEADER_COUNT)
       (mrcp_header_field_value_generate (mh_resource (msg_header m)) i False)"

definition mrcp_resource_header_name_property_add :: "'r mrcp_message \<Rightarrow> nat \<Rightarrow> fault + bool \<times> 'r mrcp_message" where
  "mrcp_resource_header_name_property_add m i =
     generated_field_add m (i + GENERIC_HEADER_COUNT)
       (mrcp_header_field_value_generate (mh_resource (msg_header m)) i True)"

definition mrcp_generic_header_property_check :: "'r mrcp_message \<Rightarrow> nat \<Rightarrow> bool" where
  "mrcp_generic_header_property_check m i = apt_header_section_field_check (mh_section (msg_header m)) i"

definition mrcp_resource_header_property_check :: "'r mrcp_message \<Rightarrow> nat \<Rightarrow> bool" where
  "mrcp_resource_header_property_check m i =
     apt_header_section_field_check (mh_section (msg_header m)) (i + GENERIC_HEADER_COUNT)"

definition mrcp_generic_header_property_remove :: "'r mrcp_message \<Rightarrow> nat \<Rightarrow> bool \<times> 'r mrcp_message" where
  "mrcp_generic_header_property_remove m i =
     (case apt_header_section_field_get (mh_section (msg_header m)) i of
        Some a \<Rightarrow> (fst (apt_header_section_field_remove (mh_section (msg_header m)) a),
                   section_update (\<lambda>h. snd (apt_header_section_field_remove h a)) m)
      | None \<Rightarrow> (False, m))"

definition mrcp_resource_header_property_remove :: "'r mrcp_message \<Rightarrow> nat \<Rightarrow> bool \<times> 'r mrcp_message" where
  "mrcp_resource_header_property_remove m i =
     (case apt_header_section_field_get (mh_section (msg_header m)) (i + GENERIC_HEADER_COUNT) of
        Some a \<Rightarrow> (fst (apt_header_section_field_remove (mh_section (msg_header m)) a),
                   section_update (\<lambda>h. snd (apt_header_section_field_remove h a)) m)
      | None \<Rightarrow> (False, m))"

definition mrcp_generic_header_get :: "'r mrcp_message \<Rightarrow> generic_header option" where
  "mrcp_generic_header_get m = acc_data (mh_generic (msg_header m))"

definition mrcp_generic_header_prepare :: "'r mrcp_message \<Rightarrow> generic_header option \<times> 'r mrcp_message" where
  "mrcp_generic_header_prepare m =
     (let acc = mrcp_header_allocate (mh_generic (msg_header m))
      in (acc_data acc, m\<lparr>msg_header := (msg_header m)\<lparr>mh_generic := acc\<rparr>\<rparr>))"

definition mrcp_resource_header_get :: "'r mrcp_message \<Rightarrow> 'r option" where
  "mrcp_resource_header_get m = acc_data (mh_resource (msg_header m))"

definition mrcp_resource_header_prepare :: "'r mrcp_message \<Rightarrow> 'r option \<times> 'r mrcp_message" where
  "mrcp_resource_header_prepare m =
     (let acc = mrcp_header_allocate (mh_resource (msg_header m))
      in (acc_data acc, m\<lparr>msg_header := (msg_header m)\<lparr>mh_resource := acc\<rparr>\<rparr>))"

definition mrcp_message_header_field_add :: "'r mrcp_message \<Rightarrow> header_field \<Rightarrow> fault + bool \<times> 'r mrcp_message" where
  "mrcp_message_header_field_add m f =
     (case hs_store (mh_section (msg_header m)) f of (a, sec) \<Rightarrow>
        sbind (mrcp_header_field_add ((msg_header m)\<lparr>mh_section := sec\<rparr>) a) (\<lambda>(ok, h).
          Inr (ok, m\<lparr>msg_header := h\<rparr>)))"

definition mrcp_message_validate :: "'r mrcp_message \<Rightarrow> fault + bool \<times> 'r mrcp_message" where
  "mrcp_message_validate m =
     (if str_length (msg_body m) \<noteq> 0
      then case mrcp_generic_header_prepare m of (generic, m) \<Rightarrow>
             (case generic of None \<Rightarrow> Inr (False, m)
              | Some gh \<Rightarrow>
                  if \<not> mrcp_generic_header_property_check m GENERIC_HEADER_CONTENT_LENGTH \<or>
                     gh_content_length gh = 0
                  then let gh = gh\<lparr>gh_content_length := of_nat (str_length (msg_body m))\<rparr>;
                           h = msg_header m;
                           m = m\<lparr>msg_header := h\<lparr>mh_generic := (mh_generic h)\<lparr>acc_data := Some gh\<rparr>\<rparr>\<rparr>
                       in sbind (mrcp_generic_header_property_add m GENERIC_HEADER_CONTENT_LENGTH) (\<lambda>(_, m).
                            Inr (True, m))
                  else Inr (True, m))
      else Inr (True, m))"

text \<open>The field that follows an address in the ring, \<open>None\<close> at the sentinel.\<close>

fun ring_next :: "nat list \<Rightarrow> nat \<Rightarrow> nat option" where
  "ring_next [] a = None"
| "ring_next (b # ring) a =
     (if a = b then (case ring of [] \<Rightarrow> None | c # _ \<Rightarrow> Some c) else ring_next ring a)"

definition mrcp_message_next_header_field_get :: "'r mrcp_message \<Rightarrow> nat option \<Rightarrow> nat option" where
  "mrcp_message_next_header_field_get m field =
     (let ring = hs_ring (mh_section (msg_header m))
      in case field of Some a \<Rightarrow> ring_next ring a
         | None \<Rightarrow> (case ring of [] \<Rightarrow> None | a # _ \<Rightarrow> Some a))"

section \<open>Validating a message\<close>

text \<open>The field that announces the length of a body, and the fields that are sent.\<close>

definition length_field :: "apr \<Rightarrow> nat \<Rightarrow> header_field" where
  "length_field A n =
     \<lparr>hf_name = c_literal ''Content-Length'' 14, hf_value = apt_size_value_generate A (of_nat n),
      hf_id = GENERIC_HEADER_CONTENT_LENGTH\<rparr>"

definition sent_fields :: "apr \<Rightarrow> 'r mrcp_message \<Rightarrow> header_field list" where
  "sent_fields A m =
     hs_listing (mh_section (msg_header m)) @
     (if str_length (msg_body m) = 0 then [] else [length_field A (str_length (msg_body m))])"

lemma content_length_add:
  assumes "acc_vtable (mh_generic (msg_header m)) = Some (mrcp_generic_header_vtable A)"
    and "acc_data (mh_generic (msg_header m)) = Some gh" and "unat (gh_content_length gh) = n"
  shows "mrcp_generic_header_property_add m GENERIC_HEADER_CONTENT_LENGTH =
    Inr (fst (hs_put (mh_section (msg_header m)) (length_field A n)),
         section_update (\<lambda>h. snd (hs_put h (length_field A n))) m)"
proof -
  have "of_nat n = gh_content_length gh" using assms(3) by auto
  then show ?thesis
    using assms(1,2)
    by (simp add: mrcp_generic_header_property_add_def generated_field_add_def
        mrcp_header_field_value_generate_def mrcp_generic_header_vtable_def mrcp_generic_header_generate_def
        apt_string_table_str_get_def generic_header_string_table_def table_item_def apt_header_field_alloc_def
        length_field_def Let_def)
qed

lemma validate_fresh:
  assumes "header_ready A vt (msg_header m)" and "hs_wf (mh_section (msg_header m))"
    and "hs_lookup (mh_section (msg_header m)) GENERIC_HEADER_CONTENT_LENGTH = None"
    and "str_length (msg_body m) < 2 ^ 64"
  shows "\<exists>m'. mrcp_message_validate m = Inr (True, m') \<and> msg_start_line m' = msg_start_line m \<and>
    msg_channel_id m' = msg_channel_id m \<and> msg_body m' = msg_body m \<and>
    hs_listing (mh_section (msg_header m')) = sent_fields A m"
proof (cases "str_length (msg_body m) = 0")
  case True
  then show ?thesis by (simp add: mrcp_message_validate_def sent_fields_def)
next
  case False
  let ?n = "str_length (msg_body m)" and ?h = "msg_header m"
  obtain gh where gh: "acc_data (mh_generic ?h) = Some gh" using assms(1) by (auto simp: header_ready_def)
  have vt: "acc_vtable (mh_generic ?h) = Some (mrcp_generic_header_vtable A)"
    using assms(1) by (simp add: header_ready_def)
  have chk: "\<not> mrcp_generic_header_property_check m GENERIC_HEADER_CONTENT_LENGTH"
    using assms(3) by (simp add: mrcp_generic_header_property_check_def apt_header_section_field_check_def
        hs_lookup_def apt_header_section_field_get_def split: if_splits)
  let ?gh = "gh\<lparr>gh_content_length := of_nat ?n\<rparr>"
  let ?m = "m\<lparr>msg_header := ?h\<lparr>mh_generic := (mh_generic ?h)\<lparr>acc_data := Some ?gh\<rparr>\<rparr>\<rparr>"
  have prep: "mrcp_generic_header_prepare m = (Some gh, m)"
    using gh by (simp add: mrcp_generic_header_prepare_def mrcp_header_allocate_def)
  have "unat (gh_content_length ?gh) = ?n" using assms(4) by (simp add: unat_of_nat)
  from content_length_add [of ?m, OF _ _ this] have add:
    "mrcp_generic_header_property_add ?m GENERIC_HEADER_CONTENT_LENGTH =
      Inr (fst (hs_put (mh_section ?h) (length_field A ?n)),
           section_update (\<lambda>h. snd (hs_put h (length_field A ?n))) ?m)"
    using vt by simp
  have "mrcp_message_validate m = Inr (True, section_update (\<lambda>h. snd (hs_put h (length_field A ?n))) ?m)"
    using False prep chk add by (simp add: mrcp_message_validate_def Let_def)
  moreover have "hs_listing (snd (hs_put (mh_section ?h) (length_field A ?n))) =
      hs_listing (mh_section ?h) @ [length_field A ?n]"
    using hsc.listing_put [OF assms(2), of "length_field A ?n"] assms(3) by (simp add: length_field_def)
  ultimately show ?thesis using False by (simp add: section_update_def sent_fields_def)
qed

section \<open>Finding resources\<close>

text \<open>What the array of a factory and its hash table have to do with each other.\<close>

definition factory_wf :: "'r mrcp_resource_factory \<Rightarrow> bool" where
  "factory_wf rf \<longleftrightarrow>
     (\<forall>i r. mrcp_resource_get rf i = Some r \<longrightarrow>
        res_id r = i \<and> mrcp_resource_validate r \<and> rf_hash rf (str_bytes (res_name r)) \<noteq> None) \<and>
     (\<forall>k r. rf_hash rf k = Some r \<longrightarrow>
        mrcp_resource_validate r \<and> k = str_bytes (res_name r) \<and> mrcp_resource_get rf (res_id r) = Some r)"

lemma factory_wf_create: "mrcp_resource_factory_create n = Some rf \<Longrightarrow> factory_wf rf"
  by (auto simp: mrcp_resource_factory_create_def factory_wf_def mrcp_resource_get_def split: if_splits)

lemma register_cases:
  assumes "mrcp_resource_register rf (Some r) = (ok, rf')"
  shows "ok \<longleftrightarrow> res_id r < length (rf_array rf) \<and> mrcp_resource_get rf (res_id r) = None \<and> mrcp_resource_validate r"
    and "\<not> ok \<Longrightarrow> rf' = rf"
    and "ok \<Longrightarrow> rf' = rf\<lparr>rf_array := (rf_array rf)[res_id r := Some r],
                         rf_hash := (rf_hash rf)(str_bytes (res_name r) \<mapsto> r)\<rparr>"
  using assms by (auto simp: mrcp_resource_register_def mrcp_resource_get_def split: if_splits)

lemma factory_wf_register:
  assumes "factory_wf rf" and "mrcp_resource_register rf (Some r) = (ok, rf')"
  shows "factory_wf rf'"
proof (cases ok)
  case True
  note c = register_cases [OF assms(2)]
  have r: "res_id r < length (rf_array rf)" "rf_array rf ! res_id r = None" "mrcp_resource_validate r"
    using c(1) True by (auto simp: mrcp_resource_get_def)
  have rf': "rf' = rf\<lparr>rf_array := (rf_array rf)[res_id r := Some r],
                     rf_hash := (rf_hash rf)(str_bytes (res_name r) \<mapsto> r)\<rparr>" using c(3) True by blast
  have get: "mrcp_resource_get rf' i = (if i = res_id r then Some r else mrcp_resource_get rf i)" for i
    using r by (simp add: rf' mrcp_resource_get_def)
  have other: "res_id q \<noteq> res_id r" if "mrcp_resource_get rf (res_id q) = Some q" for q
    using that r by (auto simp: mrcp_resource_get_def)
  have W1: "res_id q = i \<and> mrcp_resource_validate q \<and> rf_hash rf (str_bytes (res_name q)) \<noteq> None"
    if "mrcp_resource_get rf i = Some q" for i q using assms(1) that unfolding factory_wf_def by blast
  have W2: "mrcp_resource_validate q \<and> k = str_bytes (res_name q) \<and> mrcp_resource_get rf (res_id q) = Some q"
    if "rf_hash rf k = Some q" for k q using assms(1) that unfolding factory_wf_def by blast
  have "res_id q = i \<and> mrcp_resource_validate q \<and> rf_hash rf' (str_bytes (res_name q)) \<noteq> None"
    if "mrcp_resource_get rf' i = Some q" for i q
    using that W1 [of i q] r(3) unfolding get by (auto simp: rf' split: if_splits)
  moreover have "mrcp_resource_validate q \<and> k = str_bytes (res_name q) \<and> mrcp_resource_get rf' (res_id q) = Some q"
    if "rf_hash rf' k = Some q" for k q
    using that W2 [of k q] r(3) other [of q] unfolding get by (simp add: rf' split: if_splits)
  ultimately show ?thesis unfolding factory_wf_def by blast
qed (use register_cases [OF assms(2)] assms(1) in auto)

section \<open>Messages made for a request\<close>

lemma header_alloc_ready:
  assumes "res_get_resource_header_vtable r = Some get"
  defines "vt m \<equiv> get (sl_version (msg_start_line m))"
  shows "\<exists>h. resource_header_alloc A r m = Inr (m\<lparr>msg_header := h\<rparr>) \<and> header_ready A (vt m) h \<and>
    mh_section h = (mh_section (msg_header m))
      \<lparr>hs_arr := replicate (GENERIC_HEADER_COUNT + vt_field_count (vt m)) None\<rparr> \<and>
    acc_data (mh_generic h) = Some mrcp_generic_header_init"
proof (rule exI)
  let ?h = "snd (mrcp_message_header_data_alloc (msg_header m)
      (Some (mrcp_generic_header_vtable_get A (sl_version (msg_start_line m)))) (Some (vt m)))"
  show "resource_header_alloc A r m = Inr (m\<lparr>msg_header := ?h\<rparr>) \<and> header_ready A (vt m) ?h \<and>
    mh_section ?h = (mh_section (msg_header m))
      \<lparr>hs_arr := replicate (GENERIC_HEADER_COUNT + vt_field_count (vt m)) None\<rparr> \<and>
    acc_data (mh_generic ?h) = Some mrcp_generic_header_init"
    using assms(1)
    by (simp add: resource_header_alloc_def Let_def mrcp_message_header_data_alloc_def mrcp_header_allocate_def
        header_ready_def mrcp_generic_header_vtable_get_def apt_header_section_array_alloc_def
        mrcp_generic_header_vtable_def vt_def)
qed

lemma resource_set_by_id_ready:
  assumes "mrcp_resource_validate r" and "res_get_resource_header_vtable r = Some get"
  shows "\<exists>ok m'. mrcp_message_resource_set_by_id A m (Some r) = Inr (ok, m') \<and>
    header_ready A (get (sl_version (msg_start_line m))) (msg_header m') \<and> msg_resource m' = Some r \<and>
    msg_channel_id m' = (msg_channel_id m)\<lparr>ch_resource_name := res_name r\<rparr> \<and> msg_body m' = msg_body m \<and>
    hs_ring (mh_section (msg_header m')) = hs_ring (mh_section (msg_header m)) \<and>
    sl_message_type (msg_start_line m') = sl_message_type (msg_start_line m) \<and>
    sl_version (msg_start_line m') = sl_version (msg_start_line m) \<and>
    sl_request_id (msg_start_line m') = sl_request_id (msg_start_line m) \<and>
    sl_method_id (msg_start_line m') = sl_method_id (msg_start_line m) \<and>
    sl_status_code (msg_start_line m') = sl_status_code (msg_start_line m) \<and>
    sl_request_state (msg_start_line m') = sl_request_state (msg_start_line m) \<and>
    (sl_message_type (msg_start_line m) = MRCP_MESSAGE_TYPE_RESPONSE \<longrightarrow> ok \<and> msg_start_line m' = msg_start_line m)"
proof -
  obtain gm ge where t: "res_get_method_str_table r = Some gm" "res_get_event_str_table r = Some ge"
    using assms(1) by (auto simp: mrcp_resource_validate_def)
  let ?m = "m\<lparr>msg_resource := Some r, msg_channel_id := (msg_channel_id m)\<lparr>ch_resource_name := res_name r\<rparr>\<rparr>"
  obtain h where h: "resource_header_alloc A r ?m = Inr (?m\<lparr>msg_header := h\<rparr>)"
    "header_ready A (get (sl_version (msg_start_line m))) h" "hs_ring (mh_section h) = hs_ring (mh_section (msg_header m))"
    using header_alloc_ready [OF assms(2), of A ?m] by auto
  show ?thesis
    using t h
    by (cases "sl_message_type (msg_start_line m)")
      (auto simp: mrcp_message_resource_set_by_id_def resource_name_table_def Let_def split: option.split)
qed

section \<open>Iterating over the header fields\<close>

text \<open>The loop that \<open>mrcp_message.h\<close> recommends, for at most \<open>n\<close> rounds.\<close>

fun iterate_fields :: "nat \<Rightarrow> 'r mrcp_message \<Rightarrow> nat option \<Rightarrow> nat list" where
  "iterate_fields 0 m field = []"
| "iterate_fields (Suc n) m field =
     (case mrcp_message_next_header_field_get m field of
        None \<Rightarrow> [] | Some a \<Rightarrow> a # iterate_fields n m (Some a))"

lemma ring_next_mid: "a \<notin> set xs \<Longrightarrow> ring_next (xs @ a # ys) a = (case ys of [] \<Rightarrow> None | b # _ \<Rightarrow> Some b)"
  by (induction xs) auto

lemma iterate_from:
  "distinct ring \<Longrightarrow> ring = hs_ring (mh_section (msg_header m)) \<Longrightarrow> ring = xs @ a # ys \<Longrightarrow> length ys < n \<Longrightarrow>
   iterate_fields n m (Some a) = ys"
proof (induction ys arbitrary: n xs a)
  case Nil
  have "ring_next ring a = None" using Nil.prems(1,3) ring_next_mid [of a xs "[]"] by simp
  then show ?case using Nil.prems(2) by (cases n) (simp_all add: mrcp_message_next_header_field_get_def)
next
  case (Cons b ys)
  obtain k where n: "n = Suc k" using Cons.prems(4) by (cases n) auto
  have "ring_next ring a = Some b" using Cons.prems(1,3) ring_next_mid [of a xs "b # ys"] by simp
  then have "mrcp_message_next_header_field_get m (Some a) = Some b"
    using Cons.prems(2) by (simp add: mrcp_message_next_header_field_get_def)
  moreover have "iterate_fields k m (Some b) = ys"
    using Cons.IH [OF Cons.prems(1,2), of "xs @ [a]" b k] Cons.prems(3,4) n by simp
  ultimately show ?case by (simp add: n)
qed

section \<open>Properties\<close>

text \<open>C26. A response made by \<open>mrcp_response_create\<close> answers its request: it carries the request
  identifier, the version, the method and the session of the request, reports success and
  completion, has an allocated header without fields and no body, and making it never
  dereferences a missing function of a registered resource.\<close>

theorem response_answers_request:
  assumes "msg_resource req = Some r" and "mrcp_resource_validate r"
    and "res_get_resource_header_vtable r = Some get"
  shows "\<exists>m. mrcp_response_create A (Some req) = Inr m \<and>
    msg_start_line m = (msg_start_line req)
      \<lparr>sl_message_type := MRCP_MESSAGE_TYPE_RESPONSE, sl_length := 0,
       sl_status_code := MRCP_STATUS_CODE_SUCCESS, sl_request_state := MRCP_REQUEST_STATE_COMPLETE\<rparr> \<and>
    msg_channel_id m = (msg_channel_id req)\<lparr>ch_resource_name := res_name r\<rparr> \<and>
    header_ready A (get (sl_version (msg_start_line req))) (msg_header m) \<and>
    hs_listing (mh_section (msg_header m)) = [] \<and> msg_body m = apt_string_reset \<and> msg_resource m = Some r"
proof -
  let ?rl = "msg_start_line req"
  let ?m = "(mrcp_message_create A :: 'a mrcp_message)\<lparr>msg_channel_id := msg_channel_id req,
     msg_start_line := (blank_start_line A)\<lparr>sl_message_type := MRCP_MESSAGE_TYPE_RESPONSE,
       sl_request_state := MRCP_REQUEST_STATE_COMPLETE, sl_status_code := MRCP_STATUS_CODE_SUCCESS,
       sl_request_id := sl_request_id ?rl, sl_version := sl_version ?rl,
       sl_method_id := sl_method_id ?rl, sl_method_name := sl_method_name ?rl\<rparr>\<rparr>"
  obtain m where "mrcp_message_resource_set_by_id A ?m (Some r) = Inr (True, m)"
    "header_ready A (get (sl_version ?rl)) (msg_header m)" "msg_resource m = Some r"
    "msg_channel_id m = (msg_channel_id req)\<lparr>ch_resource_name := res_name r\<rparr>"
    "msg_body m = apt_string_reset" "hs_ring (mh_section (msg_header m)) = []"
    "msg_start_line m = msg_start_line ?m"
    using resource_set_by_id_ready [OF assms(2,3), of A ?m]
    by (auto simp: mrcp_message_create_def mrcp_message_header_init_def apt_header_section_init_def)
  then show ?thesis
    using assms(1)
    by (auto simp: mrcp_response_create_def mrcp_message_create_def Let_def hs_listing_def blank_start_line_def
        mrcp_start_line_init_def)
qed

definition sample_resource :: "unit mrcp_resource" where
  "sample_resource =
     \<lparr>res_id = 1, res_name = c_literal ''speechsynth'' 11,
      res_get_method_str_table = Some (\<lambda>_. [table_item ''SPEAK'' 5 0, table_item ''STOP'' 4 1]), res_method_count = 2,
      res_get_event_str_table = Some (\<lambda>_. [table_item ''SPEAK-COMPLETE'' 14 0]), res_event_count = 1,
      res_get_resource_header_vtable = Some (\<lambda>_. no_fields_vtable)\<rparr>"

lemma sample_resource_valid: "mrcp_resource_validate sample_resource"
  by (simp add: mrcp_resource_validate_def sample_resource_def c_literal_def)

theorem response_answers_request_witness:
  "\<exists>m. mrcp_response_create apr_ref (Some ((mrcp_message_create apr_ref)\<lparr>msg_resource := Some sample_resource\<rparr>)) = Inr m \<and>
    sl_status_code (msg_start_line m) = MRCP_STATUS_CODE_SUCCESS \<and> hs_listing (mh_section (msg_header m)) = []"
proof -
  have g: "res_get_resource_header_vtable sample_resource = Some (\<lambda>_. no_fields_vtable)"
    by (simp add: sample_resource_def)
  show ?thesis
    using response_answers_request [OF _ sample_resource_valid g,
        of "(mrcp_message_create apr_ref)\<lparr>msg_resource := Some sample_resource\<rparr>" apr_ref]
    by auto
qed

text \<open>C33. Registering resources keeps the two indices of the factory consistent: every resource in
  the array is valid, stands at its identifier and is registered under its name, and every
  name leads to the resource of that name. A resource that is accepted is found by its
  identifier and by its name; one that is refused changes nothing.\<close>

theorem resource_registration:
  assumes "factory_wf rf" and "mrcp_resource_register rf (Some r) = (ok, rf')"
  shows "factory_wf rf' \<and>
    (ok \<longrightarrow> mrcp_resource_get rf' (res_id r) = Some r \<and> mrcp_resource_find rf' (res_name r) = Some r) \<and>
    (\<not> ok \<longrightarrow> rf' = rf) \<and>
    (ok \<longleftrightarrow> res_id r < length (rf_array rf) \<and> mrcp_resource_get rf (res_id r) = None \<and> mrcp_resource_validate r)"
  using factory_wf_register [OF assms] register_cases [OF assms(2)]
  by (auto simp: mrcp_resource_get_def mrcp_resource_find_def mrcp_resource_validate_def)

definition sample_factory :: "unit mrcp_resource_factory" where
  "sample_factory = \<lparr>rf_array = [None, None], rf_hash = Map.empty\<rparr>"

lemma sample_factory_wf: "factory_wf sample_factory"
  using factory_wf_create [of 2 sample_factory]
  by (simp add: sample_factory_def mrcp_resource_factory_create_def numeral_2_eq_2)

theorem resource_registration_witness:
  "mrcp_resource_find (snd (mrcp_resource_register sample_factory (Some sample_resource))) (res_name sample_resource) =
     Some sample_resource"
proof (cases "mrcp_resource_register sample_factory (Some sample_resource)")
  case (Pair ok rf')
  have "res_id sample_resource < length (rf_array sample_factory)"
    "mrcp_resource_get sample_factory (res_id sample_resource) = None"
    by (simp_all add: sample_factory_def sample_resource_def mrcp_resource_get_def)
  then show ?thesis
    using resource_registration [OF sample_factory_wf Pair] sample_resource_valid Pair by simp
qed

text \<open>The recommended loop over the header fields of a message ends and visits every field
  exactly once, in the order of the ring.\<close>

theorem header_iteration:
  assumes "hs_wf (mh_section (msg_header m))" and "length (hs_ring (mh_section (msg_header m))) < n"
  shows "iterate_fields n m None = hs_ring (mh_section (msg_header m))"
proof (cases "hs_ring (mh_section (msg_header m))")
  case Nil
  then show ?thesis by (cases n) (simp_all add: mrcp_message_next_header_field_get_def)
next
  case (Cons a ys)
  obtain k where n: "n = Suc k" using assms(2) by (cases n) auto
  have "distinct (hs_ring (mh_section (msg_header m)))" using assms(1) by (simp add: hs_wf_def)
  then have "iterate_fields k m (Some a) = ys"
    using iterate_from [of _ m "[]" a ys k] Cons assms(2) n by simp
  then show ?thesis using Cons n by (simp add: mrcp_message_next_header_field_get_def)
qed

theorem header_iteration_witness:
  "iterate_fields 5 ((mrcp_message_create apr_ref)\<lparr>msg_header := sample_header\<rparr>) None = [0]"
proof -
  have r: "hs_ring sample_section = [0]" by (simp add: sample_section_eval)
  show ?thesis
    using header_iteration [of "(mrcp_message_create apr_ref)\<lparr>msg_header := sample_header\<rparr>" 5] sample_section_wf r
    by (simp add: sample_header_def)
qed

text \<open>C34. Validating a message with a body that already has a Content-Length field reports success and leaves
  the fields that are sent as they are, whatever value the field has and however long the body is. When the length in
  the generic header is zero, \<open>mrcp_message_validate\<close> stores the length of the body there, but the field it
  generates is refused because there is one already; otherwise it changes nothing. So a message whose
  body has changed since its first validation is sent with the old length.\<close>

theorem stale_content_length:
  assumes "header_ready A vt (msg_header m)" and "hs_wf (mh_section (msg_header m))"
    and "hs_lookup (mh_section (msg_header m)) GENERIC_HEADER_CONTENT_LENGTH = Some f"
    and "acc_data (mh_generic (msg_header m)) = Some gh"
    and "0 < str_length (msg_body m)" and "str_length (msg_body m) < 2 ^ 64"
  shows "\<exists>m' gh'. mrcp_message_validate m = Inr (True, m') \<and> acc_data (mh_generic (msg_header m')) = Some gh' \<and>
    (if gh_content_length gh = 0 then unat (gh_content_length gh') = str_length (msg_body m) else gh' = gh) \<and>
    hs_listing (mh_section (msg_header m')) = hs_listing (mh_section (msg_header m)) \<and>
    hs_lookup (mh_section (msg_header m')) GENERIC_HEADER_CONTENT_LENGTH = Some f"
proof -
  let ?n = "str_length (msg_body m)" and ?h = "msg_header m"
  have vt: "acc_vtable (mh_generic ?h) = Some (mrcp_generic_header_vtable A)"
    using assms(1) by (simp add: header_ready_def)
  let ?gh = "gh\<lparr>gh_content_length := of_nat ?n\<rparr>"
  let ?m = "m\<lparr>msg_header := ?h\<lparr>mh_generic := (mh_generic ?h)\<lparr>acc_data := Some ?gh\<rparr>\<rparr>\<rparr>"
  have prep: "mrcp_generic_header_prepare m = (Some gh, m)"
    using assms(4) by (simp add: mrcp_generic_header_prepare_def mrcp_header_allocate_def)
  show ?thesis
  proof (cases "gh_content_length gh = 0")
    case False
    have "mrcp_generic_header_property_check m GENERIC_HEADER_CONTENT_LENGTH"
      using assms(3) by (auto simp: mrcp_generic_header_property_check_def apt_header_section_field_check_def
          hs_lookup_def apt_header_section_field_get_def split: if_splits)
    then have "mrcp_message_validate m = Inr (True, m)"
      using prep assms(5) False by (simp add: mrcp_message_validate_def)
    then show ?thesis using assms(3,4) False by simp
  next
    case True
    have n: "unat (gh_content_length ?gh) = ?n" using assms(6) by (simp add: unat_of_nat)
    from content_length_add [of ?m, OF _ _ n] have add:
      "mrcp_generic_header_property_add ?m GENERIC_HEADER_CONTENT_LENGTH =
        Inr (fst (hs_put (mh_section ?h) (length_field A ?n)),
             section_update (\<lambda>h. snd (hs_put h (length_field A ?n))) ?m)"
      using vt by simp
    have "mrcp_message_validate m = Inr (True, section_update (\<lambda>h. snd (hs_put h (length_field A ?n))) ?m)"
      using assms(5) True prep add by (simp add: mrcp_message_validate_def Let_def)
    moreover have "hs_lookup (snd (hs_put (mh_section ?h) (length_field A ?n))) GENERIC_HEADER_CONTENT_LENGTH = Some f"
      using hsc.lookup_put [OF assms(2), of "length_field A ?n"] assms(3) by simp
    moreover have "hs_listing (snd (hs_put (mh_section ?h) (length_field A ?n))) = hs_listing (mh_section ?h)"
      using hsc.listing_put [OF assms(2), of "length_field A ?n"] assms(3) by (simp add: length_field_def)
    ultimately show ?thesis using n True by (simp add: section_update_def)
  qed
qed

text \<open>A message with a body of three bytes that was validated with one of five.\<close>

definition stale_message :: "unit mrcp_message" where
  "stale_message =
     (let h = snd (mrcp_message_header_data_alloc (empty_header\<lparr>mh_section := empty_section\<rparr>)
                     (Some (mrcp_generic_header_vtable apr_ref)) (Some no_fields_vtable))
      in (mrcp_message_create apr_ref)
           \<lparr>msg_header := h\<lparr>mh_section := snd (hs_put (mh_section h) (length_field apr_ref 5)),
              mh_generic := (mh_generic h)\<lparr>acc_data := Some (mrcp_generic_header_init\<lparr>gh_content_length := 5\<rparr>)\<rparr>\<rparr>,
            msg_body := c_literal ''abc'' 3\<rparr>)"

theorem stale_content_length_witness:
  "\<exists>m'. mrcp_message_validate stale_message = Inr (True, m') \<and>
    hs_lookup (mh_section (msg_header m')) GENERIC_HEADER_CONTENT_LENGTH = Some (length_field apr_ref 5)"
proof -
  let ?h = "snd (mrcp_message_header_data_alloc (empty_header\<lparr>mh_section := empty_section\<rparr>)
                     (Some (mrcp_generic_header_vtable apr_ref)) (Some no_fields_vtable))"
  have "hs_wf empty_section" by (simp add: hs_wf_def)
  then have wf: "hs_wf (mh_section ?h)" by (simp add: mrcp_message_header_data_alloc_def hs_wf_array_alloc)
  have arr: "hs_arr (mh_section ?h) = replicate 16 None"
    by (simp add: mrcp_message_header_data_alloc_def apt_header_section_array_alloc_def
        mrcp_generic_header_vtable_def no_fields_vtable_def)
  then have "hs_lookup (mh_section ?h) 8 = None"
    by (simp add: hs_lookup_def apt_header_section_field_get_def)
  then have "hs_lookup (mh_section (msg_header stale_message)) 8 = Some (length_field apr_ref 5)"
    using hsc.lookup_put [OF wf, of "length_field apr_ref 5" 8] arr
    by (simp add: stale_message_def length_field_def Let_def)
  moreover have "header_ready apr_ref no_fields_vtable (msg_header stale_message)"
    "acc_data (mh_generic (msg_header stale_message)) = Some (mrcp_generic_header_init\<lparr>gh_content_length := 5\<rparr>)"
    by (simp_all add: stale_message_def mrcp_message_header_data_alloc_def mrcp_header_allocate_def header_ready_def
        mrcp_generic_header_vtable_def Let_def)
  moreover have "hs_wf (mh_section (msg_header stale_message))"
    using hsc.put_inv [OF wf] by (simp add: stale_message_def Let_def)
  moreover have "str_length (msg_body stale_message) = 3"
    by (simp add: stale_message_def Let_def c_literal_def)
  ultimately show ?thesis
    using stale_content_length [of apr_ref no_fields_vtable stale_message "length_field apr_ref 5"
        "mrcp_generic_header_init\<lparr>gh_content_length := 5\<rparr>"] by auto
qed

end
