(* ===== verification/ResourceValue.thy ===== *)
theory ResourceValue
  imports MrcpMessage
begin

text \<open>
  The values of resource header fields: floating-point values of \<open>apt_text_stream.c\<close>, values
  that are looked up in a table, and the contract of the functions that a resource supplies for
  its header.

  Floating-point arithmetic and its conversions from and to text belong to the platform and to
  APR: they are the parameter \<open>c_flt\<close>. A \<open>float\<close> is its 32 bits, so that \<open>0.0\<close> is zero.
\<close>

lemma c_str_text [simp]: "NUL \<notin> set t \<Longrightarrow> c_str (t @ NUL # r) = t"
  unfolding c_str_def by (subst takeWhile_append2) auto

lemma strlen_text: "NUL \<notin> set t \<Longrightarrow> strlen (t @ NUL # r) = length t"
  by (simp add: strlen_def)

section \<open>Floating-point values\<close>

type_synonym c_float = "32 word"

record c_flt =
  flt_atof :: "char list \<Rightarrow> c_float"
  flt_print :: "c_float \<Rightarrow> char list"
  flt_snprintf :: "nat \<Rightarrow> c_float \<Rightarrow> char list \<times> int"
  flt_of_size :: "64 word \<Rightarrow> c_float"
  flt_to_size :: "c_float \<Rightarrow> 64 word"
  flt_add :: "c_float \<Rightarrow> c_float \<Rightarrow> c_float"
  flt_mul :: "c_float \<Rightarrow> c_float \<Rightarrow> c_float"
  flt_div :: "c_float \<Rightarrow> c_float \<Rightarrow> c_float"
  flt_milli :: c_float

definition apt_float_value_parse :: "c_flt \<Rightarrow> apt_str \<Rightarrow> c_float" where
  "apt_float_value_parse F str = (case str_buf str of Some p \<Rightarrow> flt_atof F p | None \<Rightarrow> 0)"

text \<open>The index where the loop that removes trailing zeros stops, started at \<open>e\<close>.\<close>

fun trailing_zeros_skip :: "char list \<Rightarrow> nat \<Rightarrow> nat" where
  "trailing_zeros_skip p 0 = 0"
| "trailing_zeros_skip p (Suc e) =
     (if p ! Suc e = CHR ''0'' \<and> p ! e \<noteq> CHR ''.'' then trailing_zeros_skip p e else Suc e)"

definition apt_float_value_generate :: "c_flt \<Rightarrow> c_float \<Rightarrow> fault + apt_str" where
  "apt_float_value_generate F value =
     (let p = flt_print F value @ [NUL]; n = strlen p
      in if n = 0 then Inl OutOfBounds
         else Inr \<lparr>str_buf = Some p, str_length = trailing_zeros_skip p (n - 1) + 1\<rparr>)"

definition apt_text_float_value_insert :: "c_flt \<Rightarrow> c_float \<Rightarrow> apt_text_stream \<Rightarrow> fault + bool \<times> apt_text_stream" where
  "apt_text_float_value_insert F value s =
     (case flt_snprintf F (ts_end s - ts_pos s) value of (p, n) \<Rightarrow>
        sbind (mem_write (ts_pos s) p (ts_mem s)) (\<lambda>mem.
          let s = s\<lparr>ts_mem := mem\<rparr>
          in if n \<le> 0 then Inr (False, s)
             else if ts_pos s + nat n > length mem then Inl OutOfBounds
             else Inr (True, s\<lparr>ts_pos := ts_pos s + trailing_zeros_skip (drop (ts_pos s) mem) (nat n - 1) + 1\<rparr>)))"

text \<open>
  The loop removes zeros only, and keeps the digit after the point: \<open>0.500000\<close> becomes \<open>0.5\<close>
  and \<open>1.000000\<close> becomes \<open>1.0\<close>.
\<close>

lemma zeros_skip_frac:
  assumes "list_all isdigit fs" and "fs \<noteq> []"
  shows "\<exists>k. trailing_zeros_skip (ds @ CHR ''.'' # fs @ r) (length ds + length fs) = length ds + Suc k \<and>
    k < length fs \<and> drop (Suc k) fs = replicate (length fs - Suc k) (CHR ''0'') \<and>
    (k = 0 \<or> fs ! k \<noteq> CHR ''0'')"
  using assms
proof (induction fs arbitrary: r rule: rev_induct)
  case (snoc c fs)
  let ?p = "ds @ CHR ''.'' # (fs @ [c]) @ r"
  have last: "?p ! (length ds + Suc (length fs)) = c"
    "?p ! (length ds + length fs) = (if fs = [] then CHR ''.'' else last fs)"
    by (auto simp: nth_append nth_Cons last_conv_nth split: nat.splits)
  have dig: "isdigit (last fs)" if "fs \<noteq> []" using snoc.prems(1) that by (auto simp: list_all_iff)
  then have dot: "last fs \<noteq> CHR ''.''" if "fs \<noteq> []" using that by (auto simp: isdigit_def)
  show ?case
  proof (cases "fs \<noteq> [] \<and> c = CHR ''0''")
    case True
    have "trailing_zeros_skip ?p (length ds + length (fs @ [c])) = trailing_zeros_skip ?p (length ds + length fs)"
      using True last dot by simp
    moreover obtain k where
      "trailing_zeros_skip (ds @ CHR ''.'' # fs @ ([c] @ r)) (length ds + length fs) = length ds + Suc k" "k < length fs"
      "drop (Suc k) fs = replicate (length fs - Suc k) (CHR ''0'')" "k = 0 \<or> fs ! k \<noteq> CHR ''0''"
      using snoc.IH [of "[c] @ r"] snoc.prems(1) True by auto
    moreover from this have "length fs - k = Suc (length fs - Suc k)" by simp
    ultimately show ?thesis
      using True by (intro exI [of _ k]) (auto simp: replicate_append_same nth_append)
  next
    case False
    then have "trailing_zeros_skip ?p (length ds + length (fs @ [c])) = length ds + Suc (length fs)"
      using last by auto
    then show ?thesis using False by (intro exI [of _ "length fs"]) (auto simp: nth_append)
  qed
qed simp

lemma float_value_text:
  assumes "flt_print F x = ds @ CHR ''.'' # fs" and "list_all isdigit ds" and "list_all isdigit fs" and "fs \<noteq> []"
  shows "\<exists>v k. apt_float_value_generate F x = Inr v \<and> str_wf v \<and>
    str_bytes v = ds @ CHR ''.'' # take (Suc k) fs \<and> k < length fs \<and>
    drop (Suc k) fs = replicate (length fs - Suc k) (CHR ''0'') \<and> (k = 0 \<or> fs ! k \<noteq> CHR ''0'')"
proof -
  have "NUL \<notin> set (flt_print F x)" using assms(1-3) by (auto simp: list_all_iff isdigit_def)
  then have n: "strlen (flt_print F x @ [NUL]) = length ds + Suc (length fs)"
    using assms(1) strlen_text [of "flt_print F x" "[]"] by simp
  obtain k where k: "trailing_zeros_skip (ds @ CHR ''.'' # fs @ [NUL]) (length ds + length fs) = length ds + Suc k"
    "k < length fs" "drop (Suc k) fs = replicate (length fs - Suc k) (CHR ''0'')" "k = 0 \<or> fs ! k \<noteq> CHR ''0''"
    using zeros_skip_frac [OF assms(3,4), of ds "[NUL]"] by blast
  then show ?thesis
    using n assms(1)
    by (intro exI [of _ "\<lparr>str_buf = Some (flt_print F x @ [NUL]), str_length = length ds + Suc (Suc k)\<rparr>"] exI [of _ k])
      (simp add: apt_float_value_generate_def str_wf_def str_bytes_def str_mem_def)
qed

section \<open>Other values\<close>

definition apt_string_table_value_parse :: "apt_str_table_item list \<Rightarrow> nat \<Rightarrow> apt_str \<Rightarrow> nat" where
  "apt_string_table_value_parse table sz value = apt_string_table_id_find table sz value"

definition apt_string_table_value_pgenerate :: "apt_str_table_item list \<Rightarrow> nat \<Rightarrow> nat \<Rightarrow> apt_str \<Rightarrow> bool \<times> apt_str" where
  "apt_string_table_value_pgenerate table sz i str =
     (case apt_string_table_str_get table sz i of None \<Rightarrow> (False, str) | Some name \<Rightarrow> (True, apt_string_copy name))"

text \<open>
  A boolean is only stored when the value is one. A number that is stored in an enumeration is
  cut to 32 bits. A completion cause that has no name leaves the value as it is.
\<close>

definition bool_value :: "apt_str \<Rightarrow> bool \<Rightarrow> bool" where
  "bool_value v old = (case apt_boolean_value_parse v of None \<Rightarrow> old | Some b \<Rightarrow> b)"

definition enum_value :: "apt_str \<Rightarrow> nat" where
  "enum_value v = unat (ucast (apt_size_value_parse v) :: 32 word)"

definition cause_generate :: "apt_str_table_item list \<Rightarrow> nat \<Rightarrow> nat \<Rightarrow> apt_str \<Rightarrow> bool \<times> apt_str" where
  "cause_generate table sz cause v =
     (case apt_completion_cause_generate table sz cause of None \<Rightarrow> (False, v) | Some s \<Rightarrow> (True, s))"

definition float_field :: "c_flt \<Rightarrow> c_float \<Rightarrow> fault + bool \<times> apt_str" where
  "float_field F value = sbind (apt_float_value_generate F value) (\<lambda>s. Inr (True, s))"

lemma bool_value_generate [simp]: "bool_value (apt_boolean_value_generate b) old = b"
  by (cases b) (simp_all add: bool_value_def apt_boolean_value_parse_def apt_boolean_value_generate_def str_mem_def
      eval_nat_numeral byte_def tolower_def)

lemma digits_val_zeros: "digits_val 0 (replicate k (CHR ''0'') @ xs) = digits_val 0 xs"
  by (induction k) (auto simp: isdigit_def digit_val_def)

lemma atol_padded:
  assumes "\<not> isdigit (byte r)" and "int n < 2 ^ 63"
  shows "atol (replicate k (CHR ''0'') @ dec n @ r) = int n"
proof (cases k)
  case 0
  then show ?thesis using atol_dec [OF assms] by simp
next
  case (Suc j)
  have "\<not> isspace (CHR ''0'')" by (simp add: isspace_def)
  then show ?thesis
    using digits_val_zeros [of k "dec n @ r"] digits_val_dec_append [OF assms(1)] assms(2)
    by (simp add: atol_def Suc byte_def Let_def)
qed

lemma cause_generate_parse:
  assumes "cause < sz" and "sz \<le> 100"
  shows "\<exists>s. cause_generate table sz cause v = (True, s) \<and> enum_value s = cause"
proof -
  let ?l = "length (dec cause)" and ?n = "item_value (table ! cause)"
  let ?num = "replicate (3 - ?l) (CHR ''0'') @ dec cause @ [APT_TOKEN_SP]"
  let ?s = "\<lparr>str_buf = Some (?num @ str_bytes ?n @ [NUL]), str_length = 4 + str_length ?n\<rparr>"
  have "?l \<le> 3" 
  proof (rule ccontr)
    assume "\<not> ?l \<le> 3"
    then have "10 ^ 3 \<le> (10::nat) ^ (?l - 1)" by (intro power_increasing) auto
    moreover have "0 < cause" using \<open>\<not> ?l \<le> 3\<close> by (cases cause) (simp_all add: length_dec_less)
    ultimately have "10 ^ 3 \<le> cause" using length_dec_bounds [of cause] by linarith
    then show False using assms by simp
  qed
  then have g: "cause_generate table sz cause v = (True, ?s)"
    using assms(1) by (simp add: cause_generate_def apt_completion_cause_generate_def apt_string_table_str_get_def Let_def)
  have "atol (replicate (3 - ?l) (CHR ''0'') @ dec cause @ ([APT_TOKEN_SP] @ str_bytes ?n @ [NUL])) = int cause"
    using assms by (intro atol_padded) (simp_all add: byte_def isdigit_def)
  then have "apt_size_value_parse ?s = word_of_int (int cause)" by (simp add: apt_size_value_parse_def)
  then have "enum_value ?s = unat (ucast (of_nat cause :: 64 word) :: 32 word)" by (simp add: enum_value_def)
  also have "\<dots> = cause" using assms by (simp add: unsigned_ucast_eq unat_of_nat take_bit_nat_eq_self)
  finally show ?thesis using g by blast
qed

section \<open>The contract of header functions\<close>

text \<open>
  What the messages rely on: the names of the fields are distinct, and a value that is generated
  is parsed back, which has the same effect as duplicating it. \<open>exact\<close> names the fields whose
  text form determines the value, \<open>own\<close> the headers of the resource, \<open>ok\<close> those whose values
  have a text form.
\<close>

locale header_values =
  fixes vt :: "apr \<Rightarrow> 'd header_vtable" and exact :: "nat \<Rightarrow> bool" and own ok :: "'d \<Rightarrow> bool"
  assumes field_names: "string_table (vt_field_table (vt A)) (vt_field_count (vt A))"
    and allocated: "own (vt_allocate (vt A))"
    and value_roundtrip: "apr_ok A \<Longrightarrow> i < vt_field_count (vt A) \<Longrightarrow> exact i \<Longrightarrow> own d \<Longrightarrow> ok d \<Longrightarrow> own d1 \<Longrightarrow>
      \<exists>v d2. vt_generate (vt A) i d v0 = Inr (True, v) \<and> vt_parse (vt A) i v d1 = (True, d2) \<and>
        vt_duplicate (vt A) i (Some d) v (Some d1) = (True, Some d2)"
begin

lemma field_id: "i < vt_field_count (vt A) \<Longrightarrow>
  apt_string_table_id_find (vt_field_table (vt A)) (vt_field_count (vt A)) (item_value (vt_field_table (vt A) ! i)) = i"
  by (rule string_table.id_find_str_get [OF field_names]) (simp add: apt_string_table_str_get_def)

text \<open>A field made from one header and interpreted by another one carries its value over.\<close>

lemma field_carries_value:
  assumes "apr_ok A" and "acc_vtable src = Some (vt A)" and "acc_data src = Some d" and "acc_vtable acc = Some (vt A)"
    and "acc_data acc = Some d1" and "i < vt_field_count (vt A)" and "exact i" and "own d" and "ok d" and "own d1"
  shows "\<exists>f d2. mrcp_header_field_value_generate src i False = Inr (Some f) \<and>
    hf_name f = item_value (vt_field_table (vt A) ! i) \<and>
    (str_length (hf_value f) \<noteq> 0 \<longrightarrow>
      mrcp_header_field_value_parse acc f = Inr (True, acc\<lparr>acc_data := Some d2\<rparr>, f\<lparr>hf_id := i\<rparr>) \<and>
      mrcp_header_field_value_duplicate acc src i (hf_value f) = (True, acc\<lparr>acc_data := Some d2\<rparr>))"
proof -
  let ?f = "apt_header_field_alloc\<lparr>hf_name := item_value (vt_field_table (vt A) ! i)\<rparr>"
  obtain v d2 where v: "vt_generate (vt A) i d (hf_value ?f) = Inr (True, v)" "vt_parse (vt A) i v d1 = (True, d2)"
    "vt_duplicate (vt A) i (Some d) v (Some d1) = (True, Some d2)"
    using value_roundtrip [OF assms(1,6-10), of "hf_value ?f"] by blast
  then show ?thesis
    using assms(2-6) field_id [OF assms(6)]
    by (intro exI [of _ "?f\<lparr>hf_value := v\<rparr>"] exI [of _ d2])
      (simp add: mrcp_header_field_value_generate_def mrcp_header_field_value_parse_def
        mrcp_header_field_value_duplicate_def apt_string_table_str_get_def Let_def)
qed

end

end
