(* ===== verification/SynthResource.thy ===== *)
theory SynthResource
  imports ResourceValue
begin

text \<open>
  The synthesizer: its header (\<open>mrcp_synth_header.c\<close>) and its methods and events
  (\<open>mrcp_synth_resource.c\<close>).

  A structure with a type and a union of values is a record with one component per member of the
  union. A member that no type selects is only read while the type is unknown, that is before any
  value was stored; \<open>apr_uninit\<close> stands for what is read then.
\<close>

section \<open>Header\<close>

abbreviation (input) SYNTHESIZER_HEADER_JUMP_SIZE :: nat where "SYNTHESIZER_HEADER_JUMP_SIZE \<equiv> 0"
abbreviation (input) SYNTHESIZER_HEADER_KILL_ON_BARGE_IN :: nat where
  "SYNTHESIZER_HEADER_KILL_ON_BARGE_IN \<equiv> 1"
abbreviation (input) SYNTHESIZER_HEADER_SPEAKER_PROFILE :: nat where
  "SYNTHESIZER_HEADER_SPEAKER_PROFILE \<equiv> 2"
abbreviation (input) SYNTHESIZER_HEADER_COMPLETION_CAUSE :: nat where
  "SYNTHESIZER_HEADER_COMPLETION_CAUSE \<equiv> 3"
abbreviation (input) SYNTHESIZER_HEADER_COMPLETION_REASON :: nat where
  "SYNTHESIZER_HEADER_COMPLETION_REASON \<equiv> 4"
abbreviation (input) SYNTHESIZER_HEADER_VOICE_GENDER :: nat where "SYNTHESIZER_HEADER_VOICE_GENDER \<equiv> 5"
abbreviation (input) SYNTHESIZER_HEADER_VOICE_AGE :: nat where "SYNTHESIZER_HEADER_VOICE_AGE \<equiv> 6"
abbreviation (input) SYNTHESIZER_HEADER_VOICE_VARIANT :: nat where
  "SYNTHESIZER_HEADER_VOICE_VARIANT \<equiv> 7"
abbreviation (input) SYNTHESIZER_HEADER_VOICE_NAME :: nat where "SYNTHESIZER_HEADER_VOICE_NAME \<equiv> 8"
abbreviation (input) SYNTHESIZER_HEADER_PROSODY_VOLUME :: nat where
  "SYNTHESIZER_HEADER_PROSODY_VOLUME \<equiv> 9"
abbreviation (input) SYNTHESIZER_HEADER_PROSODY_RATE :: nat where
  "SYNTHESIZER_HEADER_PROSODY_RATE \<equiv> 10"
abbreviation (input) SYNTHESIZER_HEADER_SPEECH_MARKER :: nat where
  "SYNTHESIZER_HEADER_SPEECH_MARKER \<equiv> 11"
abbreviation (input) SYNTHESIZER_HEADER_SPEECH_LANGUAGE :: nat where
  "SYNTHESIZER_HEADER_SPEECH_LANGUAGE \<equiv> 12"
abbreviation (input) SYNTHESIZER_HEADER_FETCH_HINT :: nat where "SYNTHESIZER_HEADER_FETCH_HINT \<equiv> 13"
abbreviation (input) SYNTHESIZER_HEADER_AUDIO_FETCH_HINT :: nat where
  "SYNTHESIZER_HEADER_AUDIO_FETCH_HINT \<equiv> 14"
abbreviation (input) SYNTHESIZER_HEADER_FAILED_URI :: nat where "SYNTHESIZER_HEADER_FAILED_URI \<equiv> 15"
abbreviation (input) SYNTHESIZER_HEADER_FAILED_URI_CAUSE :: nat where
  "SYNTHESIZER_HEADER_FAILED_URI_CAUSE \<equiv> 16"
abbreviation (input) SYNTHESIZER_HEADER_SPEAK_RESTART :: nat where
  "SYNTHESIZER_HEADER_SPEAK_RESTART \<equiv> 17"
abbreviation (input) SYNTHESIZER_HEADER_SPEAK_LENGTH :: nat where
  "SYNTHESIZER_HEADER_SPEAK_LENGTH \<equiv> 18"
abbreviation (input) SYNTHESIZER_HEADER_LOAD_LEXICON :: nat where
  "SYNTHESIZER_HEADER_LOAD_LEXICON \<equiv> 19"
abbreviation (input) SYNTHESIZER_HEADER_LEXICON_SEARCH_ORDER :: nat where
  "SYNTHESIZER_HEADER_LEXICON_SEARCH_ORDER \<equiv> 20"
abbreviation (input) SYNTHESIZER_HEADER_COUNT :: nat where "SYNTHESIZER_HEADER_COUNT \<equiv> 21"

abbreviation (input) SPEECH_UNIT_SECOND :: nat where "SPEECH_UNIT_SECOND \<equiv> 0"
abbreviation (input) SPEECH_UNIT_WORD :: nat where "SPEECH_UNIT_WORD \<equiv> 1"
abbreviation (input) SPEECH_UNIT_SENTENCE :: nat where "SPEECH_UNIT_SENTENCE \<equiv> 2"
abbreviation (input) SPEECH_UNIT_PARAGRAPH :: nat where "SPEECH_UNIT_PARAGRAPH \<equiv> 3"
abbreviation (input) SPEECH_UNIT_COUNT :: nat where "SPEECH_UNIT_COUNT \<equiv> 4"

abbreviation (input) SPEECH_LENGTH_TYPE_TEXT :: nat where "SPEECH_LENGTH_TYPE_TEXT \<equiv> 0"
abbreviation (input) SPEECH_LENGTH_TYPE_NUMERIC_POSITIVE :: nat where
  "SPEECH_LENGTH_TYPE_NUMERIC_POSITIVE \<equiv> 1"
abbreviation (input) SPEECH_LENGTH_TYPE_NUMERIC_NEGATIVE :: nat where
  "SPEECH_LENGTH_TYPE_NUMERIC_NEGATIVE \<equiv> 2"
abbreviation (input) SPEECH_LENGTH_TYPE_UNKNOWN :: nat where "SPEECH_LENGTH_TYPE_UNKNOWN \<equiv> 3"

abbreviation (input) VOICE_GENDER_MALE :: nat where "VOICE_GENDER_MALE \<equiv> 0"
abbreviation (input) VOICE_GENDER_FEMALE :: nat where "VOICE_GENDER_FEMALE \<equiv> 1"
abbreviation (input) VOICE_GENDER_NEUTRAL :: nat where "VOICE_GENDER_NEUTRAL \<equiv> 2"
abbreviation (input) VOICE_GENDER_COUNT :: nat where "VOICE_GENDER_COUNT \<equiv> 3"

abbreviation (input) PROSODY_VOLUME_TYPE_LABEL :: nat where "PROSODY_VOLUME_TYPE_LABEL \<equiv> 0"
abbreviation (input) PROSODY_VOLUME_TYPE_NUMERIC :: nat where "PROSODY_VOLUME_TYPE_NUMERIC \<equiv> 1"
abbreviation (input) PROSODY_VOLUME_TYPE_RELATIVE_CHANGE :: nat where
  "PROSODY_VOLUME_TYPE_RELATIVE_CHANGE \<equiv> 2"
abbreviation (input) PROSODY_VOLUME_TYPE_UNKNOWN :: nat where "PROSODY_VOLUME_TYPE_UNKNOWN \<equiv> 3"

abbreviation (input) PROSODY_RATE_TYPE_LABEL :: nat where "PROSODY_RATE_TYPE_LABEL \<equiv> 0"
abbreviation (input) PROSODY_RATE_TYPE_RELATIVE_CHANGE :: nat where
  "PROSODY_RATE_TYPE_RELATIVE_CHANGE \<equiv> 1"
abbreviation (input) PROSODY_RATE_TYPE_UNKNOWN :: nat where "PROSODY_RATE_TYPE_UNKNOWN \<equiv> 2"

abbreviation (input) PROSODY_VOLUME_SILENT :: nat where "PROSODY_VOLUME_SILENT \<equiv> 0"
abbreviation (input) PROSODY_VOLUME_XSOFT :: nat where "PROSODY_VOLUME_XSOFT \<equiv> 1"
abbreviation (input) PROSODY_VOLUME_SOFT :: nat where "PROSODY_VOLUME_SOFT \<equiv> 2"
abbreviation (input) PROSODY_VOLUME_MEDIUM :: nat where "PROSODY_VOLUME_MEDIUM \<equiv> 3"
abbreviation (input) PROSODY_VOLUME_LOUD :: nat where "PROSODY_VOLUME_LOUD \<equiv> 4"
abbreviation (input) PROSODY_VOLUME_XLOUD :: nat where "PROSODY_VOLUME_XLOUD \<equiv> 5"
abbreviation (input) PROSODY_VOLUME_DEFAULT :: nat where "PROSODY_VOLUME_DEFAULT \<equiv> 6"
abbreviation (input) PROSODY_VOLUME_COUNT :: nat where "PROSODY_VOLUME_COUNT \<equiv> 7"

abbreviation (input) PROSODY_RATE_XSLOW :: nat where "PROSODY_RATE_XSLOW \<equiv> 0"
abbreviation (input) PROSODY_RATE_SLOW :: nat where "PROSODY_RATE_SLOW \<equiv> 1"
abbreviation (input) PROSODY_RATE_MEDIUM :: nat where "PROSODY_RATE_MEDIUM \<equiv> 2"
abbreviation (input) PROSODY_RATE_FAST :: nat where "PROSODY_RATE_FAST \<equiv> 3"
abbreviation (input) PROSODY_RATE_XFAST :: nat where "PROSODY_RATE_XFAST \<equiv> 4"
abbreviation (input) PROSODY_RATE_DEFAULT :: nat where "PROSODY_RATE_DEFAULT \<equiv> 5"
abbreviation (input) PROSODY_RATE_COUNT :: nat where "PROSODY_RATE_COUNT \<equiv> 6"

abbreviation (input) SYNTHESIZER_COMPLETION_CAUSE_NORMAL :: nat where "SYNTHESIZER_COMPLETION_CAUSE_NORMAL \<equiv> 0"
abbreviation (input) SYNTHESIZER_COMPLETION_CAUSE_COUNT :: nat where "SYNTHESIZER_COMPLETION_CAUSE_COUNT \<equiv> 8"

definition synth_header_string_table :: "apt_str_table_item list" where
  "synth_header_string_table =
     [table_item ''Jump-Size'' 9 0,
      table_item ''Kill-On-Barge-In'' 16 0,
      table_item ''Speaker-Profile'' 15 8,
      table_item ''Completion-Cause'' 16 16,
      table_item ''Completion-Reason'' 17 13,
      table_item ''Voice-Gender'' 12 6,
      table_item ''Voice-Age'' 9 6,
      table_item ''Voice-Variant'' 13 6,
      table_item ''Voice-Name'' 10 8,
      table_item ''Prosody-Volume'' 14 8,
      table_item ''Prosody-Rate'' 12 12,
      table_item ''Speech-Marker'' 13 7,
      table_item ''Speech-Language'' 15 7,
      table_item ''Fetch-Hint'' 10 2,
      table_item ''Audio-Fetch-Hint'' 16 0,
      table_item ''Failed-Uri'' 10 10,
      table_item ''Failed-Uri_Cause'' 16 10,
      table_item ''Speak-Restart'' 13 13,
      table_item ''Speak-Length'' 12 6,
      table_item ''Load-Lexicon'' 12 2,
      table_item ''Lexicon-Search-Order'' 20 2]"

definition speech_unit_string_table :: "apt_str_table_item list" where
  "speech_unit_string_table =
     [table_item ''Second'' 6 2,
      table_item ''Word'' 4 0,
      table_item ''Sentence'' 8 2,
      table_item ''Paragraph'' 9 0]"

definition voice_gender_string_table :: "apt_str_table_item list" where
  "voice_gender_string_table =
     [table_item ''male'' 4 0,
      table_item ''female'' 6 0,
      table_item ''neutral'' 7 0]"

definition prosody_volume_string_table :: "apt_str_table_item list" where
  "prosody_volume_string_table =
     [table_item ''silent'' 6 1,
      table_item ''x-soft'' 6 2,
      table_item ''soft'' 4 3,
      table_item ''medium'' 6 0,
      table_item ''loud'' 4 0,
      table_item ''x-loud'' 6 5,
      table_item ''default'' 7 0]"

definition prosody_rate_string_table :: "apt_str_table_item list" where
  "prosody_rate_string_table =
     [table_item ''x-slow'' 6 3,
      table_item ''slow'' 4 0,
      table_item ''medium'' 6 0,
      table_item ''fast'' 4 0,
      table_item ''x-fast'' 6 4,
      table_item ''default'' 7 0]"

definition synth_completion_cause_string_table :: "apt_str_table_item list" where
  "synth_completion_cause_string_table =
     [table_item ''normal'' 6 0,
      table_item ''barge-in'' 8 0,
      table_item ''parse-failure'' 13 0,
      table_item ''uri-failure'' 11 0,
      table_item ''error'' 5 0,
      table_item ''language-unsupported'' 20 4,
      table_item ''lexicon-load-failure'' 20 1,
      table_item ''cancelled'' 9 0]"

record speech_length_value =
  sl_length_type :: nat
  sl_tag :: apt_str
  sl_numeric_length :: "64 word"
  sl_numeric_unit :: nat

record voice_param =
  vp_gender :: nat
  vp_age :: "64 word"
  vp_variant :: "64 word"
  vp_name :: apt_str

record prosody_volume =
  pv_type :: nat
  pv_label :: nat
  pv_numeric :: c_float
  pv_relative :: c_float

record prosody_rate =
  pr_type :: nat
  pr_label :: nat
  pr_relative :: c_float

record prosody_param =
  pp_volume :: prosody_volume
  pp_rate :: prosody_rate

record mrcp_synth_header =
  sh_jump_size :: speech_length_value
  sh_kill_on_barge_in :: bool
  sh_speaker_profile :: apt_str
  sh_completion_cause :: nat
  sh_completion_reason :: apt_str
  sh_voice_param :: voice_param
  sh_prosody_param :: prosody_param
  sh_speech_marker :: apt_str
  sh_speech_language :: apt_str
  sh_fetch_hint :: apt_str
  sh_audio_fetch_hint :: apt_str
  sh_failed_uri :: apt_str
  sh_failed_uri_cause :: apt_str
  sh_speak_restart :: bool
  sh_speak_length :: speech_length_value
  sh_load_lexicon :: bool
  sh_lexicon_search_order :: apt_str



definition mrcp_prosody_param_rate_parse :: "c_flt \<Rightarrow> prosody_rate \<Rightarrow> apt_str \<Rightarrow> bool \<times> prosody_rate" where
  "mrcp_prosody_param_rate_parse F r value =
     (if str_length value = 0 then (False, r)
      else let c = byte (str_mem value);
               r = r\<lparr>pr_type := (if isdigit c then PROSODY_RATE_TYPE_RELATIVE_CHANGE else PROSODY_RATE_TYPE_LABEL)\<rparr>
           in (True, if pr_type r = PROSODY_RATE_TYPE_RELATIVE_CHANGE
                     then r\<lparr>pr_relative := apt_float_value_parse F value\<rparr>
                     else r\<lparr>pr_label := apt_string_table_value_parse prosody_rate_string_table PROSODY_RATE_COUNT value\<rparr>))"

definition mrcp_prosody_rate_generate :: "c_flt \<Rightarrow> prosody_rate \<Rightarrow> apt_str \<Rightarrow> fault + bool \<times> apt_str" where
  "mrcp_prosody_rate_generate F r str =
     (if pr_type r = PROSODY_RATE_TYPE_LABEL
      then Inr (True, snd (apt_string_table_value_pgenerate prosody_rate_string_table PROSODY_RATE_COUNT (pr_label r) str))
      else float_field F (pr_relative r))"

definition mrcp_prosody_param_volume_parse :: "c_flt \<Rightarrow> prosody_volume \<Rightarrow> apt_str \<Rightarrow> bool \<times> prosody_volume" where
  "mrcp_prosody_param_volume_parse F w value =
     (if str_length value = 0 then (False, w)
      else let c = byte (str_mem value);
               w = w\<lparr>pv_type := (if c = CHR ''+'' \<or> c = CHR ''-'' then PROSODY_VOLUME_TYPE_RELATIVE_CHANGE
                                  else if isdigit c then PROSODY_VOLUME_TYPE_NUMERIC
                                  else PROSODY_VOLUME_TYPE_LABEL)\<rparr>
           in (True, if pv_type w = PROSODY_VOLUME_TYPE_RELATIVE_CHANGE
                     then w\<lparr>pv_relative := apt_float_value_parse F value\<rparr>
                     else if pv_type w = PROSODY_VOLUME_TYPE_NUMERIC
                     then w\<lparr>pv_numeric := apt_float_value_parse F value\<rparr>
                     else w\<lparr>pv_label := apt_string_table_value_parse prosody_volume_string_table
                                            PROSODY_VOLUME_COUNT value\<rparr>))"

definition mrcp_prosody_volume_generate :: "c_flt \<Rightarrow> prosody_volume \<Rightarrow> apt_str \<Rightarrow> fault + bool \<times> apt_str" where
  "mrcp_prosody_volume_generate F w str =
     (if pv_type w = PROSODY_VOLUME_TYPE_LABEL
      then Inr (True, snd (apt_string_table_value_pgenerate prosody_volume_string_table PROSODY_VOLUME_COUNT (pv_label w) str))
      else if pv_type w = PROSODY_VOLUME_TYPE_NUMERIC then float_field F (pv_numeric w)
      else float_field F (pv_relative w))"

definition mrcp_speech_length_value_parse :: "speech_length_value \<Rightarrow> apt_str \<Rightarrow> bool \<times> speech_length_value" where
  "mrcp_speech_length_value_parse l value =
     (if str_length value = 0 then (False, l)
      else let c = byte (str_mem value);
               l = l\<lparr>sl_length_type := (if c = CHR ''+'' then SPEECH_LENGTH_TYPE_NUMERIC_POSITIVE
                                         else if c = CHR ''-'' then SPEECH_LENGTH_TYPE_NUMERIC_NEGATIVE
                                         else SPEECH_LENGTH_TYPE_TEXT)\<rparr>
           in if sl_length_type l = SPEECH_LENGTH_TYPE_TEXT then (True, l\<lparr>sl_tag := apt_string_copy value\<rparr>)
              else let s = apt_text_stream_init (str_mem value) (str_length value); s = s\<lparr>ts_pos := ts_pos s + 1\<rparr>
                   in case apt_text_field_read s APT_TOKEN_SP True of (ok, str, s) \<Rightarrow>
                        if \<not> ok then (False, l)
                        else let l = l\<lparr>sl_numeric_length := apt_size_value_parse str\<rparr>
                             in case apt_text_field_read s APT_TOKEN_SP True of (ok, str, s) \<Rightarrow>
                                  if \<not> ok then (False, l)
                                  else (True, l\<lparr>sl_numeric_unit :=
                                          apt_string_table_value_parse speech_unit_string_table SPEECH_UNIT_COUNT str\<rparr>))"

text \<open>\<open>apr_psprintf\<close> with \<open>%c%lu %s\<close>: a sign, the number, a space and the name.\<close>

definition mrcp_speech_length_generate :: "apr \<Rightarrow> speech_length_value \<Rightarrow> apt_str \<Rightarrow> bool \<times> apt_str" where
  "mrcp_speech_length_generate A l str =
     (if sl_length_type l = SPEECH_LENGTH_TYPE_TEXT
      then (True, if str_length (sl_tag l) \<noteq> 0 then apt_string_copy (sl_tag l) else str)
      else case apt_string_table_str_get speech_unit_string_table SPEECH_UNIT_COUNT (sl_numeric_unit l) of
             None \<Rightarrow> (False, str)
           | Some unit_name \<Rightarrow>
               let p = (if sl_length_type l = SPEECH_LENGTH_TYPE_NUMERIC_POSITIVE then CHR ''+'' else CHR ''-'') #
                       c_str (apr_psprintf A (unat (sl_numeric_length l))) @ [APT_TOKEN_SP] @
                       c_str (str_mem unit_name) @ [NUL]
               in (True, \<lparr>str_buf = Some p, str_length = strlen p\<rparr>))"

definition mrcp_synth_header_init :: "apr \<Rightarrow> mrcp_synth_header" where
  "mrcp_synth_header_init A =
     (let l = \<lparr>sl_length_type = SPEECH_LENGTH_TYPE_UNKNOWN, sl_tag = apt_string_reset,
               sl_numeric_length = of_nat (apr_uninit A), sl_numeric_unit = apr_uninit A\<rparr>
      in \<lparr>sh_jump_size = l, sh_kill_on_barge_in = False, sh_speaker_profile = apt_string_reset,
          sh_completion_cause = SYNTHESIZER_COMPLETION_CAUSE_COUNT, sh_completion_reason = apt_string_reset,
          sh_voice_param = \<lparr>vp_gender = VOICE_GENDER_COUNT, vp_age = 0, vp_variant = 0, vp_name = apt_string_reset\<rparr>,
          sh_prosody_param =
            \<lparr>pp_volume = \<lparr>pv_type = PROSODY_VOLUME_TYPE_UNKNOWN, pv_label = apr_uninit A,
                          pv_numeric = of_nat (apr_uninit A), pv_relative = of_nat (apr_uninit A)\<rparr>,
             pp_rate = \<lparr>pr_type = PROSODY_RATE_TYPE_UNKNOWN, pr_label = apr_uninit A,
                        pr_relative = of_nat (apr_uninit A)\<rparr>\<rparr>,
          sh_speech_marker = apt_string_reset, sh_speech_language = apt_string_reset,
          sh_fetch_hint = apt_string_reset, sh_audio_fetch_hint = apt_string_reset,
          sh_failed_uri = apt_string_reset, sh_failed_uri_cause = apt_string_reset,
          sh_speak_restart = False, sh_speak_length = l, sh_load_lexicon = False,
          sh_lexicon_search_order = apt_string_reset\<rparr>)"

definition mrcp_synth_header_parse ::
  "c_flt \<Rightarrow> nat \<Rightarrow> apt_str \<Rightarrow> mrcp_synth_header \<Rightarrow> bool \<times> mrcp_synth_header" where
  "mrcp_synth_header_parse F i v h =
     (if i = SYNTHESIZER_HEADER_JUMP_SIZE
      then (True, h\<lparr>sh_jump_size := snd (mrcp_speech_length_value_parse (sh_jump_size h) v)\<rparr>)
      else if i = SYNTHESIZER_HEADER_KILL_ON_BARGE_IN
      then (True, h\<lparr>sh_kill_on_barge_in := bool_value v (sh_kill_on_barge_in h)\<rparr>)
      else if i = SYNTHESIZER_HEADER_SPEAKER_PROFILE then (True, h\<lparr>sh_speaker_profile := v\<rparr>)
      else if i = SYNTHESIZER_HEADER_COMPLETION_CAUSE
      then (True, h\<lparr>sh_completion_cause := enum_value v\<rparr>)
      else if i = SYNTHESIZER_HEADER_COMPLETION_REASON then (True, h\<lparr>sh_completion_reason := v\<rparr>)
      else if i = SYNTHESIZER_HEADER_VOICE_GENDER
      then (True, h\<lparr>sh_voice_param := (sh_voice_param h)\<lparr>vp_gender := apt_string_table_value_parse voice_gender_string_table VOICE_GENDER_COUNT v\<rparr>\<rparr>)
      else if i = SYNTHESIZER_HEADER_VOICE_AGE
      then (True, h\<lparr>sh_voice_param := (sh_voice_param h)\<lparr>vp_age := apt_size_value_parse v\<rparr>\<rparr>)
      else if i = SYNTHESIZER_HEADER_VOICE_VARIANT
      then (True, h\<lparr>sh_voice_param := (sh_voice_param h)\<lparr>vp_variant := apt_size_value_parse v\<rparr>\<rparr>)
      else if i = SYNTHESIZER_HEADER_VOICE_NAME
      then (True, h\<lparr>sh_voice_param := (sh_voice_param h)\<lparr>vp_name := v\<rparr>\<rparr>)
      else if i = SYNTHESIZER_HEADER_PROSODY_VOLUME
      then (True, h\<lparr>sh_prosody_param := (sh_prosody_param h)
        \<lparr>pp_volume := snd (mrcp_prosody_param_volume_parse F (pp_volume (sh_prosody_param h)) v)\<rparr>\<rparr>)
      else if i = SYNTHESIZER_HEADER_PROSODY_RATE
      then (True, h\<lparr>sh_prosody_param := (sh_prosody_param h)
        \<lparr>pp_rate := snd (mrcp_prosody_param_rate_parse F (pp_rate (sh_prosody_param h)) v)\<rparr>\<rparr>)
      else if i = SYNTHESIZER_HEADER_SPEECH_MARKER then (True, h\<lparr>sh_speech_marker := v\<rparr>)
      else if i = SYNTHESIZER_HEADER_SPEECH_LANGUAGE then (True, h\<lparr>sh_speech_language := v\<rparr>)
      else if i = SYNTHESIZER_HEADER_FETCH_HINT then (True, h\<lparr>sh_fetch_hint := v\<rparr>)
      else if i = SYNTHESIZER_HEADER_AUDIO_FETCH_HINT then (True, h\<lparr>sh_audio_fetch_hint := v\<rparr>)
      else if i = SYNTHESIZER_HEADER_FAILED_URI then (True, h\<lparr>sh_failed_uri := v\<rparr>)
      else if i = SYNTHESIZER_HEADER_FAILED_URI_CAUSE then (True, h\<lparr>sh_failed_uri_cause := v\<rparr>)
      else if i = SYNTHESIZER_HEADER_SPEAK_RESTART
      then (True, h\<lparr>sh_speak_restart := bool_value v (sh_speak_restart h)\<rparr>)
      else if i = SYNTHESIZER_HEADER_SPEAK_LENGTH
      then (True, h\<lparr>sh_speak_length := snd (mrcp_speech_length_value_parse (sh_speak_length h) v)\<rparr>)
      else if i = SYNTHESIZER_HEADER_LOAD_LEXICON
      then (True, h\<lparr>sh_load_lexicon := bool_value v (sh_load_lexicon h)\<rparr>)
      else if i = SYNTHESIZER_HEADER_LEXICON_SEARCH_ORDER
      then (True, h\<lparr>sh_lexicon_search_order := v\<rparr>)
      else (False, h))"

definition mrcp_synth_header_generate ::
  "apr \<Rightarrow> c_flt \<Rightarrow> nat \<Rightarrow> mrcp_synth_header \<Rightarrow> apt_str \<Rightarrow> fault + bool \<times> apt_str" where
  "mrcp_synth_header_generate A F i h v =
     (if i = SYNTHESIZER_HEADER_JUMP_SIZE then Inr (True, snd (mrcp_speech_length_generate A (sh_jump_size h) v))
      else if i = SYNTHESIZER_HEADER_KILL_ON_BARGE_IN
      then Inr (True, apt_boolean_value_generate (sh_kill_on_barge_in h))
      else if i = SYNTHESIZER_HEADER_SPEAKER_PROFILE then Inr (True, sh_speaker_profile h)
      else if i = SYNTHESIZER_HEADER_COMPLETION_CAUSE
      then Inr (True, snd (cause_generate synth_completion_cause_string_table SYNTHESIZER_COMPLETION_CAUSE_COUNT
        (sh_completion_cause h) v))
      else if i = SYNTHESIZER_HEADER_COMPLETION_REASON then Inr (True, sh_completion_reason h)
      else if i = SYNTHESIZER_HEADER_VOICE_GENDER
      then Inr (True, snd (apt_string_table_value_pgenerate voice_gender_string_table VOICE_GENDER_COUNT (vp_gender (sh_voice_param h)) v))
      else if i = SYNTHESIZER_HEADER_VOICE_AGE
      then Inr (True, apt_size_value_generate A (vp_age (sh_voice_param h)))
      else if i = SYNTHESIZER_HEADER_VOICE_VARIANT
      then Inr (True, apt_size_value_generate A (vp_variant (sh_voice_param h)))
      else if i = SYNTHESIZER_HEADER_VOICE_NAME then Inr (True, vp_name (sh_voice_param h))
      else if i = SYNTHESIZER_HEADER_PROSODY_VOLUME
      then mrcp_prosody_volume_generate F (pp_volume (sh_prosody_param h)) v
      else if i = SYNTHESIZER_HEADER_PROSODY_RATE
      then mrcp_prosody_rate_generate F (pp_rate (sh_prosody_param h)) v
      else if i = SYNTHESIZER_HEADER_SPEECH_MARKER then Inr (True, sh_speech_marker h)
      else if i = SYNTHESIZER_HEADER_SPEECH_LANGUAGE then Inr (True, sh_speech_language h)
      else if i = SYNTHESIZER_HEADER_FETCH_HINT then Inr (True, sh_fetch_hint h)
      else if i = SYNTHESIZER_HEADER_AUDIO_FETCH_HINT then Inr (True, sh_audio_fetch_hint h)
      else if i = SYNTHESIZER_HEADER_FAILED_URI then Inr (True, sh_failed_uri h)
      else if i = SYNTHESIZER_HEADER_FAILED_URI_CAUSE then Inr (True, sh_failed_uri_cause h)
      else if i = SYNTHESIZER_HEADER_SPEAK_RESTART
      then Inr (True, apt_boolean_value_generate (sh_speak_restart h))
      else if i = SYNTHESIZER_HEADER_SPEAK_LENGTH
      then Inr (True, snd (mrcp_speech_length_generate A (sh_speak_length h) v))
      else if i = SYNTHESIZER_HEADER_LOAD_LEXICON
      then Inr (True, apt_boolean_value_generate (sh_load_lexicon h))
      else if i = SYNTHESIZER_HEADER_LEXICON_SEARCH_ORDER then Inr (True, sh_lexicon_search_order h)
      else Inr (True, v))"

definition synth_field_duplicate ::
  "nat \<Rightarrow> mrcp_synth_header \<Rightarrow> apt_str \<Rightarrow> mrcp_synth_header \<Rightarrow> bool \<times> mrcp_synth_header" where
  "synth_field_duplicate i src v h =
     (if i = SYNTHESIZER_HEADER_JUMP_SIZE then (True, h\<lparr>sh_jump_size := sh_jump_size src\<rparr>)
      else if i = SYNTHESIZER_HEADER_KILL_ON_BARGE_IN
      then (True, h\<lparr>sh_kill_on_barge_in := sh_kill_on_barge_in src\<rparr>)
      else if i = SYNTHESIZER_HEADER_SPEAKER_PROFILE then (True, h\<lparr>sh_speaker_profile := v\<rparr>)
      else if i = SYNTHESIZER_HEADER_COMPLETION_CAUSE
      then (True, h\<lparr>sh_completion_cause := sh_completion_cause src\<rparr>)
      else if i = SYNTHESIZER_HEADER_COMPLETION_REASON then (True, h\<lparr>sh_completion_reason := v\<rparr>)
      else if i = SYNTHESIZER_HEADER_VOICE_GENDER
      then (True, h\<lparr>sh_voice_param := (sh_voice_param h)\<lparr>vp_gender := vp_gender (sh_voice_param src)\<rparr>\<rparr>)
      else if i = SYNTHESIZER_HEADER_VOICE_AGE
      then (True, h\<lparr>sh_voice_param := (sh_voice_param h)\<lparr>vp_age := vp_age (sh_voice_param src)\<rparr>\<rparr>)
      else if i = SYNTHESIZER_HEADER_VOICE_VARIANT
      then (True, h\<lparr>sh_voice_param := (sh_voice_param h)\<lparr>vp_variant := vp_variant (sh_voice_param src)\<rparr>\<rparr>)
      else if i = SYNTHESIZER_HEADER_VOICE_NAME
      then (True, h\<lparr>sh_voice_param := (sh_voice_param h)\<lparr>vp_name := v\<rparr>\<rparr>)
      else if i = SYNTHESIZER_HEADER_PROSODY_VOLUME
      then (True, h\<lparr>sh_prosody_param := (sh_prosody_param h)\<lparr>pp_volume := pp_volume (sh_prosody_param src)\<rparr>\<rparr>)
      else if i = SYNTHESIZER_HEADER_PROSODY_RATE
      then (True, h\<lparr>sh_prosody_param := (sh_prosody_param h)\<lparr>pp_rate := pp_rate (sh_prosody_param src)\<rparr>\<rparr>)
      else if i = SYNTHESIZER_HEADER_SPEECH_MARKER then (True, h\<lparr>sh_speech_marker := v\<rparr>)
      else if i = SYNTHESIZER_HEADER_SPEECH_LANGUAGE then (True, h\<lparr>sh_speech_language := v\<rparr>)
      else if i = SYNTHESIZER_HEADER_FETCH_HINT then (True, h\<lparr>sh_fetch_hint := v\<rparr>)
      else if i = SYNTHESIZER_HEADER_AUDIO_FETCH_HINT then (True, h\<lparr>sh_audio_fetch_hint := v\<rparr>)
      else if i = SYNTHESIZER_HEADER_FAILED_URI then (True, h\<lparr>sh_failed_uri := v\<rparr>)
      else if i = SYNTHESIZER_HEADER_FAILED_URI_CAUSE then (True, h\<lparr>sh_failed_uri_cause := v\<rparr>)
      else if i = SYNTHESIZER_HEADER_SPEAK_RESTART
      then (True, h\<lparr>sh_speak_restart := sh_speak_restart src\<rparr>)
      else if i = SYNTHESIZER_HEADER_SPEAK_LENGTH
      then (True, h\<lparr>sh_speak_length := sh_speak_length src\<rparr>)
      else if i = SYNTHESIZER_HEADER_LOAD_LEXICON
      then (True, h\<lparr>sh_load_lexicon := sh_load_lexicon src\<rparr>)
      else if i = SYNTHESIZER_HEADER_LEXICON_SEARCH_ORDER
      then (True, h\<lparr>sh_lexicon_search_order := v\<rparr>)
      else (False, h))"

definition mrcp_synth_header_duplicate ::
  "nat \<Rightarrow> mrcp_synth_header option \<Rightarrow> apt_str \<Rightarrow> mrcp_synth_header option \<Rightarrow> bool \<times> mrcp_synth_header option" where
  "mrcp_synth_header_duplicate i source v target =
     (case (target, source) of
        (Some h, Some src) \<Rightarrow> map_prod id Some (synth_field_duplicate i src v h)
      | _ \<Rightarrow> (False, target))"

definition mrcp_synth_header_vtable :: "apr \<Rightarrow> c_flt \<Rightarrow> mrcp_synth_header header_vtable" where
  "mrcp_synth_header_vtable A F =
     \<lparr>vt_allocate = mrcp_synth_header_init A, vt_parse = mrcp_synth_header_parse F,
      vt_generate = mrcp_synth_header_generate A F, vt_duplicate = mrcp_synth_header_duplicate,
      vt_field_table = synth_header_string_table, vt_field_count = SYNTHESIZER_HEADER_COUNT\<rparr>"

definition mrcp_synth_header_vtable_get :: "apr \<Rightarrow> c_flt \<Rightarrow> mrcp_version \<Rightarrow> mrcp_synth_header header_vtable" where
  "mrcp_synth_header_vtable_get A F version = mrcp_synth_header_vtable A F"

definition mrcp_synth_completion_cause_get :: "nat \<Rightarrow> mrcp_version \<Rightarrow> apt_str option" where
  "mrcp_synth_completion_cause_get completion_cause version =
     apt_string_table_str_get synth_completion_cause_string_table SYNTHESIZER_COMPLETION_CAUSE_COUNT completion_cause"

section \<open>Resource\<close>

abbreviation (input) SYNTHESIZER_SET_PARAMS :: nat where "SYNTHESIZER_SET_PARAMS \<equiv> 0"
abbreviation (input) SYNTHESIZER_GET_PARAMS :: nat where "SYNTHESIZER_GET_PARAMS \<equiv> 1"
abbreviation (input) SYNTHESIZER_SPEAK :: nat where "SYNTHESIZER_SPEAK \<equiv> 2"
abbreviation (input) SYNTHESIZER_STOP :: nat where "SYNTHESIZER_STOP \<equiv> 3"
abbreviation (input) SYNTHESIZER_PAUSE :: nat where "SYNTHESIZER_PAUSE \<equiv> 4"
abbreviation (input) SYNTHESIZER_RESUME :: nat where "SYNTHESIZER_RESUME \<equiv> 5"
abbreviation (input) SYNTHESIZER_BARGE_IN_OCCURRED :: nat where "SYNTHESIZER_BARGE_IN_OCCURRED \<equiv> 6"
abbreviation (input) SYNTHESIZER_CONTROL :: nat where "SYNTHESIZER_CONTROL \<equiv> 7"
abbreviation (input) SYNTHESIZER_DEFINE_LEXICON :: nat where "SYNTHESIZER_DEFINE_LEXICON \<equiv> 8"
abbreviation (input) SYNTHESIZER_METHOD_COUNT :: nat where "SYNTHESIZER_METHOD_COUNT \<equiv> 9"

abbreviation (input) SYNTHESIZER_SPEECH_MARKER :: nat where "SYNTHESIZER_SPEECH_MARKER \<equiv> 0"
abbreviation (input) SYNTHESIZER_SPEAK_COMPLETE :: nat where "SYNTHESIZER_SPEAK_COMPLETE \<equiv> 1"
abbreviation (input) SYNTHESIZER_EVENT_COUNT :: nat where "SYNTHESIZER_EVENT_COUNT \<equiv> 2"

definition synth_method_string_table :: "apt_str_table_item list" where
  "synth_method_string_table =
     [table_item ''SET-PARAMS'' 10 10,
      table_item ''GET-PARAMS'' 10 0,
      table_item ''SPEAK'' 5 1,
      table_item ''STOP'' 4 1,
      table_item ''PAUSE'' 5 0,
      table_item ''RESUME'' 6 0,
      table_item ''BARGE-IN-OCCURRED'' 17 0,
      table_item ''CONTROL'' 7 0,
      table_item ''DEFINE-LEXICON'' 14 0]"

definition synth_event_string_table :: "apt_str_table_item list" where
  "synth_event_string_table =
     [table_item ''SPEECH-MARKER'' 13 3,
      table_item ''SPEAK-COMPLETE'' 14 3]"

definition synth_method_string_table_get :: "mrcp_version \<Rightarrow> apt_str_table_item list" where
  "synth_method_string_table_get version = synth_method_string_table"

definition synth_event_string_table_get :: "mrcp_version \<Rightarrow> apt_str_table_item list" where
  "synth_event_string_table_get version = synth_event_string_table"

definition mrcp_synth_resource_create :: "apr \<Rightarrow> c_flt \<Rightarrow> mrcp_synth_header mrcp_resource" where
  "mrcp_synth_resource_create A F =
     mrcp_resource_create\<lparr>res_method_count := SYNTHESIZER_METHOD_COUNT, res_event_count := SYNTHESIZER_EVENT_COUNT,
       res_get_method_str_table := Some synth_method_string_table_get,
       res_get_event_str_table := Some synth_event_string_table_get,
       res_get_resource_header_vtable := Some (mrcp_synth_header_vtable_get A F)\<rparr>"

section \<open>The values of the header\<close>

text \<open>
  Numbers are read back as signed longs; the completion cause and the gender have a name. The
  structures with a union are not copied as a whole, see below.
\<close>

definition synth_values_ok :: "mrcp_synth_header \<Rightarrow> bool" where
  "synth_values_ok h \<longleftrightarrow>
     list_all (\<lambda>n. uint n < 2 ^ 63) [vp_age (sh_voice_param h), vp_variant (sh_voice_param h)] \<and>
     vp_gender (sh_voice_param h) < VOICE_GENDER_COUNT \<and>
     sh_completion_cause h < SYNTHESIZER_COMPLETION_CAUSE_COUNT"

definition synth_exact :: "nat \<Rightarrow> bool" where
  "synth_exact i \<longleftrightarrow>
     i \<notin> set [SYNTHESIZER_HEADER_JUMP_SIZE, SYNTHESIZER_HEADER_PROSODY_VOLUME, SYNTHESIZER_HEADER_PROSODY_RATE,
                SYNTHESIZER_HEADER_SPEAK_LENGTH]"

lemma synth_names: "string_table synth_header_string_table SYNTHESIZER_HEADER_COUNT"
proof
  show "length synth_header_string_table = SYNTHESIZER_HEADER_COUNT" by (simp add: synth_header_string_table_def)
  show "list_all item_ok synth_header_string_table" by code_simp
  show "distinct (map item_fold synth_header_string_table)" by code_simp
qed

interpretation genders: string_table voice_gender_string_table VOICE_GENDER_COUNT
proof
  show "length voice_gender_string_table = VOICE_GENDER_COUNT" by (simp add: voice_gender_string_table_def)
  show "list_all item_ok voice_gender_string_table" by code_simp
  show "distinct (map item_fold voice_gender_string_table)" by code_simp
qed

interpretation speech_units: string_table speech_unit_string_table SPEECH_UNIT_COUNT
proof
  show "length speech_unit_string_table = SPEECH_UNIT_COUNT" by (simp add: speech_unit_string_table_def)
  show "list_all item_ok speech_unit_string_table" by code_simp
  show "distinct (map item_fold speech_unit_string_table)" by code_simp
qed

lemma synth_plain_values:
  assumes "apr_ok A" and "synth_values_ok d"
  shows "list_all (\<lambda>i. \<exists>v d2. mrcp_synth_header_generate A F i d v0 = Inr (True, v) \<and>
      mrcp_synth_header_parse F i v d1 = (True, d2) \<and> synth_field_duplicate i d v d1 = (True, d2))
    [1, 2, 4, 6, 7, 8, 11, 12, 13, 14, 15, 16, 17, 19, 20]"
proof -
  have "apt_size_value_parse (apt_size_value_generate A (vp_age (sh_voice_param d))) = vp_age (sh_voice_param d)"
    "apt_size_value_parse (apt_size_value_generate A (vp_variant (sh_voice_param d))) = vp_variant (sh_voice_param d)"
    using assms(2) by (simp_all add: synth_values_ok_def size_value_roundtrip [OF assms(1)])
  then show ?thesis
    by (simp add: mrcp_synth_header_generate_def mrcp_synth_header_parse_def synth_field_duplicate_def)
qed

lemma gender_roundtrip:
  assumes "g < VOICE_GENDER_COUNT"
  shows "apt_string_table_value_parse voice_gender_string_table VOICE_GENDER_COUNT
    (snd (apt_string_table_value_pgenerate voice_gender_string_table VOICE_GENDER_COUNT g v)) = g"
proof -
  have ok: "item_ok (voice_gender_string_table ! g)" using genders.item_okD assms by blast
  let ?v = "item_value (voice_gender_string_table ! g)"
  have "apt_string_table_id_find voice_gender_string_table VOICE_GENDER_COUNT (apt_string_copy ?v) = g"
    using ok assms by (intro genders.id_find_eq) (simp_all add: item_ok_def item_fold_def)
  then show ?thesis
    using assms
    by (simp add: apt_string_table_value_parse_def apt_string_table_value_pgenerate_def apt_string_table_str_get_def)
qed

lemma synth_value_roundtrip:
  assumes "apr_ok A" and "i < SYNTHESIZER_HEADER_COUNT" and "synth_exact i" and "synth_values_ok d"
  shows "\<exists>v d2. mrcp_synth_header_generate A F i d v0 = Inr (True, v) \<and>
    mrcp_synth_header_parse F i v d1 = (True, d2) \<and> synth_field_duplicate i d v d1 = (True, d2)"
proof -
  consider "i = SYNTHESIZER_HEADER_COMPLETION_CAUSE" | "i = SYNTHESIZER_HEADER_VOICE_GENDER"
    | "i \<noteq> SYNTHESIZER_HEADER_COMPLETION_CAUSE" "i \<noteq> SYNTHESIZER_HEADER_VOICE_GENDER" by blast
  then show ?thesis
  proof cases
    case 1
    obtain s where "cause_generate synth_completion_cause_string_table SYNTHESIZER_COMPLETION_CAUSE_COUNT
        (sh_completion_cause d) v0 = (True, s)" "enum_value s = sh_completion_cause d"
      using cause_generate_parse [of "sh_completion_cause d" SYNTHESIZER_COMPLETION_CAUSE_COUNT] assms(4)
      by (auto simp: synth_values_ok_def)
    then show ?thesis
      using 1 by (simp add: mrcp_synth_header_generate_def mrcp_synth_header_parse_def synth_field_duplicate_def)
  next
    case 2
    have "vp_gender (sh_voice_param d) < VOICE_GENDER_COUNT" using assms(4) by (simp add: synth_values_ok_def)
    from gender_roundtrip [OF this, of v0] show ?thesis
      using 2 by (simp add: mrcp_synth_header_generate_def mrcp_synth_header_parse_def synth_field_duplicate_def)
  next
    case 3
    have "list_all (\<lambda>i. synth_exact i \<longrightarrow> i \<noteq> SYNTHESIZER_HEADER_COMPLETION_CAUSE \<longrightarrow>
        i \<noteq> SYNTHESIZER_HEADER_VOICE_GENDER \<longrightarrow>
        i \<in> set [1, 2, 4, 6, 7, 8, 11, 12, 13, 14, 15, 16, 17, 19, 20]) [0..<SYNTHESIZER_HEADER_COUNT]"
      by code_simp
    then have "i \<in> set [1, 2, 4, 6, 7, 8, 11, 12, 13, 14, 15, 16, 17, 19, 20]"
      using assms(2,3) 3 unfolding list_all_iff by simp
    then show ?thesis
      using synth_plain_values [OF assms(1,4), of F v0 d1] unfolding list_all_iff by blast
  qed
qed

interpretation synth_values: header_values "\<lambda>A. mrcp_synth_header_vtable A F" synth_exact "\<lambda>_. True" synth_values_ok for F
proof (rule header_values.intro)
  show "string_table (vt_field_table (mrcp_synth_header_vtable A F)) (vt_field_count (mrcp_synth_header_vtable A F))" for A
    using synth_names by (simp add: mrcp_synth_header_vtable_def)
next
  fix A i d v0 d1
  assume "apr_ok A" "i < vt_field_count (mrcp_synth_header_vtable A F)" "synth_exact i" "synth_values_ok d"
  then show "\<exists>v d2. vt_generate (mrcp_synth_header_vtable A F) i d v0 = Inr (True, v) \<and> vt_parse (mrcp_synth_header_vtable A F) i v d1 = (True, d2) \<and>
      vt_duplicate (mrcp_synth_header_vtable A F) i (Some d) v (Some d1) = (True, Some d2)"
    using synth_value_roundtrip [of A i d F v0 d1]
    by (auto simp: mrcp_synth_header_vtable_def mrcp_synth_header_duplicate_def)
qed (rule TrueI)

lemma speech_length_text:
  assumes "sl_length_type l = SPEECH_LENGTH_TYPE_TEXT" and "str_length (sl_tag l) \<noteq> 0" and "str_wf (sl_tag l)"
    and "byte (str_bytes (sl_tag l)) \<notin> set ''+-''"
  shows "\<exists>v l2. mrcp_speech_length_generate A l v0 = (True, v) \<and> mrcp_speech_length_value_parse l1 v = (True, l2) \<and>
    sl_length_type l2 = SPEECH_LENGTH_TYPE_TEXT \<and> str_bytes (sl_tag l2) = str_bytes (sl_tag l)"
proof -
  let ?v = "apt_string_copy (sl_tag l)"
  have v: "str_bytes ?v = str_bytes (sl_tag l)" "str_wf ?v" using assms(3) by simp_all
  have len: "str_length ?v = str_length (sl_tag l)" by (simp add: apt_string_copy_def)
  have "str_bytes ?v \<noteq> []" using assms(2) v len length_str_bytes [of ?v] by auto
  then have "byte (str_mem ?v) = byte (str_bytes ?v)"
    by (cases "str_mem ?v") (auto simp: str_bytes_def byte_def take_Cons' split: if_splits)
  then show ?thesis
    using assms(1,2,4) v len
    by (simp add: mrcp_speech_length_generate_def mrcp_speech_length_value_parse_def Let_def)
qed

lemma speech_length_numeric:
  assumes "apr_ok A" and "sl_length_type l \<in> set [SPEECH_LENGTH_TYPE_NUMERIC_POSITIVE, SPEECH_LENGTH_TYPE_NUMERIC_NEGATIVE]"
    and "uint (sl_numeric_length l) < 2 ^ 63" and "sl_numeric_unit l < SPEECH_UNIT_COUNT"
  shows "\<exists>v l2. mrcp_speech_length_generate A l v0 = (True, v) \<and> mrcp_speech_length_value_parse l1 v = (True, l2) \<and>
    sl_length_type l2 = sl_length_type l \<and> sl_numeric_length l2 = sl_numeric_length l \<and>
    sl_numeric_unit l2 = sl_numeric_unit l"
proof -
  let ?it = "speech_unit_string_table ! sl_numeric_unit l" and ?n = "unat (sl_numeric_length l)"
  let ?u = "str_bytes (item_value ?it)"
  define c where "c = (if sl_length_type l = SPEECH_LENGTH_TYPE_NUMERIC_POSITIVE then CHR ''+'' else CHR ''-'')"
  have "list_all (\<lambda>it. c_str (str_mem (item_value it)) = str_bytes (item_value it) \<and>
      str_bytes (item_value it) \<noteq> [] \<and> APT_TOKEN_SP \<notin> set (str_bytes (item_value it)) \<and>
      NUL \<notin> set (str_bytes (item_value it))) speech_unit_string_table"
    by code_simp
  then have u: "c_str (str_mem (item_value ?it)) = ?u" "?u \<noteq> []" "APT_TOKEN_SP \<notin> set ?u" "NUL \<notin> set ?u"
    using assms(4) speech_units.table_size by (auto simp: list_all_length)
  let ?t = "c # dec ?n @ [APT_TOKEN_SP] @ ?u" 
  let ?v = "\<lparr>str_buf = Some (?t @ [NUL]), str_length = length ?t\<rparr>"
  have nul: "NUL \<notin> set ?t" using u(4) dec_isdigit [of ?n] by (auto simp: c_def isdigit_def)
  have "c_str (apr_psprintf A ?n) = dec ?n"
    using assms(1) nul c_str_text [of "dec ?n" "[]"] by (simp add: apr_ok_def)
  moreover have "strlen (?t @ [NUL]) = length ?t" by (rule strlen_text [OF nul])
  ultimately have g: "mrcp_speech_length_generate A l v0 = (True, ?v)"
    using assms(2,4) u(1)
    by (auto simp: mrcp_speech_length_generate_def apt_string_table_str_get_def Let_def c_def)
  let ?s = "(apt_text_stream_init (?t @ [NUL]) (length ?t))\<lparr>ts_pos := 1\<rparr>"
  have s: "ts_wf ?s" "ts_rest ?s = dec ?n @ (APT_TOKEN_SP # ?u)"
    by (simp_all add: ts_wf_def ts_rest_def apt_text_stream_init_def apt_text_stream_reset_def)
  have f1: "apt_text_field_read ?s APT_TOKEN_SP True =
      (True, ts_str ?s 1 (length (dec ?n)), ?s\<lparr>ts_pos := 1 + length (dec ?n) + 1\<rparr>)"
    using field_read_eq [OF s, of APT_TOKEN_SP True] dec_token [of ?n] dec_hd [of ?n] isdigit_not_special
    by (auto simp: hd_append)
  let ?s2 = "?s\<lparr>ts_pos := 1 + length (dec ?n) + 1\<rparr>"
  have s2: "ts_wf ?s2" "ts_rest ?s2 = ?u @ []"
    by (simp_all add: ts_wf_def ts_rest_def apt_text_stream_init_def apt_text_stream_reset_def)
  let ?str = "ts_str ?s2 (ts_pos ?s2) (length ?u)"
  have "hd ?u \<noteq> APT_TOKEN_SP" using u(2,3) by (metis hd_in_set)
  then have f2: "apt_text_field_read ?s2 APT_TOKEN_SP True = (True, ?str, ?s2\<lparr>ts_pos := ts_pos ?s2 + length ?u + 0\<rparr>)"
    using field_read_eq [OF s2 u(3), of True] u(2) by simp
  have b: "str_bytes ?str = ?u" "str_wf ?str" using ts_str_rest [of ?s2 "[]" ?u "[]"] s2(2) by simp_all
  have unit: "apt_string_table_id_find speech_unit_string_table SPEECH_UNIT_COUNT ?str = sl_numeric_unit l"
    using assms(4) b u(4) by (intro speech_units.id_find_eq) (simp_all add: item_fold_def)
  have "atol (dec ?n @ (APT_TOKEN_SP # ?u @ [NUL])) = int ?n"
    using assms(3) by (intro atol_dec) (simp_all add: byte_def isdigit_def)
  then have len: "apt_size_value_parse (ts_str ?s 1 (length (dec ?n))) = sl_numeric_length l"
    by (simp add: apt_size_value_parse_def ts_str_def apt_text_stream_init_def apt_text_stream_reset_def)
  have pos: "ts_pos (apt_text_stream_init (?t @ [NUL]) (length ?t)) + 1 = 1"
    by (simp add: apt_text_stream_init_def apt_text_stream_reset_def)
  have ty: "(if c = CHR ''+'' then SPEECH_LENGTH_TYPE_NUMERIC_POSITIVE
      else if c = CHR ''-'' then SPEECH_LENGTH_TYPE_NUMERIC_NEGATIVE else SPEECH_LENGTH_TYPE_TEXT) = sl_length_type l"
    "sl_length_type l \<noteq> SPEECH_LENGTH_TYPE_TEXT"
    using assms(2) by (auto simp: c_def)
  have v: "str_mem ?v = ?t @ [NUL]" "str_length ?v = length ?t" "length ?t \<noteq> 0" "byte (?t @ [NUL]) = c"
    by (simp_all add: str_mem_def byte_def)
  have "mrcp_speech_length_value_parse l1 ?v = (True, l1\<lparr>sl_length_type := sl_length_type l,
      sl_numeric_length := sl_numeric_length l, sl_numeric_unit := sl_numeric_unit l\<rparr>)"
    unfolding mrcp_speech_length_value_parse_def Let_def v pos
    using v(3) ty f1 f2 len unit
    by (simp only: if_False prod.case HOL.simp_thms apt_string_table_value_parse_def
        speech_length_value.select_convs speech_length_value.update_convs) simp
  then show ?thesis using g by simp
qed


text \<open>C35. A volume that is a relative increase is sent without its sign, so that the receiver takes it
  for an absolute volume: generating the value of a relative change whose number prints without a
  sign and parsing it gives a numeric volume.\<close>

theorem relative_volume_becomes_numeric:
  assumes "pv_type w = PROSODY_VOLUME_TYPE_RELATIVE_CHANGE" and "flt_print F (pv_relative w) = ds @ CHR ''.'' # fs"
    and "list_all isdigit ds" and "list_all isdigit fs" and "ds \<noteq> []" and "fs \<noteq> []"
  shows "\<exists>v w2. mrcp_prosody_volume_generate F w v0 = Inr (True, v) \<and>
    mrcp_prosody_param_volume_parse F w1 v = (True, w2) \<and> pv_type w2 = PROSODY_VOLUME_TYPE_NUMERIC \<and>
    pv_numeric w2 = flt_atof F (flt_print F (pv_relative w) @ [NUL])"
proof -
  let ?p = "flt_print F (pv_relative w) @ [NUL]"
  obtain v k where v: "apt_float_value_generate F (pv_relative w) = Inr v" "str_bytes v = ds @ CHR ''.'' # take (Suc k) fs"
    using float_value_text [OF assms(2-4,6)] by blast
  then have m: "str_mem v = ?p" "str_length v \<noteq> 0" "str_buf v = Some ?p"
    by (auto simp: apt_float_value_generate_def str_mem_def Let_def split: if_splits)
  obtain c ds' where d: "ds = c # ds'" "isdigit c" using assms(3,5) by (cases ds) auto
  then have "byte (str_mem v) = c" using m(1) assms(2) by (simp add: byte_def)
  moreover have "c \<noteq> CHR ''+''" "c \<noteq> CHR ''-''" using d(2) by (auto simp: isdigit_def)
  ultimately show ?thesis
    using v(1) m assms(1) d(2)
    by (simp add: mrcp_prosody_volume_generate_def float_field_def mrcp_prosody_param_volume_parse_def
        apt_float_value_parse_def Let_def)
qed

text \<open>A stand-in for the platform's conversions that prints every number as five.\<close>

definition five_flt :: c_flt where
  "five_flt = \<lparr>flt_atof = (\<lambda>_. 0x40A00000), flt_print = (\<lambda>_. ''5.000000''), flt_snprintf = (\<lambda>_ _. (''5.000000'' @ [NUL], 8)),
     flt_of_size = (\<lambda>_. 0x40A00000), flt_to_size = (\<lambda>_. 5), flt_add = (\<lambda>x _. x), flt_mul = (\<lambda>x _. x),
     flt_div = (\<lambda>x _. x), flt_milli = 0\<rparr>"

definition louder :: prosody_volume where
  "louder = \<lparr>pv_type = PROSODY_VOLUME_TYPE_RELATIVE_CHANGE, pv_label = 0, pv_numeric = 0, pv_relative = 0x40A00000\<rparr>"

theorem relative_volume_becomes_numeric_witness:
  "\<exists>v w2. mrcp_prosody_volume_generate five_flt louder apt_string_reset = Inr (True, v) \<and>
    mrcp_prosody_param_volume_parse five_flt louder v = (True, w2) \<and> pv_type w2 = PROSODY_VOLUME_TYPE_NUMERIC"
  using relative_volume_becomes_numeric [of louder five_flt "''5''" "''000000''" apt_string_reset louder]
  by (auto simp: louder_def five_flt_def isdigit_def)

end
