(* ===== verification/RecogResource.thy ===== *)
theory RecogResource
  imports ResourceValue
begin

text \<open>
  The recognizer: its header (\<open>mrcp_recog_header.c\<close>) and its methods and events
  (\<open>mrcp_recog_resource.c\<close>), which differ between the versions of the protocol.
\<close>

section \<open>Header\<close>

abbreviation (input) RECOGNIZER_HEADER_CONFIDENCE_THRESHOLD :: nat where
  "RECOGNIZER_HEADER_CONFIDENCE_THRESHOLD \<equiv> 0"
abbreviation (input) RECOGNIZER_HEADER_SENSITIVITY_LEVEL :: nat where
  "RECOGNIZER_HEADER_SENSITIVITY_LEVEL \<equiv> 1"
abbreviation (input) RECOGNIZER_HEADER_SPEED_VS_ACCURACY :: nat where
  "RECOGNIZER_HEADER_SPEED_VS_ACCURACY \<equiv> 2"
abbreviation (input) RECOGNIZER_HEADER_N_BEST_LIST_LENGTH :: nat where
  "RECOGNIZER_HEADER_N_BEST_LIST_LENGTH \<equiv> 3"
abbreviation (input) RECOGNIZER_HEADER_NO_INPUT_TIMEOUT :: nat where
  "RECOGNIZER_HEADER_NO_INPUT_TIMEOUT \<equiv> 4"
abbreviation (input) RECOGNIZER_HEADER_RECOGNITION_TIMEOUT :: nat where
  "RECOGNIZER_HEADER_RECOGNITION_TIMEOUT \<equiv> 5"
abbreviation (input) RECOGNIZER_HEADER_WAVEFORM_URI :: nat where "RECOGNIZER_HEADER_WAVEFORM_URI \<equiv> 6"
abbreviation (input) RECOGNIZER_HEADER_COMPLETION_CAUSE :: nat where
  "RECOGNIZER_HEADER_COMPLETION_CAUSE \<equiv> 7"
abbreviation (input) RECOGNIZER_HEADER_RECOGNIZER_CONTEXT_BLOCK :: nat where
  "RECOGNIZER_HEADER_RECOGNIZER_CONTEXT_BLOCK \<equiv> 8"
abbreviation (input) RECOGNIZER_HEADER_START_INPUT_TIMERS :: nat where
  "RECOGNIZER_HEADER_START_INPUT_TIMERS \<equiv> 9"
abbreviation (input) RECOGNIZER_HEADER_SPEECH_COMPLETE_TIMEOUT :: nat where
  "RECOGNIZER_HEADER_SPEECH_COMPLETE_TIMEOUT \<equiv> 10"
abbreviation (input) RECOGNIZER_HEADER_SPEECH_INCOMPLETE_TIMEOUT :: nat where
  "RECOGNIZER_HEADER_SPEECH_INCOMPLETE_TIMEOUT \<equiv> 11"
abbreviation (input) RECOGNIZER_HEADER_DTMF_INTERDIGIT_TIMEOUT :: nat where
  "RECOGNIZER_HEADER_DTMF_INTERDIGIT_TIMEOUT \<equiv> 12"
abbreviation (input) RECOGNIZER_HEADER_DTMF_TERM_TIMEOUT :: nat where
  "RECOGNIZER_HEADER_DTMF_TERM_TIMEOUT \<equiv> 13"
abbreviation (input) RECOGNIZER_HEADER_DTMF_TERM_CHAR :: nat where
  "RECOGNIZER_HEADER_DTMF_TERM_CHAR \<equiv> 14"
abbreviation (input) RECOGNIZER_HEADER_FAILED_URI :: nat where "RECOGNIZER_HEADER_FAILED_URI \<equiv> 15"
abbreviation (input) RECOGNIZER_HEADER_FAILED_URI_CAUSE :: nat where
  "RECOGNIZER_HEADER_FAILED_URI_CAUSE \<equiv> 16"
abbreviation (input) RECOGNIZER_HEADER_SAVE_WAVEFORM :: nat where
  "RECOGNIZER_HEADER_SAVE_WAVEFORM \<equiv> 17"
abbreviation (input) RECOGNIZER_HEADER_NEW_AUDIO_CHANNEL :: nat where
  "RECOGNIZER_HEADER_NEW_AUDIO_CHANNEL \<equiv> 18"
abbreviation (input) RECOGNIZER_HEADER_SPEECH_LANGUAGE :: nat where
  "RECOGNIZER_HEADER_SPEECH_LANGUAGE \<equiv> 19"
abbreviation (input) RECOGNIZER_HEADER_INPUT_TYPE :: nat where "RECOGNIZER_HEADER_INPUT_TYPE \<equiv> 20"
abbreviation (input) RECOGNIZER_HEADER_INPUT_WAVEFORM_URI :: nat where
  "RECOGNIZER_HEADER_INPUT_WAVEFORM_URI \<equiv> 21"
abbreviation (input) RECOGNIZER_HEADER_COMPLETION_REASON :: nat where
  "RECOGNIZER_HEADER_COMPLETION_REASON \<equiv> 22"
abbreviation (input) RECOGNIZER_HEADER_MEDIA_TYPE :: nat where "RECOGNIZER_HEADER_MEDIA_TYPE \<equiv> 23"
abbreviation (input) RECOGNIZER_HEADER_VER_BUFFER_UTTERANCE :: nat where
  "RECOGNIZER_HEADER_VER_BUFFER_UTTERANCE \<equiv> 24"
abbreviation (input) RECOGNIZER_HEADER_RECOGNITION_MODE :: nat where
  "RECOGNIZER_HEADER_RECOGNITION_MODE \<equiv> 25"
abbreviation (input) RECOGNIZER_HEADER_CANCEL_IF_QUEUE :: nat where
  "RECOGNIZER_HEADER_CANCEL_IF_QUEUE \<equiv> 26"
abbreviation (input) RECOGNIZER_HEADER_HOTWORD_MAX_DURATION :: nat where
  "RECOGNIZER_HEADER_HOTWORD_MAX_DURATION \<equiv> 27"
abbreviation (input) RECOGNIZER_HEADER_HOTWORD_MIN_DURATION :: nat where
  "RECOGNIZER_HEADER_HOTWORD_MIN_DURATION \<equiv> 28"
abbreviation (input) RECOGNIZER_HEADER_INTERPRET_TEXT :: nat where
  "RECOGNIZER_HEADER_INTERPRET_TEXT \<equiv> 29"
abbreviation (input) RECOGNIZER_HEADER_DTMF_BUFFER_TIME :: nat where
  "RECOGNIZER_HEADER_DTMF_BUFFER_TIME \<equiv> 30"
abbreviation (input) RECOGNIZER_HEADER_CLEAR_DTMF_BUFFER :: nat where
  "RECOGNIZER_HEADER_CLEAR_DTMF_BUFFER \<equiv> 31"
abbreviation (input) RECOGNIZER_HEADER_EARLY_NO_MATCH :: nat where
  "RECOGNIZER_HEADER_EARLY_NO_MATCH \<equiv> 32"
abbreviation (input) RECOGNIZER_HEADER_NUM_MIN_CONSISTENT_PRONUNCIATIONS :: nat where
  "RECOGNIZER_HEADER_NUM_MIN_CONSISTENT_PRONUNCIATIONS \<equiv> 33"
abbreviation (input) RECOGNIZER_HEADER_CONSISTENCY_THRESHOLD :: nat where
  "RECOGNIZER_HEADER_CONSISTENCY_THRESHOLD \<equiv> 34"
abbreviation (input) RECOGNIZER_HEADER_CLASH_THRESHOLD :: nat where
  "RECOGNIZER_HEADER_CLASH_THRESHOLD \<equiv> 35"
abbreviation (input) RECOGNIZER_HEADER_PERSONAL_GRAMMAR_URI :: nat where
  "RECOGNIZER_HEADER_PERSONAL_GRAMMAR_URI \<equiv> 36"
abbreviation (input) RECOGNIZER_HEADER_ENROLL_UTTERANCE :: nat where
  "RECOGNIZER_HEADER_ENROLL_UTTERANCE \<equiv> 37"
abbreviation (input) RECOGNIZER_HEADER_PHRASE_ID :: nat where "RECOGNIZER_HEADER_PHRASE_ID \<equiv> 38"
abbreviation (input) RECOGNIZER_HEADER_PHRASE_NL :: nat where "RECOGNIZER_HEADER_PHRASE_NL \<equiv> 39"
abbreviation (input) RECOGNIZER_HEADER_WEIGHT :: nat where "RECOGNIZER_HEADER_WEIGHT \<equiv> 40"
abbreviation (input) RECOGNIZER_HEADER_SAVE_BEST_WAVEFORM :: nat where
  "RECOGNIZER_HEADER_SAVE_BEST_WAVEFORM \<equiv> 41"
abbreviation (input) RECOGNIZER_HEADER_NEW_PHRASE_ID :: nat where
  "RECOGNIZER_HEADER_NEW_PHRASE_ID \<equiv> 42"
abbreviation (input) RECOGNIZER_HEADER_CONFUSABLE_PHRASES_URI :: nat where
  "RECOGNIZER_HEADER_CONFUSABLE_PHRASES_URI \<equiv> 43"
abbreviation (input) RECOGNIZER_HEADER_ABORT_PHRASE_ENROLLMENT :: nat where
  "RECOGNIZER_HEADER_ABORT_PHRASE_ENROLLMENT \<equiv> 44"
abbreviation (input) RECOGNIZER_HEADER_COUNT :: nat where "RECOGNIZER_HEADER_COUNT \<equiv> 45"

abbreviation (input) RECOGNIZER_COMPLETION_CAUSE_COUNT :: nat where "RECOGNIZER_COMPLETION_CAUSE_COUNT \<equiv> 17"

definition v1_recog_header_string_table :: "apt_str_table_item list" where
  "v1_recog_header_string_table =
     [table_item ''Confidence-Threshold'' 20 16,
      table_item ''Sensitivity-Level'' 17 14,
      table_item ''Speed-Vs-Accuracy'' 17 4,
      table_item ''N-Best-List-Length'' 18 1,
      table_item ''No-Input-Timeout'' 16 2,
      table_item ''Recognition-Timeout'' 19 19,
      table_item ''Waveform-Url'' 12 4,
      table_item ''Completion-Cause'' 16 16,
      table_item ''Recognizer-Context-Block'' 24 16,
      table_item ''Recognizer-Start-Timers'' 23 18,
      table_item ''Speech-Complete-Timeout'' 23 7,
      table_item ''Speech-Incomplete-Timeout'' 25 12,
      table_item ''DTMF-Interdigit-Timeout'' 23 10,
      table_item ''DTMF-Term-Timeout'' 17 14,
      table_item ''DTMF-Term-Char'' 14 14,
      table_item ''Failed-Uri'' 10 10,
      table_item ''Failed-Uri-Cause'' 16 16,
      table_item ''Save-Waveform'' 13 5,
      table_item ''New-Audio-Channel'' 17 17,
      table_item ''Speech-Language'' 15 8,
      table_item ''Input-Type'' 10 10,
      table_item ''Input-Waveform-Uri'' 18 6,
      table_item ''Completion-Reason'' 17 17,
      table_item ''Media-Type'' 10 0,
      table_item ''Ver-Buffer-Utterance'' 20 0,
      table_item ''Recognition-Mode'' 16 16,
      table_item ''Cancel-If-Queue'' 15 3,
      table_item ''Hotword-Max-Duration'' 20 10,
      table_item ''Hotword-Min-Duration'' 20 20,
      table_item ''Interpret-Text'' 14 12,
      table_item ''DTMF-Buffer-Time'' 16 16,
      table_item ''Clear-DTMF-Buffer'' 17 11,
      table_item ''Early-No-Match'' 14 4,
      table_item ''Num-Min-Consistent-Pronunciations'' 33 1,
      table_item ''Consistency-Threshold'' 21 16,
      table_item ''Clash-Threshold'' 15 2,
      table_item ''Personal-Grammar-URI'' 20 9,
      table_item ''Enroll-Utterance'' 16 10,
      table_item ''Phrase-ID'' 9 8,
      table_item ''Phrase-NL'' 9 9,
      table_item ''Weight'' 6 3,
      table_item ''Save-Best-Waveform'' 18 10,
      table_item ''New-Phrase-ID'' 13 4,
      table_item ''Confusable-Phrases-URI'' 22 4,
      table_item ''Abort-Phrase-Enrollment'' 23 0]"

definition v2_recog_header_string_table :: "apt_str_table_item list" where
  "v2_recog_header_string_table =
     [table_item ''Confidence-Threshold'' 20 16,
      table_item ''Sensitivity-Level'' 17 14,
      table_item ''Speed-Vs-Accuracy'' 17 4,
      table_item ''N-Best-List-Length'' 18 1,
      table_item ''No-Input-Timeout'' 16 2,
      table_item ''Recognition-Timeout'' 19 19,
      table_item ''Waveform-Uri'' 12 4,
      table_item ''Completion-Cause'' 16 16,
      table_item ''Recognizer-Context-Block'' 24 7,
      table_item ''Start-Input-Timers'' 18 18,
      table_item ''Speech-Complete-Timeout'' 23 7,
      table_item ''Speech-Incomplete-Timeout'' 25 12,
      table_item ''DTMF-Interdigit-Timeout'' 23 10,
      table_item ''DTMF-Term-Timeout'' 17 14,
      table_item ''DTMF-Term-Char'' 14 14,
      table_item ''Failed-Uri'' 10 10,
      table_item ''Failed-Uri-Cause'' 16 16,
      table_item ''Save-Waveform'' 13 5,
      table_item ''New-Audio-Channel'' 17 17,
      table_item ''Speech-Language'' 15 8,
      table_item ''Input-Type'' 10 10,
      table_item ''Input-Waveform-Uri'' 18 6,
      table_item ''Completion-Reason'' 17 13,
      table_item ''Media-Type'' 10 0,
      table_item ''Ver-Buffer-Utterance'' 20 0,
      table_item ''Recognition-Mode'' 16 16,
      table_item ''Cancel-If-Queue'' 15 3,
      table_item ''Hotword-Max-Duration'' 20 10,
      table_item ''Hotword-Min-Duration'' 20 20,
      table_item ''Interpret-Text'' 14 12,
      table_item ''DTMF-Buffer-Time'' 16 16,
      table_item ''Clear-DTMF-Buffer'' 17 11,
      table_item ''Early-No-Match'' 14 4,
      table_item ''Num-Min-Consistent-Pronunciations'' 33 1,
      table_item ''Consistency-Threshold'' 21 16,
      table_item ''Clash-Threshold'' 15 15,
      table_item ''Personal-Grammar-URI'' 20 9,
      table_item ''Enroll-Utterance'' 16 10,
      table_item ''Phrase-ID'' 9 8,
      table_item ''Phrase-NL'' 9 9,
      table_item ''Weight'' 6 3,
      table_item ''Save-Best-Waveform'' 18 10,
      table_item ''New-Phrase-ID'' 13 4,
      table_item ''Confusable-Phrases-URI'' 22 4,
      table_item ''Abort-Phrase-Enrollment'' 23 0]"

definition v1_recog_completion_cause_string_table :: "apt_str_table_item list" where
  "v1_recog_completion_cause_string_table =
     [table_item ''success'' 7 1,
      table_item ''no-match'' 8 8,
      table_item ''no-input-timeout'' 16 3,
      table_item ''recognition-timeout'' 19 0,
      table_item ''gram-load-failure'' 17 7,
      table_item ''gram-comp-failure'' 17 5,
      table_item ''error'' 5 0,
      table_item ''speech-too-early'' 16 1,
      table_item ''too-much-speech-timeout'' 23 0,
      table_item ''uri-failure'' 11 0,
      table_item ''language-unsupported'' 20 0,
      table_item ''cancelled'' 9 0,
      table_item ''semantics-failure'' 17 2,
      table_item ''partial-match'' 13 13,
      table_item ''partial-match-maxtime'' 21 13,
      table_item ''no-match-maxtime'' 16 9,
      table_item ''gram-definition-failure'' 23 5]"

definition v2_recog_completion_cause_string_table :: "apt_str_table_item list" where
  "v2_recog_completion_cause_string_table =
     [table_item ''success'' 7 7,
      table_item ''no-match'' 8 4,
      table_item ''no-input-timeout'' 16 3,
      table_item ''hotword-maxtime'' 15 0,
      table_item ''grammar-load-failure'' 20 8,
      table_item ''grammar-compilation-failure'' 27 8,
      table_item ''recognizer-error'' 16 0,
      table_item ''speech-too-early'' 16 1,
      table_item ''success-maxtime'' 15 15,
      table_item ''uri-failure'' 11 0,
      table_item ''language-unsupported'' 20 0,
      table_item ''cancelled'' 9 0,
      table_item ''semantics-failure'' 17 2,
      table_item ''partial-match'' 13 13,
      table_item ''partial-match-maxtime'' 21 13,
      table_item ''no-match-maxtime'' 16 9,
      table_item ''grammar-definition-failure'' 26 9]"

record mrcp_recog_header =
  rh_confidence_threshold :: c_float
  rh_sensitivity_level :: c_float
  rh_speed_vs_accuracy :: c_float
  rh_n_best_list_length :: "64 word"
  rh_no_input_timeout :: "64 word"
  rh_recognition_timeout :: "64 word"
  rh_waveform_uri :: apt_str
  rh_completion_cause :: nat
  rh_recognizer_context_block :: apt_str
  rh_start_input_timers :: bool
  rh_speech_complete_timeout :: "64 word"
  rh_speech_incomplete_timeout :: "64 word"
  rh_dtmf_interdigit_timeout :: "64 word"
  rh_dtmf_term_timeout :: "64 word"
  rh_dtmf_term_char :: char
  rh_failed_uri :: apt_str
  rh_failed_uri_cause :: apt_str
  rh_save_waveform :: bool
  rh_new_audio_channel :: bool
  rh_speech_language :: apt_str
  rh_input_type :: apt_str
  rh_input_waveform_uri :: apt_str
  rh_completion_reason :: apt_str
  rh_media_type :: apt_str
  rh_ver_buffer_utterance :: bool
  rh_recognition_mode :: apt_str
  rh_cancel_if_queue :: bool
  rh_hotword_max_duration :: "64 word"
  rh_hotword_min_duration :: "64 word"
  rh_interpret_text :: apt_str
  rh_dtmf_buffer_time :: "64 word"
  rh_clear_dtmf_buffer :: bool
  rh_early_no_match :: bool
  rh_num_min_consistent_pronunciations :: "64 word"
  rh_consistency_threshold :: c_float
  rh_clash_threshold :: c_float
  rh_personal_grammar_uri :: apt_str
  rh_enroll_utterance :: bool
  rh_phrase_id :: apt_str
  rh_phrase_nl :: apt_str
  rh_weight :: c_float
  rh_save_best_waveform :: bool
  rh_new_phrase_id :: apt_str
  rh_confusable_phrases_uri :: apt_str
  rh_abort_phrase_enrollment :: bool

definition mrcp_recog_header_init :: mrcp_recog_header where
  "mrcp_recog_header_init =
     \<lparr>rh_confidence_threshold = 0,
      rh_sensitivity_level = 0,
      rh_speed_vs_accuracy = 0,
      rh_n_best_list_length = 0,
      rh_no_input_timeout = 0,
      rh_recognition_timeout = 0,
      rh_waveform_uri = apt_string_reset,
      rh_completion_cause = RECOGNIZER_COMPLETION_CAUSE_COUNT,
      rh_recognizer_context_block = apt_string_reset,
      rh_start_input_timers = False,
      rh_speech_complete_timeout = 0,
      rh_speech_incomplete_timeout = 0,
      rh_dtmf_interdigit_timeout = 0,
      rh_dtmf_term_timeout = 0,
      rh_dtmf_term_char = NUL,
      rh_failed_uri = apt_string_reset,
      rh_failed_uri_cause = apt_string_reset,
      rh_save_waveform = False,
      rh_new_audio_channel = False,
      rh_speech_language = apt_string_reset,
      rh_input_type = apt_string_reset,
      rh_input_waveform_uri = apt_string_reset,
      rh_completion_reason = apt_string_reset,
      rh_media_type = apt_string_reset,
      rh_ver_buffer_utterance = False,
      rh_recognition_mode = apt_string_reset,
      rh_cancel_if_queue = False,
      rh_hotword_max_duration = 0,
      rh_hotword_min_duration = 0,
      rh_interpret_text = apt_string_reset,
      rh_dtmf_buffer_time = 0,
      rh_clear_dtmf_buffer = False,
      rh_early_no_match = False,
      rh_num_min_consistent_pronunciations = 0,
      rh_consistency_threshold = 0,
      rh_clash_threshold = 0,
      rh_personal_grammar_uri = apt_string_reset,
      rh_enroll_utterance = False,
      rh_phrase_id = apt_string_reset,
      rh_phrase_nl = apt_string_reset,
      rh_weight = 0,
      rh_save_best_waveform = False,
      rh_new_phrase_id = apt_string_reset,
      rh_confusable_phrases_uri = apt_string_reset,
      rh_abort_phrase_enrollment = False\<rparr>"

definition mrcp_recog_header_parse ::
  "c_flt \<Rightarrow> nat \<Rightarrow> apt_str \<Rightarrow> mrcp_recog_header \<Rightarrow> bool \<times> mrcp_recog_header" where
  "mrcp_recog_header_parse F i v h =
     (if i = RECOGNIZER_HEADER_N_BEST_LIST_LENGTH
      then (True, h\<lparr>rh_n_best_list_length := apt_size_value_parse v\<rparr>)
      else if i = RECOGNIZER_HEADER_NO_INPUT_TIMEOUT
      then (True, h\<lparr>rh_no_input_timeout := apt_size_value_parse v\<rparr>)
      else if i = RECOGNIZER_HEADER_RECOGNITION_TIMEOUT
      then (True, h\<lparr>rh_recognition_timeout := apt_size_value_parse v\<rparr>)
      else if i = RECOGNIZER_HEADER_WAVEFORM_URI then (True, h\<lparr>rh_waveform_uri := v\<rparr>)
      else if i = RECOGNIZER_HEADER_COMPLETION_CAUSE
      then (True, h\<lparr>rh_completion_cause := enum_value v\<rparr>)
      else if i = RECOGNIZER_HEADER_RECOGNIZER_CONTEXT_BLOCK
      then (True, h\<lparr>rh_recognizer_context_block := v\<rparr>)
      else if i = RECOGNIZER_HEADER_START_INPUT_TIMERS
      then (True, h\<lparr>rh_start_input_timers := bool_value v (rh_start_input_timers h)\<rparr>)
      else if i = RECOGNIZER_HEADER_SPEECH_COMPLETE_TIMEOUT
      then (True, h\<lparr>rh_speech_complete_timeout := apt_size_value_parse v\<rparr>)
      else if i = RECOGNIZER_HEADER_SPEECH_INCOMPLETE_TIMEOUT
      then (True, h\<lparr>rh_speech_incomplete_timeout := apt_size_value_parse v\<rparr>)
      else if i = RECOGNIZER_HEADER_DTMF_INTERDIGIT_TIMEOUT
      then (True, h\<lparr>rh_dtmf_interdigit_timeout := apt_size_value_parse v\<rparr>)
      else if i = RECOGNIZER_HEADER_DTMF_TERM_TIMEOUT
      then (True, h\<lparr>rh_dtmf_term_timeout := apt_size_value_parse v\<rparr>)
      else if i = RECOGNIZER_HEADER_DTMF_TERM_CHAR
      then (True, h\<lparr>rh_dtmf_term_char := byte (str_mem v)\<rparr>)
      else if i = RECOGNIZER_HEADER_FAILED_URI then (True, h\<lparr>rh_failed_uri := v\<rparr>)
      else if i = RECOGNIZER_HEADER_FAILED_URI_CAUSE then (True, h\<lparr>rh_failed_uri_cause := v\<rparr>)
      else if i = RECOGNIZER_HEADER_SAVE_WAVEFORM
      then (True, h\<lparr>rh_save_waveform := bool_value v (rh_save_waveform h)\<rparr>)
      else if i = RECOGNIZER_HEADER_NEW_AUDIO_CHANNEL
      then (True, h\<lparr>rh_new_audio_channel := bool_value v (rh_new_audio_channel h)\<rparr>)
      else if i = RECOGNIZER_HEADER_SPEECH_LANGUAGE then (True, h\<lparr>rh_speech_language := v\<rparr>)
      else if i = RECOGNIZER_HEADER_INPUT_TYPE then (True, h\<lparr>rh_input_type := v\<rparr>)
      else if i = RECOGNIZER_HEADER_MEDIA_TYPE then (True, h\<lparr>rh_media_type := v\<rparr>)
      else if i = RECOGNIZER_HEADER_INPUT_WAVEFORM_URI then (True, h\<lparr>rh_input_waveform_uri := v\<rparr>)
      else if i = RECOGNIZER_HEADER_COMPLETION_REASON then (True, h\<lparr>rh_completion_reason := v\<rparr>)
      else if i = RECOGNIZER_HEADER_VER_BUFFER_UTTERANCE
      then (True, h\<lparr>rh_ver_buffer_utterance := bool_value v (rh_ver_buffer_utterance h)\<rparr>)
      else if i = RECOGNIZER_HEADER_RECOGNITION_MODE then (True, h\<lparr>rh_recognition_mode := v\<rparr>)
      else if i = RECOGNIZER_HEADER_CANCEL_IF_QUEUE
      then (True, h\<lparr>rh_cancel_if_queue := bool_value v (rh_cancel_if_queue h)\<rparr>)
      else if i = RECOGNIZER_HEADER_HOTWORD_MAX_DURATION
      then (True, h\<lparr>rh_hotword_max_duration := apt_size_value_parse v\<rparr>)
      else if i = RECOGNIZER_HEADER_HOTWORD_MIN_DURATION
      then (True, h\<lparr>rh_hotword_min_duration := apt_size_value_parse v\<rparr>)
      else if i = RECOGNIZER_HEADER_INTERPRET_TEXT then (True, h\<lparr>rh_interpret_text := v\<rparr>)
      else if i = RECOGNIZER_HEADER_DTMF_BUFFER_TIME
      then (True, h\<lparr>rh_dtmf_buffer_time := apt_size_value_parse v\<rparr>)
      else if i = RECOGNIZER_HEADER_CLEAR_DTMF_BUFFER
      then (True, h\<lparr>rh_clear_dtmf_buffer := bool_value v (rh_clear_dtmf_buffer h)\<rparr>)
      else if i = RECOGNIZER_HEADER_EARLY_NO_MATCH
      then (True, h\<lparr>rh_early_no_match := bool_value v (rh_early_no_match h)\<rparr>)
      else if i = RECOGNIZER_HEADER_NUM_MIN_CONSISTENT_PRONUNCIATIONS
      then (True, h\<lparr>rh_num_min_consistent_pronunciations := apt_size_value_parse v\<rparr>)
      else if i = RECOGNIZER_HEADER_CONSISTENCY_THRESHOLD
      then (True, h\<lparr>rh_consistency_threshold := apt_float_value_parse F v\<rparr>)
      else if i = RECOGNIZER_HEADER_CLASH_THRESHOLD
      then (True, h\<lparr>rh_clash_threshold := apt_float_value_parse F v\<rparr>)
      else if i = RECOGNIZER_HEADER_PERSONAL_GRAMMAR_URI
      then (True, h\<lparr>rh_personal_grammar_uri := v\<rparr>)
      else if i = RECOGNIZER_HEADER_ENROLL_UTTERANCE
      then (True, h\<lparr>rh_enroll_utterance := bool_value v (rh_enroll_utterance h)\<rparr>)
      else if i = RECOGNIZER_HEADER_PHRASE_ID then (True, h\<lparr>rh_phrase_id := v\<rparr>)
      else if i = RECOGNIZER_HEADER_PHRASE_NL then (True, h\<lparr>rh_phrase_nl := v\<rparr>)
      else if i = RECOGNIZER_HEADER_WEIGHT then (True, h\<lparr>rh_weight := apt_float_value_parse F v\<rparr>)
      else if i = RECOGNIZER_HEADER_SAVE_BEST_WAVEFORM
      then (True, h\<lparr>rh_save_best_waveform := bool_value v (rh_save_best_waveform h)\<rparr>)
      else if i = RECOGNIZER_HEADER_NEW_PHRASE_ID then (True, h\<lparr>rh_new_phrase_id := v\<rparr>)
      else if i = RECOGNIZER_HEADER_CONFUSABLE_PHRASES_URI
      then (True, h\<lparr>rh_confusable_phrases_uri := v\<rparr>)
      else if i = RECOGNIZER_HEADER_ABORT_PHRASE_ENROLLMENT
      then (True, h\<lparr>rh_abort_phrase_enrollment := bool_value v (rh_abort_phrase_enrollment h)\<rparr>)
      else (False, h))"

definition mrcp_recog_header_generate ::
  "apr \<Rightarrow> c_flt \<Rightarrow> nat \<Rightarrow> mrcp_recog_header \<Rightarrow> apt_str \<Rightarrow> fault + bool \<times> apt_str" where
  "mrcp_recog_header_generate A F i h v =
     (if i = RECOGNIZER_HEADER_N_BEST_LIST_LENGTH then Inr (True, apt_size_value_generate A (rh_n_best_list_length h))
      else if i = RECOGNIZER_HEADER_NO_INPUT_TIMEOUT
      then Inr (True, apt_size_value_generate A (rh_no_input_timeout h))
      else if i = RECOGNIZER_HEADER_RECOGNITION_TIMEOUT
      then Inr (True, apt_size_value_generate A (rh_recognition_timeout h))
      else if i = RECOGNIZER_HEADER_WAVEFORM_URI then Inr (True, rh_waveform_uri h)
      else if i = RECOGNIZER_HEADER_RECOGNIZER_CONTEXT_BLOCK then Inr (True, rh_recognizer_context_block h)
      else if i = RECOGNIZER_HEADER_START_INPUT_TIMERS
      then Inr (True, apt_boolean_value_generate (rh_start_input_timers h))
      else if i = RECOGNIZER_HEADER_SPEECH_COMPLETE_TIMEOUT
      then Inr (True, apt_size_value_generate A (rh_speech_complete_timeout h))
      else if i = RECOGNIZER_HEADER_SPEECH_INCOMPLETE_TIMEOUT
      then Inr (True, apt_size_value_generate A (rh_speech_incomplete_timeout h))
      else if i = RECOGNIZER_HEADER_DTMF_INTERDIGIT_TIMEOUT
      then Inr (True, apt_size_value_generate A (rh_dtmf_interdigit_timeout h))
      else if i = RECOGNIZER_HEADER_DTMF_TERM_TIMEOUT
      then Inr (True, apt_size_value_generate A (rh_dtmf_term_timeout h))
      else if i = RECOGNIZER_HEADER_DTMF_TERM_CHAR
      then Inr (True, \<lparr>str_buf = Some [rh_dtmf_term_char h], str_length = 1\<rparr>)
      else if i = RECOGNIZER_HEADER_FAILED_URI then Inr (True, rh_failed_uri h)
      else if i = RECOGNIZER_HEADER_FAILED_URI_CAUSE then Inr (True, rh_failed_uri_cause h)
      else if i = RECOGNIZER_HEADER_SAVE_WAVEFORM
      then Inr (True, apt_boolean_value_generate (rh_save_waveform h))
      else if i = RECOGNIZER_HEADER_NEW_AUDIO_CHANNEL
      then Inr (True, apt_boolean_value_generate (rh_new_audio_channel h))
      else if i = RECOGNIZER_HEADER_SPEECH_LANGUAGE then Inr (True, rh_speech_language h)
      else if i = RECOGNIZER_HEADER_INPUT_TYPE then Inr (True, rh_input_type h)
      else if i = RECOGNIZER_HEADER_INPUT_WAVEFORM_URI then Inr (True, rh_input_waveform_uri h)
      else if i = RECOGNIZER_HEADER_COMPLETION_REASON then Inr (True, rh_completion_reason h)
      else if i = RECOGNIZER_HEADER_MEDIA_TYPE then Inr (True, rh_media_type h)
      else if i = RECOGNIZER_HEADER_VER_BUFFER_UTTERANCE
      then Inr (True, apt_boolean_value_generate (rh_ver_buffer_utterance h))
      else if i = RECOGNIZER_HEADER_RECOGNITION_MODE then Inr (True, rh_recognition_mode h)
      else if i = RECOGNIZER_HEADER_CANCEL_IF_QUEUE
      then Inr (True, apt_boolean_value_generate (rh_cancel_if_queue h))
      else if i = RECOGNIZER_HEADER_HOTWORD_MAX_DURATION
      then Inr (True, apt_size_value_generate A (rh_hotword_max_duration h))
      else if i = RECOGNIZER_HEADER_HOTWORD_MIN_DURATION
      then Inr (True, apt_size_value_generate A (rh_hotword_min_duration h))
      else if i = RECOGNIZER_HEADER_INTERPRET_TEXT then Inr (True, rh_interpret_text h)
      else if i = RECOGNIZER_HEADER_DTMF_BUFFER_TIME
      then Inr (True, apt_size_value_generate A (rh_dtmf_buffer_time h))
      else if i = RECOGNIZER_HEADER_CLEAR_DTMF_BUFFER
      then Inr (True, apt_boolean_value_generate (rh_clear_dtmf_buffer h))
      else if i = RECOGNIZER_HEADER_EARLY_NO_MATCH
      then Inr (True, apt_boolean_value_generate (rh_early_no_match h))
      else if i = RECOGNIZER_HEADER_NUM_MIN_CONSISTENT_PRONUNCIATIONS
      then Inr (True, apt_size_value_generate A (rh_num_min_consistent_pronunciations h))
      else if i = RECOGNIZER_HEADER_CONSISTENCY_THRESHOLD then float_field F (rh_consistency_threshold h)
      else if i = RECOGNIZER_HEADER_CLASH_THRESHOLD then float_field F (rh_clash_threshold h)
      else if i = RECOGNIZER_HEADER_PERSONAL_GRAMMAR_URI then Inr (True, rh_personal_grammar_uri h)
      else if i = RECOGNIZER_HEADER_ENROLL_UTTERANCE
      then Inr (True, apt_boolean_value_generate (rh_enroll_utterance h))
      else if i = RECOGNIZER_HEADER_PHRASE_ID then Inr (True, rh_phrase_id h)
      else if i = RECOGNIZER_HEADER_PHRASE_NL then Inr (True, rh_phrase_nl h)
      else if i = RECOGNIZER_HEADER_WEIGHT then float_field F (rh_weight h)
      else if i = RECOGNIZER_HEADER_SAVE_BEST_WAVEFORM
      then Inr (True, apt_boolean_value_generate (rh_save_best_waveform h))
      else if i = RECOGNIZER_HEADER_NEW_PHRASE_ID then Inr (True, rh_new_phrase_id h)
      else if i = RECOGNIZER_HEADER_CONFUSABLE_PHRASES_URI then Inr (True, rh_confusable_phrases_uri h)
      else if i = RECOGNIZER_HEADER_ABORT_PHRASE_ENROLLMENT
      then Inr (True, apt_boolean_value_generate (rh_abort_phrase_enrollment h))
      else Inr (True, v))"

definition recog_field_duplicate ::
  "nat \<Rightarrow> mrcp_recog_header \<Rightarrow> apt_str \<Rightarrow> mrcp_recog_header \<Rightarrow> bool \<times> mrcp_recog_header" where
  "recog_field_duplicate i src v h =
     (if i = RECOGNIZER_HEADER_CONFIDENCE_THRESHOLD
      then (True, h\<lparr>rh_confidence_threshold := rh_confidence_threshold src\<rparr>)
      else if i = RECOGNIZER_HEADER_SENSITIVITY_LEVEL
      then (True, h\<lparr>rh_sensitivity_level := rh_sensitivity_level src\<rparr>)
      else if i = RECOGNIZER_HEADER_SPEED_VS_ACCURACY
      then (True, h\<lparr>rh_speed_vs_accuracy := rh_speed_vs_accuracy src\<rparr>)
      else if i = RECOGNIZER_HEADER_N_BEST_LIST_LENGTH
      then (True, h\<lparr>rh_n_best_list_length := rh_n_best_list_length src\<rparr>)
      else if i = RECOGNIZER_HEADER_NO_INPUT_TIMEOUT
      then (True, h\<lparr>rh_no_input_timeout := rh_no_input_timeout src\<rparr>)
      else if i = RECOGNIZER_HEADER_RECOGNITION_TIMEOUT
      then (True, h\<lparr>rh_recognition_timeout := rh_recognition_timeout src\<rparr>)
      else if i = RECOGNIZER_HEADER_WAVEFORM_URI then (True, h\<lparr>rh_waveform_uri := v\<rparr>)
      else if i = RECOGNIZER_HEADER_COMPLETION_CAUSE
      then (True, h\<lparr>rh_completion_cause := rh_completion_cause src\<rparr>)
      else if i = RECOGNIZER_HEADER_RECOGNIZER_CONTEXT_BLOCK
      then (True, h\<lparr>rh_recognizer_context_block := v\<rparr>)
      else if i = RECOGNIZER_HEADER_START_INPUT_TIMERS
      then (True, h\<lparr>rh_start_input_timers := rh_start_input_timers src\<rparr>)
      else if i = RECOGNIZER_HEADER_SPEECH_COMPLETE_TIMEOUT
      then (True, h\<lparr>rh_speech_complete_timeout := rh_speech_complete_timeout src\<rparr>)
      else if i = RECOGNIZER_HEADER_SPEECH_INCOMPLETE_TIMEOUT
      then (True, h\<lparr>rh_speech_incomplete_timeout := rh_speech_incomplete_timeout src\<rparr>)
      else if i = RECOGNIZER_HEADER_DTMF_INTERDIGIT_TIMEOUT
      then (True, h\<lparr>rh_dtmf_interdigit_timeout := rh_dtmf_interdigit_timeout src\<rparr>)
      else if i = RECOGNIZER_HEADER_DTMF_TERM_TIMEOUT
      then (True, h\<lparr>rh_dtmf_term_timeout := rh_dtmf_term_timeout src\<rparr>)
      else if i = RECOGNIZER_HEADER_DTMF_TERM_CHAR
      then (True, h\<lparr>rh_dtmf_term_char := rh_dtmf_term_char src\<rparr>)
      else if i = RECOGNIZER_HEADER_FAILED_URI then (True, h\<lparr>rh_failed_uri := v\<rparr>)
      else if i = RECOGNIZER_HEADER_FAILED_URI_CAUSE then (True, h\<lparr>rh_failed_uri_cause := v\<rparr>)
      else if i = RECOGNIZER_HEADER_SAVE_WAVEFORM
      then (True, h\<lparr>rh_save_waveform := rh_save_waveform src\<rparr>)
      else if i = RECOGNIZER_HEADER_NEW_AUDIO_CHANNEL
      then (True, h\<lparr>rh_new_audio_channel := rh_new_audio_channel src\<rparr>)
      else if i = RECOGNIZER_HEADER_SPEECH_LANGUAGE then (True, h\<lparr>rh_speech_language := v\<rparr>)
      else if i = RECOGNIZER_HEADER_INPUT_TYPE then (True, h\<lparr>rh_input_type := v\<rparr>)
      else if i = RECOGNIZER_HEADER_INPUT_WAVEFORM_URI then (True, h\<lparr>rh_input_waveform_uri := v\<rparr>)
      else if i = RECOGNIZER_HEADER_COMPLETION_REASON then (True, h\<lparr>rh_completion_reason := v\<rparr>)
      else if i = RECOGNIZER_HEADER_MEDIA_TYPE then (True, h\<lparr>rh_media_type := v\<rparr>)
      else if i = RECOGNIZER_HEADER_VER_BUFFER_UTTERANCE
      then (True, h\<lparr>rh_ver_buffer_utterance := rh_ver_buffer_utterance src\<rparr>)
      else if i = RECOGNIZER_HEADER_RECOGNITION_MODE then (True, h\<lparr>rh_recognition_mode := v\<rparr>)
      else if i = RECOGNIZER_HEADER_CANCEL_IF_QUEUE
      then (True, h\<lparr>rh_cancel_if_queue := rh_cancel_if_queue src\<rparr>)
      else if i = RECOGNIZER_HEADER_HOTWORD_MAX_DURATION
      then (True, h\<lparr>rh_hotword_max_duration := rh_hotword_max_duration src\<rparr>)
      else if i = RECOGNIZER_HEADER_HOTWORD_MIN_DURATION
      then (True, h\<lparr>rh_hotword_min_duration := rh_hotword_min_duration src\<rparr>)
      else if i = RECOGNIZER_HEADER_INTERPRET_TEXT then (True, h\<lparr>rh_interpret_text := v\<rparr>)
      else if i = RECOGNIZER_HEADER_DTMF_BUFFER_TIME
      then (True, h\<lparr>rh_dtmf_buffer_time := rh_dtmf_buffer_time src\<rparr>)
      else if i = RECOGNIZER_HEADER_CLEAR_DTMF_BUFFER
      then (True, h\<lparr>rh_clear_dtmf_buffer := rh_clear_dtmf_buffer src\<rparr>)
      else if i = RECOGNIZER_HEADER_EARLY_NO_MATCH
      then (True, h\<lparr>rh_early_no_match := rh_early_no_match src\<rparr>)
      else if i = RECOGNIZER_HEADER_NUM_MIN_CONSISTENT_PRONUNCIATIONS
      then (True, h\<lparr>rh_num_min_consistent_pronunciations := rh_num_min_consistent_pronunciations src\<rparr>)
      else if i = RECOGNIZER_HEADER_CONSISTENCY_THRESHOLD
      then (True, h\<lparr>rh_consistency_threshold := rh_consistency_threshold src\<rparr>)
      else if i = RECOGNIZER_HEADER_CLASH_THRESHOLD
      then (True, h\<lparr>rh_clash_threshold := rh_clash_threshold src\<rparr>)
      else if i = RECOGNIZER_HEADER_PERSONAL_GRAMMAR_URI
      then (True, h\<lparr>rh_personal_grammar_uri := v\<rparr>)
      else if i = RECOGNIZER_HEADER_ENROLL_UTTERANCE
      then (True, h\<lparr>rh_enroll_utterance := rh_enroll_utterance src\<rparr>)
      else if i = RECOGNIZER_HEADER_PHRASE_ID then (True, h\<lparr>rh_phrase_id := v\<rparr>)
      else if i = RECOGNIZER_HEADER_PHRASE_NL then (True, h\<lparr>rh_phrase_nl := v\<rparr>)
      else if i = RECOGNIZER_HEADER_WEIGHT then (True, h\<lparr>rh_weight := rh_weight src\<rparr>)
      else if i = RECOGNIZER_HEADER_SAVE_BEST_WAVEFORM
      then (True, h\<lparr>rh_save_best_waveform := rh_save_best_waveform src\<rparr>)
      else if i = RECOGNIZER_HEADER_NEW_PHRASE_ID then (True, h\<lparr>rh_new_phrase_id := v\<rparr>)
      else if i = RECOGNIZER_HEADER_CONFUSABLE_PHRASES_URI
      then (True, h\<lparr>rh_confusable_phrases_uri := v\<rparr>)
      else if i = RECOGNIZER_HEADER_ABORT_PHRASE_ENROLLMENT
      then (True, h\<lparr>rh_abort_phrase_enrollment := rh_abort_phrase_enrollment src\<rparr>)
      else (False, h))"

definition mrcp_recog_header_duplicate ::
  "nat \<Rightarrow> mrcp_recog_header option \<Rightarrow> apt_str \<Rightarrow> mrcp_recog_header option \<Rightarrow> bool \<times> mrcp_recog_header option" where
  "mrcp_recog_header_duplicate i source v target =
     (case (target, source) of
        (Some h, Some src) \<Rightarrow> map_prod id Some (recog_field_duplicate i src v h)
      | _ \<Rightarrow> (False, target))"

definition apt_size_value_parse_as_float :: "c_flt \<Rightarrow> apt_str \<Rightarrow> c_float" where
  "apt_size_value_parse_as_float F v = flt_div F (flt_of_size F (apt_size_value_parse v)) (flt_of_size F 100)"

definition apt_size_value_generate_from_float :: "apr \<Rightarrow> c_flt \<Rightarrow> c_float \<Rightarrow> apt_str" where
  "apt_size_value_generate_from_float A F value =
     apt_size_value_generate A (flt_to_size F (flt_mul F (flt_add F value (flt_milli F)) (flt_of_size F 100)))"

definition mrcp_v1_recog_header_parse ::
  "c_flt \<Rightarrow> nat \<Rightarrow> apt_str \<Rightarrow> mrcp_recog_header \<Rightarrow> bool \<times> mrcp_recog_header" where
  "mrcp_v1_recog_header_parse F i v h =
     (if i = RECOGNIZER_HEADER_CONFIDENCE_THRESHOLD
      then (True, h\<lparr>rh_confidence_threshold := apt_size_value_parse_as_float F v\<rparr>)
      else if i = RECOGNIZER_HEADER_SENSITIVITY_LEVEL
      then (True, h\<lparr>rh_sensitivity_level := apt_size_value_parse_as_float F v\<rparr>)
      else if i = RECOGNIZER_HEADER_SPEED_VS_ACCURACY
      then (True, h\<lparr>rh_speed_vs_accuracy := apt_size_value_parse_as_float F v\<rparr>)
      else mrcp_recog_header_parse F i v h)"

definition mrcp_v2_recog_header_parse ::
  "c_flt \<Rightarrow> nat \<Rightarrow> apt_str \<Rightarrow> mrcp_recog_header \<Rightarrow> bool \<times> mrcp_recog_header" where
  "mrcp_v2_recog_header_parse F i v h =
     (if i = RECOGNIZER_HEADER_CONFIDENCE_THRESHOLD
      then (True, h\<lparr>rh_confidence_threshold := apt_float_value_parse F v\<rparr>)
      else if i = RECOGNIZER_HEADER_SENSITIVITY_LEVEL
      then (True, h\<lparr>rh_sensitivity_level := apt_float_value_parse F v\<rparr>)
      else if i = RECOGNIZER_HEADER_SPEED_VS_ACCURACY
      then (True, h\<lparr>rh_speed_vs_accuracy := apt_float_value_parse F v\<rparr>)
      else mrcp_recog_header_parse F i v h)"

definition mrcp_v1_recog_header_generate ::
  "apr \<Rightarrow> c_flt \<Rightarrow> nat \<Rightarrow> mrcp_recog_header \<Rightarrow> apt_str \<Rightarrow> fault + bool \<times> apt_str" where
  "mrcp_v1_recog_header_generate A F i h v =
     (if i = RECOGNIZER_HEADER_CONFIDENCE_THRESHOLD
      then Inr (True, apt_size_value_generate_from_float A F (rh_confidence_threshold h))
      else if i = RECOGNIZER_HEADER_SENSITIVITY_LEVEL
      then Inr (True, apt_size_value_generate_from_float A F (rh_sensitivity_level h))
      else if i = RECOGNIZER_HEADER_SPEED_VS_ACCURACY
      then Inr (True, apt_size_value_generate_from_float A F (rh_speed_vs_accuracy h))
      else if i = RECOGNIZER_HEADER_COMPLETION_CAUSE
      then Inr (cause_generate v1_recog_completion_cause_string_table RECOGNIZER_COMPLETION_CAUSE_COUNT
        (rh_completion_cause h) v)
      else mrcp_recog_header_generate A F i h v)"

definition mrcp_v2_recog_header_generate ::
  "apr \<Rightarrow> c_flt \<Rightarrow> nat \<Rightarrow> mrcp_recog_header \<Rightarrow> apt_str \<Rightarrow> fault + bool \<times> apt_str" where
  "mrcp_v2_recog_header_generate A F i h v =
     (if i = RECOGNIZER_HEADER_CONFIDENCE_THRESHOLD then float_field F (rh_confidence_threshold h)
      else if i = RECOGNIZER_HEADER_SENSITIVITY_LEVEL then float_field F (rh_sensitivity_level h)
      else if i = RECOGNIZER_HEADER_SPEED_VS_ACCURACY then float_field F (rh_speed_vs_accuracy h)
      else if i = RECOGNIZER_HEADER_COMPLETION_CAUSE
      then Inr (cause_generate v2_recog_completion_cause_string_table RECOGNIZER_COMPLETION_CAUSE_COUNT
        (rh_completion_cause h) v)
      else mrcp_recog_header_generate A F i h v)"

definition recog_v1_vtable :: "apr \<Rightarrow> c_flt \<Rightarrow> mrcp_recog_header header_vtable" where
  "recog_v1_vtable A F =
     \<lparr>vt_allocate = mrcp_recog_header_init, vt_parse = mrcp_v1_recog_header_parse F,
      vt_generate = mrcp_v1_recog_header_generate A F, vt_duplicate = mrcp_recog_header_duplicate,
      vt_field_table = v1_recog_header_string_table, vt_field_count = RECOGNIZER_HEADER_COUNT\<rparr>"

definition recog_v2_vtable :: "apr \<Rightarrow> c_flt \<Rightarrow> mrcp_recog_header header_vtable" where
  "recog_v2_vtable A F =
     \<lparr>vt_allocate = mrcp_recog_header_init, vt_parse = mrcp_v2_recog_header_parse F,
      vt_generate = mrcp_v2_recog_header_generate A F, vt_duplicate = mrcp_recog_header_duplicate,
      vt_field_table = v2_recog_header_string_table, vt_field_count = RECOGNIZER_HEADER_COUNT\<rparr>"

definition mrcp_recog_header_vtable_get :: "apr \<Rightarrow> c_flt \<Rightarrow> mrcp_version \<Rightarrow> mrcp_recog_header header_vtable" where
  "mrcp_recog_header_vtable_get A F version =
     (if version = MRCP_VERSION_1 then recog_v1_vtable A F else recog_v2_vtable A F)"

definition mrcp_recog_completion_cause_get :: "nat \<Rightarrow> mrcp_version \<Rightarrow> apt_str option" where
  "mrcp_recog_completion_cause_get completion_cause version =
     apt_string_table_str_get
       (if version = MRCP_VERSION_1 then v1_recog_completion_cause_string_table
        else v2_recog_completion_cause_string_table)
       RECOGNIZER_COMPLETION_CAUSE_COUNT completion_cause"

section \<open>Resource\<close>

abbreviation (input) RECOGNIZER_SET_PARAMS :: nat where "RECOGNIZER_SET_PARAMS \<equiv> 0"
abbreviation (input) RECOGNIZER_GET_PARAMS :: nat where "RECOGNIZER_GET_PARAMS \<equiv> 1"
abbreviation (input) RECOGNIZER_DEFINE_GRAMMAR :: nat where "RECOGNIZER_DEFINE_GRAMMAR \<equiv> 2"
abbreviation (input) RECOGNIZER_RECOGNIZE :: nat where "RECOGNIZER_RECOGNIZE \<equiv> 3"
abbreviation (input) RECOGNIZER_INTERPRET :: nat where "RECOGNIZER_INTERPRET \<equiv> 4"
abbreviation (input) RECOGNIZER_GET_RESULT :: nat where "RECOGNIZER_GET_RESULT \<equiv> 5"
abbreviation (input) RECOGNIZER_START_INPUT_TIMERS :: nat where "RECOGNIZER_START_INPUT_TIMERS \<equiv> 6"
abbreviation (input) RECOGNIZER_STOP :: nat where "RECOGNIZER_STOP \<equiv> 7"
abbreviation (input) RECOGNIZER_START_PHRASE_ENROLLMENT :: nat where
  "RECOGNIZER_START_PHRASE_ENROLLMENT \<equiv> 8"
abbreviation (input) RECOGNIZER_ENROLLMENT_ROLLBACK :: nat where "RECOGNIZER_ENROLLMENT_ROLLBACK \<equiv> 9"
abbreviation (input) RECOGNIZER_END_PHRASE_ENROLLMENT :: nat where
  "RECOGNIZER_END_PHRASE_ENROLLMENT \<equiv> 10"
abbreviation (input) RECOGNIZER_MODIFY_PHRASE :: nat where "RECOGNIZER_MODIFY_PHRASE \<equiv> 11"
abbreviation (input) RECOGNIZER_DELETE_PHRASE :: nat where "RECOGNIZER_DELETE_PHRASE \<equiv> 12"
abbreviation (input) RECOGNIZER_METHOD_COUNT :: nat where "RECOGNIZER_METHOD_COUNT \<equiv> 13"

abbreviation (input) RECOGNIZER_START_OF_INPUT :: nat where "RECOGNIZER_START_OF_INPUT \<equiv> 0"
abbreviation (input) RECOGNIZER_RECOGNITION_COMPLETE :: nat where "RECOGNIZER_RECOGNITION_COMPLETE \<equiv> 1"
abbreviation (input) RECOGNIZER_INTERPRETATION_COMPLETE :: nat where
  "RECOGNIZER_INTERPRETATION_COMPLETE \<equiv> 2"
abbreviation (input) RECOGNIZER_EVENT_COUNT :: nat where "RECOGNIZER_EVENT_COUNT \<equiv> 3"

definition v1_recog_method_string_table :: "apt_str_table_item list" where
  "v1_recog_method_string_table =
     [table_item ''SET-PARAMS'' 10 10,
      table_item ''GET-PARAMS'' 10 10,
      table_item ''DEFINE-GRAMMAR'' 14 2,
      table_item ''RECOGNIZE'' 9 7,
      table_item ''INTERPRET'' 9 0,
      table_item ''GET-RESULT'' 10 6,
      table_item ''RECOGNITION-START-TIMERS'' 24 7,
      table_item ''STOP'' 4 2,
      table_item ''START-PHRASE-ENROLLMENT'' 23 2,
      table_item ''ENROLLMENT-ROLLBACK'' 19 2,
      table_item ''END-PHRASE-ENROLLMENT'' 21 5,
      table_item ''MODIFY-PHRASE'' 13 0,
      table_item ''DELETE-PHRASE'' 13 2]"

definition v2_recog_method_string_table :: "apt_str_table_item list" where
  "v2_recog_method_string_table =
     [table_item ''SET-PARAMS'' 10 10,
      table_item ''GET-PARAMS'' 10 10,
      table_item ''DEFINE-GRAMMAR'' 14 2,
      table_item ''RECOGNIZE'' 9 0,
      table_item ''INTERPRET'' 9 0,
      table_item ''GET-RESULT'' 10 6,
      table_item ''START-INPUT-TIMERS'' 18 7,
      table_item ''STOP'' 4 2,
      table_item ''START-PHRASE-ENROLLMENT'' 23 6,
      table_item ''ENROLLMENT-ROLLBACK'' 19 2,
      table_item ''END-PHRASE-ENROLLMENT'' 21 5,
      table_item ''MODIFY-PHRASE'' 13 0,
      table_item ''DELETE-PHRASE'' 13 2]"

definition v1_recog_event_string_table :: "apt_str_table_item list" where
  "v1_recog_event_string_table =
     [table_item ''START-OF-SPEECH'' 15 0,
      table_item ''RECOGNITION-COMPLETE'' 20 0,
      table_item ''INTERPRETATION-COMPLETE'' 23 0]"

definition v2_recog_event_string_table :: "apt_str_table_item list" where
  "v2_recog_event_string_table =
     [table_item ''START-OF-INPUT'' 14 0,
      table_item ''RECOGNITION-COMPLETE'' 20 0,
      table_item ''INTERPRETATION-COMPLETE'' 23 0]"

definition recog_method_string_table_get :: "mrcp_version \<Rightarrow> apt_str_table_item list" where
  "recog_method_string_table_get version = 
     (if version = MRCP_VERSION_1 then v1_recog_method_string_table else v2_recog_method_string_table)"

definition recog_event_string_table_get :: "mrcp_version \<Rightarrow> apt_str_table_item list" where
  "recog_event_string_table_get version = 
     (if version = MRCP_VERSION_1 then v1_recog_event_string_table else v2_recog_event_string_table)"

definition mrcp_recog_resource_create :: "apr \<Rightarrow> c_flt \<Rightarrow> mrcp_recog_header mrcp_resource" where
  "mrcp_recog_resource_create A F =
     mrcp_resource_create\<lparr>res_method_count := RECOGNIZER_METHOD_COUNT, res_event_count := RECOGNIZER_EVENT_COUNT,
       res_get_method_str_table := Some recog_method_string_table_get,
       res_get_event_str_table := Some recog_event_string_table_get,
       res_get_resource_header_vtable := Some (mrcp_recog_header_vtable_get A F)\<rparr>"

section \<open>The values of the header\<close>

text \<open>Numbers are read back as signed longs; the completion cause has a name.\<close>

definition recog_values_ok :: "mrcp_recog_header \<Rightarrow> bool" where
  "recog_values_ok h \<longleftrightarrow>
     list_all (\<lambda>n. uint n < 2 ^ 63)
       [rh_n_best_list_length h, rh_no_input_timeout h, rh_recognition_timeout h, rh_speech_complete_timeout h, rh_speech_incomplete_timeout h, rh_dtmf_interdigit_timeout h, rh_dtmf_term_timeout h, rh_hotword_max_duration h, rh_hotword_min_duration h, rh_dtmf_buffer_time h, rh_num_min_consistent_pronunciations h] \<and>
     rh_completion_cause h < RECOGNIZER_COMPLETION_CAUSE_COUNT"

definition recog_exact :: "nat \<Rightarrow> bool" where
  "recog_exact i \<longleftrightarrow> i \<notin> set [RECOGNIZER_HEADER_CONFIDENCE_THRESHOLD, RECOGNIZER_HEADER_SENSITIVITY_LEVEL, RECOGNIZER_HEADER_SPEED_VS_ACCURACY, RECOGNIZER_HEADER_CONSISTENCY_THRESHOLD, RECOGNIZER_HEADER_CLASH_THRESHOLD, RECOGNIZER_HEADER_WEIGHT]"

lemma recog_v1_names: "string_table v1_recog_header_string_table RECOGNIZER_HEADER_COUNT"
proof
  show "length v1_recog_header_string_table = RECOGNIZER_HEADER_COUNT" by (simp add: v1_recog_header_string_table_def)
  show "list_all item_ok v1_recog_header_string_table" by code_simp
  show "distinct (map item_fold v1_recog_header_string_table)" by code_simp
qed

lemma recog_v2_names: "string_table v2_recog_header_string_table RECOGNIZER_HEADER_COUNT"
proof
  show "length v2_recog_header_string_table = RECOGNIZER_HEADER_COUNT" by (simp add: v2_recog_header_string_table_def)
  show "list_all item_ok v2_recog_header_string_table" by code_simp
  show "distinct (map item_fold v2_recog_header_string_table)" by code_simp
qed

lemma recog_sizes:
  assumes "apr_ok A" and "recog_values_ok d"
  shows "apt_size_value_parse (apt_size_value_generate A (rh_n_best_list_length d)) = rh_n_best_list_length d"
    "apt_size_value_parse (apt_size_value_generate A (rh_no_input_timeout d)) = rh_no_input_timeout d"
    "apt_size_value_parse (apt_size_value_generate A (rh_recognition_timeout d)) = rh_recognition_timeout d"
    "apt_size_value_parse (apt_size_value_generate A (rh_speech_complete_timeout d)) = rh_speech_complete_timeout d"
    "apt_size_value_parse (apt_size_value_generate A (rh_speech_incomplete_timeout d)) = rh_speech_incomplete_timeout d"
    "apt_size_value_parse (apt_size_value_generate A (rh_dtmf_interdigit_timeout d)) = rh_dtmf_interdigit_timeout d"
    "apt_size_value_parse (apt_size_value_generate A (rh_dtmf_term_timeout d)) = rh_dtmf_term_timeout d"
    "apt_size_value_parse (apt_size_value_generate A (rh_hotword_max_duration d)) = rh_hotword_max_duration d"
    "apt_size_value_parse (apt_size_value_generate A (rh_hotword_min_duration d)) = rh_hotword_min_duration d"
    "apt_size_value_parse (apt_size_value_generate A (rh_dtmf_buffer_time d)) = rh_dtmf_buffer_time d"
    "apt_size_value_parse (apt_size_value_generate A (rh_num_min_consistent_pronunciations d)) = rh_num_min_consistent_pronunciations d"
  using assms(2) by (simp_all add: recog_values_ok_def size_value_roundtrip [OF assms(1)])

text \<open>The fields that are read and written in the same way in both versions.\<close>

lemma recog_plain_values:
  assumes "apr_ok A" and "recog_values_ok d"
  shows "list_all (\<lambda>i. \<exists>v d2. mrcp_recog_header_generate A F i d v0 = Inr (True, v) \<and>
      mrcp_recog_header_parse F i v d1 = (True, d2) \<and> recog_field_duplicate i d v d1 = (True, d2))
    [3, 4, 5, 6, 8, 9, 10, 11, 12, 13, 14, 15, 16, 17, 18, 19, 20, 21, 22, 23, 24, 25, 26, 27, 28, 29, 30, 31, 32, 33, 36, 37, 38, 39, 41, 42, 43, 44]"
  by (simp add: mrcp_recog_header_generate_def mrcp_recog_header_parse_def recog_field_duplicate_def
      recog_sizes [OF assms] str_mem_def byte_def)

lemma recog_plain_value:
  assumes "apr_ok A" and "i < RECOGNIZER_HEADER_COUNT" and "recog_exact i" and "recog_values_ok d"
    and "i \<noteq> RECOGNIZER_HEADER_COMPLETION_CAUSE"
  shows "\<exists>v d2. mrcp_recog_header_generate A F i d v0 = Inr (True, v) \<and>
    mrcp_recog_header_parse F i v d1 = (True, d2) \<and> recog_field_duplicate i d v d1 = (True, d2)"
proof -
  have "list_all (\<lambda>i. recog_exact i \<longrightarrow> i \<noteq> RECOGNIZER_HEADER_COMPLETION_CAUSE \<longrightarrow>
      i \<in> set [3, 4, 5, 6, 8, 9, 10, 11, 12, 13, 14, 15, 16, 17, 18, 19, 20, 21, 22, 23, 24, 25, 26, 27, 28, 29, 30, 31, 32, 33, 36, 37, 38, 39, 41, 42, 43, 44]) [0..<RECOGNIZER_HEADER_COUNT]"
    by code_simp
  then have "i \<in> set [3, 4, 5, 6, 8, 9, 10, 11, 12, 13, 14, 15, 16, 17, 18, 19, 20, 21, 22, 23, 24, 25, 26, 27, 28, 29, 30, 31, 32, 33, 36, 37, 38, 39, 41, 42, 43, 44]"
    using assms(2,3,5) unfolding list_all_iff by simp
  then show ?thesis
    using recog_plain_values [OF assms(1,4), of F v0 d1] unfolding list_all_iff by blast
qed

lemma recog_v1_value_roundtrip:
  assumes "apr_ok A" and "i < RECOGNIZER_HEADER_COUNT" and "recog_exact i" and "recog_values_ok d"
  shows "\<exists>v d2. mrcp_v1_recog_header_generate A F i d v0 = Inr (True, v) \<and>
    mrcp_v1_recog_header_parse F i v d1 = (True, d2) \<and> recog_field_duplicate i d v d1 = (True, d2)"
proof (cases "i = RECOGNIZER_HEADER_COMPLETION_CAUSE")
  case True
  obtain s where "cause_generate v1_recog_completion_cause_string_table RECOGNIZER_COMPLETION_CAUSE_COUNT
      (rh_completion_cause d) v0 = (True, s)" "enum_value s = rh_completion_cause d"
    using cause_generate_parse [of "rh_completion_cause d" RECOGNIZER_COMPLETION_CAUSE_COUNT] assms(4)
    by (auto simp: recog_values_ok_def)
  then show ?thesis
    using True
    by (simp add: mrcp_v1_recog_header_generate_def mrcp_v1_recog_header_parse_def mrcp_recog_header_parse_def
        recog_field_duplicate_def)
next
  case False
  have "i \<noteq> RECOGNIZER_HEADER_CONFIDENCE_THRESHOLD" "i \<noteq> RECOGNIZER_HEADER_SENSITIVITY_LEVEL"
    "i \<noteq> RECOGNIZER_HEADER_SPEED_VS_ACCURACY"
    using assms(3) by (auto simp: recog_exact_def)
  then show ?thesis
    using recog_plain_value [OF assms False, of F v0 d1] False
    by (simp add: mrcp_v1_recog_header_generate_def mrcp_v1_recog_header_parse_def)
qed

interpretation recog_v1_values: header_values "\<lambda>A. recog_v1_vtable A F" recog_exact "\<lambda>_. True" recog_values_ok for F
proof (rule header_values.intro)
  show "string_table (vt_field_table (recog_v1_vtable A F)) (vt_field_count (recog_v1_vtable A F))" for A
    using recog_v1_names by (simp add: recog_v1_vtable_def)
next
  fix A i d v0 d1
  assume "apr_ok A" "i < vt_field_count (recog_v1_vtable A F)" "recog_exact i" "recog_values_ok d"
  then show "\<exists>v d2. vt_generate (recog_v1_vtable A F) i d v0 = Inr (True, v) \<and> vt_parse (recog_v1_vtable A F) i v d1 = (True, d2) \<and>
      vt_duplicate (recog_v1_vtable A F) i (Some d) v (Some d1) = (True, Some d2)"
    using recog_v1_value_roundtrip [of A i d F v0 d1]
    by (auto simp: recog_v1_vtable_def mrcp_recog_header_duplicate_def)
qed (rule TrueI)

lemma recog_v2_value_roundtrip:
  assumes "apr_ok A" and "i < RECOGNIZER_HEADER_COUNT" and "recog_exact i" and "recog_values_ok d"
  shows "\<exists>v d2. mrcp_v2_recog_header_generate A F i d v0 = Inr (True, v) \<and>
    mrcp_v2_recog_header_parse F i v d1 = (True, d2) \<and> recog_field_duplicate i d v d1 = (True, d2)"
proof (cases "i = RECOGNIZER_HEADER_COMPLETION_CAUSE")
  case True
  obtain s where "cause_generate v2_recog_completion_cause_string_table RECOGNIZER_COMPLETION_CAUSE_COUNT
      (rh_completion_cause d) v0 = (True, s)" "enum_value s = rh_completion_cause d"
    using cause_generate_parse [of "rh_completion_cause d" RECOGNIZER_COMPLETION_CAUSE_COUNT] assms(4)
    by (auto simp: recog_values_ok_def)
  then show ?thesis
    using True
    by (simp add: mrcp_v2_recog_header_generate_def mrcp_v2_recog_header_parse_def mrcp_recog_header_parse_def
        recog_field_duplicate_def)
next
  case False
  have "i \<noteq> RECOGNIZER_HEADER_CONFIDENCE_THRESHOLD" "i \<noteq> RECOGNIZER_HEADER_SENSITIVITY_LEVEL"
    "i \<noteq> RECOGNIZER_HEADER_SPEED_VS_ACCURACY"
    using assms(3) by (auto simp: recog_exact_def)
  then show ?thesis
    using recog_plain_value [OF assms False, of F v0 d1] False
    by (simp add: mrcp_v2_recog_header_generate_def mrcp_v2_recog_header_parse_def)
qed

interpretation recog_v2_values: header_values "\<lambda>A. recog_v2_vtable A F" recog_exact "\<lambda>_. True" recog_values_ok for F
proof (rule header_values.intro)
  show "string_table (vt_field_table (recog_v2_vtable A F)) (vt_field_count (recog_v2_vtable A F))" for A
    using recog_v2_names by (simp add: recog_v2_vtable_def)
next
  fix A i d v0 d1
  assume "apr_ok A" "i < vt_field_count (recog_v2_vtable A F)" "recog_exact i" "recog_values_ok d"
  then show "\<exists>v d2. vt_generate (recog_v2_vtable A F) i d v0 = Inr (True, v) \<and> vt_parse (recog_v2_vtable A F) i v d1 = (True, d2) \<and>
      vt_duplicate (recog_v2_vtable A F) i (Some d) v (Some d1) = (True, Some d2)"
    using recog_v2_value_roundtrip [of A i d F v0 d1]
    by (auto simp: recog_v2_vtable_def mrcp_recog_header_duplicate_def)
qed (rule TrueI)

end
