(* ===== verification/RecorderResource.thy ===== *)
theory RecorderResource
  imports ResourceValue
begin

text \<open>
  The recorder: its header (\<open>mrcp_recorder_header.c\<close>) and its methods and events
  (\<open>mrcp_recorder_resource.c\<close>).
\<close>

section \<open>Header\<close>

abbreviation (input) RECORDER_HEADER_SENSITIVITY_LEVEL :: nat where
  "RECORDER_HEADER_SENSITIVITY_LEVEL \<equiv> 0"
abbreviation (input) RECORDER_HEADER_NO_INPUT_TIMEOUT :: nat where
  "RECORDER_HEADER_NO_INPUT_TIMEOUT \<equiv> 1"
abbreviation (input) RECORDER_HEADER_COMPLETION_CAUSE :: nat where
  "RECORDER_HEADER_COMPLETION_CAUSE \<equiv> 2"
abbreviation (input) RECORDER_HEADER_COMPLETION_REASON :: nat where
  "RECORDER_HEADER_COMPLETION_REASON \<equiv> 3"
abbreviation (input) RECORDER_HEADER_FAILED_URI :: nat where "RECORDER_HEADER_FAILED_URI \<equiv> 4"
abbreviation (input) RECORDER_HEADER_FAILED_URI_CAUSE :: nat where
  "RECORDER_HEADER_FAILED_URI_CAUSE \<equiv> 5"
abbreviation (input) RECORDER_HEADER_RECORD_URI :: nat where "RECORDER_HEADER_RECORD_URI \<equiv> 6"
abbreviation (input) RECORDER_HEADER_MEDIA_TYPE :: nat where "RECORDER_HEADER_MEDIA_TYPE \<equiv> 7"
abbreviation (input) RECORDER_HEADER_MAX_TIME :: nat where "RECORDER_HEADER_MAX_TIME \<equiv> 8"
abbreviation (input) RECORDER_HEADER_TRIM_LENGTH :: nat where "RECORDER_HEADER_TRIM_LENGTH \<equiv> 9"
abbreviation (input) RECORDER_HEADER_FINAL_SILENCE :: nat where "RECORDER_HEADER_FINAL_SILENCE \<equiv> 10"
abbreviation (input) RECORDER_HEADER_CAPTURE_ON_SPEECH :: nat where
  "RECORDER_HEADER_CAPTURE_ON_SPEECH \<equiv> 11"
abbreviation (input) RECORDER_HEADER_VER_BUFFER_UTTERANCE :: nat where
  "RECORDER_HEADER_VER_BUFFER_UTTERANCE \<equiv> 12"
abbreviation (input) RECORDER_HEADER_START_INPUT_TIMERS :: nat where
  "RECORDER_HEADER_START_INPUT_TIMERS \<equiv> 13"
abbreviation (input) RECORDER_HEADER_NEW_AUDIO_CHANNEL :: nat where
  "RECORDER_HEADER_NEW_AUDIO_CHANNEL \<equiv> 14"
abbreviation (input) RECORDER_HEADER_COUNT :: nat where "RECORDER_HEADER_COUNT \<equiv> 15"

abbreviation (input) RECORDER_COMPLETION_CAUSE_COUNT :: nat where "RECORDER_COMPLETION_CAUSE_COUNT \<equiv> 5"

definition recorder_header_string_table :: "apt_str_table_item list" where
  "recorder_header_string_table =
     [table_item ''Sensitivity-Level'' 17 3,
      table_item ''No-Input-Timeout'' 16 2,
      table_item ''Completion-Cause'' 16 16,
      table_item ''Completion-Reason'' 17 11,
      table_item ''Failed-Uri'' 10 10,
      table_item ''Failed-Uri-Cause'' 16 16,
      table_item ''Record-Uri'' 10 0,
      table_item ''Media-Type'' 10 2,
      table_item ''Max-Time'' 8 2,
      table_item ''Trim-Length'' 11 0,
      table_item ''Final-Silence'' 13 1,
      table_item ''Capture-On-Speech'' 17 2,
      table_item ''Ver-Buffer-Utterance'' 20 0,
      table_item ''Start-Input-Timers'' 18 1,
      table_item ''New-Audio-Channel'' 17 2]"

definition recorder_completion_cause_string_table :: "apt_str_table_item list" where
  "recorder_completion_cause_string_table =
     [table_item ''success-silence'' 15 8,
      table_item ''success-maxtime'' 15 8,
      table_item ''no-input-timeout'' 16 0,
      table_item ''uri-failure'' 11 0,
      table_item ''error'' 5 0]"

record mrcp_recorder_header =
  rc_sensitivity_level :: c_float
  rc_no_input_timeout :: "64 word"
  rc_completion_cause :: nat
  rc_completion_reason :: apt_str
  rc_failed_uri :: apt_str
  rc_failed_uri_cause :: apt_str
  rc_record_uri :: apt_str
  rc_media_type :: apt_str
  rc_max_time :: "64 word"
  rc_trim_length :: "64 word"
  rc_final_silence :: "64 word"
  rc_capture_on_speech :: bool
  rc_ver_buffer_utterance :: bool
  rc_start_input_timers :: bool
  rc_new_audio_channel :: bool

definition mrcp_recorder_header_init :: mrcp_recorder_header where
  "mrcp_recorder_header_init =
     \<lparr>rc_sensitivity_level = 0,
      rc_no_input_timeout = 0,
      rc_completion_cause = RECORDER_COMPLETION_CAUSE_COUNT,
      rc_completion_reason = apt_string_reset,
      rc_failed_uri = apt_string_reset,
      rc_failed_uri_cause = apt_string_reset,
      rc_record_uri = apt_string_reset,
      rc_media_type = apt_string_reset,
      rc_max_time = 0,
      rc_trim_length = 0,
      rc_final_silence = 0,
      rc_capture_on_speech = False,
      rc_ver_buffer_utterance = False,
      rc_start_input_timers = False,
      rc_new_audio_channel = False\<rparr>"

definition mrcp_recorder_header_parse ::
  "c_flt \<Rightarrow> nat \<Rightarrow> apt_str \<Rightarrow> mrcp_recorder_header \<Rightarrow> bool \<times> mrcp_recorder_header" where
  "mrcp_recorder_header_parse F i v h =
     (if i = RECORDER_HEADER_SENSITIVITY_LEVEL
      then (True, h\<lparr>rc_sensitivity_level := apt_float_value_parse F v\<rparr>)
      else if i = RECORDER_HEADER_NO_INPUT_TIMEOUT
      then (True, h\<lparr>rc_no_input_timeout := apt_size_value_parse v\<rparr>)
      else if i = RECORDER_HEADER_COMPLETION_CAUSE
      then (True, h\<lparr>rc_completion_cause := enum_value v\<rparr>)
      else if i = RECORDER_HEADER_COMPLETION_REASON then (True, h\<lparr>rc_completion_reason := v\<rparr>)
      else if i = RECORDER_HEADER_FAILED_URI then (True, h\<lparr>rc_failed_uri := v\<rparr>)
      else if i = RECORDER_HEADER_FAILED_URI_CAUSE then (True, h\<lparr>rc_failed_uri_cause := v\<rparr>)
      else if i = RECORDER_HEADER_RECORD_URI then (True, h\<lparr>rc_record_uri := v\<rparr>)
      else if i = RECORDER_HEADER_MEDIA_TYPE then (True, h\<lparr>rc_media_type := v\<rparr>)
      else if i = RECORDER_HEADER_MAX_TIME then (True, h\<lparr>rc_max_time := apt_size_value_parse v\<rparr>)
      else if i = RECORDER_HEADER_TRIM_LENGTH
      then (True, h\<lparr>rc_trim_length := apt_size_value_parse v\<rparr>)
      else if i = RECORDER_HEADER_FINAL_SILENCE
      then (True, h\<lparr>rc_final_silence := apt_size_value_parse v\<rparr>)
      else if i = RECORDER_HEADER_CAPTURE_ON_SPEECH
      then (True, h\<lparr>rc_capture_on_speech := bool_value v (rc_capture_on_speech h)\<rparr>)
      else if i = RECORDER_HEADER_VER_BUFFER_UTTERANCE
      then (True, h\<lparr>rc_ver_buffer_utterance := bool_value v (rc_ver_buffer_utterance h)\<rparr>)
      else if i = RECORDER_HEADER_START_INPUT_TIMERS
      then (True, h\<lparr>rc_start_input_timers := bool_value v (rc_start_input_timers h)\<rparr>)
      else if i = RECORDER_HEADER_NEW_AUDIO_CHANNEL
      then (True, h\<lparr>rc_new_audio_channel := bool_value v (rc_new_audio_channel h)\<rparr>)
      else (False, h))"

definition mrcp_recorder_header_generate ::
  "apr \<Rightarrow> c_flt \<Rightarrow> nat \<Rightarrow> mrcp_recorder_header \<Rightarrow> apt_str \<Rightarrow> fault + bool \<times> apt_str" where
  "mrcp_recorder_header_generate A F i h v =
     (if i = RECORDER_HEADER_SENSITIVITY_LEVEL then float_field F (rc_sensitivity_level h)
      else if i = RECORDER_HEADER_NO_INPUT_TIMEOUT
      then Inr (True, apt_size_value_generate A (rc_no_input_timeout h))
      else if i = RECORDER_HEADER_COMPLETION_CAUSE
      then Inr (True, snd (cause_generate recorder_completion_cause_string_table RECORDER_COMPLETION_CAUSE_COUNT
        (rc_completion_cause h) v))
      else if i = RECORDER_HEADER_COMPLETION_REASON then Inr (True, rc_completion_reason h)
      else if i = RECORDER_HEADER_FAILED_URI then Inr (True, rc_failed_uri h)
      else if i = RECORDER_HEADER_FAILED_URI_CAUSE then Inr (True, rc_failed_uri_cause h)
      else if i = RECORDER_HEADER_RECORD_URI then Inr (True, rc_record_uri h)
      else if i = RECORDER_HEADER_MEDIA_TYPE then Inr (True, rc_media_type h)
      else if i = RECORDER_HEADER_MAX_TIME then Inr (True, apt_size_value_generate A (rc_max_time h))
      else if i = RECORDER_HEADER_TRIM_LENGTH then Inr (True, apt_size_value_generate A (rc_trim_length h))
      else if i = RECORDER_HEADER_FINAL_SILENCE then Inr (True, apt_size_value_generate A (rc_final_silence h))
      else if i = RECORDER_HEADER_CAPTURE_ON_SPEECH
      then Inr (True, apt_boolean_value_generate (rc_capture_on_speech h))
      else if i = RECORDER_HEADER_VER_BUFFER_UTTERANCE
      then Inr (True, apt_boolean_value_generate (rc_ver_buffer_utterance h))
      else if i = RECORDER_HEADER_START_INPUT_TIMERS
      then Inr (True, apt_boolean_value_generate (rc_start_input_timers h))
      else if i = RECORDER_HEADER_NEW_AUDIO_CHANNEL
      then Inr (True, apt_boolean_value_generate (rc_new_audio_channel h))
      else Inr (True, v))"

definition recorder_field_duplicate ::
  "nat \<Rightarrow> mrcp_recorder_header \<Rightarrow> apt_str \<Rightarrow> mrcp_recorder_header \<Rightarrow> bool \<times> mrcp_recorder_header" where
  "recorder_field_duplicate i src v h =
     (if i = RECORDER_HEADER_SENSITIVITY_LEVEL
      then (True, h\<lparr>rc_sensitivity_level := rc_sensitivity_level src\<rparr>)
      else if i = RECORDER_HEADER_NO_INPUT_TIMEOUT
      then (True, h\<lparr>rc_no_input_timeout := rc_no_input_timeout src\<rparr>)
      else if i = RECORDER_HEADER_COMPLETION_CAUSE
      then (True, h\<lparr>rc_completion_cause := rc_completion_cause src\<rparr>)
      else if i = RECORDER_HEADER_COMPLETION_REASON then (True, h\<lparr>rc_completion_reason := v\<rparr>)
      else if i = RECORDER_HEADER_FAILED_URI then (True, h\<lparr>rc_failed_uri := v\<rparr>)
      else if i = RECORDER_HEADER_FAILED_URI_CAUSE then (True, h\<lparr>rc_failed_uri_cause := v\<rparr>)
      else if i = RECORDER_HEADER_RECORD_URI then (True, h\<lparr>rc_record_uri := v\<rparr>)
      else if i = RECORDER_HEADER_MEDIA_TYPE then (True, h\<lparr>rc_media_type := v\<rparr>)
      else if i = RECORDER_HEADER_MAX_TIME then (True, h\<lparr>rc_max_time := rc_max_time src\<rparr>)
      else if i = RECORDER_HEADER_TRIM_LENGTH then (True, h\<lparr>rc_trim_length := rc_trim_length src\<rparr>)
      else if i = RECORDER_HEADER_FINAL_SILENCE
      then (True, h\<lparr>rc_final_silence := rc_final_silence src\<rparr>)
      else if i = RECORDER_HEADER_CAPTURE_ON_SPEECH
      then (True, h\<lparr>rc_capture_on_speech := rc_capture_on_speech src\<rparr>)
      else if i = RECORDER_HEADER_VER_BUFFER_UTTERANCE
      then (True, h\<lparr>rc_ver_buffer_utterance := rc_ver_buffer_utterance src\<rparr>)
      else if i = RECORDER_HEADER_START_INPUT_TIMERS
      then (True, h\<lparr>rc_start_input_timers := rc_start_input_timers src\<rparr>)
      else if i = RECORDER_HEADER_NEW_AUDIO_CHANNEL
      then (True, h\<lparr>rc_new_audio_channel := rc_new_audio_channel src\<rparr>)
      else (False, h))"

definition mrcp_recorder_header_duplicate ::
  "nat \<Rightarrow> mrcp_recorder_header option \<Rightarrow> apt_str \<Rightarrow> mrcp_recorder_header option \<Rightarrow> bool \<times> mrcp_recorder_header option" where
  "mrcp_recorder_header_duplicate i source v target =
     (case (target, source) of
        (Some h, Some src) \<Rightarrow> map_prod id Some (recorder_field_duplicate i src v h)
      | _ \<Rightarrow> (False, target))"

definition mrcp_recorder_header_vtable :: "apr \<Rightarrow> c_flt \<Rightarrow> mrcp_recorder_header header_vtable" where
  "mrcp_recorder_header_vtable A F =
     \<lparr>vt_allocate = mrcp_recorder_header_init, vt_parse = mrcp_recorder_header_parse F,
      vt_generate = mrcp_recorder_header_generate A F, vt_duplicate = mrcp_recorder_header_duplicate,
      vt_field_table = recorder_header_string_table, vt_field_count = RECORDER_HEADER_COUNT\<rparr>"

definition mrcp_recorder_header_vtable_get :: "apr \<Rightarrow> c_flt \<Rightarrow> mrcp_version \<Rightarrow> mrcp_recorder_header header_vtable" where
  "mrcp_recorder_header_vtable_get A F version = mrcp_recorder_header_vtable A F"

definition mrcp_recorder_completion_cause_get :: "nat \<Rightarrow> mrcp_version \<Rightarrow> apt_str option" where
  "mrcp_recorder_completion_cause_get completion_cause version =
     apt_string_table_str_get recorder_completion_cause_string_table RECORDER_COMPLETION_CAUSE_COUNT completion_cause"

section \<open>Resource\<close>

abbreviation (input) RECORDER_SET_PARAMS :: nat where "RECORDER_SET_PARAMS \<equiv> 0"
abbreviation (input) RECORDER_GET_PARAMS :: nat where "RECORDER_GET_PARAMS \<equiv> 1"
abbreviation (input) RECORDER_RECORD :: nat where "RECORDER_RECORD \<equiv> 2"
abbreviation (input) RECORDER_STOP :: nat where "RECORDER_STOP \<equiv> 3"
abbreviation (input) RECORDER_START_INPUT_TIMERS :: nat where "RECORDER_START_INPUT_TIMERS \<equiv> 4"
abbreviation (input) RECORDER_METHOD_COUNT :: nat where "RECORDER_METHOD_COUNT \<equiv> 5"

abbreviation (input) RECORDER_START_OF_INPUT :: nat where "RECORDER_START_OF_INPUT \<equiv> 0"
abbreviation (input) RECORDER_RECORD_COMPLETE :: nat where "RECORDER_RECORD_COMPLETE \<equiv> 1"
abbreviation (input) RECORDER_EVENT_COUNT :: nat where "RECORDER_EVENT_COUNT \<equiv> 2"

definition recorder_method_string_table :: "apt_str_table_item list" where
  "recorder_method_string_table =
     [table_item ''SET-PARAMS'' 10 10,
      table_item ''GET-PARAMS'' 10 0,
      table_item ''RECORD'' 6 0,
      table_item ''STOP'' 4 2,
      table_item ''START-INPUT-TIMERS'' 18 2]"

definition recorder_event_string_table :: "apt_str_table_item list" where
  "recorder_event_string_table =
     [table_item ''START-OF-INPUT'' 14 0,
      table_item ''RECORD-COMPLETE'' 15 0]"

definition recorder_method_string_table_get :: "mrcp_version \<Rightarrow> apt_str_table_item list" where
  "recorder_method_string_table_get version = recorder_method_string_table"

definition recorder_event_string_table_get :: "mrcp_version \<Rightarrow> apt_str_table_item list" where
  "recorder_event_string_table_get version = recorder_event_string_table"

definition mrcp_recorder_resource_create :: "apr \<Rightarrow> c_flt \<Rightarrow> mrcp_recorder_header mrcp_resource" where
  "mrcp_recorder_resource_create A F =
     mrcp_resource_create\<lparr>res_method_count := RECORDER_METHOD_COUNT, res_event_count := RECORDER_EVENT_COUNT,
       res_get_method_str_table := Some recorder_method_string_table_get,
       res_get_event_str_table := Some recorder_event_string_table_get,
       res_get_resource_header_vtable := Some (mrcp_recorder_header_vtable_get A F)\<rparr>"

section \<open>The values of the header\<close>

text \<open>Numbers are read back as signed longs; the completion cause has a name.\<close>

definition recorder_values_ok :: "mrcp_recorder_header \<Rightarrow> bool" where
  "recorder_values_ok h \<longleftrightarrow>
     list_all (\<lambda>n. uint n < 2 ^ 63)
       [rc_no_input_timeout h, rc_max_time h, rc_trim_length h, rc_final_silence h] \<and>
     rc_completion_cause h < RECORDER_COMPLETION_CAUSE_COUNT"

definition recorder_exact :: "nat \<Rightarrow> bool" where
  "recorder_exact i \<longleftrightarrow> i \<notin> set [RECORDER_HEADER_SENSITIVITY_LEVEL]"

lemma recorder_names: "string_table recorder_header_string_table RECORDER_HEADER_COUNT"
proof
  show "length recorder_header_string_table = RECORDER_HEADER_COUNT" by (simp add: recorder_header_string_table_def)
  show "list_all item_ok recorder_header_string_table" by code_simp
  show "distinct (map item_fold recorder_header_string_table)" by code_simp
qed

lemma recorder_sizes:
  assumes "apr_ok A" and "recorder_values_ok d"
  shows "apt_size_value_parse (apt_size_value_generate A (rc_no_input_timeout d)) = rc_no_input_timeout d"
    "apt_size_value_parse (apt_size_value_generate A (rc_max_time d)) = rc_max_time d"
    "apt_size_value_parse (apt_size_value_generate A (rc_trim_length d)) = rc_trim_length d"
    "apt_size_value_parse (apt_size_value_generate A (rc_final_silence d)) = rc_final_silence d"
  using assms(2) by (simp_all add: recorder_values_ok_def size_value_roundtrip [OF assms(1)])

lemma recorder_plain_values:
  assumes "apr_ok A" and "recorder_values_ok d"
  shows "list_all (\<lambda>i. \<exists>v d2. mrcp_recorder_header_generate A F i d v0 = Inr (True, v) \<and>
      mrcp_recorder_header_parse F i v d1 = (True, d2) \<and> recorder_field_duplicate i d v d1 = (True, d2))
    [1, 3, 4, 5, 6, 7, 8, 9, 10, 11, 12, 13, 14]"
  by (simp add: mrcp_recorder_header_generate_def mrcp_recorder_header_parse_def recorder_field_duplicate_def recorder_sizes [OF assms])

lemma recorder_value_roundtrip:
  assumes "apr_ok A" and "i < RECORDER_HEADER_COUNT" and "recorder_exact i" and "recorder_values_ok d"
  shows "\<exists>v d2. mrcp_recorder_header_generate A F i d v0 = Inr (True, v) \<and>
    mrcp_recorder_header_parse F i v d1 = (True, d2) \<and> recorder_field_duplicate i d v d1 = (True, d2)"
proof (cases "i = RECORDER_HEADER_COMPLETION_CAUSE")
  case True
  obtain s where "cause_generate recorder_completion_cause_string_table RECORDER_COMPLETION_CAUSE_COUNT
      (rc_completion_cause d) v0 = (True, s)" "enum_value s = rc_completion_cause d"
    using cause_generate_parse [of "rc_completion_cause d" RECORDER_COMPLETION_CAUSE_COUNT] assms(4)
    by (auto simp: recorder_values_ok_def)
  then show ?thesis
    using True by (simp add: mrcp_recorder_header_generate_def mrcp_recorder_header_parse_def recorder_field_duplicate_def)
next
  case False
  have "list_all (\<lambda>i. recorder_exact i \<longrightarrow> i \<noteq> RECORDER_HEADER_COMPLETION_CAUSE \<longrightarrow>
      i \<in> set [1, 3, 4, 5, 6, 7, 8, 9, 10, 11, 12, 13, 14]) [0..<RECORDER_HEADER_COUNT]"
    by code_simp
  then have "i \<in> set [1, 3, 4, 5, 6, 7, 8, 9, 10, 11, 12, 13, 14]"
    using assms(2,3) False unfolding list_all_iff by simp
  then show ?thesis
    using recorder_plain_values [OF assms(1,4), of F v0 d1] unfolding list_all_iff by blast
qed

interpretation recorder_values: header_values "\<lambda>A. mrcp_recorder_header_vtable A F" recorder_exact "\<lambda>_. True" recorder_values_ok for F
proof (rule header_values.intro)
  show "string_table (vt_field_table (mrcp_recorder_header_vtable A F)) (vt_field_count (mrcp_recorder_header_vtable A F))" for A
    using recorder_names by (simp add: mrcp_recorder_header_vtable_def)
next
  fix A i d v0 d1
  assume "apr_ok A" "i < vt_field_count (mrcp_recorder_header_vtable A F)" "recorder_exact i" "recorder_values_ok d"
  then show "\<exists>v d2. vt_generate (mrcp_recorder_header_vtable A F) i d v0 = Inr (True, v) \<and> vt_parse (mrcp_recorder_header_vtable A F) i v d1 = (True, d2) \<and>
      vt_duplicate (mrcp_recorder_header_vtable A F) i (Some d) v (Some d1) = (True, Some d2)"
    using recorder_value_roundtrip [of A i d F v0 d1]
    by (auto simp: mrcp_recorder_header_vtable_def mrcp_recorder_header_duplicate_def)
qed (rule TrueI)

end
