(* ===== verification/VerifierResource.thy ===== *)
theory VerifierResource
  imports ResourceValue
begin

text \<open>
  The verifier: its header (\<open>mrcp_verifier_header.c\<close>) and its methods and events
  (\<open>mrcp_verifier_resource.c\<close>).
\<close>

section \<open>Header\<close>

abbreviation (input) VERIFIER_HEADER_REPOSITORY_URI :: nat where "VERIFIER_HEADER_REPOSITORY_URI \<equiv> 0"
abbreviation (input) VERIFIER_HEADER_VOICEPRINT_IDENTIFIER :: nat where
  "VERIFIER_HEADER_VOICEPRINT_IDENTIFIER \<equiv> 1"
abbreviation (input) VERIFIER_HEADER_VERIFICATION_MODE :: nat where
  "VERIFIER_HEADER_VERIFICATION_MODE \<equiv> 2"
abbreviation (input) VERIFIER_HEADER_ADAPT_MODEL :: nat where "VERIFIER_HEADER_ADAPT_MODEL \<equiv> 3"
abbreviation (input) VERIFIER_HEADER_ABORT_MODEL :: nat where "VERIFIER_HEADER_ABORT_MODEL \<equiv> 4"
abbreviation (input) VERIFIER_HEADER_MIN_VERIFICATION_SCORE :: nat where
  "VERIFIER_HEADER_MIN_VERIFICATION_SCORE \<equiv> 5"
abbreviation (input) VERIFIER_HEADER_NUM_MIN_VERIFICATION_PHRASES :: nat where
  "VERIFIER_HEADER_NUM_MIN_VERIFICATION_PHRASES \<equiv> 6"
abbreviation (input) VERIFIER_HEADER_NUM_MAX_VERIFICATION_PHRASES :: nat where
  "VERIFIER_HEADER_NUM_MAX_VERIFICATION_PHRASES \<equiv> 7"
abbreviation (input) VERIFIER_HEADER_NO_INPUT_TIMEOUT :: nat where
  "VERIFIER_HEADER_NO_INPUT_TIMEOUT \<equiv> 8"
abbreviation (input) VERIFIER_HEADER_SAVE_WAVEFORM :: nat where "VERIFIER_HEADER_SAVE_WAVEFORM \<equiv> 9"
abbreviation (input) VERIFIER_HEADER_MEDIA_TYPE :: nat where "VERIFIER_HEADER_MEDIA_TYPE \<equiv> 10"
abbreviation (input) VERIFIER_HEADER_WAVEFORM_URI :: nat where "VERIFIER_HEADER_WAVEFORM_URI \<equiv> 11"
abbreviation (input) VERIFIER_HEADER_VOICEPRINT_EXISTS :: nat where
  "VERIFIER_HEADER_VOICEPRINT_EXISTS \<equiv> 12"
abbreviation (input) VERIFIER_HEADER_VER_BUFFER_UTTERANCE :: nat where
  "VERIFIER_HEADER_VER_BUFFER_UTTERANCE \<equiv> 13"
abbreviation (input) VERIFIER_HEADER_INPUT_WAVEFORM_URI :: nat where
  "VERIFIER_HEADER_INPUT_WAVEFORM_URI \<equiv> 14"
abbreviation (input) VERIFIER_HEADER_COMPLETION_CAUSE :: nat where
  "VERIFIER_HEADER_COMPLETION_CAUSE \<equiv> 15"
abbreviation (input) VERIFIER_HEADER_COMPLETION_REASON :: nat where
  "VERIFIER_HEADER_COMPLETION_REASON \<equiv> 16"
abbreviation (input) VERIFIER_HEADER_SPEECH_COMPLETE_TIMEOUT :: nat where
  "VERIFIER_HEADER_SPEECH_COMPLETE_TIMEOUT \<equiv> 17"
abbreviation (input) VERIFIER_HEADER_NEW_AUDIO_CHANNEL :: nat where
  "VERIFIER_HEADER_NEW_AUDIO_CHANNEL \<equiv> 18"
abbreviation (input) VERIFIER_HEADER_ABORT_VERIFICATION :: nat where
  "VERIFIER_HEADER_ABORT_VERIFICATION \<equiv> 19"
abbreviation (input) VERIFIER_HEADER_START_INPUT_TIMERS :: nat where
  "VERIFIER_HEADER_START_INPUT_TIMERS \<equiv> 20"
abbreviation (input) VERIFIER_HEADER_COUNT :: nat where "VERIFIER_HEADER_COUNT \<equiv> 21"

abbreviation (input) VERIFIER_COMPLETION_CAUSE_COUNT :: nat where "VERIFIER_COMPLETION_CAUSE_COUNT \<equiv> 12"

definition verifier_header_string_table :: "apt_str_table_item list" where
  "verifier_header_string_table =
     [table_item ''Repository-URI'' 14 0,
      table_item ''Voiceprint-Identifier'' 21 12,
      table_item ''Verification-Mode'' 17 6,
      table_item ''Adapt-Model'' 11 1,
      table_item ''Abort-Model'' 11 11,
      table_item ''Min-Verification-Score'' 22 1,
      table_item ''Num-Min-Verification-Phrases'' 28 6,
      table_item ''Num-Max-Verification-Phrases'' 28 5,
      table_item ''No-Input-Timeout'' 16 2,
      table_item ''Save-Waveform'' 13 4,
      table_item ''Media-Type'' 10 2,
      table_item ''Waveform-URI'' 12 0,
      table_item ''Voiceprint-Exists'' 17 11,
      table_item ''Ver-Buffer-Utterance'' 20 4,
      table_item ''Input-Waveform-URI'' 18 0,
      table_item ''Completion-Cause'' 16 11,
      table_item ''Completion-Reason'' 17 15,
      table_item ''Speech-Complete-Timeout'' 23 1,
      table_item ''New-Audio-Channel'' 17 2,
      table_item ''Abort-Verification'' 18 6,
      table_item ''Start-Input-Timers'' 18 1]"

definition verifier_completion_cause_string_table :: "apt_str_table_item list" where
  "verifier_completion_cause_string_table =
     [table_item ''success'' 7 2,
      table_item ''error'' 5 0,
      table_item ''no-input-timeout'' 16 0,
      table_item ''too-much-speech-timeout'' 23 0,
      table_item ''speech-too-early'' 16 9,
      table_item ''buffer-empty'' 12 0,
      table_item ''out-of-sequence'' 15 0,
      table_item ''repository-uri-failure'' 22 15,
      table_item ''repository-uri-missing'' 22 15,
      table_item ''voiceprint-id-missing'' 21 14,
      table_item ''voiceprint-id-not-exist'' 23 14,
      table_item ''speech-not-usable'' 17 7]"

record mrcp_verifier_header =
  vf_repository_uri :: apt_str
  vf_voiceprint_identifier :: apt_str
  vf_verification_mode :: apt_str
  vf_adapt_model :: bool
  vf_abort_model :: bool
  vf_min_verification_score :: c_float
  vf_num_min_verification_phrases :: "64 word"
  vf_num_max_verification_phrases :: "64 word"
  vf_no_input_timeout :: "64 word"
  vf_save_waveform :: bool
  vf_media_type :: apt_str
  vf_waveform_uri :: apt_str
  vf_voiceprint_exists :: bool
  vf_ver_buffer_utterance :: bool
  vf_input_waveform_uri :: apt_str
  vf_completion_cause :: nat
  vf_completion_reason :: apt_str
  vf_speech_complete_timeout :: "64 word"
  vf_new_audio_channel :: bool
  vf_abort_verification :: bool
  vf_start_input_timers :: bool

definition mrcp_verifier_header_init :: mrcp_verifier_header where
  "mrcp_verifier_header_init =
     \<lparr>vf_repository_uri = apt_string_reset,
      vf_voiceprint_identifier = apt_string_reset,
      vf_verification_mode = apt_string_reset,
      vf_adapt_model = False,
      vf_abort_model = False,
      vf_min_verification_score = 0,
      vf_num_min_verification_phrases = 0,
      vf_num_max_verification_phrases = 0,
      vf_no_input_timeout = 0,
      vf_save_waveform = False,
      vf_media_type = apt_string_reset,
      vf_waveform_uri = apt_string_reset,
      vf_voiceprint_exists = False,
      vf_ver_buffer_utterance = False,
      vf_input_waveform_uri = apt_string_reset,
      vf_completion_cause = VERIFIER_COMPLETION_CAUSE_COUNT,
      vf_completion_reason = apt_string_reset,
      vf_speech_complete_timeout = 0,
      vf_new_audio_channel = False,
      vf_abort_verification = False,
      vf_start_input_timers = False\<rparr>"

definition mrcp_verifier_header_parse ::
  "c_flt \<Rightarrow> nat \<Rightarrow> apt_str \<Rightarrow> mrcp_verifier_header \<Rightarrow> bool \<times> mrcp_verifier_header" where
  "mrcp_verifier_header_parse F i v h =
     (if i = VERIFIER_HEADER_REPOSITORY_URI then (True, h\<lparr>vf_repository_uri := v\<rparr>)
      else if i = VERIFIER_HEADER_VOICEPRINT_IDENTIFIER
      then (True, h\<lparr>vf_voiceprint_identifier := v\<rparr>)
      else if i = VERIFIER_HEADER_VERIFICATION_MODE then (True, h\<lparr>vf_verification_mode := v\<rparr>)
      else if i = VERIFIER_HEADER_ADAPT_MODEL
      then (True, h\<lparr>vf_adapt_model := bool_value v (vf_adapt_model h)\<rparr>)
      else if i = VERIFIER_HEADER_ABORT_MODEL
      then (True, h\<lparr>vf_abort_model := bool_value v (vf_abort_model h)\<rparr>)
      else if i = VERIFIER_HEADER_MIN_VERIFICATION_SCORE
      then (True, h\<lparr>vf_min_verification_score := apt_float_value_parse F v\<rparr>)
      else if i = VERIFIER_HEADER_NUM_MIN_VERIFICATION_PHRASES
      then (True, h\<lparr>vf_num_min_verification_phrases := apt_size_value_parse v\<rparr>)
      else if i = VERIFIER_HEADER_NUM_MAX_VERIFICATION_PHRASES
      then (True, h\<lparr>vf_num_max_verification_phrases := apt_size_value_parse v\<rparr>)
      else if i = VERIFIER_HEADER_NO_INPUT_TIMEOUT
      then (True, h\<lparr>vf_no_input_timeout := apt_size_value_parse v\<rparr>)
      else if i = VERIFIER_HEADER_SAVE_WAVEFORM
      then (True, h\<lparr>vf_save_waveform := bool_value v (vf_save_waveform h)\<rparr>)
      else if i = VERIFIER_HEADER_MEDIA_TYPE then (True, h\<lparr>vf_media_type := v\<rparr>)
      else if i = VERIFIER_HEADER_WAVEFORM_URI then (True, h\<lparr>vf_waveform_uri := v\<rparr>)
      else if i = VERIFIER_HEADER_VOICEPRINT_EXISTS
      then (True, h\<lparr>vf_voiceprint_exists := bool_value v (vf_voiceprint_exists h)\<rparr>)
      else if i = VERIFIER_HEADER_VER_BUFFER_UTTERANCE
      then (True, h\<lparr>vf_ver_buffer_utterance := bool_value v (vf_ver_buffer_utterance h)\<rparr>)
      else if i = VERIFIER_HEADER_INPUT_WAVEFORM_URI then (True, h\<lparr>vf_input_waveform_uri := v\<rparr>)
      else if i = VERIFIER_HEADER_COMPLETION_CAUSE
      then (True, h\<lparr>vf_completion_cause := enum_value v\<rparr>)
      else if i = VERIFIER_HEADER_COMPLETION_REASON then (True, h\<lparr>vf_completion_reason := v\<rparr>)
      else if i = VERIFIER_HEADER_SPEECH_COMPLETE_TIMEOUT
      then (True, h\<lparr>vf_speech_complete_timeout := apt_size_value_parse v\<rparr>)
      else if i = VERIFIER_HEADER_NEW_AUDIO_CHANNEL
      then (True, h\<lparr>vf_new_audio_channel := bool_value v (vf_new_audio_channel h)\<rparr>)
      else if i = VERIFIER_HEADER_ABORT_VERIFICATION
      then (True, h\<lparr>vf_abort_verification := bool_value v (vf_abort_verification h)\<rparr>)
      else if i = VERIFIER_HEADER_START_INPUT_TIMERS
      then (True, h\<lparr>vf_start_input_timers := bool_value v (vf_start_input_timers h)\<rparr>)
      else (False, h))"

definition mrcp_verifier_header_generate ::
  "apr \<Rightarrow> c_flt \<Rightarrow> nat \<Rightarrow> mrcp_verifier_header \<Rightarrow> apt_str \<Rightarrow> fault + bool \<times> apt_str" where
  "mrcp_verifier_header_generate A F i h v =
     (if i = VERIFIER_HEADER_REPOSITORY_URI then Inr (True, vf_repository_uri h)
      else if i = VERIFIER_HEADER_VOICEPRINT_IDENTIFIER then Inr (True, vf_voiceprint_identifier h)
      else if i = VERIFIER_HEADER_VERIFICATION_MODE then Inr (True, vf_verification_mode h)
      else if i = VERIFIER_HEADER_ADAPT_MODEL then Inr (True, apt_boolean_value_generate (vf_adapt_model h))
      else if i = VERIFIER_HEADER_ABORT_MODEL then Inr (True, apt_boolean_value_generate (vf_abort_model h))
      else if i = VERIFIER_HEADER_MIN_VERIFICATION_SCORE then float_field F (vf_min_verification_score h)
      else if i = VERIFIER_HEADER_NUM_MIN_VERIFICATION_PHRASES
      then Inr (True, apt_size_value_generate A (vf_num_min_verification_phrases h))
      else if i = VERIFIER_HEADER_NUM_MAX_VERIFICATION_PHRASES
      then Inr (True, apt_size_value_generate A (vf_num_max_verification_phrases h))
      else if i = VERIFIER_HEADER_NO_INPUT_TIMEOUT
      then Inr (True, apt_size_value_generate A (vf_no_input_timeout h))
      else if i = VERIFIER_HEADER_SAVE_WAVEFORM then Inr (True, apt_boolean_value_generate (vf_save_waveform h))
      else if i = VERIFIER_HEADER_MEDIA_TYPE then Inr (True, vf_media_type h)
      else if i = VERIFIER_HEADER_WAVEFORM_URI then Inr (True, vf_waveform_uri h)
      else if i = VERIFIER_HEADER_VOICEPRINT_EXISTS
      then Inr (True, apt_boolean_value_generate (vf_voiceprint_exists h))
      else if i = VERIFIER_HEADER_VER_BUFFER_UTTERANCE
      then Inr (True, apt_boolean_value_generate (vf_ver_buffer_utterance h))
      else if i = VERIFIER_HEADER_INPUT_WAVEFORM_URI then Inr (True, vf_input_waveform_uri h)
      else if i = VERIFIER_HEADER_COMPLETION_CAUSE
      then Inr (True, snd (cause_generate verifier_completion_cause_string_table VERIFIER_COMPLETION_CAUSE_COUNT
        (vf_completion_cause h) v))
      else if i = VERIFIER_HEADER_COMPLETION_REASON then Inr (True, vf_completion_reason h)
      else if i = VERIFIER_HEADER_SPEECH_COMPLETE_TIMEOUT
      then Inr (True, apt_size_value_generate A (vf_speech_complete_timeout h))
      else if i = VERIFIER_HEADER_NEW_AUDIO_CHANNEL
      then Inr (True, apt_boolean_value_generate (vf_new_audio_channel h))
      else if i = VERIFIER_HEADER_ABORT_VERIFICATION
      then Inr (True, apt_boolean_value_generate (vf_abort_verification h))
      else if i = VERIFIER_HEADER_START_INPUT_TIMERS
      then Inr (True, apt_boolean_value_generate (vf_start_input_timers h))
      else Inr (True, v))"

definition verifier_field_duplicate ::
  "nat \<Rightarrow> mrcp_verifier_header \<Rightarrow> apt_str \<Rightarrow> mrcp_verifier_header \<Rightarrow> bool \<times> mrcp_verifier_header" where
  "verifier_field_duplicate i src v h =
     (if i = VERIFIER_HEADER_REPOSITORY_URI then (True, h\<lparr>vf_repository_uri := v\<rparr>)
      else if i = VERIFIER_HEADER_VOICEPRINT_IDENTIFIER
      then (True, h\<lparr>vf_voiceprint_identifier := v\<rparr>)
      else if i = VERIFIER_HEADER_VERIFICATION_MODE then (True, h\<lparr>vf_verification_mode := v\<rparr>)
      else if i = VERIFIER_HEADER_ADAPT_MODEL then (True, h\<lparr>vf_adapt_model := vf_adapt_model src\<rparr>)
      else if i = VERIFIER_HEADER_ABORT_MODEL then (True, h\<lparr>vf_abort_model := vf_abort_model src\<rparr>)
      else if i = VERIFIER_HEADER_MIN_VERIFICATION_SCORE
      then (True, h\<lparr>vf_min_verification_score := vf_min_verification_score src\<rparr>)
      else if i = VERIFIER_HEADER_NUM_MIN_VERIFICATION_PHRASES
      then (True, h\<lparr>vf_num_min_verification_phrases := vf_num_min_verification_phrases src\<rparr>)
      else if i = VERIFIER_HEADER_NUM_MAX_VERIFICATION_PHRASES
      then (True, h\<lparr>vf_num_max_verification_phrases := vf_num_max_verification_phrases src\<rparr>)
      else if i = VERIFIER_HEADER_NO_INPUT_TIMEOUT
      then (True, h\<lparr>vf_no_input_timeout := vf_no_input_timeout src\<rparr>)
      else if i = VERIFIER_HEADER_SAVE_WAVEFORM
      then (True, h\<lparr>vf_save_waveform := vf_save_waveform src\<rparr>)
      else if i = VERIFIER_HEADER_MEDIA_TYPE then (True, h\<lparr>vf_media_type := v\<rparr>)
      else if i = VERIFIER_HEADER_WAVEFORM_URI then (True, h\<lparr>vf_waveform_uri := v\<rparr>)
      else if i = VERIFIER_HEADER_VOICEPRINT_EXISTS
      then (True, h\<lparr>vf_voiceprint_exists := vf_voiceprint_exists src\<rparr>)
      else if i = VERIFIER_HEADER_VER_BUFFER_UTTERANCE
      then (True, h\<lparr>vf_ver_buffer_utterance := vf_ver_buffer_utterance src\<rparr>)
      else if i = VERIFIER_HEADER_INPUT_WAVEFORM_URI then (True, h\<lparr>vf_input_waveform_uri := v\<rparr>)
      else if i = VERIFIER_HEADER_COMPLETION_CAUSE
      then (True, h\<lparr>vf_completion_cause := vf_completion_cause src\<rparr>)
      else if i = VERIFIER_HEADER_COMPLETION_REASON then (True, h\<lparr>vf_completion_reason := v\<rparr>)
      else if i = VERIFIER_HEADER_SPEECH_COMPLETE_TIMEOUT
      then (True, h\<lparr>vf_speech_complete_timeout := vf_speech_complete_timeout src\<rparr>)
      else if i = VERIFIER_HEADER_NEW_AUDIO_CHANNEL
      then (True, h\<lparr>vf_new_audio_channel := vf_new_audio_channel src\<rparr>)
      else if i = VERIFIER_HEADER_ABORT_VERIFICATION
      then (True, h\<lparr>vf_abort_verification := vf_abort_verification src\<rparr>)
      else if i = VERIFIER_HEADER_START_INPUT_TIMERS
      then (True, h\<lparr>vf_start_input_timers := vf_start_input_timers src\<rparr>)
      else (False, h))"

definition mrcp_verifier_header_duplicate ::
  "nat \<Rightarrow> mrcp_verifier_header option \<Rightarrow> apt_str \<Rightarrow> mrcp_verifier_header option \<Rightarrow> bool \<times> mrcp_verifier_header option" where
  "mrcp_verifier_header_duplicate i source v target =
     (case (target, source) of
        (Some h, Some src) \<Rightarrow> map_prod id Some (verifier_field_duplicate i src v h)
      | _ \<Rightarrow> (False, target))"

definition mrcp_verifier_header_vtable :: "apr \<Rightarrow> c_flt \<Rightarrow> mrcp_verifier_header header_vtable" where
  "mrcp_verifier_header_vtable A F =
     \<lparr>vt_allocate = mrcp_verifier_header_init, vt_parse = mrcp_verifier_header_parse F,
      vt_generate = mrcp_verifier_header_generate A F, vt_duplicate = mrcp_verifier_header_duplicate,
      vt_field_table = verifier_header_string_table, vt_field_count = VERIFIER_HEADER_COUNT\<rparr>"

definition mrcp_verifier_header_vtable_get :: "apr \<Rightarrow> c_flt \<Rightarrow> mrcp_version \<Rightarrow> mrcp_verifier_header header_vtable" where
  "mrcp_verifier_header_vtable_get A F version = mrcp_verifier_header_vtable A F"

definition mrcp_verifier_completion_cause_get :: "nat \<Rightarrow> mrcp_version \<Rightarrow> apt_str option" where
  "mrcp_verifier_completion_cause_get completion_cause version =
     apt_string_table_str_get verifier_completion_cause_string_table VERIFIER_COMPLETION_CAUSE_COUNT completion_cause"

section \<open>Resource\<close>

abbreviation (input) VERIFIER_SET_PARAMS :: nat where "VERIFIER_SET_PARAMS \<equiv> 0"
abbreviation (input) VERIFIER_GET_PARAMS :: nat where "VERIFIER_GET_PARAMS \<equiv> 1"
abbreviation (input) VERIFIER_START_SESSION :: nat where "VERIFIER_START_SESSION \<equiv> 2"
abbreviation (input) VERIFIER_END_SESSION :: nat where "VERIFIER_END_SESSION \<equiv> 3"
abbreviation (input) VERIFIER_QUERY_VOICEPRINT :: nat where "VERIFIER_QUERY_VOICEPRINT \<equiv> 4"
abbreviation (input) VERIFIER_DELETE_VOICEPRINT :: nat where "VERIFIER_DELETE_VOICEPRINT \<equiv> 5"
abbreviation (input) VERIFIER_VERIFY :: nat where "VERIFIER_VERIFY \<equiv> 6"
abbreviation (input) VERIFIER_VERIFY_FROM_BUFFER :: nat where "VERIFIER_VERIFY_FROM_BUFFER \<equiv> 7"
abbreviation (input) VERIFIER_VERIFY_ROLLBACK :: nat where "VERIFIER_VERIFY_ROLLBACK \<equiv> 8"
abbreviation (input) VERIFIER_STOP :: nat where "VERIFIER_STOP \<equiv> 9"
abbreviation (input) VERIFIER_CLEAR_BUFFER :: nat where "VERIFIER_CLEAR_BUFFER \<equiv> 10"
abbreviation (input) VERIFIER_START_INPUT_TIMERS :: nat where "VERIFIER_START_INPUT_TIMERS \<equiv> 11"
abbreviation (input) VERIFIER_GET_INTERMIDIATE_RESULT :: nat where
  "VERIFIER_GET_INTERMIDIATE_RESULT \<equiv> 12"
abbreviation (input) VERIFIER_METHOD_COUNT :: nat where "VERIFIER_METHOD_COUNT \<equiv> 13"

abbreviation (input) VERIFIER_START_OF_INPUT :: nat where "VERIFIER_START_OF_INPUT \<equiv> 0"
abbreviation (input) VERIFIER_VERIFICATION_COMPLETE :: nat where "VERIFIER_VERIFICATION_COMPLETE \<equiv> 1"
abbreviation (input) VERIFIER_EVENT_COUNT :: nat where "VERIFIER_EVENT_COUNT \<equiv> 2"

definition verifier_method_string_table :: "apt_str_table_item list" where
  "verifier_method_string_table =
     [table_item ''SET-PARAMS'' 10 10,
      table_item ''GET-PARAMS'' 10 10,
      table_item ''START-SESSION'' 13 8,
      table_item ''END-SESSION'' 11 0,
      table_item ''QUERY-VOICEPRINT'' 16 0,
      table_item ''DELETE-VOICEPRINT'' 17 0,
      table_item ''VERIFY'' 6 6,
      table_item ''VERIFY-FROM-BUFFER'' 18 7,
      table_item ''VERIFY-ROLLBACK'' 15 7,
      table_item ''STOP'' 4 2,
      table_item ''CLEAR-BUFFER'' 12 0,
      table_item ''START-INPUT-TIMERS'' 18 6,
      table_item ''GET-INTERMEDIATE-RESULT'' 23 4]"

definition verifier_event_string_table :: "apt_str_table_item list" where
  "verifier_event_string_table =
     [table_item ''START-OF-INPUT'' 14 0,
      table_item ''VERIFICATION-COMPLETE'' 21 0]"

definition verifier_method_string_table_get :: "mrcp_version \<Rightarrow> apt_str_table_item list" where
  "verifier_method_string_table_get version = verifier_method_string_table"

definition verifier_event_string_table_get :: "mrcp_version \<Rightarrow> apt_str_table_item list" where
  "verifier_event_string_table_get version = verifier_event_string_table"

definition mrcp_verifier_resource_create :: "apr \<Rightarrow> c_flt \<Rightarrow> mrcp_verifier_header mrcp_resource" where
  "mrcp_verifier_resource_create A F =
     mrcp_resource_create\<lparr>res_method_count := VERIFIER_METHOD_COUNT, res_event_count := VERIFIER_EVENT_COUNT,
       res_get_method_str_table := Some verifier_method_string_table_get,
       res_get_event_str_table := Some verifier_event_string_table_get,
       res_get_resource_header_vtable := Some (mrcp_verifier_header_vtable_get A F)\<rparr>"

section \<open>The values of the header\<close>

text \<open>Numbers are read back as signed longs; the completion cause has a name.\<close>

definition verifier_values_ok :: "mrcp_verifier_header \<Rightarrow> bool" where
  "verifier_values_ok h \<longleftrightarrow>
     list_all (\<lambda>n. uint n < 2 ^ 63)
       [vf_num_min_verification_phrases h, vf_num_max_verification_phrases h, vf_no_input_timeout h, vf_speech_complete_timeout h] \<and>
     vf_completion_cause h < VERIFIER_COMPLETION_CAUSE_COUNT"

definition verifier_exact :: "nat \<Rightarrow> bool" where
  "verifier_exact i \<longleftrightarrow> i \<notin> set [VERIFIER_HEADER_MIN_VERIFICATION_SCORE]"

lemma verifier_names: "string_table verifier_header_string_table VERIFIER_HEADER_COUNT"
proof
  show "length verifier_header_string_table = VERIFIER_HEADER_COUNT" by (simp add: verifier_header_string_table_def)
  show "list_all item_ok verifier_header_string_table" by code_simp
  show "distinct (map item_fold verifier_header_string_table)" by code_simp
qed

lemma verifier_sizes:
  assumes "apr_ok A" and "verifier_values_ok d"
  shows "apt_size_value_parse (apt_size_value_generate A (vf_num_min_verification_phrases d)) = vf_num_min_verification_phrases d"
    "apt_size_value_parse (apt_size_value_generate A (vf_num_max_verification_phrases d)) = vf_num_max_verification_phrases d"
    "apt_size_value_parse (apt_size_value_generate A (vf_no_input_timeout d)) = vf_no_input_timeout d"
    "apt_size_value_parse (apt_size_value_generate A (vf_speech_complete_timeout d)) = vf_speech_complete_timeout d"
  using assms(2) by (simp_all add: verifier_values_ok_def size_value_roundtrip [OF assms(1)])

lemma verifier_plain_values:
  assumes "apr_ok A" and "verifier_values_ok d"
  shows "list_all (\<lambda>i. \<exists>v d2. mrcp_verifier_header_generate A F i d v0 = Inr (True, v) \<and>
      mrcp_verifier_header_parse F i v d1 = (True, d2) \<and> verifier_field_duplicate i d v d1 = (True, d2))
    [0, 1, 2, 3, 4, 6, 7, 8, 9, 10, 11, 12, 13, 14, 16, 17, 18, 19, 20]"
  by (simp add: mrcp_verifier_header_generate_def mrcp_verifier_header_parse_def verifier_field_duplicate_def verifier_sizes [OF assms])

lemma verifier_value_roundtrip:
  assumes "apr_ok A" and "i < VERIFIER_HEADER_COUNT" and "verifier_exact i" and "verifier_values_ok d"
  shows "\<exists>v d2. mrcp_verifier_header_generate A F i d v0 = Inr (True, v) \<and>
    mrcp_verifier_header_parse F i v d1 = (True, d2) \<and> verifier_field_duplicate i d v d1 = (True, d2)"
proof (cases "i = VERIFIER_HEADER_COMPLETION_CAUSE")
  case True
  obtain s where "cause_generate verifier_completion_cause_string_table VERIFIER_COMPLETION_CAUSE_COUNT
      (vf_completion_cause d) v0 = (True, s)" "enum_value s = vf_completion_cause d"
    using cause_generate_parse [of "vf_completion_cause d" VERIFIER_COMPLETION_CAUSE_COUNT] assms(4)
    by (auto simp: verifier_values_ok_def)
  then show ?thesis
    using True by (simp add: mrcp_verifier_header_generate_def mrcp_verifier_header_parse_def verifier_field_duplicate_def)
next
  case False
  have "list_all (\<lambda>i. verifier_exact i \<longrightarrow> i \<noteq> VERIFIER_HEADER_COMPLETION_CAUSE \<longrightarrow>
      i \<in> set [0, 1, 2, 3, 4, 6, 7, 8, 9, 10, 11, 12, 13, 14, 16, 17, 18, 19, 20]) [0..<VERIFIER_HEADER_COUNT]"
    by code_simp
  then have "i \<in> set [0, 1, 2, 3, 4, 6, 7, 8, 9, 10, 11, 12, 13, 14, 16, 17, 18, 19, 20]"
    using assms(2,3) False unfolding list_all_iff by simp
  then show ?thesis
    using verifier_plain_values [OF assms(1,4), of F v0 d1] unfolding list_all_iff by blast
qed

interpretation verifier_values: header_values "\<lambda>A. mrcp_verifier_header_vtable A F" verifier_exact "\<lambda>_. True" verifier_values_ok for F
proof (rule header_values.intro)
  show "string_table (vt_field_table (mrcp_verifier_header_vtable A F)) (vt_field_count (mrcp_verifier_header_vtable A F))" for A
    using verifier_names by (simp add: mrcp_verifier_header_vtable_def)
next
  fix A i d v0 d1
  assume "apr_ok A" "i < vt_field_count (mrcp_verifier_header_vtable A F)" "verifier_exact i" "verifier_values_ok d"
  then show "\<exists>v d2. vt_generate (mrcp_verifier_header_vtable A F) i d v0 = Inr (True, v) \<and> vt_parse (mrcp_verifier_header_vtable A F) i v d1 = (True, d2) \<and>
      vt_duplicate (mrcp_verifier_header_vtable A F) i (Some d) v (Some d1) = (True, Some d2)"
    using verifier_value_roundtrip [of A i d F v0 d1]
    by (auto simp: mrcp_verifier_header_vtable_def mrcp_verifier_header_duplicate_def)
qed (rule TrueI)

end
