(* ===== verification/AptTextMessage.thy ===== *)
theory AptTextMessage
  imports AptHeader
begin

text \<open>
  The parser and the generator of text messages (\<open>apt_text_message.c\<close>): state machines over
  the stages start line, header and body that are run on one chunk of a stream after another.

  Protocols plug in through tables of functions. \<open>void *\<close> messages are values of a type
  variable, and the pointers to the header section and the body of the current message that
  the context holds are the getters and setters of the table. Logging in verbose mode has no
  effect on the state and is left out.
\<close>

datatype apt_message_status =
  APT_MESSAGE_STATUS_COMPLETE | APT_MESSAGE_STATUS_INCOMPLETE | APT_MESSAGE_STATUS_INVALID

datatype apt_message_stage =
  APT_MESSAGE_STAGE_START_LINE | APT_MESSAGE_STAGE_HEADER | APT_MESSAGE_STAGE_BODY

section \<open>The parser\<close>

text \<open>
  \<open>on_start\<close> returns the message it associates with the context when it succeeds. A handler
  that is not set is \<open>None\<close>.
\<close>

record ('m, 'o) parser_vtable =
  on_start :: "'o \<Rightarrow> apt_text_stream \<Rightarrow> fault + (bool \<times> 'm option \<times> apt_text_stream)"
  on_header_complete :: "('o \<Rightarrow> 'm \<Rightarrow> fault + bool \<times> 'm) option"
  on_body_complete :: "('o \<Rightarrow> 'm \<Rightarrow> 'm) option"
  ctx_header :: "'m \<Rightarrow> header_section"
  ctx_header_put :: "header_section \<Rightarrow> 'm \<Rightarrow> 'm"
  ctx_body :: "'m \<Rightarrow> apt_str"
  ctx_body_put :: "apt_str \<Rightarrow> 'm \<Rightarrow> 'm"

record ('m, 'o) apt_message_parser =
  mp_vtable :: "('m, 'o) parser_vtable"
  mp_obj :: 'o
  mp_message :: "'m option"
  mp_content_length :: "64 word"
  mp_stage :: apt_message_stage
  mp_skip_lf :: bool
  mp_verbose :: bool

definition apt_message_parser_create ::
  "'o \<Rightarrow> ('m, 'o) parser_vtable \<Rightarrow> ('m, 'o) apt_message_parser" where
  "apt_message_parser_create obj vtable =
     \<lparr>mp_vtable = vtable, mp_obj = obj, mp_message = None, mp_content_length = 0,
      mp_stage = APT_MESSAGE_STAGE_START_LINE, mp_skip_lf = False, mp_verbose = False\<rparr>"

definition apt_message_parser_object_get :: "('m, 'o) apt_message_parser \<Rightarrow> 'o" where
  "apt_message_parser_object_get parser = mp_obj parser"

definition apt_message_parser_verbose_set ::
  "('m, 'o) apt_message_parser \<Rightarrow> bool \<Rightarrow> ('m, 'o) apt_message_parser" where
  "apt_message_parser_verbose_set parser verbose = parser\<lparr>mp_verbose := verbose\<rparr>"

text \<open>The bytes from the position to the end of the text, and copying them into the body.\<close>

definition stream_room :: "apt_text_stream \<Rightarrow> nat" where
  "stream_room s = size_diff (ts_length s) (size_diff (ts_pos s) (ts_buf s))"

definition apt_message_body_read ::
  "('m, 'o) apt_message_parser \<Rightarrow> 'm \<Rightarrow> apt_text_stream \<Rightarrow> fault + (bool \<times> 'm \<times> apt_text_stream)" where
  "apt_message_body_read parser m s =
     (let body = ctx_body (mp_vtable parser) m
      in case str_buf body of None \<Rightarrow> Inr (True, m, s)
         | Some buf \<Rightarrow>
             let stream_length = stream_room s;
                 required = unat (mp_content_length parser) - str_length body;
                 status = (if required > stream_length then False else True);
                 required = (if required > stream_length then stream_length else required)
             in sbind (mem_write (str_length body) (take required (drop (ts_pos s) (ts_mem s))) buf)
                  (\<lambda>buf. Inr (status,
                     ctx_body_put (mp_vtable parser)
                       \<lparr>str_buf = Some buf, str_length = str_length body + required\<rparr> m,
                     s\<lparr>ts_pos := ts_pos s + required\<rparr>)))"

definition apt_crlf_segmentation_test ::
  "('m, 'o) apt_message_parser \<Rightarrow> apt_text_stream \<Rightarrow> fault + ('m, 'o) apt_message_parser" where
  "apt_crlf_segmentation_test parser s =
     (if ts_pos s = ts_end s
      then if ts_pos s = 0 \<or> ts_pos s > length (ts_mem s) then Inl OutOfBounds
           else if ts_mem s ! (ts_pos s - 1) = APT_TOKEN_CR then Inr (parser\<lparr>mp_skip_lf := True\<rparr>)
           else Inr parser
      else Inr parser)"

type_synonym ('m, 'o) parser_result =
  "fault + (apt_message_status \<times> 'm option \<times> ('m, 'o) apt_message_parser \<times> apt_text_stream)"

text \<open>
  The blocks of the loop body of \<open>apt_message_parser_run\<close>, last one first. Each of its paths
  leaves the loop with \<open>break\<close>, so the loop runs once.
\<close>

definition parser_body_stage ::
  "('m, 'o) apt_message_parser \<Rightarrow> 'm \<Rightarrow> apt_text_stream \<Rightarrow> ('m, 'o) parser_result" where
  "parser_body_stage parser m s =
     sbind (apt_message_body_read parser m s) (\<lambda>(ok, m, s).
       if \<not> ok then Inr (APT_MESSAGE_STATUS_INCOMPLETE, None, parser\<lparr>mp_message := Some m\<rparr>, s)
       else let m = (case on_body_complete (mp_vtable parser) of None \<Rightarrow> m | Some f \<Rightarrow> f (mp_obj parser) m)
            in Inr (APT_MESSAGE_STATUS_COMPLETE, Some m,
                    parser\<lparr>mp_message := Some m, mp_stage := APT_MESSAGE_STAGE_START_LINE\<rparr>, s))"

text \<open>\<open>apr_palloc(pool,content_length+1)\<close> computes the size in \<open>apr_size_t\<close>.\<close>

definition parser_content_stage ::
  "apr \<Rightarrow> ('m, 'o) apt_message_parser \<Rightarrow> 'm \<Rightarrow> apt_text_stream \<Rightarrow> ('m, 'o) parser_result" where
  "parser_content_stage A parser m s =
     (let body = ctx_body (mp_vtable parser) m
      in if str_length body \<noteq> 0
         then let content_length = of_nat (str_length body)
              in sbind (mem_write (unat content_length) [NUL] (apr_palloc A (unat (content_length + 1)))) (\<lambda>buf.
                   parser_body_stage
                     (parser\<lparr>mp_content_length := content_length, mp_stage := APT_MESSAGE_STAGE_BODY\<rparr>)
                     (ctx_body_put (mp_vtable parser) \<lparr>str_buf = Some buf, str_length = 0\<rparr> m) s)
         else Inr (APT_MESSAGE_STATUS_COMPLETE, Some m,
                   parser\<lparr>mp_message := Some m, mp_stage := APT_MESSAGE_STAGE_START_LINE\<rparr>, s))"

definition parser_header_stage ::
  "apr \<Rightarrow> ('m, 'o) apt_message_parser \<Rightarrow> 'm \<Rightarrow> apt_text_stream \<Rightarrow> ('m, 'o) parser_result" where
  "parser_header_stage A parser m s =
     (case apt_header_section_parse (ctx_header (mp_vtable parser) m) s of (res, h, s) \<Rightarrow>
        let m = ctx_header_put (mp_vtable parser) h m
        in sbind (apt_crlf_segmentation_test parser s) (\<lambda>parser.
             if \<not> res then Inr (APT_MESSAGE_STATUS_INCOMPLETE, None, parser\<lparr>mp_message := Some m\<rparr>, s)
             else sbind (case on_header_complete (mp_vtable parser) of
                           None \<Rightarrow> Inr (True, m) | Some f \<Rightarrow> f (mp_obj parser) m) (\<lambda>(ok, m).
                  if \<not> ok then Inr (APT_MESSAGE_STATUS_INVALID, None, parser\<lparr>mp_message := Some m\<rparr>, s)
                  else parser_content_stage A parser m s)))"

definition parser_start_stage ::
  "apr \<Rightarrow> ('m, 'o) apt_message_parser \<Rightarrow> apt_text_stream \<Rightarrow> ('m, 'o) parser_result" where
  "parser_start_stage A parser s =
     sbind (on_start (mp_vtable parser) (mp_obj parser) s) (\<lambda>(ok, msg, s).
       if \<not> ok
       then Inr (if \<not> apt_text_is_eos s then APT_MESSAGE_STATUS_INVALID
                 else APT_MESSAGE_STATUS_INCOMPLETE, None, parser, s)
       else case msg of None \<Rightarrow> Inl NullDeref
            | Some m \<Rightarrow>
                sbind (apt_crlf_segmentation_test (parser\<lparr>mp_message := msg\<rparr>) s) (\<lambda>parser.
                  parser_header_stage A (parser\<lparr>mp_stage := APT_MESSAGE_STAGE_HEADER\<rparr>) m s))"

definition apt_message_parser_run ::
  "apr \<Rightarrow> ('m, 'o) apt_message_parser \<Rightarrow> apt_text_stream \<Rightarrow> ('m, 'o) parser_result" where
  "apt_message_parser_run A parser s =
     (let s = (if mp_skip_lf parser then apt_text_char_skip s APT_TOKEN_LF else s);
          parser = parser\<lparr>mp_skip_lf := False\<rparr>
      in case mp_stage parser of
           APT_MESSAGE_STAGE_START_LINE \<Rightarrow> parser_start_stage A parser s
         | APT_MESSAGE_STAGE_HEADER \<Rightarrow>
             (case mp_message parser of None \<Rightarrow> Inl NullDeref
              | Some m \<Rightarrow> parser_header_stage A parser m s)
         | APT_MESSAGE_STAGE_BODY \<Rightarrow>
             (case mp_message parser of None \<Rightarrow> Inl NullDeref
              | Some m \<Rightarrow> parser_body_stage parser m s))"

section \<open>The generator\<close>

text \<open>
  The generator remembers the message it works on by its address. \<open>gen_on_start\<close> tells
  whether it associated the header and the body with the context.
\<close>

record 'm generator_vtable =
  gen_on_start :: "'m \<Rightarrow> apt_text_stream \<Rightarrow> fault + (bool \<times> bool \<times> 'm \<times> apt_text_stream)"
  gen_on_header_complete :: "('m \<Rightarrow> apt_text_stream \<Rightarrow> fault + (bool \<times> 'm \<times> apt_text_stream)) option"
  gen_header :: "'m \<Rightarrow> header_section"
  gen_body :: "'m \<Rightarrow> apt_str"
  gen_body_put :: "apt_str \<Rightarrow> 'm \<Rightarrow> 'm"

record 'm apt_message_generator =
  mg_vtable :: "'m generator_vtable"
  mg_message :: "nat option"
  mg_context :: bool
  mg_content_length :: nat
  mg_stage :: apt_message_stage
  mg_verbose :: bool

definition apt_message_generator_create :: "'m generator_vtable \<Rightarrow> 'm apt_message_generator" where
  "apt_message_generator_create vtable =
     \<lparr>mg_vtable = vtable, mg_message = None, mg_context = False, mg_content_length = 0,
      mg_stage = APT_MESSAGE_STAGE_START_LINE, mg_verbose = False\<rparr>"

definition apt_message_generator_verbose_set ::
  "'m apt_message_generator \<Rightarrow> bool \<Rightarrow> 'm apt_message_generator" where
  "apt_message_generator_verbose_set generator verbose = generator\<lparr>mg_verbose := verbose\<rparr>"

definition apt_message_generator_break :: "apt_text_stream \<Rightarrow> apt_message_status" where
  "apt_message_generator_break s =
     (if apt_text_is_eos s then APT_MESSAGE_STATUS_INCOMPLETE else APT_MESSAGE_STATUS_INVALID)"

definition apt_message_body_write ::
  "'m apt_message_generator \<Rightarrow> 'm \<Rightarrow> apt_text_stream \<Rightarrow> fault + (bool \<times> 'm \<times> apt_text_stream)" where
  "apt_message_body_write generator m s =
     (let body = gen_body (mg_vtable generator) m
      in if mg_context generator \<and> str_length body < mg_content_length generator
         then let stream_length = stream_room s;
                  required = mg_content_length generator - str_length body;
                  status = (if required > stream_length then False else True);
                  required = (if required > stream_length then stream_length else required);
                  bytes = take required (drop (str_length body) (str_mem body))
              in if length bytes < required then Inl OutOfBounds
                 else sbind (ts_write s bytes) (\<lambda>s.
                   Inr (status,
                        gen_body_put (mg_vtable generator) (body\<lparr>str_length := str_length body + required\<rparr>) m,
                        s))
         else Inr (True, m, s))"

type_synonym 'm generator_result =
  "fault + (apt_message_status \<times> 'm apt_message_generator \<times> 'm \<times> apt_text_stream)"

definition generator_body_stage ::
  "'m apt_message_generator \<Rightarrow> 'm \<Rightarrow> apt_text_stream \<Rightarrow> 'm generator_result" where
  "generator_body_stage generator m s =
     (if mg_stage generator = APT_MESSAGE_STAGE_BODY
      then sbind (apt_message_body_write generator m s) (\<lambda>(ok, m, s).
             if \<not> ok then Inr (apt_message_generator_break s, generator, m, s)
             else Inr (APT_MESSAGE_STATUS_COMPLETE,
                       generator\<lparr>mg_stage := APT_MESSAGE_STAGE_START_LINE\<rparr>, m, s))
      else Inr (APT_MESSAGE_STATUS_COMPLETE, generator, m, s))"

definition generator_start_stage ::
  "'m apt_message_generator \<Rightarrow> 'm \<Rightarrow> apt_text_stream \<Rightarrow> 'm generator_result" where
  "generator_start_stage generator m s =
     sbind (gen_on_start (mg_vtable generator) m s) (\<lambda>(ok, context, m, s).
       let generator = generator\<lparr>mg_context := mg_context generator \<or> context\<rparr>
       in if \<not> ok then Inr (apt_message_generator_break s, generator, m, s)
          else if \<not> mg_context generator then Inr (APT_MESSAGE_STATUS_INVALID, generator, m, s)
          else sbind (apt_header_section_generate (gen_header (mg_vtable generator) m) s) (\<lambda>(ok, s).
               if \<not> ok then Inr (apt_message_generator_break s, generator, m, s)
               else sbind (case gen_on_header_complete (mg_vtable generator) of
                             None \<Rightarrow> Inr (True, m, s) | Some f \<Rightarrow> f m s) (\<lambda>(_, m, s).
                    let body = gen_body (mg_vtable generator) m;
                        generator = generator\<lparr>mg_stage := APT_MESSAGE_STAGE_START_LINE,
                                              mg_content_length := str_length body\<rparr>
                    in if str_length body \<noteq> 0
                       then generator_body_stage (generator\<lparr>mg_stage := APT_MESSAGE_STAGE_BODY\<rparr>)
                              (gen_body_put (mg_vtable generator) (body\<lparr>str_length := 0\<rparr>) m) s
                       else generator_body_stage generator m s)))"

definition apt_message_generator_run ::
  "'m apt_message_generator \<Rightarrow> (nat \<times> 'm) option \<Rightarrow> apt_text_stream \<Rightarrow>
   fault + (apt_message_status \<times> 'm apt_message_generator \<times> 'm option \<times> apt_text_stream)" where
  "apt_message_generator_run generator message s =
     (case message of None \<Rightarrow> Inr (APT_MESSAGE_STATUS_INVALID, generator, None, s)
      | Some (ptr, m) \<Rightarrow>
          let generator = (if mg_message generator \<noteq> Some ptr
                then generator\<lparr>mg_stage := APT_MESSAGE_STAGE_START_LINE, mg_message := Some ptr,
                               mg_context := False\<rparr>
                else generator)
          in sbind (if mg_stage generator = APT_MESSAGE_STAGE_START_LINE
                    then generator_start_stage generator m s
                    else generator_body_stage generator m s)
               (\<lambda>(status, generator, m, s). Inr (status, generator, Some m, s)))"

section \<open>Reading only moves the position forward\<close>

definition ts_reads :: "apt_text_stream \<Rightarrow> apt_text_stream \<Rightarrow> bool" where
  "ts_reads s s' \<longleftrightarrow>
     ts_mem s' = ts_mem s \<and> ts_buf s' = ts_buf s \<and> ts_length s' = ts_length s \<and> ts_end s' = ts_end s \<and>
     ts_pos s \<le> ts_pos s' \<and> (ts_pos s \<le> ts_end s \<longrightarrow> ts_pos s' \<le> ts_end s) \<and>
     (ts_is_eos s \<longrightarrow> ts_is_eos s')"

lemma ts_reads_refl [simp]: "ts_reads s s"
  by (simp add: ts_reads_def)

lemma ts_reads_trans: "ts_reads s t \<Longrightarrow> ts_reads t u \<Longrightarrow> ts_reads s u"
  by (auto simp: ts_reads_def)

lemma ts_reads_skip: "k \<le> length (ts_rest s) \<Longrightarrow> ts_reads s (s\<lparr>ts_pos := ts_pos s + k\<rparr>)"
  using length_ts_rest_le [of s] by (auto simp: ts_reads_def)

lemma ts_reads_wsp: "ts_reads s (apt_text_white_spaces_skip s)"
  unfolding apt_text_white_spaces_skip_def by (rule ts_reads_skip) (rule length_takeWhile_le)

lemma ts_reads_char: "ts_reads s (apt_text_char_skip s c)"
  using ts_reads_skip [of 1 s] by (auto simp: apt_text_char_skip_def neq_Nil_conv)

lemma ts_reads_line: "apt_text_line_read s = (ok, l, s') \<Longrightarrow> ts_reads s s'"
proof -
  assume a: "apt_text_line_read s = (ok, l, s')"
  obtain st len adv where l: "line_scan 0 (ts_rest s) = (st, len, adv)" by (metis prod_cases3)
  have "adv \<le> length (ts_rest s)" using line_scan_bounds [OF l] by simp
  then have "ts_reads s (s\<lparr>ts_pos := ts_pos s + adv\<rparr>)" by (rule ts_reads_skip)
  then show ?thesis using a l by (auto simp: apt_text_line_read_def ts_reads_def split: if_splits)
qed

lemma line_read_eos:
  "apt_text_line_read s = (ok, l, s') \<Longrightarrow> ts_pos s < ts_pos s' \<or> ts_is_eos s'"
proof -
  assume a: "apt_text_line_read s = (ok, l, s')"
  obtain st len adv where l: "line_scan 0 (ts_rest s) = (st, len, adv)" by (metis prod_cases3)
  show ?thesis
    using a l by (auto simp: apt_text_line_read_def dest: line_scan_bounds split: if_splits)
qed

lemma ts_reads_header: "apt_text_header_read s = (ok, pair, s') \<Longrightarrow> ts_reads s s'"
  using header_read_progress [of s ok pair s']
  by (auto simp: ts_reads_def apt_text_header_read_def Let_def split: prod.splits if_splits)

lemma ts_reads_fold: "fold_loop s ls = (ls', s') \<Longrightarrow> ts_reads s s'"
proof (induction s ls rule: fold_loop.induct)
  case (1 s ls)
  show ?case
  proof (cases "ts_rest s \<noteq> [] \<and> apt_text_is_wsp (hd (ts_rest s))")
    case True
    let ?s1 = "apt_text_white_spaces_skip (s\<lparr>ts_pos := ts_pos s + 1\<rparr>)"
    obtain ok line s2 where l: "apt_text_line_read ?s1 = (ok, line, s2)" by (metis prod_cases3)
    have "ts_reads s (s\<lparr>ts_pos := ts_pos s + 1\<rparr>)"
      using True by (intro ts_reads_skip) (auto simp: neq_Nil_conv)
    then have "ts_reads s ?s1" using ts_reads_wsp ts_reads_trans by blast
    moreover have "fold_loop s2 (ls @ [line]) = (ls', s')"
      using "1.prems" True l by (subst (asm) fold_loop.simps) (simp add: Let_def)
    ultimately show ?thesis
      using "1.IH" [OF True refl l [symmetric] refl] ts_reads_line [OF l] ts_reads_trans by blast
  next
    case False
    then show ?thesis using "1.prems" by (subst (asm) fold_loop.simps) auto
  qed
qed

lemma ts_reads_field:
  assumes "apt_header_field_parse s = (f, s')"
  shows "ts_reads s s' \<and> (ts_pos s < ts_pos s' \<or> ts_is_eos s')"
proof -
  obtain ok pair s1 where h: "apt_text_header_read s = (ok, pair, s1)" by (metis prod_cases3)
  obtain ls s2 where l: "fold_loop s1 [] = (ls, s2)" by fastforce
  have "s' = (if ok then s2 else s1)"
    using assms h l by (auto simp: apt_header_field_parse_def Let_def split: if_splits)
  moreover have "ts_reads s s2" using ts_reads_header [OF h] ts_reads_fold [OF l] by (rule ts_reads_trans)
  ultimately show ?thesis
    using ts_reads_header [OF h] header_field_parse_progress [OF assms] by auto
qed

lemma ts_reads_section:
  "apt_header_section_parse h s = (res, h', s') \<Longrightarrow> ts_reads s s' \<and> (ts_pos s < ts_pos s' \<or> ts_is_eos s')"
proof (induction "ts_end s - ts_pos s" arbitrary: h s rule: less_induct)
  case less
  obtain f s1 where f: "apt_header_field_parse s = (f, s1)" by fastforce
  note r = ts_reads_field [OF f]
  consider (stop) "s' = s1" |
    (loop) h1 where "\<not> apt_text_is_eos s1" "apt_header_section_parse h1 s1 = (res, h', s')"
    using less.prems f
    by (subst (asm) section_parse_put) (auto split: option.splits if_splits)
  then show ?case
  proof cases
    case stop
    then show ?thesis using r by simp
  next
    case (loop h1)
    then have "ts_pos s < ts_pos s1" "ts_pos s1 < ts_end s1" "ts_end s1 = ts_end s"
      using r by (auto simp: apt_text_is_eos_def ts_reads_def split: if_splits)
    then have "ts_reads s1 s'" "ts_pos s1 \<le> ts_pos s'"
      using less.hyps [of s1 h1] loop(2) by (auto simp: ts_reads_def)
    then show ?thesis using r ts_reads_trans \<open>ts_pos s < ts_pos s1\<close> by (meson le_less_trans less_le_trans)
  qed
qed

text \<open>A stream as the receivers set it up: the text reaches up to the end.\<close>

definition stream_ok :: "apt_text_stream \<Rightarrow> bool" where
  "stream_ok s \<longleftrightarrow>
     ts_buf s \<le> ts_pos s \<and> ts_pos s \<le> ts_end s \<and> ts_end s = ts_buf s + ts_length s \<and>
     ts_end s \<le> length (ts_mem s)"

lemma stream_ok_reads: "stream_ok s \<Longrightarrow> ts_reads s s' \<Longrightarrow> stream_ok s'"
  by (auto simp: stream_ok_def ts_reads_def)

lemma stream_room_ok: "stream_ok s \<Longrightarrow> stream_room s = length (ts_rest s) \<and> stream_room s = ts_end s - ts_pos s"
  by (auto simp: stream_ok_def stream_room_def ts_rest_def)

lemma stream_room_eq:
  "ts_buf s \<le> ts_pos s \<Longrightarrow> ts_pos s \<le> ts_end s \<Longrightarrow> ts_end s = ts_buf s + ts_length s \<Longrightarrow>
   stream_room s = ts_end s - ts_pos s"
  by (simp add: stream_room_def)

lemma stream_ok_text [simp]: "stream_ok (text_stream t)"
  by (simp add: stream_ok_def text_stream_def apt_text_stream_init_def apt_text_stream_reset_def)

text \<open>Chunks received one after the other, none of which completes a message.\<close>

fun parser_feed ::
  "apr \<Rightarrow> ('m, 'o) apt_message_parser \<Rightarrow> char list list \<Rightarrow> ('m, 'o) apt_message_parser option" where
  "parser_feed A p [] = Some p"
| "parser_feed A p (c # cs) =
     (case apt_message_parser_run A p (text_stream c) of
        Inr (APT_MESSAGE_STATUS_INCOMPLETE, _, p', _) \<Rightarrow> parser_feed A p' cs
      | _ \<Rightarrow> None)"

section \<open>Protocols\<close>

text \<open>
  What the parser relies on when it calls the functions of its table: reading the start line
  moves forward or reports the end of the stream, and header and body are parts of the message
  that can be replaced independently.
\<close>

locale message_protocol =
  fixes vt :: "('m, 'o) parser_vtable"
    and header_complete :: "'o \<Rightarrow> 'm \<Rightarrow> fault + bool \<times> 'm"
  assumes handler: "on_header_complete vt = Some header_complete"
    and body_length: "str_length (ctx_body vt m) < 2 ^ 64 \<Longrightarrow> header_complete obj m = Inr (ok, m') \<Longrightarrow>
      str_length (ctx_body vt m') < 2 ^ 64"
    and start_reads: "on_start vt obj s = Inr (ok, msg, s') \<Longrightarrow> ts_reads s s'"
    and start_progress: "on_start vt obj s = Inr (ok, msg, s') \<Longrightarrow> ts_pos s < ts_pos s' \<or> ts_is_eos s'"
    and start_message: "on_start vt obj s = Inr (True, msg, s') \<Longrightarrow>
      \<exists>m. msg = Some m \<and> str_length (ctx_body vt m) < 2 ^ 64"
    and body_get_put: "ctx_body vt (ctx_body_put vt b m) = b"
    and header_get_put: "ctx_header vt (ctx_header_put vt h m) = h"
    and body_header_put: "ctx_body vt (ctx_header_put vt h m) = ctx_body vt m"
begin

text \<open>
  The invariant of the parser: in the header stage there is a message, in the body stage its
  body has a block of one byte more than the content, which is not complete yet.
\<close>

definition body_inv :: "('m, 'o) apt_message_parser \<Rightarrow> 'm \<Rightarrow> bool" where
  "body_inv p m \<longleftrightarrow>
     (\<exists>buf. str_buf (ctx_body vt m) = Some buf \<and> length buf = unat (mp_content_length p) + 1) \<and>
     str_length (ctx_body vt m) < unat (mp_content_length p)"

definition parser_inv :: "('m, 'o) apt_message_parser \<Rightarrow> bool" where
  "parser_inv p \<longleftrightarrow> mp_vtable p = vt \<and>
     (mp_stage p = APT_MESSAGE_STAGE_HEADER \<longrightarrow>
        (\<exists>m. mp_message p = Some m \<and> str_length (ctx_body vt m) < 2 ^ 64)) \<and>
     (mp_stage p = APT_MESSAGE_STAGE_BODY \<longrightarrow> (\<exists>m. mp_message p = Some m \<and> body_inv p m))"

lemma body_read_eq:
  assumes "mp_vtable p = vt" and "body_inv p m" and "stream_ok s"
  defines "need \<equiv> unat (mp_content_length p) - str_length (ctx_body vt m)"
  defines "got \<equiv> take need (ts_rest s)"
  shows "\<exists>m'. apt_message_body_read p m s =
      Inr (need \<le> length (ts_rest s), m', s\<lparr>ts_pos := ts_pos s + length got\<rparr>) \<and>
    str_bytes (ctx_body vt m') = str_bytes (ctx_body vt m) @ got \<and>
    str_length (ctx_body vt m') = str_length (ctx_body vt m) + length got \<and>
    (length (ts_rest s) < need \<longrightarrow> body_inv p m')"
proof -
  let ?b = "ctx_body vt m" and ?room = "length (ts_rest s)"
  obtain buf where buf: "str_buf ?b = Some buf" "length buf = unat (mp_content_length p) + 1"
      "str_length ?b < unat (mp_content_length p)"
    using assms(2) by (auto simp: body_inv_def)
  define k where "k = (if need > ?room then ?room else need)"
  have room: "stream_room s = ?room" "?room = ts_end s - ts_pos s" using stream_room_ok [OF assms(3)] by auto
  have "ts_rest s = take ?room (drop (ts_pos s) (ts_mem s))" by (simp add: room(2)) (simp add: ts_rest_def)
  moreover have "k \<le> ?room" by (simp add: k_def)
  ultimately have "take k (drop (ts_pos s) (ts_mem s)) = take k (ts_rest s)"
    by (metis min.absorb1 take_take)
  then have got: "take k (drop (ts_pos s) (ts_mem s)) = got" "length got = k"
    by (auto simp: got_def k_def)
  let ?buf = "take (str_length ?b) buf @ got @ drop (str_length ?b + k) buf"
  have fit: "str_length ?b + k \<le> length buf" using buf by (auto simp: k_def need_def)
  then have "mem_write (str_length ?b) got buf = Inr ?buf" by (simp add: mem_write_def got(2))
  then have eq: "apt_message_body_read p m s = Inr (need \<le> ?room,
      ctx_body_put vt \<lparr>str_buf = Some ?buf, str_length = str_length ?b + k\<rparr> m,
      s\<lparr>ts_pos := ts_pos s + k\<rparr>)"
    using got buf(1) room(1) assms(1) unfolding apt_message_body_read_def
    by (auto simp: Let_def k_def need_def)
  have "str_bytes ?b = take (str_length ?b) buf" by (simp add: str_bytes_def str_mem_def buf(1))
  then show ?thesis
    using eq fit buf(2,3) got(2)
    by (auto simp: body_get_put str_bytes_def [of "\<lparr>str_buf = _, str_length = _\<rparr>"] str_mem_def
        body_inv_def k_def need_def)
qed

lemma run_body_chunk:
  assumes "parser_inv p" and "mp_stage p = APT_MESSAGE_STAGE_BODY" and "mp_message p = Some m"
    and "\<not> mp_skip_lf p" and "stream_ok s"
  defines "need \<equiv> unat (mp_content_length p) - str_length (ctx_body vt m)"
  shows "length (ts_rest s) < need \<Longrightarrow>
      \<exists>p' m' s'. apt_message_parser_run A p s = Inr (APT_MESSAGE_STATUS_INCOMPLETE, None, p', s') \<and>
        parser_inv p' \<and> mp_stage p' = APT_MESSAGE_STAGE_BODY \<and> mp_message p' = Some m' \<and>
        \<not> mp_skip_lf p' \<and> mp_content_length p' = mp_content_length p \<and>
        str_bytes (ctx_body vt m') = str_bytes (ctx_body vt m) @ ts_rest s \<and>
        str_length (ctx_body vt m') = str_length (ctx_body vt m) + length (ts_rest s)"
    and "need \<le> length (ts_rest s) \<Longrightarrow> on_body_complete vt = None \<Longrightarrow>
      \<exists>p' m' s'. apt_message_parser_run A p s = Inr (APT_MESSAGE_STATUS_COMPLETE, Some m', p', s') \<and>
        parser_inv p' \<and> mp_stage p' = APT_MESSAGE_STAGE_START_LINE \<and>
        str_bytes (ctx_body vt m') = str_bytes (ctx_body vt m) @ take need (ts_rest s) \<and>
        ts_rest s' = drop need (ts_rest s)"
proof -
  have vt: "mp_vtable p = vt" and b: "body_inv p m" using assms(1-3) by (auto simp: parser_inv_def)
  let ?p = "p\<lparr>mp_skip_lf := False\<rparr>"
  have b': "body_inv ?p m" using b by (simp add: body_inv_def)
  obtain m' where m': "apt_message_body_read ?p m s =
        Inr (need \<le> length (ts_rest s), m', s\<lparr>ts_pos := ts_pos s + length (take need (ts_rest s))\<rparr>)"
      "str_bytes (ctx_body vt m') = str_bytes (ctx_body vt m) @ take need (ts_rest s)"
      "str_length (ctx_body vt m') = str_length (ctx_body vt m) + length (take need (ts_rest s))"
      "length (ts_rest s) < need \<Longrightarrow> body_inv ?p m'"
    using body_read_eq [OF _ b' assms(5)] vt unfolding need_def by auto
  have run: "apt_message_parser_run A p s = parser_body_stage ?p m s"
    using assms(2-4) by (simp add: apt_message_parser_run_def)
  show "\<exists>p' m' s'. apt_message_parser_run A p s = Inr (APT_MESSAGE_STATUS_INCOMPLETE, None, p', s') \<and>
        parser_inv p' \<and> mp_stage p' = APT_MESSAGE_STAGE_BODY \<and> mp_message p' = Some m' \<and>
        \<not> mp_skip_lf p' \<and> mp_content_length p' = mp_content_length p \<and>
        str_bytes (ctx_body vt m') = str_bytes (ctx_body vt m) @ ts_rest s \<and>
        str_length (ctx_body vt m') = str_length (ctx_body vt m) + length (ts_rest s)"
    if "length (ts_rest s) < need"
    using m' that run vt assms(2) by (simp add: parser_body_stage_def parser_inv_def body_inv_def)
  show "\<exists>p' m' s'. apt_message_parser_run A p s = Inr (APT_MESSAGE_STATUS_COMPLETE, Some m', p', s') \<and>
        parser_inv p' \<and> mp_stage p' = APT_MESSAGE_STAGE_START_LINE \<and>
        str_bytes (ctx_body vt m') = str_bytes (ctx_body vt m) @ take need (ts_rest s) \<and>
        ts_rest s' = drop need (ts_rest s)"
    if "need \<le> length (ts_rest s)" "on_body_complete vt = None"
  proof -
    have "ts_rest (s\<lparr>ts_pos := ts_pos s + length (take need (ts_rest s))\<rparr>) = drop need (ts_rest s)"
      by (rule ts_rest_advance) simp
    then show ?thesis
      using m' that run vt by (simp add: parser_body_stage_def parser_inv_def)
  qed
qed

lemma body_segments:
  assumes "parser_inv p" and "mp_stage p = APT_MESSAGE_STAGE_BODY" and "mp_message p = Some m"
    and "\<not> mp_skip_lf p" and "on_body_complete vt = None"
    and "length (concat cs) < unat (mp_content_length p) - str_length (ctx_body vt m)"
    and "unat (mp_content_length p) - str_length (ctx_body vt m) \<le> length (concat cs @ c)"
  shows "\<exists>p' m' p'' s. parser_feed A p cs = Some p' \<and>
    apt_message_parser_run A p' (text_stream c) = Inr (APT_MESSAGE_STATUS_COMPLETE, Some m', p'', s) \<and>
    str_bytes (ctx_body vt m') = str_bytes (ctx_body vt m) @
      take (unat (mp_content_length p) - str_length (ctx_body vt m)) (concat cs @ c) \<and>
    ts_rest s = drop (unat (mp_content_length p) - str_length (ctx_body vt m)) (concat cs @ c)"
  using assms(1-4,6,7)
proof (induction cs arbitrary: p m)
  case Nil
  then show ?case using run_body_chunk(2) [OF Nil.prems(1-4) stream_ok_text, of c A] assms(5) by auto
next
  case (Cons d cs)
  let ?need = "unat (mp_content_length p) - str_length (ctx_body vt m)"
  have "length (ts_rest (text_stream d)) < ?need" using Cons.prems(5) by simp
  from run_body_chunk(1) [OF Cons.prems(1-4) stream_ok_text this, of A] obtain p1 m1 s1 where
    1: "apt_message_parser_run A p (text_stream d) = Inr (APT_MESSAGE_STATUS_INCOMPLETE, None, p1, s1)"
      "parser_inv p1" "mp_stage p1 = APT_MESSAGE_STAGE_BODY" "mp_message p1 = Some m1"
      "\<not> mp_skip_lf p1" "mp_content_length p1 = mp_content_length p"
      "str_bytes (ctx_body vt m1) = str_bytes (ctx_body vt m) @ d"
      "str_length (ctx_body vt m1) = str_length (ctx_body vt m) + length d"
    by auto
  then have need: "unat (mp_content_length p1) - str_length (ctx_body vt m1) = ?need - length d" by simp
  have "length (concat cs) < ?need - length d" "?need - length d \<le> length (concat cs @ c)"
    using Cons.prems(5,6) by auto
  then obtain p' m' p'' s where "parser_feed A p1 cs = Some p'"
    "apt_message_parser_run A p' (text_stream c) = Inr (APT_MESSAGE_STATUS_COMPLETE, Some m', p'', s)"
    "str_bytes (ctx_body vt m') = str_bytes (ctx_body vt m1) @ take (?need - length d) (concat cs @ c)"
    "ts_rest s = drop (?need - length d) (concat cs @ c)"
    using Cons.IH [OF 1(2-5)] need by auto
  then show ?case using 1(1,7) Cons.prems(5) by simp
qed

lemma body_stage_progress:
  assumes "mp_vtable p = vt" and "body_inv p m" and "stream_ok s" and "mp_stage p = APT_MESSAGE_STAGE_BODY"
    and "parser_body_stage p m s = Inr (st, msg, p', s')"
  shows "parser_inv p' \<and> ts_reads s s' \<and> (ts_pos s < ts_pos s' \<or> apt_text_is_eos s')"
proof -
  let ?need = "unat (mp_content_length p) - str_length (ctx_body vt m)"
  obtain m' where m': "apt_message_body_read p m s =
        Inr (?need \<le> length (ts_rest s), m', s\<lparr>ts_pos := ts_pos s + length (take ?need (ts_rest s))\<rparr>)"
      "length (ts_rest s) < ?need \<Longrightarrow> body_inv p m'"
    using body_read_eq [OF assms(1-3)] by auto
  have s': "s' = s\<lparr>ts_pos := ts_pos s + length (take ?need (ts_rest s))\<rparr>"
    using assms(5) m'(1) by (auto simp: parser_body_stage_def Let_def split: if_splits)
  have "parser_inv p'"
    using assms(1,4,5) m' by (auto simp: parser_body_stage_def parser_inv_def Let_def body_inv_def split: if_splits)
  moreover have "ts_reads s s'" unfolding s' by (rule ts_reads_skip) simp
  moreover have "0 < ?need" using assms(2) by (simp add: body_inv_def)
  then have "ts_pos s < ts_pos s' \<or> apt_text_is_eos s'"
    using stream_room_ok [OF assms(3)] assms(3) by (auto simp: s' apt_text_is_eos_def stream_ok_def)
  ultimately show ?thesis by blast
qed

lemma content_stage_progress:
  assumes "mp_vtable p = vt" and "apr_ok A" and "stream_ok s" and "str_length (ctx_body vt m) < 2 ^ 64"
    and "parser_content_stage A p m s = Inr (st, msg, p', s')"
  shows "parser_inv p' \<and> ts_reads s s'"
proof (cases "str_length (ctx_body vt m) = 0")
  case True
  then show ?thesis
    using assms(1,5) by (auto simp: parser_content_stage_def parser_inv_def Let_def)
next
  case False
  let ?cl = "of_nat (str_length (ctx_body vt m)) :: 64 word"
  let ?p = "p\<lparr>mp_content_length := ?cl, mp_stage := APT_MESSAGE_STAGE_BODY\<rparr>"
  have cl: "unat ?cl = str_length (ctx_body vt m)" using assms(4) by (simp add: unat_of_nat)
  obtain buf where buf: "mem_write (unat ?cl) [NUL] (apr_palloc A (unat (?cl + 1))) = Inr buf"
      "parser_body_stage ?p (ctx_body_put vt \<lparr>str_buf = Some buf, str_length = 0\<rparr> m) s = Inr (st, msg, p', s')"
    using assms(1,5) False by (auto simp: parser_content_stage_def sbind_eq_Inr_iff Let_def)
  have "unat ?cl < unat (?cl + 1)" "length buf = unat (?cl + 1)"
    using buf(1) assms(2) by (auto simp: mem_write_Inr_iff apr_ok_def)
  moreover from this have "1 + ?cl \<noteq> 0" by (metis add.commute less_nat_zero_code unat_0)
  then have "unat (?cl + 1) = unat ?cl + 1" by (metis add.commute unatSuc Suc_eq_plus1)
  ultimately have "length buf = unat ?cl + 1" by simp
  then have "body_inv ?p (ctx_body_put vt \<lparr>str_buf = Some buf, str_length = 0\<rparr> m)"
    using False cl by (simp add: body_inv_def body_get_put)
  then show ?thesis using body_stage_progress [OF _ _ assms(3) _ buf(2)] assms(1) by simp
qed

lemma crlf_test_keeps:
  "apt_crlf_segmentation_test p s = Inr p' \<Longrightarrow>
   mp_vtable p' = mp_vtable p \<and> mp_obj p' = mp_obj p \<and> mp_message p' = mp_message p \<and>
   mp_stage p' = mp_stage p"
  by (auto simp: apt_crlf_segmentation_test_def split: if_splits)

lemma header_stage_progress:
  assumes "mp_vtable p = vt" and "apr_ok A" and "stream_ok s" and "mp_stage p = APT_MESSAGE_STAGE_HEADER"
    and "parser_header_stage A p m s = Inr (st, msg, p', s')" and "str_length (ctx_body vt m) < 2 ^ 64"
  shows "parser_inv p' \<and> ts_reads s s' \<and> (ts_pos s < ts_pos s' \<or> apt_text_is_eos s')"
proof -
  obtain res h s1 where sec: "apt_header_section_parse (ctx_header vt m) s = (res, h, s1)"
    by (metis prod_cases3)
  note r = ts_reads_section [OF sec]
  let ?m = "ctx_header_put vt h m"
  obtain p1 where p1: "apt_crlf_segmentation_test p s1 = Inr p1"
    using assms(1,5) sec by (auto simp: parser_header_stage_def sbind_eq_Inr_iff Let_def)
  note k = crlf_test_keeps [OF p1]
  have rest: "(if \<not> res then Inr (APT_MESSAGE_STATUS_INCOMPLETE, None, p1\<lparr>mp_message := Some ?m\<rparr>, s1)
       else sbind (header_complete (mp_obj p1) ?m) (\<lambda>(ok, m).
         if \<not> ok then Inr (APT_MESSAGE_STATUS_INVALID, None, p1\<lparr>mp_message := Some m\<rparr>, s1)
         else parser_content_stage A p1 m s1)) = Inr (st, msg, p', s')"
    using assms(1,5) sec p1 k handler by (cases res) (simp_all add: parser_header_stage_def Let_def)
  have len: "str_length (ctx_body vt ?m) < 2 ^ 64" using assms(6) by (simp add: body_header_put)
  have "parser_inv p' \<and> ts_reads s1 s'"
  proof (cases "\<exists>m'. res \<and> header_complete (mp_obj p1) ?m = Inr (True, m')")
    case True
    then obtain m' where "header_complete (mp_obj p1) ?m = Inr (True, m')"
      "parser_content_stage A p1 m' s1 = Inr (st, msg, p', s')" using rest by auto
    then show ?thesis
      using content_stage_progress [of p1 A s1 m'] assms(1-3) k body_length [OF len] r stream_ok_reads by metis
  next
    case False
    then have "s' = s1 \<and> (\<exists>m'. p' = p1\<lparr>mp_message := Some m'\<rparr> \<and> str_length (ctx_body vt m') < 2 ^ 64)"
      using rest len body_length [OF len] by (auto simp: sbind_eq_Inr_iff split: if_splits)
    then show ?thesis using k assms(1,4) by (auto simp: parser_inv_def)
  qed
  then show ?thesis
    using r ts_reads_trans [of s s1 s'] by (auto simp: ts_reads_def apt_text_is_eos_def)
qed

lemma run_progress:
  assumes "parser_inv p" and "apr_ok A" and "stream_ok s"
    and "apt_message_parser_run A p s = Inr (st, msg, p', s')"
  shows "parser_inv p' \<and> ts_reads s s' \<and> stream_ok s' \<and> (ts_pos s < ts_pos s' \<or> apt_text_is_eos s')"
proof -
  define t where "t = (if mp_skip_lf p then apt_text_char_skip s APT_TOKEN_LF else s)"
  let ?p = "p\<lparr>mp_skip_lf := False\<rparr>"
  have t: "ts_reads s t" by (simp add: t_def ts_reads_char)
  have tok: "stream_ok t" by (rule stream_ok_reads [OF assms(3) t])
  have inv: "parser_inv ?p" using assms(1) by (simp add: parser_inv_def body_inv_def)
  have vt: "mp_vtable ?p = vt" using assms(1) by (simp add: parser_inv_def)
  have main: "parser_inv p' \<and> ts_reads t s' \<and> (ts_pos t < ts_pos s' \<or> apt_text_is_eos s')"
  proof (cases "mp_stage p")
    case APT_MESSAGE_STAGE_START_LINE
    then have run: "parser_start_stage A ?p t = Inr (st, msg, p', s')"
      using assms(4) by (simp add: apt_message_parser_run_def t_def Let_def)
    then obtain ok m s1 where o: "on_start vt (mp_obj ?p) t = Inr (ok, m, s1)"
      using vt by (auto simp: parser_start_stage_def sbind_eq_Inr_iff)
    note r = start_reads [OF o] start_progress [OF o]
    show ?thesis
    proof (cases "ok")
      case False
      then show ?thesis using run o r inv vt
        by (auto simp: parser_start_stage_def apt_text_is_eos_def)
    next
      case True
      then obtain m1 p1 where p1: "m = Some m1"
        "apt_crlf_segmentation_test (?p\<lparr>mp_message := m\<rparr>) s1 = Inr p1"
        "parser_header_stage A (p1\<lparr>mp_stage := APT_MESSAGE_STAGE_HEADER\<rparr>) m1 s1 = Inr (st, msg, p', s')"
        using run o vt by (auto simp: parser_start_stage_def sbind_eq_Inr_iff split: option.splits)
      have "str_length (ctx_body vt m1) < 2 ^ 64" using start_message [OF o [unfolded eqTrueI [OF True]]] p1(1) by auto
      then have "parser_inv p' \<and> ts_reads s1 s'"
        using header_stage_progress [OF _ assms(2) stream_ok_reads [OF tok r(1)] _ p1(3)]
          crlf_test_keeps [OF p1(2)] vt by auto
      then show ?thesis using r ts_reads_trans [of t s1 s'] by (auto simp: ts_reads_def apt_text_is_eos_def)
    qed
  next
    case APT_MESSAGE_STAGE_HEADER
    then obtain m where m: "mp_message p = Some m" "str_length (ctx_body vt m) < 2 ^ 64"
      using assms(1) by (auto simp: parser_inv_def)
    then have run: "parser_header_stage A ?p m t = Inr (st, msg, p', s')"
      using assms(4) APT_MESSAGE_STAGE_HEADER by (simp add: apt_message_parser_run_def t_def Let_def)
    show ?thesis
      by (rule header_stage_progress [OF vt assms(2) tok _ run m(2)]) (simp add: APT_MESSAGE_STAGE_HEADER)
  next
    case APT_MESSAGE_STAGE_BODY
    then obtain m where m: "mp_message p = Some m" "body_inv ?p m"
      using inv by (auto simp: parser_inv_def)
    then have run: "parser_body_stage ?p m t = Inr (st, msg, p', s')"
      using assms(4) APT_MESSAGE_STAGE_BODY by (simp add: apt_message_parser_run_def t_def Let_def)
    show ?thesis
      by (rule body_stage_progress [OF vt m(2) tok _ run]) (simp add: APT_MESSAGE_STAGE_BODY)
  qed
  then show ?thesis
    using t tok ts_reads_trans [OF t] stream_ok_reads by (auto simp: ts_reads_def)
qed

end

section \<open>Receiving anything at all\<close>

text \<open>
  The message whose header is complete in a run of the parser, if there is one: the message that
  the run starts, or goes on with, after its header section was read to the end and interpreted.
\<close>

definition section_completes :: "('m, 'o) parser_vtable \<Rightarrow> 'o \<Rightarrow> 'm \<Rightarrow> apt_text_stream \<Rightarrow> 'm option" where
  "section_completes vt obj m s =
     (case apt_header_section_parse (ctx_header vt m) s of (res, h, _) \<Rightarrow>
        let m = ctx_header_put vt h m
        in if \<not> res then None
           else case (case on_header_complete vt of None \<Rightarrow> Inr (True, m) | Some f \<Rightarrow> f obj m) of
                  Inl _ \<Rightarrow> None | Inr (ok, m) \<Rightarrow> if ok then Some m else None)"

definition headed_message :: "('m, 'o) apt_message_parser \<Rightarrow> apt_text_stream \<Rightarrow> 'm option" where
  "headed_message p s =
     (let s = (if mp_skip_lf p then apt_text_char_skip s APT_TOKEN_LF else s)
      in case mp_stage p of
           APT_MESSAGE_STAGE_START_LINE \<Rightarrow>
             (case on_start (mp_vtable p) (mp_obj p) s of Inl _ \<Rightarrow> None
              | Inr (ok, msg, s) \<Rightarrow> if ok then Option.bind msg (\<lambda>m. section_completes (mp_vtable p) (mp_obj p) m s) else None)
         | APT_MESSAGE_STAGE_HEADER \<Rightarrow> Option.bind (mp_message p) (\<lambda>m. section_completes (mp_vtable p) (mp_obj p) m s)
         | APT_MESSAGE_STAGE_BODY \<Rightarrow> None)"

text \<open>
  What a protocol promises so that nothing needs to be known of the bytes that are received: its
  functions do not fault, a message is \<open>started\<close> while its header is read, and it is \<open>complete\<close> when
  the header is. The parser then faults in one way only: on a content length that leaves no room
  for the NUL at the end of the body.
\<close>

locale message_source = message_protocol vt header_complete
  for vt :: "('m, 'o) parser_vtable" and header_complete :: "'o \<Rightarrow> 'm \<Rightarrow> fault + bool \<times> 'm" +
  fixes sound :: "'o \<Rightarrow> bool" and started :: "'m \<Rightarrow> bool" and complete :: "'m \<Rightarrow> bool"
  assumes start_ok: "sound obj \<Longrightarrow> \<exists>ok msg s'. on_start vt obj s = Inr (ok, msg, s') \<and>
      (ok \<longrightarrow> (\<exists>m. msg = Some m \<and> started m))"
    and section_ok: "started m \<Longrightarrow> apt_header_section_parse (ctx_header vt m) s = (res, h, s') \<Longrightarrow>
      started (ctx_header_put vt h m)"
    and header_ok: "sound obj \<Longrightarrow> started m \<Longrightarrow> \<exists>ok m'. header_complete obj m = Inr (ok, m') \<and>
      (if ok then complete m' else started m')"
    and body_ok: "complete m \<Longrightarrow> complete (ctx_body_put vt b m)"
    and no_body_handler: "on_body_complete vt = None"
begin

definition stage_ok :: "('m, 'o) apt_message_parser \<Rightarrow> bool" where
  "stage_ok p \<longleftrightarrow> sound (mp_obj p) \<and>
     (mp_stage p = APT_MESSAGE_STAGE_HEADER \<longrightarrow> (\<exists>m. mp_message p = Some m \<and> started m)) \<and>
     (mp_stage p = APT_MESSAGE_STAGE_BODY \<longrightarrow> (\<exists>m. mp_message p = Some m \<and> complete m))"

definition receiving :: "('m, 'o) apt_message_parser \<Rightarrow> bool" where
  "receiving p \<longleftrightarrow> parser_inv p \<and> stage_ok p"

definition receives :: "('m, 'o) parser_result \<Rightarrow> bool" where
  "receives r \<longleftrightarrow> (\<exists>st msg p s. r = Inr (st, msg, p, s) \<and> stage_ok p \<and> (\<forall>m. msg = Some m \<longrightarrow> complete m))"

lemma receives_Inr [simp]: "receives (Inr (st, msg, p, s)) \<longleftrightarrow> stage_ok p \<and> (\<forall>m. msg = Some m \<longrightarrow> complete m)"
  by (simp add: receives_def)

lemma body_stage_receives:
  assumes "mp_vtable p = vt" and "body_inv p m" and "stream_ok s" and "complete m" and "sound (mp_obj p)"
    and "mp_stage p = APT_MESSAGE_STAGE_BODY"
  shows "receives (parser_body_stage p m s)"
proof -
  obtain ok m' s' where r: "apt_message_body_read p m s = Inr (ok, m', s')"
    using body_read_eq [OF assms(1-3)] by auto
  then obtain b where "m' = m \<or> m' = ctx_body_put vt b m"
    using assms(1) by (auto simp: apt_message_body_read_def sbind_eq_Inr_iff Let_def split: option.splits)
  then have m': "complete m'" using assms(4) body_ok by auto
  have "parser_body_stage p m s = (if \<not> ok then Inr (APT_MESSAGE_STATUS_INCOMPLETE, None, p\<lparr>mp_message := Some m'\<rparr>, s')
      else Inr (APT_MESSAGE_STATUS_COMPLETE, Some m', p\<lparr>mp_message := Some m', mp_stage := APT_MESSAGE_STAGE_START_LINE\<rparr>, s'))"
    using r assms(1) no_body_handler by (simp add: parser_body_stage_def)
  then show ?thesis using m' assms(5,6) by (simp add: stage_ok_def)
qed

abbreviation overflows :: "'m \<Rightarrow> bool" where
  "overflows m \<equiv> str_length (ctx_body vt m) = 2 ^ 64 - 1"

lemma content_overflow:
  assumes "mp_vtable p = vt" and "apr_ok A" and "overflows m"
  shows "parser_content_stage A p m s = Inl OutOfBounds"
proof -
  let ?cl = "of_nat (str_length (ctx_body vt m)) :: 64 word"
  have "?cl + 1 = 0" using assms(3) by (simp flip: of_nat_Suc add: of_nat_eq_0_iff)
  then have "mem_write (unat ?cl) [NUL] (apr_palloc A (unat (?cl + 1))) = Inl OutOfBounds"
    using assms(2) by (simp add: mem_write_def apr_ok_def)
  then show ?thesis using assms(1,3) by (simp add: parser_content_stage_def Let_def)
qed

lemma content_stage_receives:
  assumes "mp_vtable p = vt" and "apr_ok A" and "stream_ok s" and "str_length (ctx_body vt m) < 2 ^ 64"
    and "complete m" and "sound (mp_obj p)"
  shows "if overflows m then parser_content_stage A p m s = Inl OutOfBounds
    else receives (parser_content_stage A p m s)"
proof -
  let ?n = "str_length (ctx_body vt m)"
  let ?cl = "of_nat ?n :: 64 word"
  have cl: "unat ?cl = ?n" using assms(4) by (simp add: unat_of_nat)
  consider "?n = 0" | "overflows m" | "0 < ?n" "?n + 1 < 2 ^ 64" using assms(4) by fastforce
  then show ?thesis
  proof cases
    case 1
    then have "receives (parser_content_stage A p m s)"
      using assms(1,5,6) by (simp add: parser_content_stage_def stage_ok_def)
    then show ?thesis using 1 by simp
  next
    case 2
    then show ?thesis using content_overflow [OF assms(1,2)] by simp
  next
    case 3
    let ?p = "p\<lparr>mp_content_length := ?cl, mp_stage := APT_MESSAGE_STAGE_BODY\<rparr>"
    have "?cl + 1 = of_nat (?n + 1)" by simp
    then have n: "unat (?cl + 1) = ?n + 1" using 3(2) by (simp only: unat_of_nat) simp
    obtain buf where buf: "mem_write (unat ?cl) [NUL] (apr_palloc A (unat (?cl + 1))) = Inr buf" "length buf = ?n + 1"
      using assms(2) cl n by (auto simp: mem_write_def apr_ok_def)
    let ?m = "ctx_body_put vt \<lparr>str_buf = Some buf, str_length = 0\<rparr> m"
    have "body_inv ?p ?m" using buf(2) cl 3(1) by (simp add: body_inv_def body_get_put)
    then have "receives (parser_body_stage ?p ?m s)"
      using body_stage_receives [of ?p ?m s] assms body_ok by simp
    moreover have "parser_content_stage A p m s = parser_body_stage ?p ?m s"
      using 3(1) buf(1) assms(1) by (simp add: parser_content_stage_def Let_def)
    ultimately show ?thesis using 3(2) by simp
  qed
qed

text \<open>The result of a run in which the header of \<open>headed\<close> was completed, if any.\<close>

definition receives_or_overflows :: "'m option \<Rightarrow> ('m, 'o) parser_result \<Rightarrow> bool" where
  "receives_or_overflows headed r \<longleftrightarrow>
     (if \<exists>m. headed = Some m \<and> overflows m then r = Inl OutOfBounds else receives r)"

lemma crlf_test_ok:
  assumes "stream_ok s" and "0 < ts_end s"
  shows "\<exists>p'. apt_crlf_segmentation_test p s = Inr p'"
  using assms by (auto simp: apt_crlf_segmentation_test_def stream_ok_def)

lemma header_stage_receives:
  assumes "mp_vtable p = vt" and "apr_ok A" and "stream_ok s" and "0 < ts_end s"
    and "mp_stage p = APT_MESSAGE_STAGE_HEADER" and "started m" and "str_length (ctx_body vt m) < 2 ^ 64"
    and "sound (mp_obj p)"
  shows "receives_or_overflows (section_completes vt (mp_obj p) m s) (parser_header_stage A p m s)"
proof -
  obtain res h s1 where sec: "apt_header_section_parse (ctx_header vt m) s = (res, h, s1)"
    by (metis prod_cases3)
  have s1: "stream_ok s1" "0 < ts_end s1"
    using ts_reads_section [OF sec] stream_ok_reads [OF assms(3)] assms(4) by (auto simp: ts_reads_def)
  obtain p1 where p1: "apt_crlf_segmentation_test p s1 = Inr p1" using crlf_test_ok [OF s1] by blast
  note k = crlf_test_keeps [OF p1]
  let ?m = "ctx_header_put vt h m"
  have m: "started ?m" by (rule section_ok [OF assms(6) sec])
  obtain ok m' where c: "header_complete (mp_obj p) ?m = Inr (ok, m')" "if ok then complete m' else started m'"
    using header_ok [OF assms(8) m] by blast
  have stage: "parser_header_stage A p m s =
      (if \<not> res then Inr (APT_MESSAGE_STATUS_INCOMPLETE, None, p1\<lparr>mp_message := Some ?m\<rparr>, s1)
       else if \<not> ok then Inr (APT_MESSAGE_STATUS_INVALID, None, p1\<lparr>mp_message := Some m'\<rparr>, s1)
       else parser_content_stage A p1 m' s1)"
    using sec p1 k c(1) assms(1) handler by (simp add: parser_header_stage_def Let_def)
  have headed: "section_completes vt (mp_obj p) m s = (if res \<and> ok then Some m' else None)"
    using sec c(1) handler by (simp add: section_completes_def Let_def)
  show ?thesis
  proof (cases "res \<and> ok")
    case True
    have "str_length (ctx_body vt m') < 2 ^ 64" using body_length [OF _ c(1)] assms(7) by (simp add: body_header_put)
    then show ?thesis
      using content_stage_receives [OF _ assms(2) s1(1), of p1 m'] stage True k assms(1,8) c headed
      by (cases "overflows m'") (auto simp: receives_or_overflows_def)
  next
    case False
    then show ?thesis
      using stage k m c(2) assms(5,8) headed by (auto simp: receives_or_overflows_def stage_ok_def)
  qed
qed

lemma start_stage_receives:
  assumes "mp_vtable p = vt" and "apr_ok A" and "stream_ok s" and "0 < ts_end s"
    and "mp_stage p = APT_MESSAGE_STAGE_START_LINE" and "sound (mp_obj p)" and "\<not> mp_skip_lf p"
  shows "receives_or_overflows (headed_message p s) (parser_start_stage A p s)"
proof -
  obtain ok msg s1 where o: "on_start vt (mp_obj p) s = Inr (ok, msg, s1)" "ok \<longrightarrow> (\<exists>m. msg = Some m \<and> started m)"
    using start_ok [OF assms(6)] by blast
  have s1: "stream_ok s1" "0 < ts_end s1"
    using start_reads [OF o(1)] stream_ok_reads [OF assms(3)] assms(4) by (auto simp: ts_reads_def)
  show ?thesis
  proof (cases ok)
    case False
    then show ?thesis
      using o(1) assms(1,5-7) by (simp add: parser_start_stage_def receives_or_overflows_def headed_message_def stage_ok_def)
  next
    case True
    then obtain m where m: "msg = Some m" "started m" using o(2) by blast
    obtain p1 where p1: "apt_crlf_segmentation_test (p\<lparr>mp_message := msg\<rparr>) s1 = Inr p1" using crlf_test_ok [OF s1] by blast
    have "str_length (ctx_body vt m) < 2 ^ 64" using start_message [OF o(1) [unfolded eqTrueI [OF True]]] m(1) by auto
    then have "receives_or_overflows (section_completes vt (mp_obj p) m s1)
        (parser_header_stage A (p1\<lparr>mp_stage := APT_MESSAGE_STAGE_HEADER\<rparr>) m s1)"
      using header_stage_receives [of "p1\<lparr>mp_stage := APT_MESSAGE_STAGE_HEADER\<rparr>" A s1 m] s1 m crlf_test_keeps [OF p1]
        assms(1,2,6) by simp
    moreover have "section_completes vt (mp_obj p) m s1 = headed_message p s"
      using o(1) True m(1) assms(1,5,7) by (simp add: headed_message_def)
    moreover have "parser_start_stage A p s = parser_header_stage A (p1\<lparr>mp_stage := APT_MESSAGE_STAGE_HEADER\<rparr>) m s1"
      using o(1) True m(1) p1 assms(1) by (simp add: parser_start_stage_def)
    ultimately show ?thesis by simp
  qed
qed

lemma run_receives:
  assumes "receiving p" and "apr_ok A" and "stream_ok s" and "0 < ts_end s"
  shows "receives_or_overflows (headed_message p s) (apt_message_parser_run A p s)"
proof -
  define t where "t = (if mp_skip_lf p then apt_text_char_skip s APT_TOKEN_LF else s)"
  let ?p = "p\<lparr>mp_skip_lf := False\<rparr>"
  have "ts_reads s t" by (simp add: t_def ts_reads_char)
  then have t: "stream_ok t" "0 < ts_end t" using stream_ok_reads [OF assms(3)] assms(4) by (auto simp: ts_reads_def)
  have p: "mp_vtable ?p = vt" "sound (mp_obj ?p)"
    using assms(1) by (auto simp: receiving_def stage_ok_def parser_inv_def)
  have headed: "headed_message p s = headed_message ?p t"
    by (cases "mp_stage p") (simp_all add: headed_message_def t_def split: sum.split)
  show ?thesis
  proof (cases "mp_stage p")
    case APT_MESSAGE_STAGE_START_LINE
    then show ?thesis
      using start_stage_receives [OF p(1) assms(2) t _ p(2)] headed by (simp add: apt_message_parser_run_def t_def Let_def)
  next
    case APT_MESSAGE_STAGE_HEADER
    then obtain m where m: "mp_message p = Some m" "started m" "str_length (ctx_body vt m) < 2 ^ 64"
      using assms(1) by (auto simp: receiving_def stage_ok_def parser_inv_def)
    then show ?thesis
      using header_stage_receives [OF p(1) assms(2) t _ m(2,3) p(2)] APT_MESSAGE_STAGE_HEADER p(1)
      by (simp add: headed headed_message_def) (simp add: apt_message_parser_run_def t_def Let_def split: if_splits)
  next
    case APT_MESSAGE_STAGE_BODY
    then obtain m where m: "mp_message p = Some m" "complete m" "body_inv ?p m"
      using assms(1) by (auto simp: receiving_def stage_ok_def parser_inv_def body_inv_def)
    then show ?thesis
      using body_stage_receives [OF p(1) m(3) t(1) m(2) p(2)] APT_MESSAGE_STAGE_BODY
      by (simp add: apt_message_parser_run_def headed_message_def t_def Let_def receives_or_overflows_def)
  qed
qed

lemma receiving_kept:
  assumes "receiving p" and "apr_ok A" and "stream_ok s" and "0 < ts_end s"
    and "apt_message_parser_run A p s = Inr (st, msg, p', s')"
  shows "receiving p' \<and> (\<forall>m. msg = Some m \<longrightarrow> complete m)"
proof -
  have "parser_inv p'" using run_progress [OF _ assms(2,3,5)] assms(1) by (simp add: receiving_def)
  moreover have "receives (Inr (st, msg, p', s'))"
    using run_receives [OF assms(1-4)] assms(5) by (simp add: receives_or_overflows_def split: if_splits)
  ultimately show ?thesis by (simp add: receiving_def)
qed

lemma receiving_create: "sound obj \<Longrightarrow> receiving (apt_message_parser_create obj vt)"
  by (simp add: receiving_def stage_ok_def apt_message_parser_create_def parser_inv_def)

end

section \<open>Messages as text\<close>

text \<open>
  Text that a stream holds between its start and its position. Finalizing a start line may
  move the start of the stream forward.
\<close>

definition ts_holds :: "apt_text_stream \<Rightarrow> char list \<Rightarrow> bool" where
  "ts_holds s t \<longleftrightarrow> ts_buf s \<le> ts_pos s \<and> ts_pos s \<le> length (ts_mem s) \<and> ts_pos s - ts_buf s = length t \<and>
     (\<exists>zs. drop (ts_buf s) (ts_mem s) = t @ zs)"

text \<open>The bytes of a stream from its start to its position, which the senders pass to the socket.\<close>

definition ts_text :: "apt_text_stream \<Rightarrow> char list" where
  "ts_text s = take (ts_pos s - ts_buf s) (drop (ts_buf s) (ts_mem s))"

lemma ts_holds_text: "ts_holds s t \<Longrightarrow> ts_text s = t"
  by (auto simp: ts_holds_def ts_text_def)

lemma ts_holds_wrote:
  assumes "ts_holds s t" and "ts_wrote s bs s'"
  shows "ts_holds s' (t @ bs)"
proof -
  have mem: "ts_mem s' = take (ts_pos s) (ts_mem s) @ bs @ drop (ts_pos s') (ts_mem s')"
    and len: "length (take (ts_pos s) (ts_mem s)) = ts_pos s" using ts_wrote_mem [OF assms(2)] by auto
  obtain zs where zs: "drop (ts_buf s) (ts_mem s) = t @ zs" using assms(1) by (auto simp: ts_holds_def)
  have b: "ts_buf s \<le> ts_pos s" "ts_pos s - ts_buf s = length t" using assms(1) by (auto simp: ts_holds_def)
  have "drop (ts_buf s) (take (ts_pos s) (ts_mem s)) = take (length t) (drop (ts_buf s) (ts_mem s))"
    using b by (simp add: drop_take)
  then have "drop (ts_buf s) (ts_mem s') = t @ bs @ drop (ts_pos s') (ts_mem s')"
    using b(1) len by (subst mem) (simp add: zs)
  then show ?thesis using assms(1) ts_wroteD [OF assms(2)] by (auto simp: ts_holds_def)
qed

text \<open>
  What the generator relies on in the functions of a protocol: the body is a part of the message
  that can be replaced.
\<close>

locale generator_protocol =
  fixes gvt :: "'m generator_vtable"
  assumes gen_body_get_put: "gen_body gvt (gen_body_put gvt b m) = b"
begin

lemma body_stage_writes:
  assumes "mg_vtable g = gvt" and "mg_context g" and "mg_content_length g = str_length b"
    and "mg_stage g = APT_MESSAGE_STAGE_BODY" and "str_wf b" and "0 < str_length b"
    and "str_length b \<le> stream_room s" and "ts_room s (str_length b)"
  shows "\<exists>g' m' s'. generator_body_stage g (gen_body_put gvt (b\<lparr>str_length := 0\<rparr>) m) s =
      Inr (APT_MESSAGE_STATUS_COMPLETE, g', m', s') \<and> ts_wrote s (str_bytes b) s'"
proof -
  have len: "length (str_bytes b) = str_length b" using length_str_bytes [OF assms(5)] .
  then obtain s' where s': "ts_write s (str_bytes b) = Inr s'" "ts_wrote s (str_bytes b) s'"
    using ts_write_room [of s "str_bytes b"] assms(8) by auto
  have mem: "str_mem (b\<lparr>str_length := 0\<rparr>) = str_mem b" by (simp add: str_mem_def)
  have "take (str_length b) (str_mem b) = str_bytes b" "str_length b \<le> length (str_mem b)"
    using assms(5) by (simp_all add: str_bytes_def str_wf_def)
  then show ?thesis
    using s' len assms(1-4,6,7)
    by (simp add: generator_body_stage_def apt_message_body_write_def gen_body_get_put Let_def mem)
qed

lemma run_writes:
  assumes "gen_on_start gvt m s = Inr (True, True, m1, s1)"
    and "apt_header_section_generate (gen_header gvt m1) s1 = Inr (True, s2)"
    and "(case gen_on_header_complete gvt of None \<Rightarrow> Inr (True, m1, s2) | Some f \<Rightarrow> f m1 s2) = Inr (ok, m2, s3)"
    and "str_wf (gen_body gvt m2)" and "ts_room s3 (str_length (gen_body gvt m2))"
    and "str_length (gen_body gvt m2) \<le> stream_room s3" and "ts_holds s3 t"
  shows "\<exists>g m' s'. apt_message_generator_run (apt_message_generator_create gvt) (Some (ptr, m)) s =
      Inr (APT_MESSAGE_STATUS_COMPLETE, g, Some m', s') \<and> ts_holds s' (t @ str_bytes (gen_body gvt m2))"
proof -
  let ?b = "gen_body gvt m2"
  let ?g = "(apt_message_generator_create gvt)\<lparr>mg_message := Some ptr, mg_context := True, mg_content_length := str_length ?b\<rparr>"
  have run: "apt_message_generator_run (apt_message_generator_create gvt) (Some (ptr, m)) s =
      sbind (if str_length ?b \<noteq> 0
        then generator_body_stage (?g\<lparr>mg_stage := APT_MESSAGE_STAGE_BODY\<rparr>) (gen_body_put gvt (?b\<lparr>str_length := 0\<rparr>) m2) s3
        else generator_body_stage ?g m2 s3)
      (\<lambda>(status, generator, m, s). Inr (status, generator, Some m, s))"
    using assms(1-3)
    by (simp add: apt_message_generator_run_def generator_start_stage_def apt_message_generator_create_def Let_def)
  show ?thesis
  proof (cases "str_length ?b = 0")
    case True
    then have "str_bytes ?b = []" by (simp add: str_bytes_def)
    then show ?thesis
      using True run assms(7) by (simp add: generator_body_stage_def apt_message_generator_create_def)
  next
    case False
    then obtain g' m' s' where "generator_body_stage (?g\<lparr>mg_stage := APT_MESSAGE_STAGE_BODY\<rparr>)
        (gen_body_put gvt (?b\<lparr>str_length := 0\<rparr>) m2) s3 = Inr (APT_MESSAGE_STATUS_COMPLETE, g', m', s')"
      "ts_wrote s3 (str_bytes ?b) s'"
      using body_stage_writes [of "?g\<lparr>mg_stage := APT_MESSAGE_STAGE_BODY\<rparr>" ?b s3 m2] assms(4-6)
      by (auto simp: apt_message_generator_create_def)
    then show ?thesis using False run ts_holds_wrote [OF assms(7)] by simp
  qed
qed

end

text \<open>Reading a message whose text is known: header fields, an empty line, a body.\<close>

lemma crlf_test_unchanged:
  assumes "ts_rest t = xs @ [APT_TOKEN_LF] @ r" and "ts_wf t"
  shows "apt_crlf_segmentation_test p (t\<lparr>ts_pos := ts_pos t + length xs + 1\<rparr>) = Inr p"
proof -
  have "ts_rest t ! length xs = APT_TOKEN_LF" by (simp add: assms(1))
  moreover have "length xs < length (ts_rest t)" by (simp add: assms(1))
  ultimately have "ts_mem t ! (ts_pos t + length xs) = APT_TOKEN_LF" "ts_pos t + length xs < length (ts_mem t)"
    using assms(2) by (auto simp: ts_rest_def ts_wf_def)
  moreover from this have "ts_mem t ! (ts_end t - Suc 0) \<noteq> APT_TOKEN_CR" if "Suc (ts_pos t + length xs) = ts_end t"
    by (simp flip: that)
  ultimately show ?thesis by (auto simp: apt_crlf_segmentation_test_def)
qed

context message_protocol
begin

lemma content_stage_reads:
  assumes "on_body_complete vt = None" and "apr_ok A" and "mp_vtable p = vt" and "stream_ok s" and "ts_rest s = b @ r"
    and "ctx_body vt m = apt_string_reset\<lparr>str_length := length b\<rparr>" and "length b < 2 ^ 63"
  shows "\<exists>m' cs p' s'. parser_content_stage A p m s = Inr (APT_MESSAGE_STATUS_COMPLETE, Some m', p', s') \<and>
    m' = fold (ctx_body_put vt) cs m \<and> str_bytes (ctx_body vt m') = b \<and> ts_rest s' = r"
proof (cases "b = []")
  case True
  then show ?thesis
    using assms(3,5,6) by (auto simp: parser_content_stage_def str_bytes_def intro!: exI [of _ "[]"])
next
  case False
  let ?cl = "of_nat (length b) :: 64 word"
  have cl: "unat ?cl = length b" using assms(7) by (simp add: unat_of_nat)
  have "?cl + 1 = of_nat (length b + 1)" by simp
  then have cl1: "unat (?cl + 1) = length b + 1" using assms(7) by (simp only: unat_of_nat) simp
  obtain buf where buf: "mem_write (length b) [NUL] (apr_palloc A (length b + 1)) = Inr buf" "length buf = length b + 1"
    using assms(2) by (auto simp: mem_write_def apr_ok_def)
  let ?p = "p\<lparr>mp_content_length := ?cl, mp_stage := APT_MESSAGE_STAGE_BODY\<rparr>"
  let ?b = "\<lparr>str_buf = Some buf, str_length = 0\<rparr>"
  have st: "parser_content_stage A p m s = parser_body_stage ?p (ctx_body_put vt ?b m) s"
    using False assms(3,6) cl cl1 buf(1) by (simp add: parser_content_stage_def Let_def)
  have "body_inv ?p (ctx_body_put vt ?b m)" using False cl buf(2) by (simp add: body_inv_def body_get_put)
  then obtain m' where m': "apt_message_body_read ?p (ctx_body_put vt ?b m) s =
      Inr (True, m', s\<lparr>ts_pos := ts_pos s + length b\<rparr>)" "str_bytes (ctx_body vt m') = b"
    using body_read_eq [of ?p "ctx_body_put vt ?b m" s] assms(3-5) cl by (auto simp: body_get_put str_bytes_def)
  from m'(1) obtain c where "m' = ctx_body_put vt c (ctx_body_put vt ?b m)"
    using assms(3) by (auto simp: apt_message_body_read_def body_get_put sbind_eq_Inr_iff Let_def)
  then have "m' = fold (ctx_body_put vt) [?b, c] m" by simp
  moreover have "ts_rest (s\<lparr>ts_pos := ts_pos s + length b\<rparr>) = r" by (rule ts_rest_advance [OF assms(5)])
  moreover have "parser_body_stage ?p (ctx_body_put vt ?b m) s = Inr (APT_MESSAGE_STATUS_COMPLETE, Some m',
      ?p\<lparr>mp_message := Some m', mp_stage := APT_MESSAGE_STAGE_START_LINE\<rparr>, s\<lparr>ts_pos := ts_pos s + length b\<rparr>)"
    using m'(1) assms(1,3) by (simp add: parser_body_stage_def)
  ultimately show ?thesis using m'(2) unfolding st by blast
qed

lemma header_stage_reads:
  assumes "on_body_complete vt = None" and "apr_ok A" and "mp_vtable p = vt" and "stream_ok s" and "\<not> ts_is_eos s"
    and "ts_rest s = fields_text fs @ CRLF @ b @ r" and "list_all field_ok fs" and "unfolded (b @ r)" and "length b < 2 ^ 63"
    and "hs_wf (ctx_header vt m)" and "hs_listing (ctx_header vt m) = []"
    and "length (hs_arr (ctx_header vt m)) \<le> UNKNOWN_HEADER_FIELD_ID"
    and complete: "\<And>h. hs_wf h \<Longrightarrow> hs_arr h = hs_arr (ctx_header vt m) \<Longrightarrow> list_all parsed_ok (hs_listing h) \<Longrightarrow>
      map field_view (hs_listing h) = map field_view fs \<Longrightarrow>
      \<exists>m'. header_complete (mp_obj p) (ctx_header_put vt h m) = Inr (True, m') \<and>
        ctx_body vt m' = apt_string_reset\<lparr>str_length := length b\<rparr> \<and> Q m'"
  shows "\<exists>m1 m' cs p' s'. parser_header_stage A p m s = Inr (APT_MESSAGE_STATUS_COMPLETE, Some m', p', s') \<and>
    Q m1 \<and> m' = fold (ctx_body_put vt) cs m1 \<and> str_bytes (ctx_body vt m') = b \<and> ts_rest s' = r"
proof -
  let ?xs = "fields_text fs @ [APT_TOKEN_CR]"
  let ?s = "s\<lparr>ts_pos := ts_pos s + length (fields_text fs @ CRLF)\<rparr>"
  have wf: "ts_wf s" using assms(4) by (simp add: stream_ok_def ts_wf_def)
  obtain h where sec: "apt_header_section_parse (ctx_header vt m) s = (True, h, ?s)" "hs_wf h"
    "hs_arr h = hs_arr (ctx_header vt m)" "map field_view (hs_listing h) = map field_view fs" "list_all parsed_ok (hs_listing h)"
    using section_parse_text [OF assms(7,8,10,12,6) wf assms(5)] assms(11) by auto
  obtain m1 where m1: "header_complete (mp_obj p) (ctx_header_put vt h m) = Inr (True, m1)"
    "ctx_body vt m1 = apt_string_reset\<lparr>str_length := length b\<rparr>" "Q m1"
    using complete [OF sec(2,3,5,4)] by blast
  have "ts_rest s = ?xs @ [APT_TOKEN_LF] @ b @ r" using assms(6) by simp
  from crlf_test_unchanged [OF this wf] have "apt_crlf_segmentation_test p ?s = Inr p" by simp
  then have st: "parser_header_stage A p m s = parser_content_stage A p m1 ?s"
    using sec(1) m1(1) assms(3) handler by (simp add: parser_header_stage_def Let_def)
  have rest: "ts_rest ?s = b @ r" using ts_rest_advance [of s "fields_text fs @ CRLF" "b @ r"] assms(6) by simp
  have "length (fields_text fs @ CRLF) \<le> length (ts_rest s)" using assms(6) by simp
  then have "stream_ok ?s" using assms(4) by (auto simp: stream_ok_def ts_rest_def)
  from content_stage_reads [OF assms(1-3) this rest m1(2) assms(9)] m1(3) show ?thesis unfolding st by blast
qed

lemma run_reads:
  assumes "mp_vtable p = vt" and "mp_stage p = APT_MESSAGE_STAGE_START_LINE" and "\<not> mp_skip_lf p"
    and "on_start vt (mp_obj p) t = Inr (True, Some m, s)" and "ts_rest s \<noteq> []"
  shows "apt_message_parser_run A p t =
    parser_header_stage A (p\<lparr>mp_skip_lf := False, mp_message := Some m, mp_stage := APT_MESSAGE_STAGE_HEADER\<rparr>) m s"
proof -
  have "ts_pos s \<noteq> ts_end s" using assms(5) by (auto simp: ts_rest_def)
  then show ?thesis using assms(1-4)
    by (simp add: apt_message_parser_run_def parser_start_stage_def apt_crlf_segmentation_test_def Let_def)
qed

end

end
