(* ===== verification/MrcpStream.thy ===== *)
theory MrcpStream
  imports AptTextMessage MrcpMessage
begin

text \<open>
  MRCP messages on a stream (\<open>mrcp_stream.c\<close>): the functions that plug MRCP into the text
  message parser and generator, and \<open>mrcp_message_generate\<close>, which MRCPv1 uses to put a message
  into the body of an RTSP message.

  \<open>struct mrcp_parser_t\<close> is the text message parser whose object holds the factory and the
  resource that MRCPv1 messages belong to.
\<close>

section \<open>Parser\<close>

record 'r mrcp_parser_obj =
  po_resource_factory :: "'r mrcp_resource_factory"
  po_resource :: "'r mrcp_resource option"

type_synonym 'r mrcp_parser = "('r mrcp_message, 'r mrcp_parser_obj) apt_message_parser"

definition mrcp_parser_on_start ::
  "apr \<Rightarrow> 'r mrcp_parser_obj \<Rightarrow> apt_text_stream \<Rightarrow> fault + bool \<times> 'r mrcp_message option \<times> apt_text_stream" where
  "mrcp_parser_on_start A obj s =
     (case apt_text_line_read s of (ok, line, s) \<Rightarrow>
        if \<not> ok then Inr (False, None, s)
        else let m = mrcp_message_create A
             in case mrcp_start_line_parse (msg_start_line m) line of (ok, sl) \<Rightarrow>
               if \<not> ok then Inr (False, None, s)
               else let m = m\<lparr>msg_start_line := sl\<rparr>
                    in if sl_version sl = MRCP_VERSION_1
                       then case po_resource obj of None \<Rightarrow> Inr (False, None, s)
                            | Some res \<Rightarrow>
                                let m = m\<lparr>msg_channel_id := (msg_channel_id m)
                                          \<lparr>ch_resource_name := apt_string_copy (res_name res)\<rparr>\<rparr>
                                in sbind (mrcp_message_resource_set A m (Some res)) (\<lambda>(ok, m).
                                     if \<not> ok then Inr (False, None, s) else Inr (True, Some m, s))
                       else Inr (True, Some m, s))"

text \<open>Reading the channel identifier of an MRCPv2 message and finding its resource.\<close>

definition channel_resource_set ::
  "apr \<Rightarrow> 'r mrcp_parser_obj \<Rightarrow> 'r mrcp_message \<Rightarrow> fault + bool \<times> 'r mrcp_message" where
  "channel_resource_set A obj m =
     sbind (mrcp_channel_id_parse (msg_channel_id m) (msg_header m)) (\<lambda>(ok, ch, h).
       let m = m\<lparr>msg_channel_id := ch, msg_header := h\<rparr>
       in if \<not> ok then Inr (False, m)
          else case mrcp_resource_find (po_resource_factory obj) (ch_resource_name ch) of
                 None \<Rightarrow> Inr (False, m)
               | Some res \<Rightarrow> mrcp_message_resource_set A m (Some res))"

definition mrcp_parser_on_header_complete ::
  "apr \<Rightarrow> 'r mrcp_parser_obj \<Rightarrow> 'r mrcp_message \<Rightarrow> fault + bool \<times> 'r mrcp_message" where
  "mrcp_parser_on_header_complete A obj m =
     sbind (if sl_version (msg_start_line m) = MRCP_VERSION_2 then channel_resource_set A obj m
            else Inr (True, m)) (\<lambda>(ok, m).
       if \<not> ok then Inr (False, m)
       else sbind (mrcp_header_fields_parse (msg_header m)) (\<lambda>h.
              let m = m\<lparr>msg_header := h\<rparr>
              in Inr (True,
                   if mrcp_generic_header_property_check m GENERIC_HEADER_CONTENT_LENGTH
                   then case mrcp_generic_header_get m of
                          Some gh \<Rightarrow> if gh_content_length gh \<noteq> 0
                                      then m\<lparr>msg_body := (msg_body m)\<lparr>str_length := unat (gh_content_length gh)\<rparr>\<rparr>
                                      else m
                        | None \<Rightarrow> m
                   else m)))"

definition mrcp_parser_vtable :: "apr \<Rightarrow> ('r mrcp_message, 'r mrcp_parser_obj) parser_vtable" where
  "mrcp_parser_vtable A =
     \<lparr>on_start = mrcp_parser_on_start A, on_header_complete = Some (mrcp_parser_on_header_complete A),
      on_body_complete = None, ctx_header = (\<lambda>m. mh_section (msg_header m)),
      ctx_header_put = (\<lambda>sec m. m\<lparr>msg_header := (msg_header m)\<lparr>mh_section := sec\<rparr>\<rparr>),
      ctx_body = msg_body, ctx_body_put = (\<lambda>b m. m\<lparr>msg_body := b\<rparr>)\<rparr>"

definition mrcp_parser_create :: "apr \<Rightarrow> 'r mrcp_resource_factory \<Rightarrow> 'r mrcp_parser" where
  "mrcp_parser_create A resource_factory =
     apt_message_parser_create \<lparr>po_resource_factory = resource_factory, po_resource = None\<rparr> (mrcp_parser_vtable A)"

definition mrcp_parser_resource_set :: "'r mrcp_parser \<Rightarrow> apt_str option \<Rightarrow> 'r mrcp_parser" where
  "mrcp_parser_resource_set p resource_name =
     (case resource_name of None \<Rightarrow> p
      | Some name \<Rightarrow> p\<lparr>mp_obj := (mp_obj p)
          \<lparr>po_resource := mrcp_resource_find (po_resource_factory (mp_obj p)) name\<rparr>\<rparr>)"

definition mrcp_parser_verbose_set :: "'r mrcp_parser \<Rightarrow> bool \<Rightarrow> 'r mrcp_parser" where
  "mrcp_parser_verbose_set p verbose = apt_message_parser_verbose_set p verbose"

definition mrcp_parser_run ::
  "apr \<Rightarrow> 'r mrcp_parser \<Rightarrow> apt_text_stream \<Rightarrow> ('r mrcp_message, 'r mrcp_parser_obj) parser_result" where
  "mrcp_parser_run A p s = apt_message_parser_run A p s"

section \<open>Generator\<close>

type_synonym 'r mrcp_generator = "'r mrcp_message apt_message_generator"

text \<open>Validating the message, its start line and, in MRCPv2, its channel identifier.\<close>

definition message_start_generate ::
  "apr \<Rightarrow> 'r mrcp_message \<Rightarrow> apt_text_stream \<Rightarrow> fault + bool \<times> 'r mrcp_message \<times> apt_text_stream" where
  "message_start_generate A m s =
     sbind (mrcp_message_validate m) (\<lambda>(ok, m).
       if \<not> ok then Inr (False, m, s)
       else sbind (mrcp_start_line_generate A (msg_start_line m) s) (\<lambda>(ok, sl, s).
            let m = m\<lparr>msg_start_line := sl\<rparr>
            in if \<not> ok then Inr (False, m, s)
               else if sl_version sl = MRCP_VERSION_2
               then sbind (mrcp_channel_id_generate (msg_channel_id m) s) (\<lambda>(_, s). Inr (True, m, s))
               else Inr (True, m, s)))"

definition mrcp_generator_on_start ::
  "apr \<Rightarrow> 'r mrcp_message \<Rightarrow> apt_text_stream \<Rightarrow> fault + bool \<times> bool \<times> 'r mrcp_message \<times> apt_text_stream" where
  "mrcp_generator_on_start A m s =
     sbind (message_start_generate A m s) (\<lambda>(ok, m, s). Inr (ok, ok, m, s))"

definition mrcp_generator_on_header_complete ::
  "'r mrcp_message \<Rightarrow> apt_text_stream \<Rightarrow> fault + bool \<times> 'r mrcp_message \<times> apt_text_stream" where
  "mrcp_generator_on_header_complete m s =
     sbind (mrcp_start_line_finalize (msg_start_line m) (str_length (msg_body m)) s) (\<lambda>(ok, sl, s).
       Inr (ok, m\<lparr>msg_start_line := sl\<rparr>, s))"

definition mrcp_generator_vtable :: "apr \<Rightarrow> 'r mrcp_message generator_vtable" where
  "mrcp_generator_vtable A =
     \<lparr>gen_on_start = mrcp_generator_on_start A,
      gen_on_header_complete = Some mrcp_generator_on_header_complete,
      gen_header = (\<lambda>m. mh_section (msg_header m)), gen_body = msg_body,
      gen_body_put = (\<lambda>b m. m\<lparr>msg_body := b\<rparr>)\<rparr>"

definition mrcp_generator_create :: "apr \<Rightarrow> 'r mrcp_generator" where
  "mrcp_generator_create A = apt_message_generator_create (mrcp_generator_vtable A)"

definition mrcp_generator_verbose_set :: "'r mrcp_generator \<Rightarrow> bool \<Rightarrow> 'r mrcp_generator" where
  "mrcp_generator_verbose_set g verbose = apt_message_generator_verbose_set g verbose"

definition mrcp_generator_run ::
  "'r mrcp_generator \<Rightarrow> (nat \<times> 'r mrcp_message) option \<Rightarrow> apt_text_stream \<Rightarrow>
   fault + apt_message_status \<times> 'r mrcp_generator \<times> 'r mrcp_message option \<times> apt_text_stream" where
  "mrcp_generator_run g message s = apt_message_generator_run g message s"

definition mrcp_message_generate ::
  "apr \<Rightarrow> 'r mrcp_message \<Rightarrow> apt_text_stream \<Rightarrow> fault + bool \<times> 'r mrcp_message \<times> apt_text_stream" where
  "mrcp_message_generate A m s =
     sbind (message_start_generate A m s) (\<lambda>(ok, m, s).
       if \<not> ok then Inr (False, m, s)
       else sbind (apt_header_section_generate (mh_section (msg_header m)) s) (\<lambda>(ok, s).
            if \<not> ok then Inr (False, m, s)
            else mrcp_generator_on_header_complete m s))"

section \<open>MRCP is a message protocol\<close>

lemma resource_set_keeps:
  assumes "mrcp_message_resource_set A m res = Inr (ok, m')"
  shows "msg_body m' = msg_body m \<and> msg_channel_id m' = msg_channel_id m"
  using assms
  by (auto simp: mrcp_message_resource_set_def resource_header_alloc_def sbind_eq_Inr_iff Let_def
      split: option.splits)

lemma on_start_cases:
  assumes "mrcp_parser_on_start A obj s = Inr (ok, msg, s')"
  shows "(\<exists>b l. apt_text_line_read s = (b, l, s')) \<and> (ok \<longrightarrow> (\<exists>m. msg = Some m \<and> msg_body m = apt_string_reset))"
proof -
  obtain b l s1 where l: "apt_text_line_read s = (b, l, s1)" by (metis prod_cases3)
  obtain c sl where sl: "mrcp_start_line_parse (blank_start_line A) l = (c, sl)" by fastforce
  show ?thesis
    using assms resource_set_keeps
    by (auto simp: mrcp_parser_on_start_def l sl mrcp_message_create_def Let_def sbind_eq_Inr_iff
        split: if_splits option.splits; fastforce)
qed

lemma header_complete_body:
  assumes "str_length (msg_body m) < 2 ^ 64" and "mrcp_parser_on_header_complete A obj m = Inr (ok, m')"
  shows "str_length (msg_body m') < 2 ^ 64"
proof -
  have k: "msg_body m1 = msg_body m" if "channel_resource_set A obj m = Inr (c, m1)" for c m1
    using that resource_set_keeps
    by (auto simp: channel_resource_set_def sbind_eq_Inr_iff Let_def split: if_splits option.splits; fastforce)
  have u: "unat (w :: 64 word) < 2 ^ 64" for w using unsigned_less [of w, where 'a = nat] by simp
  show ?thesis
    using assms k u
    by (auto simp: mrcp_parser_on_header_complete_def sbind_eq_Inr_iff Let_def split: if_splits option.splits; fastforce)
qed

interpretation mrcp: message_protocol "mrcp_parser_vtable A" "mrcp_parser_on_header_complete A" for A
proof (unfold_locales, goal_cases)
  case (2 m obj ok m')
  then show ?case using header_complete_body [of m A obj ok m'] by (simp add: mrcp_parser_vtable_def)
next
  case (3 obj s ok msg s')
  then show ?case using on_start_cases [of A obj s ok msg s'] ts_reads_line by (auto simp: mrcp_parser_vtable_def)
next
  case (4 obj s ok msg s')
  then show ?case using on_start_cases [of A obj s ok msg s'] line_read_eos by (auto simp: mrcp_parser_vtable_def)
next
  case (5 obj s msg s')
  then show ?case using on_start_cases [of A obj s True msg s'] by (auto simp: mrcp_parser_vtable_def)
qed (simp_all add: mrcp_parser_vtable_def)

section \<open>Generating a message\<close>

text \<open>
  What is sent: an MRCPv2 message with a start line and a channel identifier that can be read
  back, header fields that do not announce a length themselves, and a body that does not start
  with white space.
\<close>

definition plain_field :: "header_field \<Rightarrow> bool" where
  "plain_field f \<longleftrightarrow> field_ok f \<and> NUL \<notin> set (str_bytes (hf_name f)) \<and>
     map tolower (str_bytes (hf_name f)) \<noteq> ''content-length''"

definition sendable :: "apr \<Rightarrow> 'r header_vtable \<Rightarrow> 'r mrcp_message \<Rightarrow> bool" where
  "sendable A vt m \<longleftrightarrow>
     start_line_ok (msg_start_line m) \<and> sl_version (msg_start_line m) = MRCP_VERSION_2 \<and>
     channel_ok (msg_channel_id m) \<and> header_ready A vt (msg_header m) \<and> hs_wf (mh_section (msg_header m)) \<and>
     hs_lookup (mh_section (msg_header m)) GENERIC_HEADER_CONTENT_LENGTH = None \<and>
     list_all plain_field (hs_listing (mh_section (msg_header m))) \<and>
     str_wf (msg_body m) \<and> unfolded (str_bytes (msg_body m))"

definition header_text :: "apr \<Rightarrow> 'r mrcp_message \<Rightarrow> char list" where
  "header_text A m = channel_line (msg_channel_id m) @ fields_text (sent_fields A m) @ CRLF"

lemma length_field_ok: "apr_ok A \<Longrightarrow> n < 2 ^ 64 \<Longrightarrow> field_ok (length_field A n)"
proof -
  assume a: "apr_ok A" "n < 2 ^ 64"
  have "dec n \<noteq> []" "no_eol (dec n)" "\<not> apt_text_is_wsp (hd (dec n))"
    using dec_token [of n] isdigit_not_special dec_isdigitD [of "hd (dec n)" n]
    by (auto simp: apt_text_is_wsp_def isdigit_def)
  then show ?thesis
    using size_value_generate_text [OF a]
    by (simp add: field_ok_def length_field_def header_name_ok_def header_value_ok_def no_eol_def str_bytes_def
        str_wf_def apt_text_is_wsp_def)
qed

lemma sent_fields_ok:
  assumes "apr_ok A" and "list_all plain_field (hs_listing (mh_section (msg_header m)))"
    and "str_length (msg_body m) < 2 ^ 64"
  shows "list_all field_ok (sent_fields A m)"
  using assms length_field_ok [OF assms(1,3)]
  by (auto simp: sent_fields_def plain_field_def list_all_iff)

lemma start_generate_text:
  assumes "apr_ok A" and "sendable A vt m" and "str_length (msg_body m) < 2 ^ 64"
    and "ts_room s (length (v2_reserved (msg_start_line m) @ CRLF @ channel_line (msg_channel_id m)))"
  shows "\<exists>m' s'. message_start_generate A m s = Inr (True, m', s') \<and>
    msg_start_line m' = (msg_start_line m)\<lparr>sl_length := 9\<rparr> \<and> msg_body m' = msg_body m \<and>
    hs_listing (mh_section (msg_header m')) = sent_fields A m \<and>
    ts_wrote s (v2_reserved (msg_start_line m) @ CRLF @ channel_line (msg_channel_id m)) s'"
proof -
  let ?sl = "msg_start_line m" and ?ch = "msg_channel_id m"
  have ok: "start_line_ok ?sl" "sl_version ?sl = MRCP_VERSION_2" "channel_ok ?ch"
    using assms(2) by (simp_all add: sendable_def)
  obtain m1 where m1: "mrcp_message_validate m = Inr (True, m1)" "msg_start_line m1 = ?sl"
      "msg_channel_id m1 = ?ch" "msg_body m1 = msg_body m"
      "hs_listing (mh_section (msg_header m1)) = sent_fields A m"
    using validate_fresh [of A vt m] assms(2,3) by (auto simp: sendable_def)
  have "ts_room s (length (v2_reserved ?sl) + 2)" by (rule ts_room_mono [OF assms(4)]) simp
  from generate_start_line_v2 [OF assms(1) ok(1,2) this] obtain s1 where
    s1: "mrcp_start_line_generate A ?sl s = Inr (True, ?sl\<lparr>sl_length := 9\<rparr>, s1)"
      "ts_wrote s (v2_reserved ?sl @ CRLF) s1" by blast
  have r: "ts_room s1 (length (channel_line ?ch))" using assms(4) by (simp add: ts_room_wrote [OF s1(2)])
  have "str_wf (ch_session_id ?ch)" "str_wf (ch_resource_name ?ch)" using ok(3) by (simp_all add: channel_ok_def)
  from gen_okD [OF gen_ok_channel_id [OF this] r] obtain s2 where
    s2: "mrcp_channel_id_generate ?ch s1 = Inr (True, s2)" "ts_wrote s1 (channel_line ?ch) s2" by blast
  have "message_start_generate A m s = Inr (True, m1\<lparr>msg_start_line := ?sl\<lparr>sl_length := 9\<rparr>\<rparr>, s2)"
    using m1(1-3) s1(1) s2(1) ok(2) by (simp add: message_start_generate_def)
  then show ?thesis using m1(4,5) ts_wrote_trans [OF s1(2) s2(2)] by simp
qed

interpretation mrcp_gen: generator_protocol "mrcp_generator_vtable A" for A
  by unfold_locales (simp add: mrcp_generator_vtable_def)

text \<open>The whole message as bytes, with its length \<open>n\<close> in the start line.\<close>

definition message_text :: "apr \<Rightarrow> 'r mrcp_message \<Rightarrow> nat \<Rightarrow> char list" where
  "message_text A m n =
     line_text (msg_start_line m) n @ CRLF @ header_text A m @ str_bytes (msg_body m)"

text \<open>A buffer with room for the message, and a message whose length has at most six digits.\<close>

definition fits :: "apr \<Rightarrow> 'r mrcp_message \<Rightarrow> apt_text_stream \<Rightarrow> bool" where
  "fits A m s \<longleftrightarrow>
     ts_room s (length (v2_reserved (msg_start_line m) @ CRLF @ header_text A m) + str_length (msg_body m)) \<and>
     ts_buf s = ts_pos s \<and> ts_end s = ts_buf s + ts_length s \<and>
     12 + length (v2_tail (msg_start_line m)) + length (header_text A m) + str_length (msg_body m) < 999994"

lemma header_generate_text:
  assumes "apr_ok A" and "sendable A vt m" and "fits A m s"
  shows "\<exists>m1 s1 s2 n s3. message_start_generate A m s = Inr (True, m1, s1) \<and>
    apt_header_section_generate (mh_section (msg_header m1)) s1 = Inr (True, s2) \<and>
    mrcp_generator_on_header_complete m1 s2 =
      Inr (True, m1\<lparr>msg_start_line := (msg_start_line m)\<lparr>sl_length := of_nat n\<rparr>\<rparr>, s3) \<and>
    msg_body m1 = msg_body m \<and> ts_holds s3 (line_text (msg_start_line m) n @ CRLF @ header_text A m) \<and>
    n = ts_pos s3 - ts_buf s3 + str_length (msg_body m) \<and> n < 10 ^ 6 \<and>
    ts_room s3 (str_length (msg_body m)) \<and> str_length (msg_body m) \<le> stream_room s3"
proof -
  let ?sl = "msg_start_line m" and ?ch = "msg_channel_id m" and ?b = "str_length (msg_body m)"
  let ?f = "fields_text (sent_fields A m) @ CRLF"
  let ?start = "v2_reserved ?sl @ CRLF @ channel_line ?ch"
  have v2: "sl_version ?sl = MRCP_VERSION_2" using assms(2) by (simp add: sendable_def)
  have b: "?b < 2 ^ 64" using assms(3) by (simp add: fits_def)
  have room: "ts_room s (length ?start + length ?f + ?b)"
    using assms(3) by (simp add: fits_def header_text_def add.assoc)
  have "ts_room s (length ?start)" by (rule ts_room_mono [OF room]) simp
  from start_generate_text [OF assms(1,2) b this] obtain m1 s1 where
    m1: "message_start_generate A m s = Inr (True, m1, s1)" "msg_start_line m1 = ?sl\<lparr>sl_length := 9\<rparr>"
      "msg_body m1 = msg_body m" "hs_listing (mh_section (msg_header m1)) = sent_fields A m" "ts_wrote s ?start s1"
    by blast
  have room1: "ts_room s1 (length ?f + ?b)" using room by (simp only: ts_room_wrote [OF m1(5)] add.assoc)
  then have "ts_room s1 (length (fields_text (sent_fields A m)) + 2)" by (rule ts_room_mono) simp
  moreover have "list_all field_ok (sent_fields A m)"
    using sent_fields_ok [OF assms(1) _ b] assms(2) by (simp add: sendable_def)
  ultimately obtain s2 where
    s2: "apt_header_section_generate (mh_section (msg_header m1)) s1 = Inr (True, s2)" "ts_wrote s1 ?f s2"
    using section_generate_room [of s1 "mh_section (msg_header m1)"] m1(4) by auto
  have w: "ts_wrote s (v2_reserved ?sl @ CRLF @ header_text A m) s2"
    using ts_wrote_trans [OF m1(5) s2(2)] by (simp add: header_text_def)
  have buf: "ts_buf s = ts_pos s"
    and small: "12 + length (v2_tail ?sl) + length (header_text A m) + ?b < 999994"
    and e: "ts_end s = ts_buf s + ts_length s"
    using assms(3) by (simp_all add: fits_def)
  obtain n s3 zs where fin: "mrcp_start_line_finalize (?sl\<lparr>sl_length := 9\<rparr>) ?b s2 =
        Inr (True, ?sl\<lparr>sl_length := of_nat n\<rparr>, s3)"
      "n = ts_pos s3 - ts_buf s3 + ?b" "n < 10 ^ 6" "ts_pos s3 = ts_pos s2" "ts_end s3 = ts_end s2"
      "ts_buf s \<le> ts_buf s3" "ts_buf s3 \<le> ts_pos s3" "length (ts_mem s3) = length (ts_mem s2)"
      "ts_length s3 = ts_length s2 - (ts_buf s3 - ts_buf s2)"
      "drop (ts_buf s3) (ts_mem s3) = line_text ?sl n @ CRLF @ header_text A m @ zs"
      "ts_pos s3 - ts_buf s3 = length (line_text ?sl n @ CRLF @ header_text A m)"
    using finalize_text [OF v2 w buf small] by blast
  have room2: "ts_room s2 ?b" using room1 by (simp only: ts_room_wrote [OF s2(2)])
  then have room3: "ts_room s3 ?b" using fin(4,5,8) by (simp add: ts_room_def)
  have "stream_room s3 = ts_end s3 - ts_pos s3"
    by (rule stream_room_eq) (use fin(4-7,9) e ts_wroteD [OF w] ts_roomD [OF room3] in \<open>simp_all\<close>)
  then have "?b \<le> stream_room s3" using ts_roomD [OF room3] by linarith
  moreover have "ts_holds s3 (line_text ?sl n @ CRLF @ header_text A m)"
    using fin(7,10,11) fin(4,8) ts_wroteD(4) [OF w] by (simp add: ts_holds_def)
  ultimately show ?thesis
    using m1(1-3) s2(1) fin(1-3) room3 by (simp add: mrcp_generator_on_header_complete_def)
qed

lemma generator_run_text:
  assumes "apr_ok A" and "sendable A vt m" and "fits A m s"
  shows "\<exists>g m' s'. mrcp_generator_run (mrcp_generator_create A) (Some (ptr, m)) s =
      Inr (APT_MESSAGE_STATUS_COMPLETE, g, Some m', s') \<and>
    (\<exists>n. ts_holds s' (message_text A m n) \<and> n = length (message_text A m n) \<and> n < 10 ^ 6)"
proof -
  let ?sl = "msg_start_line m" and ?b = "str_length (msg_body m)"
  obtain m1 s1 s2 n s3 where g: "message_start_generate A m s = Inr (True, m1, s1)"
    "apt_header_section_generate (mh_section (msg_header m1)) s1 = Inr (True, s2)"
    "mrcp_generator_on_header_complete m1 s2 = Inr (True, m1\<lparr>msg_start_line := ?sl\<lparr>sl_length := of_nat n\<rparr>\<rparr>, s3)"
    "msg_body m1 = msg_body m" "ts_holds s3 (line_text ?sl n @ CRLF @ header_text A m)"
    "n = ts_pos s3 - ts_buf s3 + ?b" "n < 10 ^ 6" "ts_room s3 ?b" "?b \<le> stream_room s3"
    using header_generate_text [OF assms] by blast
  let ?m = "m1\<lparr>msg_start_line := ?sl\<lparr>sl_length := of_nat n\<rparr>\<rparr>"
  have wf: "str_wf (msg_body m)" using assms(2) by (simp add: sendable_def)
  have "ts_pos s3 - ts_buf s3 = length (line_text ?sl n @ CRLF @ header_text A m)"
    using g(5) unfolding ts_holds_def by blast
  moreover have "length (message_text A m n) = length (line_text ?sl n @ CRLF @ header_text A m) + ?b"
    using length_str_bytes [OF wf] by (simp add: message_text_def)
  ultimately have n: "n = length (message_text A m n)" using g(6) by linarith
  have "\<exists>g m' s'. mrcp_generator_run (mrcp_generator_create A) (Some (ptr, m)) s =
      Inr (APT_MESSAGE_STATUS_COMPLETE, g, Some m', s') \<and>
      ts_holds s' ((line_text ?sl n @ CRLF @ header_text A m) @ str_bytes (gen_body (mrcp_generator_vtable A) ?m))"
    unfolding mrcp_generator_run_def mrcp_generator_create_def
    by (rule mrcp_gen.run_writes [of A m s m1 s1 s2 True])
      (use g wf in \<open>simp_all add: mrcp_generator_vtable_def mrcp_generator_on_start_def\<close>)
  then show ?thesis using n g(4,7) by (auto simp: message_text_def mrcp_generator_vtable_def)
qed

section \<open>Reading a message\<close>

text \<open>
  A resource whose tables for a version are in order; where no version is given it is MRCPv2. And a
  start line with a method or an event of the resource.
\<close>

definition resource_tables_at :: "mrcp_version \<Rightarrow> 'r mrcp_resource \<Rightarrow> bool" where
  "resource_tables_at version res \<longleftrightarrow>
     (case (res_get_method_str_table res, res_get_event_str_table res, res_get_resource_header_vtable res) of
        (Some gm, Some ge, Some gv) \<Rightarrow>
          string_table (gm version) (res_method_count res) \<and>
          string_table (ge version) (res_event_count res) \<and> names_disjoint (gv version)
      | _ \<Rightarrow> False)"

abbreviation resource_tables_ok :: "'r mrcp_resource \<Rightarrow> bool" where
  "resource_tables_ok \<equiv> resource_tables_at MRCP_VERSION_2"

definition known_method :: "'r mrcp_resource \<Rightarrow> mrcp_start_line \<Rightarrow> bool" where
  "known_method res sl \<longleftrightarrow>
     (case resource_name_table res (sl_message_type sl) MRCP_VERSION_2 of
        Inl _ \<Rightarrow> False
      | Inr None \<Rightarrow> True
      | Inr (Some (items, count)) \<Rightarrow>
          NUL \<notin> set (str_bytes (sl_method_name sl)) \<and>
          (\<exists>i < count. item_fold (items ! i) = map tolower (str_bytes (sl_method_name sl))))"

lemma resource_set_text:
  assumes "resource_tables_ok res" and "res_get_resource_header_vtable res = Some gv" and "known_method res sl"
    and "start_line_equiv sl (msg_start_line m)" and "sl_version sl = MRCP_VERSION_2"
  shows "\<exists>h i. mrcp_message_resource_set A m (Some res) =
      Inr (True, m\<lparr>msg_resource := Some res, msg_header := h,
                    msg_start_line := (msg_start_line m)\<lparr>sl_method_id := i\<rparr>\<rparr>) \<and>
    header_ready A (gv MRCP_VERSION_2) h \<and> acc_data (mh_generic h) = Some mrcp_generic_header_init \<and>
    mh_section h = (mh_section (msg_header m))
      \<lparr>hs_arr := replicate (GENERIC_HEADER_COUNT + vt_field_count (gv MRCP_VERSION_2)) None\<rparr>"
proof -
  let ?m = "m\<lparr>msg_resource := Some res\<rparr>" and ?sl = "msg_start_line m"
  have v: "sl_version ?sl = MRCP_VERSION_2" "sl_message_type ?sl = sl_message_type sl"
    using assms(4,5) by (auto simp: start_line_equiv_def)
  obtain h where h: "resource_header_alloc A res ?m = Inr (?m\<lparr>msg_header := h\<rparr>)"
    "header_ready A (gv MRCP_VERSION_2) h" "acc_data (mh_generic h) = Some mrcp_generic_header_init"
    "mh_section h = (mh_section (msg_header m))
      \<lparr>hs_arr := replicate (GENERIC_HEADER_COUNT + vt_field_count (gv MRCP_VERSION_2)) None\<rparr>"
    using header_alloc_ready [OF assms(2), of A ?m] v by auto
  have "(\<exists>i. mrcp_message_resource_set A m (Some res) =
      Inr (True, m\<lparr>msg_resource := Some res, msg_header := h, msg_start_line := ?sl\<lparr>sl_method_id := i\<rparr>\<rparr>))"
  proof (cases "resource_name_table res (sl_message_type sl) MRCP_VERSION_2")
    case (Inl e)
    then show ?thesis using assms(3) by (simp add: known_method_def)
  next
    case (Inr tab)
    show ?thesis
    proof (cases tab)
      case None
      have "?sl = ?sl\<lparr>sl_method_id := sl_method_id ?sl\<rparr>" by simp
      then show ?thesis using Inr None h(1) v by (auto simp: mrcp_message_resource_set_def intro!: exI [of _ "sl_method_id ?sl"])
    next
      case (Some ic)
      obtain items count where ic: "ic = (items, count)" by fastforce
      obtain i where i: "i < count" "item_fold (items ! i) = map tolower (str_bytes (sl_method_name sl))"
        "NUL \<notin> set (str_bytes (sl_method_name sl))"
        using assms(3) Inr Some ic by (auto simp: known_method_def)
      have "sl_message_type sl \<noteq> MRCP_MESSAGE_TYPE_RESPONSE" "string_table items count"
        using Inr Some ic assms(1) by (auto simp: resource_name_table_def resource_tables_at_def split: if_splits option.splits)
      then have "apt_string_table_id_find items count (sl_method_name ?sl) = i"
        using assms(4) i by (intro string_table.id_find_eq) (auto simp: start_line_equiv_def)
      then show ?thesis
        using Inr Some ic h(1) v i(1) by (auto simp: mrcp_message_resource_set_def Let_def)
    qed
  qed
  then show ?thesis using h(2-4) by blast
qed

text \<open>The values of the generic header do not depend on each other.\<close>

lemma content_length_fold:
  "\<forall>f \<in> set fs. generic_field_id f \<noteq> GENERIC_HEADER_CONTENT_LENGTH \<Longrightarrow>
   gh_content_length (foldl (\<lambda>g f. generic_step A f g) g fs) = gh_content_length g"
proof (induction fs arbitrary: g)
  case (Cons f fs)
  have "gh_content_length (generic_step A f g) = gh_content_length g"
    using Cons.prems by (simp add: generic_step_def mrcp_generic_header_parse_def Let_def)
  with Cons show ?case by simp
qed simp

lemma field_check_get: "apt_header_section_field_check h i \<longleftrightarrow> apt_header_section_field_get h i \<noteq> None"
  by (simp add: apt_header_section_field_check_def apt_header_section_field_get_def)

lemma listing_Cons:
  "hs_listing h = f # fs \<Longrightarrow> \<exists>a ring. hs_ring h = a # ring \<and> hs_field h a = f \<and> map (hs_field h) ring = fs"
  by (cases "hs_ring h") (auto simp: hs_listing_def)

text \<open>The length a body gets from the fields \<open>fs\<close> of the header.\<close>

definition announced :: "header_field list \<Rightarrow> nat \<Rightarrow> bool" where
  "announced fs n \<longleftrightarrow>
     (\<exists>fs1. (\<forall>f \<in> set fs1. generic_field_id f \<noteq> GENERIC_HEADER_CONTENT_LENGTH) \<and>
       (if n = 0 then fs = fs1
        else \<exists>f. fs = fs1 @ [f] \<and> generic_field_id f = GENERIC_HEADER_CONTENT_LENGTH \<and>
               str_mem (hf_value f) = dec n @ [NUL] \<and> str_length (hf_value f) = length (dec n)))"

lemma announced_length:
  assumes "announced fs n" and "n < 2 ^ 63" and "fs = map (hs_field h) ring"
  shows "(find (\<lambda>a. generic_field_id (hs_field h a) = GENERIC_HEADER_CONTENT_LENGTH) ring \<noteq> None) = (n \<noteq> 0)"
    and "gh_content_length (foldl (\<lambda>g a. generic_step A (hs_field h a) g) mrcp_generic_header_init ring) = of_nat n"
proof -
  have "(find (\<lambda>a. generic_field_id (hs_field h a) = GENERIC_HEADER_CONTENT_LENGTH) ring = None) =
      (\<forall>f \<in> set fs. generic_field_id f \<noteq> GENERIC_HEADER_CONTENT_LENGTH)"
    by (auto simp: assms(3) find_None_iff)
  then show "(find (\<lambda>a. generic_field_id (hs_field h a) = GENERIC_HEADER_CONTENT_LENGTH) ring \<noteq> None) = (n \<noteq> 0)"
    using assms(1) by (auto simp: announced_def split: if_splits)
  have f: "foldl (\<lambda>g a. generic_step A (hs_field h a) g) g ring = foldl (\<lambda>g f. generic_step A f g) g fs" for g
    by (simp add: assms(3) foldl_map)
  have z: "gh_content_length mrcp_generic_header_init = 0" by (simp add: mrcp_generic_header_init_def)
  show "gh_content_length (foldl (\<lambda>g a. generic_step A (hs_field h a) g) mrcp_generic_header_init ring) = of_nat n"
  proof (cases "n = 0")
    case True
    then show ?thesis using assms(1) content_length_fold [of fs] by (simp add: f z announced_def)
  next
    case False
    then obtain fs1 l where l: "fs = fs1 @ [l]" "\<forall>f \<in> set fs1. generic_field_id f \<noteq> GENERIC_HEADER_CONTENT_LENGTH"
      "generic_field_id l = GENERIC_HEADER_CONTENT_LENGTH" "str_mem (hf_value l) = dec n @ [NUL]"
      "str_length (hf_value l) = length (dec n)"
      using assms(1) by (auto simp: announced_def)
    have "str_buf (hf_value l) = Some (dec n @ [NUL])"
      using l(4) by (auto simp: str_mem_def split: option.splits)
    moreover have "atol (dec n @ [NUL]) = int n"
      using assms(2) by (intro atol_dec) (auto simp: byte_def isdigit_def)
    ultimately have "apt_size_value_parse (hf_value l) = of_nat n"
      by (simp add: apt_size_value_parse_def)
    moreover have "str_length (hf_value l) \<noteq> 0" using l(5) dec_token(1) [of n] by simp
    ultimately show ?thesis
      using l(3) unfolding f l(1) by (simp add: generic_step_def mrcp_generic_header_parse_def)
  qed
qed

lemma hs_wf_arr_None: "hs_wf h \<Longrightarrow> hs_wf (h\<lparr>hs_arr := replicate n None\<rparr>)"
  by (simp add: hs_wf_def hs_field_def)

lemma remove_first:
  assumes "hs_wf h" and "hs_arr h = []" and "hs_ring h = a # ring"
  shows "snd (apt_header_section_field_remove h a) = h\<lparr>hs_ring := ring\<rparr>"
proof -
  have "a \<notin> set ring" using assms(1,3) by (simp add: hs_wf_def)
  then show ?thesis using assms(2,3) by (simp add: apt_header_section_field_remove_def Let_def)
qed

lemma hs_field_ring [simp]: "hs_field (h\<lparr>hs_ring := r\<rparr>) = hs_field h" "hs_field (h\<lparr>hs_arr := a\<rparr>) = hs_field h"
  by (simp_all add: hs_field_def fun_eq_iff)

lemma header_complete_text:
  assumes "resource_tables_ok res" and "known_method res sl"
    and "rf_hash (po_resource_factory obj) (str_bytes (ch_resource_name ch)) = Some res"
    and "str_bytes (ch_resource_name ch) \<noteq> []" and "channel_ok ch"
    and "start_line_equiv sl (msg_start_line m)" and "sl_version sl = MRCP_VERSION_2"
    and "hs_wf (mh_section (msg_header m))" and "hs_arr (mh_section (msg_header m)) = []"
    and "hs_listing (mh_section (msg_header m)) = cf # fs" and "parsed_ok cf"
    and "field_view cf = (MRCP_CHANNEL_ID, channel_value ch)" and "announced fs n" and "n < 2 ^ 63"
    and "msg_body m = apt_string_reset"
  shows "\<exists>m'. mrcp_parser_on_header_complete A obj m = Inr (True, m') \<and>
    start_line_equiv sl (msg_start_line m') \<and> sl_length (msg_start_line m') = sl_length (msg_start_line m) \<and>
    str_bytes (ch_session_id (msg_channel_id m')) = str_bytes (ch_session_id ch) \<and>
    str_bytes (ch_resource_name (msg_channel_id m')) = str_bytes (ch_resource_name ch) \<and>
    map field_view (hs_listing (mh_section (msg_header m'))) = map field_view fs \<and>
    msg_body m' = apt_string_reset\<lparr>str_length := n\<rparr> \<and> msg_resource m' = Some res"
proof -
  let ?h = "mh_section (msg_header m)"
  obtain a ring where ring: "hs_ring ?h = a # ring" "hs_field ?h a = cf" "map (hs_field ?h) ring = fs"
    using listing_Cons [OF assms(10)] by blast
  obtain ch' where ch': "channel_id_loop (hs_ring ?h) (msg_channel_id m) ?h =
        Inr (True, ch', snd (apt_header_section_field_remove ?h a))"
      "str_bytes (ch_session_id ch') = str_bytes (ch_session_id ch)"
      "str_bytes (ch_resource_name ch') = str_bytes (ch_resource_name ch)" "str_wf (ch_resource_name ch')"
    using channel_id_loop_found [of ?h a ch ring "msg_channel_id m"] assms(5,11,12) ring(1,2) by auto
  let ?h1 = "?h\<lparr>hs_ring := ring\<rparr>"
  let ?m1 = "m\<lparr>msg_channel_id := ch', msg_header := (msg_header m)\<lparr>mh_section := ?h1\<rparr>\<rparr>"
  have rm: "snd (apt_header_section_field_remove ?h a) = ?h1" by (rule remove_first [OF assms(8,9) ring(1)])
  have wf1: "hs_wf ?h1" using hs_wf_remove [OF assms(8), of a] rm by simp
  have "str_bytes (ch_resource_name ch') \<noteq> []" using ch'(3) assms(4) by simp
  then have "str_buf (ch_resource_name ch') \<noteq> None" "str_length (ch_resource_name ch') \<noteq> 0"
    by (auto simp: str_bytes_def str_mem_def split: option.splits)
  then have find: "mrcp_resource_find (po_resource_factory obj) (ch_resource_name ch') = Some res"
    using assms(3) ch'(3) by (simp add: mrcp_resource_find_def)
  obtain gv where gv: "res_get_resource_header_vtable res = Some gv" "names_disjoint (gv MRCP_VERSION_2)"
    using assms(1) by (auto simp: resource_tables_at_def split: option.splits)
  obtain h i where set: "mrcp_message_resource_set A ?m1 (Some res) =
        Inr (True, ?m1\<lparr>msg_resource := Some res, msg_header := h,
                      msg_start_line := (msg_start_line m)\<lparr>sl_method_id := i\<rparr>\<rparr>)"
      "header_ready A (gv MRCP_VERSION_2) h" "acc_data (mh_generic h) = Some mrcp_generic_header_init"
      "mh_section h = ?h1\<lparr>hs_arr := replicate (GENERIC_HEADER_COUNT + vt_field_count (gv MRCP_VERSION_2)) None\<rparr>"
    using resource_set_text [OF assms(1) gv(1) assms(2), of ?m1 A] assms(6,7) by auto
  let ?m2 = "?m1\<lparr>msg_resource := Some res, msg_header := h, msg_start_line := (msg_start_line m)\<lparr>sl_method_id := i\<rparr>\<rparr>"
  have chan: "channel_resource_set A obj m = Inr (True, ?m2)"
    using ch'(1) rm find set(1) by (simp add: channel_resource_set_def mrcp_channel_id_parse_def)
  have wf2: "hs_wf (mh_section h)" unfolding set(4) by (rule hs_wf_arr_None [OF wf1])
  have arr2: "hs_arr (mh_section h) = replicate (GENERIC_HEADER_COUNT + vt_field_count (gv MRCP_VERSION_2)) None"
    by (simp add: set(4))
  obtain h3 where h3: "mrcp_header_fields_parse h = Inr h3" "fields_interpreted A (gv MRCP_VERSION_2) ring h h3"
    using fields_parse_interprets [OF set(2) gv(2) wf2 arr2] by (auto simp: set(4))
  have field: "hs_field (mh_section h) = hs_field ?h" by (simp add: set(4))
  have get: "apt_header_section_field_get (mh_section h3) GENERIC_HEADER_CONTENT_LENGTH =
      find (\<lambda>a. generic_field_id (hs_field ?h a) = GENERIC_HEADER_CONTENT_LENGTH) ring"
    using h3(2) arr2 by (simp add: fields_interpreted_def field apt_header_section_field_get_def [of "mh_section h"])
  have data: "\<exists>gh. acc_data (mh_generic h3) = Some gh \<and> gh_content_length gh = of_nat n"
    using h3(2) set(3) announced_length(2) [OF assms(13,14) ring(3) [symmetric]]
    by (simp add: fields_interpreted_def field)
  have n1: "unat (of_nat n :: 64 word) = n" using assms(14) by (simp add: unat_of_nat)
  then have n: "unat (of_nat n :: 64 word) = n" "(of_nat n :: 64 word) = 0 \<longleftrightarrow> n = 0"
    using unsigned_eq_0_iff [of "of_nat n :: 64 word", where 'a = nat] by (simp_all only:)
  have view: "map field_view (hs_listing (mh_section h3)) = map field_view fs"
    using h3(2) same_fields_listing [of "mh_section h" "mh_section h3"] ring(3)
    by (simp add: fields_interpreted_def hs_listing_def field set(4))
  show ?thesis
  proof (rule exI, intro conjI)
    let ?m3 = "?m2\<lparr>msg_header := h3, msg_body := apt_string_reset\<lparr>str_length := n\<rparr>\<rparr>"
    have z: "apt_string_reset\<lparr>str_length := 0\<rparr> = apt_string_reset" by (simp add: apt_string_reset_def)
    show "mrcp_parser_on_header_complete A obj m = Inr (True, ?m3)"
      using assms(6,7,15) chan h3(1) get data n announced_length(1) [OF assms(13,14) ring(3) [symmetric]] z
      by (auto simp: mrcp_parser_on_header_complete_def start_line_equiv_def Let_def
          mrcp_generic_header_property_check_def field_check_get mrcp_generic_header_get_def)
  qed (use ch'(2,3) view assms(6) in \<open>simp_all add: start_line_equiv_def\<close>)
qed

lemma content_length_item: "item_fold (generic_header_string_table ! 8) = ''content-length''"
  by code_simp

lemma content_length_fold_eval: "map tolower ''Content-Length'' = ''content-length''"
  by code_simp

lemma plain_field_id:
  assumes "field_view f' = field_view f" and "plain_field f" and "parsed_ok f'"
  shows "generic_field_id f' \<noteq> GENERIC_HEADER_CONTENT_LENGTH"
proof
  assume "generic_field_id f' = GENERIC_HEADER_CONTENT_LENGTH"
  from generic_names.id_find_fold [OF this] assms have "''content-length'' = map tolower (str_bytes (hf_name f))"
    by (auto simp: content_length_item field_view_def plain_field_def parsed_ok_def)
  then show False using assms(2) by (simp add: plain_field_def)
qed

lemma sent_fields_announced:
  assumes "apr_ok A" and "map field_view fs = map field_view (sent_fields A m)" and "list_all parsed_ok fs"
    and "list_all plain_field (hs_listing (mh_section (msg_header m)))" and "str_length (msg_body m) < 2 ^ 64"
  shows "announced fs (str_length (msg_body m))"
proof -
  let ?l = "hs_listing (mh_section (msg_header m))" and ?n = "str_length (msg_body m)"
  define fs1 where "fs1 = take (length ?l) fs"
  have v1: "map field_view fs1 = map field_view ?l"
    using assms(2) unfolding fs1_def by (simp add: take_map [symmetric] sent_fields_def)
  have plain: "\<forall>f \<in> set fs1. generic_field_id f \<noteq> GENERIC_HEADER_CONTENT_LENGTH"
  proof
    fix f assume f: "f \<in> set fs1"
    then obtain g where "g \<in> set ?l" "field_view f = field_view g"
      using v1 by (metis (no_types, lifting) in_set_conv_nth length_map nth_map nth_mem)
    moreover have "parsed_ok f" using f assms(3) unfolding fs1_def by (auto simp: list_all_iff dest: in_set_takeD)
    ultimately show "generic_field_id f \<noteq> GENERIC_HEADER_CONTENT_LENGTH"
      using plain_field_id assms(4) by (auto simp: list_all_iff)
  qed
  show ?thesis
  proof (cases "?n = 0")
    case True
    then have "length fs = length ?l" using arg_cong [OF assms(2), of length] by (simp add: sent_fields_def)
    then show ?thesis using plain True by (auto simp: announced_def fs1_def)
  next
    case False
    then have len: "length fs = Suc (length ?l)" using arg_cong [OF assms(2), of length] by (simp add: sent_fields_def)
    then have fs: "fs = fs1 @ [fs ! length ?l]" by (simp add: fs1_def take_Suc_conv_app_nth [symmetric])
    let ?f = "fs ! length ?l"
    have "field_view ?f = map field_view (sent_fields A m) ! length ?l"
      using len unfolding assms(2) [symmetric] by simp
    then have view: "field_view ?f = (''Content-Length'', dec ?n)"
      using False size_value_generate_text [OF assms(1,5)]
      by (simp add: sent_fields_def nth_append field_view_def length_field_def str_bytes_def)
    have ok: "parsed_ok ?f" using assms(3) len by (simp add: list_all_length)
    have "generic_field_id ?f = GENERIC_HEADER_CONTENT_LENGTH"
    proof (rule generic_names.id_find_eq)
      show "item_fold (generic_header_string_table ! GENERIC_HEADER_CONTENT_LENGTH) = map tolower (str_bytes (hf_name ?f))"
        using view by (simp only: content_length_item content_length_fold_eval field_view_def prod.inject)
    qed (use ok view in \<open>simp_all add: parsed_ok_def field_view_def\<close>)
    moreover have "str_mem (hf_value ?f) = dec ?n @ [NUL]" "str_length (hf_value ?f) = length (dec ?n)"
      using ok view length_str_bytes [of "hf_value ?f"] by (simp_all add: parsed_ok_def field_view_def)
    ultimately show ?thesis using plain False fs unfolding announced_def by auto
  qed
qed

text \<open>The line of the channel identifier is one more header field.\<close>

definition channel_field :: "mrcp_channel_id \<Rightarrow> header_field" where
  "channel_field ch =
     \<lparr>hf_name = c_literal MRCP_CHANNEL_ID (length MRCP_CHANNEL_ID),
      hf_value = c_literal (channel_value ch) (length (channel_value ch)), hf_id = UNKNOWN_HEADER_FIELD_ID\<rparr>"

lemma channel_field_view: "field_view (channel_field ch) = (MRCP_CHANNEL_ID, channel_value ch)"
  by (simp add: field_view_def channel_field_def str_bytes_def)

lemma channel_field_ok: "channel_ok ch \<Longrightarrow> field_ok (channel_field ch)"
  by (simp add: field_ok_def channel_field_def channel_ok_def str_bytes_def str_wf_def header_name_ok_def
      MRCP_CHANNEL_ID_def no_eol_def apt_text_is_wsp_def)

lemma header_text_fields: "header_text A m = fields_text (channel_field (msg_channel_id m) # sent_fields A m) @ CRLF"
  using channel_field_view [of "msg_channel_id m"]
  by (simp add: header_text_def fields_text_def channel_line_def field_view_def)

lemma on_start_text:
  assumes "start_line_ok sl" and "sl_version sl = MRCP_VERSION_2" and "n < 2 ^ 63"
  shows "\<exists>m s. mrcp_parser_on_start A obj (text_stream (line_text sl n @ CRLF @ r)) = Inr (True, Some m, s) \<and>
    ts_rest s = r \<and> stream_ok s \<and> \<not> ts_is_eos s \<and> start_line_equiv sl (msg_start_line m) \<and>
    sl_length (msg_start_line m) = of_nat n \<and> mh_section (msg_header m) = empty_section \<and>
    msg_body m = apt_string_reset"
proof -
  let ?t = "text_stream (line_text sl n @ CRLF @ r)"
  let ?s = "?t\<lparr>ts_pos := length (line_text sl n @ CRLF @ r)\<rparr>"
  have msg: "ts_message ?s = ?t"
    by (simp add: ts_message_def text_stream_def apt_text_stream_init_def apt_text_stream_reset_def)
  obtain line t1 sl' where l: "apt_text_line_read ?t = (True, line, t1)" "ts_rest t1 = r"
    "mrcp_start_line_parse (blank_start_line A) line = (True, sl')" "start_line_equiv sl sl'" "sl_length sl' = of_nat n"
    using read_start_line [OF assms(1) _ assms(3), of ?s r "[]" "blank_start_line A"] assms(2) unfolding msg
    by (auto simp: text_stream_def apt_text_stream_init_def apt_text_stream_reset_def)
  have "ts_reads ?t t1" using l(1) by (rule ts_reads_line)
  then have "stream_ok t1" by (rule stream_ok_reads [OF stream_ok_text])
  moreover have "\<not> ts_is_eos t1"
    using l(1) by (auto simp: apt_text_line_read_def split: prod.splits if_splits)
  moreover have "sl_version sl' = MRCP_VERSION_2" using l(4) assms(2) by (simp add: start_line_equiv_def)
  ultimately show ?thesis using l
    by (auto simp: mrcp_parser_on_start_def mrcp_message_create_def mrcp_message_header_init_def
        apt_header_section_init_def Let_def)
qed

lemma header_stage_text:
  assumes "apr_ok A" and "mp_vtable p = mrcp_parser_vtable A" and "sendable A vt m" and "str_length (msg_body m) < 2 ^ 63"
    and "resource_tables_ok res" and "known_method res (msg_start_line m)"
    and "rf_hash (po_resource_factory (mp_obj p)) (str_bytes (ch_resource_name (msg_channel_id m))) = Some res"
    and "str_bytes (ch_resource_name (msg_channel_id m)) \<noteq> []"
    and "ts_rest s = header_text A m @ str_bytes (msg_body m)" and "stream_ok s" and "\<not> ts_is_eos s"
    and "start_line_equiv (msg_start_line m) (msg_start_line m0)"
    and "mh_section (msg_header m0) = empty_section" and "msg_body m0 = apt_string_reset"
  shows "\<exists>m' p' s'. parser_header_stage A p m0 s = Inr (APT_MESSAGE_STATUS_COMPLETE, Some m', p', s') \<and>
    start_line_equiv (msg_start_line m) (msg_start_line m') \<and>
    sl_length (msg_start_line m') = sl_length (msg_start_line m0) \<and>
    str_bytes (ch_session_id (msg_channel_id m')) = str_bytes (ch_session_id (msg_channel_id m)) \<and>
    str_bytes (ch_resource_name (msg_channel_id m')) = str_bytes (ch_resource_name (msg_channel_id m)) \<and>
    map field_view (hs_listing (mh_section (msg_header m'))) = map field_view (sent_fields A m) \<and>
    str_bytes (msg_body m') = str_bytes (msg_body m) \<and> msg_resource m' = Some res \<and> ts_rest s' = []"
proof -
  let ?ch = "msg_channel_id m" and ?b = "str_bytes (msg_body m)" and ?n = "str_length (msg_body m)"
  let ?fs = "channel_field ?ch # sent_fields A m" and ?sl = "msg_start_line m"
  define Q where "Q m' \<longleftrightarrow> start_line_equiv ?sl (msg_start_line m') \<and>
    sl_length (msg_start_line m') = sl_length (msg_start_line m0) \<and>
    str_bytes (ch_session_id (msg_channel_id m')) = str_bytes (ch_session_id ?ch) \<and>
    str_bytes (ch_resource_name (msg_channel_id m')) = str_bytes (ch_resource_name ?ch) \<and>
    map field_view (hs_listing (mh_section (msg_header m'))) = map field_view (sent_fields A m) \<and>
    msg_resource m' = Some res" for m' :: "'a mrcp_message"
  have sd: "channel_ok ?ch" "sl_version ?sl = MRCP_VERSION_2" "unfolded (?b @ [])" "str_wf (msg_body m)"
    "list_all plain_field (hs_listing (mh_section (msg_header m)))"
    using assms(3) by (simp_all add: sendable_def)
  have n: "length ?b = ?n" using length_str_bytes [OF sd(4)] .
  have oks: "list_all field_ok ?fs"
    using sent_fields_ok [OF assms(1) sd(5)] assms(4) channel_field_ok [OF sd(1)] by simp
  have rest: "ts_rest s = fields_text ?fs @ CRLF @ ?b @ []" using assms(9) by (simp add: header_text_fields)
  have complete: "\<exists>m'. mrcp_parser_on_header_complete A (mp_obj p) (m0\<lparr>msg_header := (msg_header m0)\<lparr>mh_section := h\<rparr>\<rparr>) = Inr (True, m') \<and>
      msg_body m' = apt_string_reset\<lparr>str_length := length ?b\<rparr> \<and> Q m'"
    if h: "hs_wf h" "hs_arr h = []" "list_all parsed_ok (hs_listing h)" "map field_view (hs_listing h) = map field_view ?fs" for h
  proof -
    obtain cf fs where fs: "hs_listing h = cf # fs" using h(4) by (cases "hs_listing h") auto
    then have cf: "field_view cf = (MRCP_CHANNEL_ID, channel_value ?ch)" "parsed_ok cf" "list_all parsed_ok fs"
      and v: "map field_view fs = map field_view (sent_fields A m)"
      using h(3,4) by (simp_all add: channel_field_view)
    have "announced fs ?n" using sent_fields_announced [OF assms(1) v cf(3) sd(5)] assms(4) by simp
    then show ?thesis
      using header_complete_text [OF assms(5-8) sd(1), of "m0\<lparr>msg_header := (msg_header m0)\<lparr>mh_section := h\<rparr>\<rparr>" cf fs ?n A]
        assms(4,12,14) sd(2) h(1,2) cf(1,2) v n fs by (auto simp: Q_def)
  qed
  have put: "Q (fold (\<lambda>b m. m\<lparr>msg_body := b\<rparr>) cs m') = Q m'" for cs m'
    by (induction cs arbitrary: m') (simp_all add: Q_def)
  obtain m1 m' cs p' s' where "parser_header_stage A p m0 s = Inr (APT_MESSAGE_STATUS_COMPLETE, Some m', p', s')"
    "Q m1" "m' = fold (\<lambda>b m. m\<lparr>msg_body := b\<rparr>) cs m1" "str_bytes (msg_body m') = ?b" "ts_rest s' = []"
    using mrcp.header_stage_reads [of A A p s ?fs ?b "[]" m0 Q, OF _ assms(1,2,10,11) rest oks sd(3)] complete n assms(4,13)
    by (auto simp: mrcp_parser_vtable_def hs_wf_def hs_listing_def)
  then show ?thesis using put by (auto simp: Q_def)
qed

lemma parser_run_text:
  assumes "apr_ok A" and "sendable A vt m" and "str_length (msg_body m) < 2 ^ 63" and "n < 2 ^ 63"
    and "resource_tables_ok res" and "known_method res (msg_start_line m)"
    and "rf_hash rf (str_bytes (ch_resource_name (msg_channel_id m))) = Some res"
    and "str_bytes (ch_resource_name (msg_channel_id m)) \<noteq> []"
  shows "\<exists>m' p' s'. mrcp_parser_run A (mrcp_parser_create A rf) (text_stream (message_text A m n)) =
      Inr (APT_MESSAGE_STATUS_COMPLETE, Some m', p', s') \<and>
    start_line_equiv (msg_start_line m) (msg_start_line m') \<and> sl_length (msg_start_line m') = of_nat n \<and>
    str_bytes (ch_session_id (msg_channel_id m')) = str_bytes (ch_session_id (msg_channel_id m)) \<and>
    str_bytes (ch_resource_name (msg_channel_id m')) = str_bytes (ch_resource_name (msg_channel_id m)) \<and>
    map field_view (hs_listing (mh_section (msg_header m'))) = map field_view (sent_fields A m) \<and>
    str_bytes (msg_body m') = str_bytes (msg_body m) \<and> msg_resource m' = Some res \<and> ts_rest s' = []"
proof -
  let ?p = "mrcp_parser_create A rf :: 'b mrcp_parser" and ?r = "header_text A m @ str_bytes (msg_body m)"
  let ?t = "text_stream (line_text (msg_start_line m) n @ CRLF @ ?r)"
  have sd: "start_line_ok (msg_start_line m)" "sl_version (msg_start_line m) = MRCP_VERSION_2"
    using assms(2) by (simp_all add: sendable_def)
  obtain m0 s where 0: "mrcp_parser_on_start A (mp_obj ?p) ?t = Inr (True, Some m0, s)" "ts_rest s = ?r"
    "stream_ok s" "\<not> ts_is_eos s" "start_line_equiv (msg_start_line m) (msg_start_line m0)"
    "sl_length (msg_start_line m0) = of_nat n" "mh_section (msg_header m0) = empty_section"
    "msg_body m0 = apt_string_reset"
    using on_start_text [OF sd assms(4), of A "mp_obj ?p" ?r] by auto
  let ?p1 = "?p\<lparr>mp_skip_lf := False, mp_message := Some m0, mp_stage := APT_MESSAGE_STAGE_HEADER\<rparr>"
  have "ts_rest s \<noteq> []" using 0(2) by (simp add: header_text_def)
  then have "ts_pos s \<noteq> ts_end s" by (auto simp: ts_rest_def)
  then have run: "mrcp_parser_run A ?p (text_stream (message_text A m n)) = parser_header_stage A ?p1 m0 s"
    using 0(1)
    by (simp add: mrcp_parser_run_def apt_message_parser_run_def mrcp_parser_create_def apt_message_parser_create_def
        parser_start_stage_def apt_crlf_segmentation_test_def mrcp_parser_vtable_def message_text_def Let_def)
  have "rf_hash (po_resource_factory (mp_obj ?p1)) (str_bytes (ch_resource_name (msg_channel_id m))) = Some res"
    "mp_vtable ?p1 = mrcp_parser_vtable A"
    using assms(7) by (simp_all add: mrcp_parser_create_def apt_message_parser_create_def)
  from header_stage_text [OF assms(1) this(2) assms(2,3,5,6) this(1) assms(8) 0(2-5,7,8)]
  show ?thesis unfolding run 0(6) .
qed

text \<open>C1. A message that is generated into a buffer with enough room is complete, and parsing the bytes
  generated gives back a complete message that says the same: the same start line with the number
  of bytes as its length, the same channel identifier, the same header fields in the same order,
  \<open>Content-Length\<close> among them when there is a body, and the same body. No byte is left over.
\<close>

theorem message_roundtrip:
  assumes "apr_ok A" and "sendable A vt m" and "fits A m s"
    and "resource_tables_ok res" and "known_method res (msg_start_line m)"
    and "rf_hash rf (str_bytes (ch_resource_name (msg_channel_id m))) = Some res"
    and "str_bytes (ch_resource_name (msg_channel_id m)) \<noteq> []"
  shows "\<exists>g m1 s1 m' p' s2.
    mrcp_generator_run (mrcp_generator_create A) (Some (ptr, m)) s = Inr (APT_MESSAGE_STATUS_COMPLETE, g, Some m1, s1) \<and>
    mrcp_parser_run A (mrcp_parser_create A rf) (text_stream (ts_text s1)) =
      Inr (APT_MESSAGE_STATUS_COMPLETE, Some m', p', s2) \<and>
    start_line_equiv (msg_start_line m) (msg_start_line m') \<and>
    sl_length (msg_start_line m') = of_nat (length (ts_text s1)) \<and>
    str_bytes (ch_session_id (msg_channel_id m')) = str_bytes (ch_session_id (msg_channel_id m)) \<and>
    str_bytes (ch_resource_name (msg_channel_id m')) = str_bytes (ch_resource_name (msg_channel_id m)) \<and>
    map field_view (hs_listing (mh_section (msg_header m'))) = map field_view (sent_fields A m) \<and>
    str_bytes (msg_body m') = str_bytes (msg_body m) \<and> msg_resource m' = Some res \<and> ts_rest s2 = []"
proof -
  obtain g m1 s1 n where g: "mrcp_generator_run (mrcp_generator_create A) (Some (ptr, m)) s =
      Inr (APT_MESSAGE_STATUS_COMPLETE, g, Some m1, s1)"
    "ts_holds s1 (message_text A m n)" "n = length (message_text A m n)" "n < 10 ^ 6"
    using generator_run_text [OF assms(1-3)] by blast
  have "str_length (msg_body m) < 2 ^ 63" "n < 2 ^ 63" using assms(3) g(4) by (simp_all add: fits_def)
  from parser_run_text [OF assms(1,2) this assms(4-7)] obtain m' p' s2 where
    "mrcp_parser_run A (mrcp_parser_create A rf) (text_stream (message_text A m n)) =
      Inr (APT_MESSAGE_STATUS_COMPLETE, Some m', p', s2) \<and>
    start_line_equiv (msg_start_line m) (msg_start_line m') \<and> sl_length (msg_start_line m') = of_nat n \<and>
    str_bytes (ch_session_id (msg_channel_id m')) = str_bytes (ch_session_id (msg_channel_id m)) \<and>
    str_bytes (ch_resource_name (msg_channel_id m')) = str_bytes (ch_resource_name (msg_channel_id m)) \<and>
    map field_view (hs_listing (mh_section (msg_header m'))) = map field_view (sent_fields A m) \<and>
    str_bytes (msg_body m') = str_bytes (msg_body m) \<and> msg_resource m' = Some res \<and> ts_rest s2 = []" by blast
  then show ?thesis using g(1,3) unfolding ts_holds_text [OF g(2), symmetric]
    by (intro exI [of _ g] exI [of _ m1] exI [of _ s1] exI [of _ m'] exI [of _ p'] exI [of _ s2]) simp
qed

definition sample_speak :: "unit mrcp_message" where
  "sample_speak = (mrcp_message_create apr_ref)
     \<lparr>msg_start_line := (blank_start_line apr_ref)\<lparr>sl_message_type := MRCP_MESSAGE_TYPE_REQUEST,
        sl_version := MRCP_VERSION_2, sl_request_id := 1, sl_method_name := c_literal ''SPEAK'' 5\<rparr>,
      msg_channel_id := \<lparr>ch_session_id = c_literal ''1'' 1, ch_resource_name = c_literal ''speechsynth'' 11\<rparr>,
      msg_header := (snd (mrcp_message_header_data_alloc empty_header
        (Some (mrcp_generic_header_vtable apr_ref)) (Some no_fields_vtable)))\<lparr>mh_section := sample_section\<rparr>,
      msg_body := c_literal ''Hello'' 5\<rparr>"

lemma sample_speak_parts:
  "start_line_ok (msg_start_line sample_speak)" "sl_version (msg_start_line sample_speak) = MRCP_VERSION_2"
  "channel_ok (msg_channel_id sample_speak)"
  "hs_lookup (mh_section (msg_header sample_speak)) GENERIC_HEADER_CONTENT_LENGTH = None"
  "list_all plain_field (hs_listing (mh_section (msg_header sample_speak)))"
  "str_wf (msg_body sample_speak)" "unfolded (str_bytes (msg_body sample_speak))"
  by code_simp+

lemma sample_speak_sendable: "sendable apr_ref no_fields_vtable sample_speak"
proof -
  have "header_ready apr_ref no_fields_vtable (msg_header sample_speak)" "mh_section (msg_header sample_speak) = sample_section"
    by (simp_all add: sample_speak_def header_ready_def mrcp_message_header_data_alloc_def Let_def
        mrcp_header_allocate_def empty_header_def mrcp_header_accessor_init_def)
  then show ?thesis using sample_section_wf sample_speak_parts by (simp add: sendable_def)
qed

lemma sample_speak_fits: "fits apr_ref sample_speak (apt_text_stream_init (replicate 500 NUL) 500)"
proof -
  have "length (header_text apr_ref sample_speak) \<le> 100"
    "length (v2_reserved (msg_start_line sample_speak)) \<le> 100" "length (v2_tail (msg_start_line sample_speak)) \<le> 100"
    by code_simp+
  moreover have "str_length (msg_body sample_speak) = 5" by (simp add: sample_speak_def)
  ultimately show ?thesis by (simp add: fits_def ts_room_def apt_text_stream_init_def apt_text_stream_reset_def)
qed

lemma sample_resource_tables: "resource_tables_ok sample_resource"
proof -
  have "list_all item_ok [table_item ''SPEAK'' 5 0, table_item ''STOP'' 4 1]"
    "list_all item_ok [table_item ''SPEAK-COMPLETE'' 14 0]"
    "distinct (map item_fold [table_item ''SPEAK'' 5 0, table_item ''STOP'' 4 1])"
    by code_simp+
  then show ?thesis
    by (simp add: resource_tables_at_def sample_resource_def names_disjoint_def no_fields_vtable_def string_table_def)
qed

theorem message_roundtrip_witness:
  "\<exists>g m1 s1 m' p' s2.
    mrcp_generator_run (mrcp_generator_create apr_ref) (Some (0, sample_speak))
      (apt_text_stream_init (replicate 500 NUL) 500) = Inr (APT_MESSAGE_STATUS_COMPLETE, g, Some m1, s1) \<and>
    mrcp_parser_run apr_ref (mrcp_parser_create apr_ref (snd (mrcp_resource_register sample_factory (Some sample_resource))))
      (text_stream (ts_text s1)) = Inr (APT_MESSAGE_STATUS_COMPLETE, Some m', p', s2) \<and>
    str_bytes (msg_body m') = ''Hello''"
proof -
  have "known_method sample_resource (msg_start_line sample_speak)" by code_simp
  moreover have n: "str_bytes (ch_resource_name (msg_channel_id sample_speak)) = ''speechsynth''"
    "str_bytes (msg_body sample_speak) = ''Hello''"
    by (simp_all add: sample_speak_def str_bytes_def)
  moreover have "rf_hash (snd (mrcp_resource_register sample_factory (Some sample_resource))) ''speechsynth'' =
      Some sample_resource"
    using sample_resource_valid
    by (simp add: mrcp_resource_register_def sample_factory_def sample_resource_def str_bytes_def)
  ultimately show ?thesis
    using message_roundtrip [OF apr_ref_ok sample_speak_sendable sample_speak_fits sample_resource_tables,
        of "snd (mrcp_resource_register sample_factory (Some sample_resource))" 0]
    unfolding n by blast
qed

end
