(* ===== verification/ResourceLoader.thy ===== *)
theory ResourceLoader
  imports SynthResource RecogResource RecorderResource VerifierResource MrcpStream
begin

text \<open>
  The resource loader (\<open>mrcp_resource_loader.c\<close>), which creates the four resources and registers
  them in the resource factory.

  The accessor of a message header holds the header of its resource behind a \<open>void*\<close>. Here it is
  a value of the sum of the four header types, and the functions of a resource only work on
  headers of their own kind; that is the cast each of them makes.
\<close>

section \<open>The headers of all resources\<close>

datatype resource_header =
  SynthData mrcp_synth_header
| RecogData mrcp_recog_header
| RecorderData mrcp_recorder_header
| VerifierData mrcp_verifier_header

fun synth_data :: "resource_header \<Rightarrow> mrcp_synth_header option" where
  "synth_data (SynthData h) = Some h" | "synth_data _ = None"

fun recog_data :: "resource_header \<Rightarrow> mrcp_recog_header option" where
  "recog_data (RecogData h) = Some h" | "recog_data _ = None"

fun recorder_data :: "resource_header \<Rightarrow> mrcp_recorder_header option" where
  "recorder_data (RecorderData h) = Some h" | "recorder_data _ = None"

fun verifier_data :: "resource_header \<Rightarrow> mrcp_verifier_header option" where
  "verifier_data (VerifierData h) = Some h" | "verifier_data _ = None"

definition data_vtable :: "('d \<Rightarrow> 'e) \<Rightarrow> ('e \<Rightarrow> 'd option) \<Rightarrow> 'd header_vtable \<Rightarrow> 'e header_vtable" where
  "data_vtable tag own vt =
     \<lparr>vt_allocate = tag (vt_allocate vt),
      vt_parse = (\<lambda>i v e. case own e of Some d \<Rightarrow> map_prod id tag (vt_parse vt i v d) | None \<Rightarrow> (False, e)),
      vt_generate = (\<lambda>i e v. case own e of Some d \<Rightarrow> vt_generate vt i d v | None \<Rightarrow> Inr (False, v)),
      vt_duplicate = (\<lambda>i src v e. case vt_duplicate vt i (Option.bind src own) v (Option.bind e own) of
         (ok, Some d) \<Rightarrow> (ok, Some (tag d)) | (ok, None) \<Rightarrow> (ok, e)),
      vt_field_table = vt_field_table vt, vt_field_count = vt_field_count vt\<rparr>"

definition data_resource :: "('d \<Rightarrow> 'e) \<Rightarrow> ('e \<Rightarrow> 'd option) \<Rightarrow> 'd mrcp_resource \<Rightarrow> 'e mrcp_resource" where
  "data_resource tag own r =
     \<lparr>res_id = res_id r, res_name = res_name r,
      res_get_method_str_table = res_get_method_str_table r, res_method_count = res_method_count r,
      res_get_event_str_table = res_get_event_str_table r, res_event_count = res_event_count r,
      res_get_resource_header_vtable =
        map_option (\<lambda>get version. data_vtable tag own (get version)) (res_get_resource_header_vtable r)\<rparr>"

section \<open>The loader\<close>

abbreviation (input) MRCP_SYNTHESIZER_RESOURCE :: nat where "MRCP_SYNTHESIZER_RESOURCE \<equiv> 0"
abbreviation (input) MRCP_RECOGNIZER_RESOURCE :: nat where "MRCP_RECOGNIZER_RESOURCE \<equiv> 1"
abbreviation (input) MRCP_RECORDER_RESOURCE :: nat where "MRCP_RECORDER_RESOURCE \<equiv> 2"
abbreviation (input) MRCP_VERIFIER_RESOURCE :: nat where "MRCP_VERIFIER_RESOURCE \<equiv> 3"
abbreviation (input) MRCP_RESOURCE_TYPE_COUNT :: nat where "MRCP_RESOURCE_TYPE_COUNT \<equiv> 4"

definition mrcp_resource_string_table :: "apt_str_table_item list" where
  "mrcp_resource_string_table =
     [table_item ''speechsynth'' 11 6,
      table_item ''speechrecog'' 11 6,
      table_item ''recorder'' 8 0,
      table_item ''speakverify'' 11 3]"

definition mrcp_resource_create_by_id :: "apr \<Rightarrow> c_flt \<Rightarrow> nat \<Rightarrow> resource_header mrcp_resource option" where
  "mrcp_resource_create_by_id A F i =
     map_option (\<lambda>r. r\<lparr>res_id := i\<rparr>)
       (if i = MRCP_SYNTHESIZER_RESOURCE
        then Some (data_resource SynthData synth_data (mrcp_synth_resource_create A F))
        else if i = MRCP_RECOGNIZER_RESOURCE
        then Some (data_resource RecogData recog_data (mrcp_recog_resource_create A F))
        else if i = MRCP_RECORDER_RESOURCE
        then Some (data_resource RecorderData recorder_data (mrcp_recorder_resource_create A F))
        else if i = MRCP_VERIFIER_RESOURCE
        then Some (data_resource VerifierData verifier_data (mrcp_verifier_resource_create A F))
        else None)"

type_synonym mrcp_resource_loader = "resource_header mrcp_resource_factory"

definition mrcp_resource_load_by_id :: "apr \<Rightarrow> c_flt \<Rightarrow> mrcp_resource_loader \<Rightarrow> nat \<Rightarrow> bool \<times> mrcp_resource_loader" where
  "mrcp_resource_load_by_id A F loader i =
     (case (mrcp_resource_create_by_id A F i,
            apt_string_table_str_get mrcp_resource_string_table MRCP_RESOURCE_TYPE_COUNT i) of
        (Some r, Some name) \<Rightarrow> mrcp_resource_register loader (Some (r\<lparr>res_name := name\<rparr>))
      | _ \<Rightarrow> (False, loader))"

definition mrcp_resource_load :: "apr \<Rightarrow> c_flt \<Rightarrow> mrcp_resource_loader \<Rightarrow> apt_str \<Rightarrow> bool \<times> mrcp_resource_loader" where
  "mrcp_resource_load A F loader name =
     (case mrcp_resource_create_by_id A F
             (apt_string_table_id_find mrcp_resource_string_table MRCP_RESOURCE_TYPE_COUNT name) of
        None \<Rightarrow> (False, loader)
      | Some r \<Rightarrow> mrcp_resource_register loader (Some (r\<lparr>res_name := apt_string_copy name\<rparr>)))"

definition mrcp_resources_load :: "apr \<Rightarrow> c_flt \<Rightarrow> mrcp_resource_loader \<Rightarrow> mrcp_resource_loader" where
  "mrcp_resources_load A F loader =
     fold (\<lambda>i loader. snd (mrcp_resource_load_by_id A F loader i)) [0..<MRCP_RESOURCE_TYPE_COUNT] loader"

definition mrcp_resource_loader_create :: "apr \<Rightarrow> c_flt \<Rightarrow> bool \<Rightarrow> mrcp_resource_loader option" where
  "mrcp_resource_loader_create A F load_all_resources =
     (case mrcp_resource_factory_create MRCP_RESOURCE_TYPE_COUNT of None \<Rightarrow> None
      | Some loader \<Rightarrow> Some (if load_all_resources then mrcp_resources_load A F loader else loader))"

definition mrcp_resource_factory_get :: "mrcp_resource_loader \<Rightarrow> resource_header mrcp_resource_factory" where
  "mrcp_resource_factory_get loader = loader"

section \<open>The contract carries over\<close>

lemma data_header_values:
  assumes "header_values vt exact (\<lambda>_. True) ok" and own: "\<And>d. own (tag d) = Some d"
    and tag: "\<And>e d. own e = Some d \<Longrightarrow> e = tag d"
  shows "header_values (\<lambda>A. data_vtable tag own (vt A)) exact (\<lambda>e. own e \<noteq> None) (\<lambda>e. pred_option ok (own e))"
proof (rule header_values.intro)
  show "string_table (vt_field_table (data_vtable tag own (vt A))) (vt_field_count (data_vtable tag own (vt A)))" for A
    using header_values.field_names [OF assms(1)] by (simp add: data_vtable_def)
  show "own (vt_allocate (data_vtable tag own (vt A))) \<noteq> None" for A by (simp add: data_vtable_def own)
next
  fix A i e v0 e1
  assume a: "apr_ok A" "i < vt_field_count (data_vtable tag own (vt A))" "exact i" "own e \<noteq> None"
    "pred_option ok (own e)" "own e1 \<noteq> None"
  then obtain d d1 where d: "own e = Some d" "own e1 = Some d1" "ok d" by auto
  obtain v d2 where "vt_generate (vt A) i d v0 = Inr (True, v)" "vt_parse (vt A) i v d1 = (True, d2)"
    "vt_duplicate (vt A) i (Some d) v (Some d1) = (True, Some d2)"
    using header_values.value_roundtrip [OF assms(1) a(1) _ a(3) TrueI d(3) TrueI, of v0 d1] a(2)
    by (auto simp: data_vtable_def)
  then show "\<exists>v e2. vt_generate (data_vtable tag own (vt A)) i e v0 = Inr (True, v) \<and>
      vt_parse (data_vtable tag own (vt A)) i v e1 = (True, e2) \<and>
      vt_duplicate (data_vtable tag own (vt A)) i (Some e) v (Some e1) = (True, Some e2)"
    using d by (simp add: data_vtable_def)
qed

lemma data_tag:
  "synth_data e = Some s \<Longrightarrow> e = SynthData s" "recog_data e = Some r \<Longrightarrow> e = RecogData r"
  "recorder_data e = Some c \<Longrightarrow> e = RecorderData c" "verifier_data e = Some v \<Longrightarrow> e = VerifierData v"
  by (cases e; simp)+

text \<open>The header of every resource, for both versions of the protocol.\<close>

interpretation synth_header: header_values "\<lambda>A. data_vtable SynthData synth_data (mrcp_synth_header_vtable A F)"
  synth_exact "\<lambda>e. synth_data e \<noteq> None" "\<lambda>e. pred_option synth_values_ok (synth_data e)" for F
  by (rule data_header_values [OF synth_values.header_values_axioms]) (simp_all add: data_tag)

interpretation recog_v1_header: header_values "\<lambda>A. data_vtable RecogData recog_data (recog_v1_vtable A F)"
  recog_exact "\<lambda>e. recog_data e \<noteq> None" "\<lambda>e. pred_option recog_values_ok (recog_data e)" for F
  by (rule data_header_values [OF recog_v1_values.header_values_axioms]) (simp_all add: data_tag)

interpretation recog_v2_header: header_values "\<lambda>A. data_vtable RecogData recog_data (recog_v2_vtable A F)"
  recog_exact "\<lambda>e. recog_data e \<noteq> None" "\<lambda>e. pred_option recog_values_ok (recog_data e)" for F
  by (rule data_header_values [OF recog_v2_values.header_values_axioms]) (simp_all add: data_tag)

interpretation recorder_header: header_values "\<lambda>A. data_vtable RecorderData recorder_data (mrcp_recorder_header_vtable A F)"
  recorder_exact "\<lambda>e. recorder_data e \<noteq> None" "\<lambda>e. pred_option recorder_values_ok (recorder_data e)" for F
  by (rule data_header_values [OF recorder_values.header_values_axioms]) (simp_all add: data_tag)

interpretation verifier_header: header_values "\<lambda>A. data_vtable VerifierData verifier_data (mrcp_verifier_header_vtable A F)"
  verifier_exact "\<lambda>e. verifier_data e \<noteq> None" "\<lambda>e. pred_option verifier_values_ok (verifier_data e)" for F
  by (rule data_header_values [OF verifier_values.header_values_axioms]) (simp_all add: data_tag)

section \<open>The tables of the resources\<close>

text \<open>A string that matches an item has the item's letters, whatever it holds after them.\<close>

lemma strncasecmp_eq_take:
  "strncasecmp_eq a b n \<Longrightarrow> NUL \<notin> set (take n a) \<Longrightarrow> n \<le> length a \<Longrightarrow> map tolower (take n a) = map tolower (take n b)"
proof (induction a b n rule: strncasecmp_eq.induct)
  case (2 a b n)
  then obtain x a' where a: "a = x # a'" "x \<noteq> NUL" by (cases a) auto
  have "tolower NUL = NUL" by simp
  with 2 a obtain y b' where b: "b = y # b'" by (cases b) (auto simp: byte_def simp del: tolower_NUL_iff simp: tolower_NUL_iff [of x])
  with 2 a show ?case by (simp add: byte_def)
qed simp

lemma match_fold:
  assumes "table_item_match it v" and "item_ok it"
  shows "item_fold it = map tolower (take (str_length v) (str_mem v))"
proof -
  have "apt_string_compare (item_value it) v"
    using assms by (simp add: table_item_match_compare item_ok_def)
  then show ?thesis
    using assms(2) strncasecmp_eq_take [of "str_mem (item_value it)" "str_mem v" "str_length v"]
    by (auto simp: apt_string_compare_def item_ok_def item_fold_def str_bytes_def str_wf_def split: if_splits)
qed

lemma names_disjointI:
  assumes "string_table (vt_field_table vt) (vt_field_count vt)"
    and "list_all (\<lambda>it. item_fold it \<notin> set (map item_fold generic_header_string_table)) (vt_field_table vt)"
  shows "names_disjoint vt"
  unfolding names_disjoint_def
proof (intro allI impI)
  fix name
  let ?t = "vt_field_table vt" and ?g = generic_header_string_table
  note s = string_table.table_size [OF assms(1)] string_table.items_ok [OF assms(1)]
  assume "apt_string_table_id_find ?t (vt_field_count vt) name < vt_field_count vt"
  then obtain j where "id_find_loop 0 ?t name = Some j"
    using s(1) by (auto simp: apt_string_table_id_find_def split: option.splits)
  from id_find_loop_Some [OF this] have "j < length ?t" "table_item_match (?t ! j) name" by auto
  then obtain it where it: "it \<in> set ?t" "table_item_match it name" using nth_mem by blast
  have "id_find_loop 0 ?g name = None"
  proof (rule ccontr)
    assume "id_find_loop 0 ?g name \<noteq> None"
    then obtain ig where ig: "ig \<in> set ?g" "table_item_match ig name" unfolding id_find_loop_None by auto
    then have "item_fold ig = item_fold it"
      using match_fold it s(2) generic_names.items_ok by (auto simp: list_all_iff)
    then have "item_fold it \<in> item_fold ` set ?g" using ig(1) by (metis imageI)
    then show False using assms(2) it(1) by (auto simp: list_all_iff)
  qed
  then show "GENERIC_HEADER_COUNT \<le> apt_string_table_id_find ?g GENERIC_HEADER_COUNT name"
    using generic_names.table_size by (simp add: apt_string_table_id_find_def)
qed

lemma synth_disjoint: "names_disjoint (data_vtable SynthData synth_data (mrcp_synth_header_vtable A F))"
proof (rule names_disjointI [OF synth_header.field_names])
  have "list_all (\<lambda>it. item_fold it \<notin> set (map item_fold generic_header_string_table)) synth_header_string_table"
    by code_simp
  then show "list_all (\<lambda>it. item_fold it \<notin> set (map item_fold generic_header_string_table))
      (vt_field_table (data_vtable SynthData synth_data (mrcp_synth_header_vtable A F)))"
    by (simp add: data_vtable_def mrcp_synth_header_vtable_def)
qed

lemma recog_disjoint: "names_disjoint (data_vtable RecogData recog_data (recog_v2_vtable A F))"
proof (rule names_disjointI [OF recog_v2_header.field_names])
  have "list_all (\<lambda>it. item_fold it \<notin> set (map item_fold generic_header_string_table)) v2_recog_header_string_table"
    by code_simp
  then show "list_all (\<lambda>it. item_fold it \<notin> set (map item_fold generic_header_string_table))
      (vt_field_table (data_vtable RecogData recog_data (recog_v2_vtable A F)))"
    by (simp add: data_vtable_def recog_v2_vtable_def)
qed

lemma recog_v1_disjoint: "names_disjoint (data_vtable RecogData recog_data (recog_v1_vtable A F))"
proof (rule names_disjointI [OF recog_v1_header.field_names])
  have "list_all (\<lambda>it. item_fold it \<notin> set (map item_fold generic_header_string_table)) v1_recog_header_string_table"
    by code_simp
  then show "list_all (\<lambda>it. item_fold it \<notin> set (map item_fold generic_header_string_table))
      (vt_field_table (data_vtable RecogData recog_data (recog_v1_vtable A F)))"
    by (simp add: data_vtable_def recog_v1_vtable_def)
qed

lemma recorder_disjoint: "names_disjoint (data_vtable RecorderData recorder_data (mrcp_recorder_header_vtable A F))"
proof (rule names_disjointI [OF recorder_header.field_names])
  have "list_all (\<lambda>it. item_fold it \<notin> set (map item_fold generic_header_string_table)) recorder_header_string_table"
    by code_simp
  then show "list_all (\<lambda>it. item_fold it \<notin> set (map item_fold generic_header_string_table))
      (vt_field_table (data_vtable RecorderData recorder_data (mrcp_recorder_header_vtable A F)))"
    by (simp add: data_vtable_def mrcp_recorder_header_vtable_def)
qed

lemma verifier_disjoint: "names_disjoint (data_vtable VerifierData verifier_data (mrcp_verifier_header_vtable A F))"
proof (rule names_disjointI [OF verifier_header.field_names])
  have "list_all (\<lambda>it. item_fold it \<notin> set (map item_fold generic_header_string_table)) verifier_header_string_table"
    by code_simp
  then show "list_all (\<lambda>it. item_fold it \<notin> set (map item_fold generic_header_string_table))
      (vt_field_table (data_vtable VerifierData verifier_data (mrcp_verifier_header_vtable A F)))"
    by (simp add: data_vtable_def mrcp_verifier_header_vtable_def)
qed

lemmas disjoint_headers = synth_disjoint recog_disjoint recog_v1_disjoint recorder_disjoint verifier_disjoint

lemma string_tableI: "length t = n \<and> list_all item_ok t \<and> distinct (map item_fold t) \<Longrightarrow> string_table t n"
  by (simp add: string_table_def)

lemma method_tables:
  "string_table synth_method_string_table SYNTHESIZER_METHOD_COUNT"
  "string_table v2_recog_method_string_table RECOGNIZER_METHOD_COUNT"
  "string_table v1_recog_method_string_table RECOGNIZER_METHOD_COUNT"
  "string_table recorder_method_string_table RECORDER_METHOD_COUNT"
  "string_table verifier_method_string_table VERIFIER_METHOD_COUNT"
  by (rule string_tableI, code_simp)+

lemma event_tables:
  "string_table synth_event_string_table SYNTHESIZER_EVENT_COUNT"
  "string_table v2_recog_event_string_table RECOGNIZER_EVENT_COUNT"
  "string_table v1_recog_event_string_table RECOGNIZER_EVENT_COUNT"
  "string_table recorder_event_string_table RECORDER_EVENT_COUNT"
  "string_table verifier_event_string_table VERIFIER_EVENT_COUNT"
  by (rule string_tableI, code_simp)+

text \<open>The resource of each type, with the name the loader gives it.\<close>

definition loaded_resource :: "apr \<Rightarrow> c_flt \<Rightarrow> nat \<Rightarrow> resource_header mrcp_resource" where
  "loaded_resource A F i =
     (the (mrcp_resource_create_by_id A F i))\<lparr>res_name := item_value (mrcp_resource_string_table ! i)\<rparr>"

lemmas resource_defs = mrcp_synth_resource_create_def mrcp_recog_resource_create_def mrcp_recorder_resource_create_def
  mrcp_verifier_resource_create_def data_resource_def mrcp_resource_create_by_id_def

lemma type_cases: "i < MRCP_RESOURCE_TYPE_COUNT \<Longrightarrow> i = 0 \<or> i = 1 \<or> i = 2 \<or> i = 3"
  by arith

lemma loaded_resource_valid:
  assumes "i < MRCP_RESOURCE_TYPE_COUNT"
  shows "mrcp_resource_validate (loaded_resource A F i) \<and> res_id (loaded_resource A F i) = i \<and>
    mrcp_resource_create_by_id A F i \<noteq> None"
  using type_cases [OF assms]
  by (elim disjE) (simp_all add: loaded_resource_def resource_defs mrcp_resource_validate_def mrcp_resource_create_def
      mrcp_resource_string_table_def table_item_def c_literal_def)

lemma loaded_resource_tables:
  assumes "i < MRCP_RESOURCE_TYPE_COUNT"
  shows "resource_tables_at version (loaded_resource A F i)"
  using type_cases [OF assms] method_tables event_tables disjoint_headers
  by (elim disjE) (simp_all add: loaded_resource_def resource_defs resource_tables_at_def mrcp_resource_create_def
      synth_method_string_table_get_def synth_event_string_table_get_def recog_method_string_table_get_def
      recog_event_string_table_get_def recorder_method_string_table_get_def recorder_event_string_table_get_def
      verifier_method_string_table_get_def verifier_event_string_table_get_def mrcp_synth_header_vtable_get_def
      mrcp_recog_header_vtable_get_def mrcp_recorder_header_vtable_get_def mrcp_verifier_header_vtable_get_def)

lemma load_by_id:
  assumes "i < MRCP_RESOURCE_TYPE_COUNT" and "length (rf_array loader) = MRCP_RESOURCE_TYPE_COUNT"
    and "rf_array loader ! i = None"
  shows "mrcp_resource_load_by_id A F loader i =
    (True, \<lparr>rf_array = (rf_array loader)[i := Some (loaded_resource A F i)],
            rf_hash = (rf_hash loader)(str_bytes (item_value (mrcp_resource_string_table ! i)) \<mapsto> loaded_resource A F i)\<rparr>)"
proof -
  let ?r = "loaded_resource A F i"
  obtain r where r: "mrcp_resource_create_by_id A F i = Some r" using loaded_resource_valid [OF assms(1)] by blast
  then have l: "mrcp_resource_load_by_id A F loader i = mrcp_resource_register loader (Some ?r)"
    using assms(1) by (simp add: mrcp_resource_load_by_id_def apt_string_table_str_get_def loaded_resource_def)
  have n: "res_name ?r = item_value (mrcp_resource_string_table ! i)" by (simp add: loaded_resource_def)
  obtain ok rf' where reg: "mrcp_resource_register loader (Some ?r) = (ok, rf')" by fastforce
  show ?thesis
    using register_cases [OF reg] reg l n assms loaded_resource_valid [OF assms(1), of A F]
    by (auto simp: mrcp_resource_get_def)
qed

lemma resources_loaded:
  assumes "mrcp_resource_loader_create A F True = Some rf"
  shows "rf_array rf = map (\<lambda>i. Some (loaded_resource A F i)) [0, 1, 2, 3]"
    and "rf_hash rf = [''speechsynth'' \<mapsto> loaded_resource A F 0, ''speechrecog'' \<mapsto> loaded_resource A F 1,
      ''recorder'' \<mapsto> loaded_resource A F 2, ''speakverify'' \<mapsto> loaded_resource A F 3]"
proof -
  have u: "[0..<MRCP_RESOURCE_TYPE_COUNT] = [0, 1, 2, 3]" by (simp add: upt_rec)
  have names: "str_bytes (item_value (mrcp_resource_string_table ! 0)) = ''speechsynth''"
    "str_bytes (item_value (mrcp_resource_string_table ! 1)) = ''speechrecog''"
    "str_bytes (item_value (mrcp_resource_string_table ! 2)) = ''recorder''"
    "str_bytes (item_value (mrcp_resource_string_table ! 3)) = ''speakverify''"
    by (simp_all add: mrcp_resource_string_table_def table_item_def str_bytes_def)
  have "rf = mrcp_resources_load A F \<lparr>rf_array = [None, None, None, None], rf_hash = Map.empty\<rparr>"
    using assms by (simp add: mrcp_resource_loader_create_def mrcp_resource_factory_create_def eval_nat_numeral)
  then have "rf = \<lparr>rf_array = map (\<lambda>i. Some (loaded_resource A F i)) [0, 1, 2, 3],
      rf_hash = [''speechsynth'' \<mapsto> loaded_resource A F 0, ''speechrecog'' \<mapsto> loaded_resource A F 1,
        ''recorder'' \<mapsto> loaded_resource A F 2, ''speakverify'' \<mapsto> loaded_resource A F 3]\<rparr>"
    unfolding mrcp_resources_load_def u by (simp add: load_by_id names names(2) [unfolded One_nat_def])
  then show "rf_array rf = map (\<lambda>i. Some (loaded_resource A F i)) [0, 1, 2, 3]"
    "rf_hash rf = [''speechsynth'' \<mapsto> loaded_resource A F 0, ''speechrecog'' \<mapsto> loaded_resource A F 1,
      ''recorder'' \<mapsto> loaded_resource A F 2, ''speakverify'' \<mapsto> loaded_resource A F 3]" by simp_all
qed

text \<open>The header functions of a resource, and its headers and fields as the contract names them.\<close>

definition resource_vtable :: "apr \<Rightarrow> c_flt \<Rightarrow> nat \<Rightarrow> mrcp_version \<Rightarrow> resource_header header_vtable" where
  "resource_vtable A F t version = the (res_get_resource_header_vtable (loaded_resource A F t)) version"

fun header_type :: "resource_header \<Rightarrow> nat" where
  "header_type (SynthData _) = MRCP_SYNTHESIZER_RESOURCE"
| "header_type (RecogData _) = MRCP_RECOGNIZER_RESOURCE"
| "header_type (RecorderData _) = MRCP_RECORDER_RESOURCE"
| "header_type (VerifierData _) = MRCP_VERIFIER_RESOURCE"

fun header_exact :: "resource_header \<Rightarrow> nat \<Rightarrow> bool" where
  "header_exact (SynthData _) = synth_exact"
| "header_exact (RecogData _) = recog_exact"
| "header_exact (RecorderData _) = recorder_exact"
| "header_exact (VerifierData _) = verifier_exact"

fun header_ok :: "resource_header \<Rightarrow> bool" where
  "header_ok (SynthData h) = synth_values_ok h"
| "header_ok (RecogData h) = recog_values_ok h"
| "header_ok (RecorderData h) = recorder_values_ok h"
| "header_ok (VerifierData h) = verifier_values_ok h"

lemma resource_vtables:
  "resource_vtable A F 0 version = data_vtable SynthData synth_data (mrcp_synth_header_vtable A F)"
  "resource_vtable A F 1 version = data_vtable RecogData recog_data
     (if version = MRCP_VERSION_1 then recog_v1_vtable A F else recog_v2_vtable A F)"
  "resource_vtable A F 2 version = data_vtable RecorderData recorder_data (mrcp_recorder_header_vtable A F)"
  "resource_vtable A F 3 version = data_vtable VerifierData verifier_data (mrcp_verifier_header_vtable A F)"
  by (simp_all add: resource_vtable_def loaded_resource_def resource_defs mrcp_resource_create_def
      mrcp_synth_header_vtable_get_def mrcp_recog_header_vtable_get_def mrcp_recorder_header_vtable_get_def
      mrcp_verifier_header_vtable_get_def)

text \<open>C15. A value that one header generates for a field is parsed by another header of the same resource
  with the same effect as duplicating the field from the first header to the second, in both
  versions of the protocol: every field of the four resources whose text determines the value
  goes through a message unchanged. Floating-point fields, and the structures of the synthesizer
  that hold a union, are the exceptions.\<close>

theorem generated_value_parsed_as_duplicated:
  assumes "apr_ok A" and "header_type d1 = header_type d" and "header_exact d i" and "header_ok d"
    and "i < vt_field_count (resource_vtable A F (header_type d) version)"
  shows "\<exists>v d2. vt_generate (resource_vtable A F (header_type d) version) i d v0 = Inr (True, v) \<and>
    vt_parse (resource_vtable A F (header_type d) version) i v d1 = (True, d2) \<and>
    vt_duplicate (resource_vtable A F (header_type d) version) i (Some d) v (Some d1) = (True, Some d2)"
proof (cases d)
  case (SynthData h)
  moreover obtain h1 where "d1 = SynthData h1" using assms(2) SynthData by (cases d1) auto
  ultimately show ?thesis
    using synth_header.value_roundtrip [OF assms(1), of i F d d1 v0] assms by (simp add: resource_vtables)
next
  case (RecogData h)
  moreover obtain h1 where "d1 = RecogData h1" using assms(2) RecogData by (cases d1) auto
  ultimately show ?thesis
    using recog_v1_header.value_roundtrip [OF assms(1), of i F d d1 v0]
      recog_v2_header.value_roundtrip [OF assms(1), of i F d d1 v0] assms
    by (cases "version = MRCP_VERSION_1") (simp_all add: resource_vtables [unfolded One_nat_def])
next
  case (RecorderData h)
  moreover obtain h1 where "d1 = RecorderData h1" using assms(2) RecorderData by (cases d1) auto
  ultimately show ?thesis
    using recorder_header.value_roundtrip [OF assms(1), of i F d d1 v0] assms by (simp add: resource_vtables)
next
  case (VerifierData h)
  moreover obtain h1 where "d1 = VerifierData h1" using assms(2) VerifierData by (cases d1) auto
  ultimately show ?thesis
    using verifier_header.value_roundtrip [OF assms(1), of i F d d1 v0] assms by (simp add: resource_vtables)
qed

definition sample_record :: resource_header where
  "sample_record = RecorderData (mrcp_recorder_header_init
     \<lparr>rc_max_time := 3000, rc_completion_cause := 0\<rparr>)"

theorem generated_value_parsed_as_duplicated_witness:
  "\<exists>v d2. vt_generate (resource_vtable apr_ref five_flt 2 MRCP_VERSION_2) RECORDER_HEADER_MAX_TIME sample_record
      apt_string_reset = Inr (True, v) \<and>
    vt_parse (resource_vtable apr_ref five_flt 2 MRCP_VERSION_2) RECORDER_HEADER_MAX_TIME v
      (RecorderData mrcp_recorder_header_init) = (True, d2)"
proof -
  have "header_type sample_record = 2" "header_ok sample_record" "header_exact sample_record 8"
    by (simp_all add: sample_record_def recorder_values_ok_def mrcp_recorder_header_init_def recorder_exact_def)
  moreover have "8 < vt_field_count (resource_vtable apr_ref five_flt 2 MRCP_VERSION_2)"
    by (simp add: resource_vtables data_vtable_def mrcp_recorder_header_vtable_def)
  ultimately show ?thesis
    using generated_value_parsed_as_duplicated [OF apr_ref_ok, of "RecorderData mrcp_recorder_header_init" sample_record
        8 five_flt MRCP_VERSION_2 apt_string_reset] by auto
qed

text \<open>C21. The loader that loads all resources makes a factory with the four resources: each one is found by
  its type and by its name, and in every version of the protocol its names of methods, events and header fields are such that a
  name leads to one identifier only, and never to both a resource and a generic header field.\<close>

theorem loaded_factory:
  "\<exists>rf. mrcp_resource_loader_create A F True = Some rf \<and> factory_wf rf \<and>
    list_all (\<lambda>t. mrcp_resource_get rf t = Some (loaded_resource A F t) \<and>
      mrcp_resource_find rf (res_name (loaded_resource A F t)) = Some (loaded_resource A F t) \<and>
      res_id (loaded_resource A F t) = t \<and> (\<forall>version. resource_tables_at version (loaded_resource A F t))) [0, 1, 2, 3]"
proof -
  obtain rf where rf: "mrcp_resource_loader_create A F True = Some rf"
    by (simp add: mrcp_resource_loader_create_def mrcp_resource_factory_create_def)
  note l = resources_loaded [OF rf]
  have names: "str_bytes (res_name (loaded_resource A F 0)) = ''speechsynth''"
    "str_bytes (res_name (loaded_resource A F 1)) = ''speechrecog''"
    "str_bytes (res_name (loaded_resource A F 2)) = ''recorder''"
    "str_bytes (res_name (loaded_resource A F 3)) = ''speakverify''"
    by (simp_all add: loaded_resource_def mrcp_resource_string_table_def table_item_def str_bytes_def)
  have v: "mrcp_resource_validate (loaded_resource A F t)" "res_id (loaded_resource A F t) = t"
    "\<forall>version. resource_tables_at version (loaded_resource A F t)" if "t < 4" for t
    using loaded_resource_valid [OF that] loaded_resource_tables [OF that] by auto
  have get: "mrcp_resource_get rf t = (if t < 4 then Some (loaded_resource A F t) else None)" for t
  proof -
    have "t < 4 \<Longrightarrow> rf_array rf ! t = Some (loaded_resource A F t)"
      using type_cases [of t] l(1) by auto
    then show ?thesis using l(1) by (auto simp: mrcp_resource_get_def)
  qed
  have "factory_wf rf"
    unfolding factory_wf_def get l(2) using v(1,2) names type_cases
    by (auto split: if_splits)
  moreover have "mrcp_resource_find rf (res_name (loaded_resource A F t)) = rf_hash rf (str_bytes (res_name (loaded_resource A F t)))"
    if "t < 4" for t
    using v(1) [OF that] by (auto simp: mrcp_resource_find_def mrcp_resource_validate_def)
  ultimately show ?thesis
    using rf get l(2) names names(2) [unfolded One_nat_def] v by simp
qed

end
