(* ===== verification/MachineBase.thy ===== *)
theory MachineBase
  imports ResourceLoader
begin

text \<open>
  What the state machines of the four resources share (\<open>mrcp_state_machine.h\<close> and the code that
  \<open>mrcp_synth_state_machine.c\<close>, \<open>mrcp_recog_state_machine.c\<close>, \<open>mrcp_recorder_state_machine.c\<close> and
  \<open>mrcp_verifier_state_machine.c\<close> repeat).

  A state machine stands between the client and the engine of a resource on the server. It is
  given the requests of the client and the responses and events of the engine; what it lets
  through, and the responses it makes itself, go to the function \<open>on_dispatch\<close> of its owner, and
  \<open>on_deactivate\<close> tells the owner that the machine has stopped. These functions may call the
  machine again, so they take the machine and return it, along with the state \<open>'e\<close> of the world
  outside. A message is a value: no function changes a message another one still refers to.
\<close>

section \<open>The base\<close>

type_synonym message = "resource_header mrcp_message"

record mrcp_state_machine =
  sm_active :: bool

text \<open>The fields that the machine of every resource has.\<close>

record resource_machine = mrcp_state_machine +
  sm_active_request :: "message option"
  sm_properties :: "resource_header message_header"

type_synonym ('s, 'e) machine_result = "fault + bool \<times> 's \<times> 'e"
type_synonym ('s, 'e) handler = "'s \<Rightarrow> message \<Rightarrow> 'e \<Rightarrow> ('s, 'e) machine_result"

record ('s, 'e) machine_hooks =
  on_dispatch :: "('s, 'e) handler"
  on_deactivate :: "'s \<Rightarrow> 'e \<Rightarrow> ('s, 'e) machine_result"

definition mrcp_state_machine_update ::
  "('s, 'e) handler option \<Rightarrow> 's \<Rightarrow> message \<Rightarrow> 'e \<Rightarrow> ('s, 'e) machine_result" where
  "mrcp_state_machine_update update sm m e = (case update of Some f \<Rightarrow> f sm m e | None \<Rightarrow> Inr (False, sm, e))"

definition mrcp_state_machine_deactivate ::
  "('x mrcp_state_machine_scheme \<Rightarrow> 'e \<Rightarrow> ('x mrcp_state_machine_scheme, 'e) machine_result) option \<Rightarrow>
   'x mrcp_state_machine_scheme \<Rightarrow> 'e \<Rightarrow> ('x mrcp_state_machine_scheme, 'e) machine_result" where
  "mrcp_state_machine_deactivate deactivate sm e =
     (case deactivate of Some f \<Rightarrow> f (sm\<lparr>sm_active := False\<rparr>) e | None \<Rightarrow> Inr (False, sm, e))"

section \<open>Dispatching\<close>

type_synonym ('x, 'e) hooks = "('x resource_machine_scheme, 'e) machine_hooks"
type_synonym ('x, 'e) machine_handler = "('x resource_machine_scheme, 'e) handler"

definition request_dispatch :: "('x, 'e) hooks \<Rightarrow> ('x, 'e) machine_handler" where
  "request_dispatch H sm m e = on_dispatch H (sm\<lparr>sm_active_request := Some m\<rparr>) m e"

definition response_dispatch :: "('x, 'e) hooks \<Rightarrow> ('x, 'e) machine_handler" where
  "response_dispatch H sm m e =
     (let sm = sm\<lparr>sm_active_request := None\<rparr>
      in if \<not> sm_active sm then on_deactivate H sm e else on_dispatch H sm m e)"

definition event_dispatch :: "('x, 'e) hooks \<Rightarrow> ('x, 'e) machine_handler" where
  "event_dispatch H sm m e = (if \<not> sm_active sm then Inr (False, sm, e) else on_dispatch H sm m e)"

section \<open>Messages\<close>

definition set_request_state :: "mrcp_request_state \<Rightarrow> message \<Rightarrow> message" where
  "set_request_state st m = m\<lparr>msg_start_line := (msg_start_line m)\<lparr>sl_request_state := st\<rparr>\<rparr>"

definition set_status_code :: "status_code \<Rightarrow> message \<Rightarrow> message" where
  "set_status_code code m = m\<lparr>msg_start_line := (msg_start_line m)\<lparr>sl_status_code := code\<rparr>\<rparr>"

abbreviation message_type :: "message \<Rightarrow> mrcp_message_type" where
  "message_type m \<equiv> sl_message_type (msg_start_line m)"
abbreviation method_id :: "message \<Rightarrow> nat" where "method_id m \<equiv> sl_method_id (msg_start_line m)"
abbreviation req_id :: "message \<Rightarrow> request_id" where "req_id m \<equiv> sl_request_id (msg_start_line m)"
abbreviation request_state :: "message \<Rightarrow> mrcp_request_state" where
  "request_state m \<equiv> sl_request_state (msg_start_line m)"
abbreviation status :: "message \<Rightarrow> status_code" where "status m \<equiv> sl_status_code (msg_start_line m)"

definition generic_put :: "generic_header \<Rightarrow> message \<Rightarrow> message" where
  "generic_put gh m =
     m\<lparr>msg_header := (msg_header m)\<lparr>mh_generic := (mh_generic (msg_header m))\<lparr>acc_data := Some gh\<rparr>\<rparr>\<rparr>"

definition resource_put :: "resource_header \<Rightarrow> message \<Rightarrow> message" where
  "resource_put d m =
     m\<lparr>msg_header := (msg_header m)\<lparr>mh_resource := (mh_resource (msg_header m))\<lparr>acc_data := Some d\<rparr>\<rparr>\<rparr>"

text \<open>An immediate response of the machine, successful or not.\<close>

definition respond :: "apr \<Rightarrow> ('x, 'e) hooks \<Rightarrow> (message \<Rightarrow> message) \<Rightarrow> ('x, 'e) machine_handler" where
  "respond A H f sm m e = sbind (mrcp_response_create A (Some m)) (\<lambda>r. response_dispatch H sm (f r) e)"

text \<open>
  Adding the identifier of a request to the list of active requests of a response. The list has
  room for five.
\<close>

definition active_id_add :: "message \<Rightarrow> request_id \<Rightarrow> fault + message" where
  "active_id_add m rid =
     (case mrcp_generic_header_prepare m of (None, m) \<Rightarrow> Inl NullDeref
      | (Some gh, m) \<Rightarrow>
          sbind (mrcp_generic_header_property_add (generic_put (snd (active_request_id_list_append gh rid)) m)
                   GENERIC_HEADER_ACTIVE_REQUEST_ID_LIST) (\<lambda>(_, m). Inr m))"

text \<open>A STOP request may name the requests it stops.\<close>

definition selection :: "message \<Rightarrow> generic_header option" where
  "selection m =
     (case mrcp_generic_header_get m of None \<Rightarrow> None
      | Some gh \<Rightarrow>
          if mrcp_generic_header_property_check m GENERIC_HEADER_ACTIVE_REQUEST_ID_LIST \<and>
             gh_active_request_id_list gh \<noteq> []
          then Some gh else None)"

definition selected :: "message \<Rightarrow> request_id \<Rightarrow> bool" where
  "selected m rid \<longleftrightarrow> (case selection m of None \<Rightarrow> True | Some gh \<Rightarrow> active_request_id_list_find gh rid)"

text \<open>
  The loop over the queue of pending requests that takes out the selected ones and notes their
  identifiers in the response; the queue is the list of its objects (see \<open>list_sweep\<close>).
\<close>

fun pending_loop :: "(request_id \<Rightarrow> bool) \<Rightarrow> generic_header \<Rightarrow> message list \<Rightarrow> generic_header \<times> message list" where
  "pending_loop sel gh [] = (gh, [])"
| "pending_loop sel gh (m # q) =
     (if sel (req_id m) then pending_loop sel (snd (active_request_id_list_append gh (req_id m))) q
      else (case pending_loop sel gh q of (gh, q) \<Rightarrow> (gh, m # q)))"

definition pending_requests_remove :: "message list \<Rightarrow> message \<Rightarrow> message \<Rightarrow> fault + message list \<times> message" where
  "pending_requests_remove q request response =
     (case mrcp_generic_header_prepare response of (None, response) \<Rightarrow> Inl NullDeref
      | (Some gh, response) \<Rightarrow>
          (case pending_loop (selected request) gh q of (gh, q) \<Rightarrow>
             let response = generic_put gh response
             in if gh_active_request_id_list gh \<noteq> []
                then sbind (mrcp_generic_header_property_add response GENERIC_HEADER_ACTIVE_REQUEST_ID_LIST) (\<lambda>(_, response).
                       Inr (q, response))
                else Inr (q, response)))"

text \<open>
  The completion cause of an event or a response that has none is set: the field \<open>i\<close> of the
  resource header, by \<open>put\<close>, which fails on the header of another resource.
\<close>

definition completion_cause_default :: "nat \<Rightarrow> (resource_header \<Rightarrow> resource_header option) \<Rightarrow> message \<Rightarrow> fault + message" where
  "completion_cause_default i put m =
     (if mrcp_resource_header_property_check m i then Inr m
      else case mrcp_resource_header_prepare m of (None, m) \<Rightarrow> Inl NullDeref
           | (Some d, m) \<Rightarrow>
               (case put d of None \<Rightarrow> Inl OutOfBounds
                | Some d \<Rightarrow> sbind (mrcp_resource_header_property_add (resource_put d m) i) (\<lambda>(_, m). Inr m)))"

text \<open>
  The internal STOP request of a machine that is deactivated. The assignment of the header copies the
  head of the ring of its fields as well; here the copy has the same fields. (In memory the last
  field of the copied ring leads to the head of the original, so that a loop over the fields
  of the copy would not end at its own head; the machines do not run over them.)
\<close>

definition internal_stop :: "apr \<Rightarrow> message \<Rightarrow> nat \<Rightarrow> fault + message" where
  "internal_stop A source stop =
     sbind (mrcp_request_create A (msg_resource source) (sl_version (msg_start_line source)) stop) (\<lambda>m.
       Inr (m\<lparr>msg_channel_id := msg_channel_id source,
              msg_start_line := (msg_start_line m)\<lparr>sl_request_id := req_id source + 1,
                sl_method_name := c_literal ''DEACTIVATE'' 10\<rparr>,
              msg_header := msg_header source\<rparr>))"

text \<open>Whether the engine has a request of a given method to answer.\<close>

definition waiting_for :: "'x resource_machine_scheme \<Rightarrow> nat \<Rightarrow> bool" where
  "waiting_for sm i \<longleftrightarrow> (case sm_active_request sm of None \<Rightarrow> False | Some active \<Rightarrow> method_id active = i)"

text \<open>The three tables of handlers: no entry where the code leaves a NULL pointer.\<close>

definition request_update ::
  "('x, 'e) hooks \<Rightarrow> nat \<Rightarrow> ('x, 'e) machine_handler list \<Rightarrow> ('x, 'e) machine_handler" where
  "request_update H n handlers sm m e =
     (if method_id m \<ge> n then Inr (False, sm, e)
      else if method_id m < length handlers then (handlers ! method_id m) sm m e
      else request_dispatch H sm m e)"

definition response_update ::
  "('x, 'e) hooks \<Rightarrow> nat \<Rightarrow> ('x, 'e) machine_handler list \<Rightarrow> ('x, 'e) machine_handler" where
  "response_update H n handlers sm m e =
     (case sm_active_request sm of None \<Rightarrow> Inr (False, sm, e)
      | Some active \<Rightarrow>
          if req_id active \<noteq> req_id m then Inr (False, sm, e)
          else if method_id m \<ge> n then Inr (False, sm, e)
          else if method_id m < length handlers then (handlers ! method_id m) sm m e
          else response_dispatch H sm m e)"

definition event_update ::
  "('x, 'e) hooks \<Rightarrow> nat \<Rightarrow> ('x, 'e) machine_handler list \<Rightarrow> ('x, 'e) machine_handler" where
  "event_update H n handlers sm m e =
     (if method_id m \<ge> n then Inr (False, sm, e)
      else if method_id m < length handlers then (handlers ! method_id m) sm m e
      else event_dispatch H sm m e)"

definition state_update ::
  "('x, 'e) machine_handler \<Rightarrow> ('x, 'e) machine_handler \<Rightarrow> ('x, 'e) machine_handler \<Rightarrow> ('x, 'e) machine_handler" where
  "state_update req resp ev sm m e =
     (if message_type m = MRCP_MESSAGE_TYPE_REQUEST then req sm m e
      else if message_type m = MRCP_MESSAGE_TYPE_RESPONSE then resp sm m e
      else if message_type m = MRCP_MESSAGE_TYPE_EVENT then ev sm m e
      else Inr (False, sm, e))"

section \<open>Outputs, inputs and runs\<close>

text \<open>A dispatcher that notes what the machine sends.\<close>

datatype machine_output = Dispatched message | Deactivated

definition log_hooks :: "('s, machine_output list) machine_hooks" where
  "log_hooks =
     \<lparr>on_dispatch = (\<lambda>sm m out. Inr (True, sm, out @ [Dispatched m])),
      on_deactivate = (\<lambda>sm out. Inr (True, sm, out @ [Deactivated]))\<rparr>"

datatype machine_input = Receive message | Deactivate

fun machine_step ::
  "('s, 'e) handler \<Rightarrow> ('s \<Rightarrow> 'e \<Rightarrow> ('s, 'e) machine_result) \<Rightarrow> 's \<Rightarrow> machine_input \<Rightarrow> 'e \<Rightarrow> ('s, 'e) machine_result" where
  "machine_step update deactivate sm (Receive m) e = mrcp_state_machine_update (Some update) sm m e"
| "machine_step update deactivate sm Deactivate e = deactivate sm e"

fun machine_feed ::
  "('s, 'e) handler \<Rightarrow> ('s \<Rightarrow> 'e \<Rightarrow> ('s, 'e) machine_result) \<Rightarrow> machine_input list \<Rightarrow> 's \<Rightarrow> 'e \<Rightarrow> fault + 's \<times> 'e" where
  "machine_feed update deactivate [] sm e = Inr (sm, e)"
| "machine_feed update deactivate (i # is) sm e =
     sbind (machine_step update deactivate sm i e) (\<lambda>(_, sm, e). machine_feed update deactivate is sm e)"

text \<open>
  The states a machine reaches, together with the world outside, when every message it receives
  is admissible in the state it meets.
\<close>

inductive machine_reaches ::
  "('s, 'e) handler \<Rightarrow> ('s \<Rightarrow> 'e \<Rightarrow> ('s, 'e) machine_result) \<Rightarrow> ('s \<Rightarrow> message \<Rightarrow> bool) \<Rightarrow> 's \<times> 'e \<Rightarrow> 's \<times> 'e \<Rightarrow> bool"
  for update deactivate admissible start where
  reaches_start: "machine_reaches update deactivate admissible start start"
| reaches_receive: "machine_reaches update deactivate admissible start (sm, e) \<Longrightarrow> admissible sm m \<Longrightarrow>
    machine_step update deactivate sm (Receive m) e = Inr (ok, sm', e') \<Longrightarrow>
    machine_reaches update deactivate admissible start (sm', e')"
| reaches_deactivate: "machine_reaches update deactivate admissible start (sm, e) \<Longrightarrow>
    machine_step update deactivate sm Deactivate e = Inr (ok, sm', e') \<Longrightarrow>
    machine_reaches update deactivate admissible start (sm', e')"

lemma feed_reaches:
  assumes "machine_feed update deactivate (map Receive ms) sm e = Inr c"
    and "machine_reaches update deactivate admissible start (sm, e)" and "\<And>sm. list_all (admissible sm) ms"
  shows "machine_reaches update deactivate admissible start c"
  using assms
proof (induction ms arbitrary: sm e)
  case (Cons m ms)
  obtain ok sm' e' where step: "machine_step update deactivate sm (Receive m) e = Inr (ok, sm', e')"
    "machine_feed update deactivate (map Receive ms) sm' e' = Inr c"
    using Cons.prems(1) by (cases "machine_step update deactivate sm (Receive m) e") auto
  have "machine_reaches update deactivate admissible start (sm', e')"
    by (rule reaches_receive [OF Cons.prems(2) _ step(1)]) (use Cons.prems(3) in simp)
  then show ?case using Cons.prems(3) by (intro Cons.IH [OF step(2)]) simp_all
qed simp

text \<open>
  A result that is no fault and leaves the machine in a state with the invariant; and dispatchers
  that keep the invariant, whatever else they do with the machine.
\<close>

definition safe :: "('s \<Rightarrow> bool) \<Rightarrow> ('s, 'e) machine_result \<Rightarrow> bool" where
  "safe I r \<longleftrightarrow> (\<exists>ok sm e. r = Inr (ok, sm, e) \<and> I sm)"

definition hooks_ok :: "('s \<Rightarrow> bool) \<Rightarrow> ('s, 'e) machine_hooks \<Rightarrow> bool" where
  "hooks_ok I H \<longleftrightarrow>
     (\<forall>sm m e. I sm \<longrightarrow> safe I (on_dispatch H sm m e)) \<and> (\<forall>sm e. I sm \<longrightarrow> safe I (on_deactivate H sm e))"

lemma log_hooks_ok [simp]: "hooks_ok I log_hooks"
  by (auto simp: hooks_ok_def safe_def log_hooks_def)

lemma sbind_assoc: "sbind (sbind r f) g = sbind r (\<lambda>x. sbind (f x) g)"
  by (simp add: sbind_def split: sum.split)

named_theorems safe_intros \<open>handlers that are no fault and keep the invariant\<close>

lemma safe_Inr [safe_intros]: "I sm \<Longrightarrow> safe I (Inr (ok, sm, e))"
  by (simp add: safe_def)

lemma safe_bind [safe_intros]:
  "safe I r \<Longrightarrow> (\<And>ok sm e. I sm \<Longrightarrow> safe I (f (ok, sm, e))) \<Longrightarrow> safe I (sbind r f)"
  by (auto simp: safe_def)

lemma safe_request [safe_intros]:
  "hooks_ok I H \<Longrightarrow> I (sm\<lparr>sm_active_request := Some m\<rparr>) \<Longrightarrow> safe I (request_dispatch H sm m e)"
  by (simp add: request_dispatch_def hooks_ok_def)

lemma safe_response [safe_intros]:
  "hooks_ok I H \<Longrightarrow> I (sm\<lparr>sm_active_request := None\<rparr>) \<Longrightarrow> safe I (response_dispatch H sm m e)"
  by (simp add: response_dispatch_def hooks_ok_def Let_def)

lemma safe_event [safe_intros]: "hooks_ok I H \<Longrightarrow> I sm \<Longrightarrow> safe I (event_dispatch H sm m e)"
  by (simp add: event_dispatch_def hooks_ok_def safe_Inr)

section \<open>The contract of a state machine\<close>

text \<open>
  A machine with an invariant: a message that is admissible in a state is processed without a fault
  and keeps the invariant, unless it is a hazard there; then it makes the machine dereference NULL.
\<close>

locale resource_state_machine =
  fixes I :: "'s \<Rightarrow> bool" and admissible :: "'s \<Rightarrow> message \<Rightarrow> bool" and hazard :: "'s \<Rightarrow> message \<Rightarrow> bool"
    and update :: "('s, 'e) machine_hooks \<Rightarrow> ('s, 'e) handler"
    and deactivate :: "('s, 'e) machine_hooks \<Rightarrow> 's \<Rightarrow> 'e \<Rightarrow> ('s, 'e) machine_result"
  assumes update_safe: "hooks_ok I H \<Longrightarrow> I sm \<Longrightarrow> admissible sm m \<Longrightarrow> \<not> hazard sm m \<Longrightarrow> safe I (update H sm m e)"
    and update_faults: "hazard sm m \<Longrightarrow> update H sm m e = Inl NullDeref"
    and deactivate_safe: "hooks_ok I H \<Longrightarrow> I sm \<Longrightarrow> safe I (deactivate H sm e)"
begin

lemma reaches_inv:
  assumes "hooks_ok I H" and "I (fst start)"
  shows "machine_reaches (update H) (deactivate H) admissible start c \<Longrightarrow> I (fst c)"
proof (induction rule: machine_reaches.induct)
  case (reaches_receive sm e m ok sm' e')
  then show ?case
    using update_safe [OF assms(1), of sm m e] update_faults [of sm m H e]
    by (cases "hazard sm m") (simp_all add: mrcp_state_machine_update_def safe_def)
next
  case (reaches_deactivate sm e ok sm' e')
  then show ?case using deactivate_safe [OF assms(1), of sm e] by (simp add: safe_def)
qed (rule assms(2))

lemma run_exact:
  assumes "hooks_ok I H" and "I sm0" and "machine_reaches (update H) (deactivate H) admissible (sm0, e0) (sm, e)"
    and "admissible sm m"
  shows "I sm \<and> (if hazard sm m then update H sm m e = Inl NullDeref else safe I (update H sm m e)) \<and>
    safe I (deactivate H sm e)"
  using reaches_inv [OF assms(1) _ assms(3)] assms(1,2,4) update_safe update_faults deactivate_safe by simp

end

section \<open>Messages that machines work on\<close>

definition res_ok :: "message \<Rightarrow> bool" where
  "res_ok m \<longleftrightarrow> (case msg_resource m of None \<Rightarrow> False | Some r \<Rightarrow> mrcp_resource_validate r)"

definition generic_ok :: "apr \<Rightarrow> message \<Rightarrow> bool" where
  "generic_ok A m \<longleftrightarrow> acc_vtable (mh_generic (msg_header m)) = Some (mrcp_generic_header_vtable A) \<and>
     (case acc_data (mh_generic (msg_header m)) of None \<Rightarrow> False
      | Some gh \<Rightarrow> length (gh_active_request_id_list gh) \<le> MAX_ACTIVE_REQUEST_ID_COUNT)"

text \<open>A message of the resource of type \<open>t\<close>, as the stream makes it.\<close>

definition machine_message :: "apr \<Rightarrow> c_flt \<Rightarrow> nat \<Rightarrow> message \<Rightarrow> bool" where
  "machine_message A F t m \<longleftrightarrow> res_ok m \<and> generic_ok A m \<and>
     (\<exists>version d. acc_vtable (mh_resource (msg_header m)) = Some (resource_vtable A F t version) \<and>
        acc_data (mh_resource (msg_header m)) = Some d \<and> header_type d = t)"

text \<open>
  A response that has the identifier of the request the machine waits for, but another method.
  The machines compare identifiers only, so they take it for the answer.
\<close>

definition answers_other :: "'x resource_machine_scheme \<Rightarrow> message \<Rightarrow> bool" where
  "answers_other sm m \<longleftrightarrow> message_type m = MRCP_MESSAGE_TYPE_RESPONSE \<and>
     (case sm_active_request sm of None \<Rightarrow> False
      | Some active \<Rightarrow> req_id active = req_id m \<and> method_id active \<noteq> method_id m)"

lemma id_list_write_no_fault:
  "apr_ok A \<Longrightarrow> length m = len + 1 \<Longrightarrow>
   (if ids = [] then pos \<le> len else pos + 12 * length ids + (if first then 0 else 1) < len + 12) \<Longrightarrow>
   no_fault (id_list_write A len ids first pos m)"
proof (induction ids arbitrary: first pos m)
  case Nil
  then show ?case by (simp add: mem_write_def)
next
  case (Cons i "is")
  obtain p where pd: "p = (if first then pos else pos + 1)" by simp
  have p: "p < len" using Cons.prems(3) by (auto simp: pd split: if_splits)
  obtain m1 where 1: "(if first then Inr (pos, m) else sbind (mem_write pos '','' m) (\<lambda>m. Inr (pos + 1, m))) = Inr (p, m1)"
    "length m1 = len + 1"
    using Cons.prems(2) p by (cases first) (auto simp: mem_write_def pd)
  obtain stored ret where s: "apr_snprintf A (len - p) (sint i) = (stored, ret)" by fastforce
  have l: "length stored \<le> len - p" "ret < int (len - p)"
    using Cons.prems(1) s p unfolding apr_ok_def by (metis fst_conv, metis snd_conv zero_less_diff)
  obtain m2 where 2: "mem_write p stored m1 = Inr m2" "length m2 = len + 1"
  proof -
    have "p + length stored \<le> length m1" using 1(2) l(1) p by linarith
    then have "mem_write p stored m1 = Inr (take p m1 @ stored @ drop (p + length stored) m1)" by (simp add: mem_write_def)
    then show thesis by (rule that) (use \<open>p + length stored \<le> length m1\<close> 1(2) in simp)
  qed
  have d: "length (dec_int (sint i)) \<le> 11"
  proof -
    have "- (2 ^ 31) \<le> sint i" "sint i < 2 ^ 31" using sint_range_size [of i] by (simp_all add: word_size)
    then have "nat \<bar>sint i\<bar> < 10 ^ 10" by simp
    then have "length (dec (nat \<bar>sint i\<bar>)) \<le> 10" by (intro length_dec_le) auto
    then show ?thesis by (auto simp: dec_int_def split: if_splits)
  qed
  have r: "0 \<le> ret \<Longrightarrow> nat ret \<le> 11"
  proof (cases "length (dec_int (sint i)) < len - p")
    case True
    then have "ret = int (length (dec_int (sint i)))" using Cons.prems(1) s by (simp add: apr_ok_def)
    then show ?thesis using d by simp
  next
    case False
    then show ?thesis using l(2) d by linarith
  qed
  have "no_fault (id_list_write A len is False (p + nat ret) m2)" if "0 \<le> ret"
    using Cons.prems(1,3) 2(2) r [OF that] l(2) that p by (intro Cons.IH) (auto simp: pd split: if_splits)
  then show ?case using 1(1) s 2(1) less_imp_le [OF p] by (simp add: not_less)
qed

lemma ids_generate: "apr_ok A \<Longrightarrow> length ids \<le> MAX_ACTIVE_REQUEST_ID_COUNT \<Longrightarrow> no_fault (mrcp_request_id_list_generate A ids)"
proof -
  assume A: "apr_ok A" and n: "length ids \<le> MAX_ACTIVE_REQUEST_ID_COUNT"
  let ?len = "10 * length ids + (if length ids > 1 then length ids - 1 else 0)"
  have "no_fault (id_list_write A ?len ids True 0 (apr_palloc A (?len + 1)))"
    using A n by (intro id_list_write_no_fault) (auto simp: apr_ok_def)
  then show ?thesis by (auto simp: mrcp_request_id_list_generate_def Let_def no_fault_def split: prod.splits)
qed

lemma generic_property_add:
  assumes "apr_ok A" and "generic_ok A m"
  shows "\<exists>ok sec. mrcp_generic_header_property_add m GENERIC_HEADER_ACTIVE_REQUEST_ID_LIST =
    Inr (ok, section_update (\<lambda>_. sec) m)"
proof -
  obtain gh where gh: "acc_vtable (mh_generic (msg_header m)) = Some (mrcp_generic_header_vtable A)"
    "acc_data (mh_generic (msg_header m)) = Some gh" "length (gh_active_request_id_list gh) \<le> MAX_ACTIVE_REQUEST_ID_COUNT"
    using assms(2) by (auto simp: generic_ok_def split: option.splits)
  obtain ok v where "mrcp_request_id_list_generate A (gh_active_request_id_list gh) = Inr (ok, v)"
    using ids_generate [OF assms(1) gh(3)] by (auto simp: no_fault_def)
  then show ?thesis
    using gh by (auto simp: mrcp_generic_header_property_add_def mrcp_header_field_value_generate_def
        mrcp_generic_header_vtable_def mrcp_generic_header_generate_def generated_field_add_def Let_def section_update_def)
qed

text \<open>What the machines change of a message: its header, up to the list of active requests.\<close>

definition same_message :: "message \<Rightarrow> message \<Rightarrow> bool" where
  "same_message m m' \<longleftrightarrow> msg_start_line m' = msg_start_line m \<and> msg_resource m' = msg_resource m \<and>
     msg_channel_id m' = msg_channel_id m \<and> msg_body m' = msg_body m \<and>
     mh_resource (msg_header m') = mh_resource (msg_header m)"

lemma same_message_trans: "same_message m m' \<Longrightarrow> same_message m' m'' \<Longrightarrow> same_message m m''"
  by (simp add: same_message_def)

lemma same_message_section [simp]: "same_message m (section_update f m)"
  by (simp add: same_message_def section_update_def)

lemma same_message_generic [simp]: "same_message m (generic_put gh m)"
  by (simp add: same_message_def generic_put_def)

lemma generic_ok_section [simp]: "generic_ok A (section_update f m) = generic_ok A m"
  by (simp add: generic_ok_def section_update_def)

lemma generic_ok_put [simp]:
  "generic_ok A m \<Longrightarrow> generic_ok A (generic_put gh m) \<longleftrightarrow> length (gh_active_request_id_list gh) \<le> MAX_ACTIVE_REQUEST_ID_COUNT"
  by (simp add: generic_ok_def generic_put_def)

lemma generic_ok_prepare:
  "generic_ok A m \<Longrightarrow> \<exists>gh. mrcp_generic_header_prepare m = (Some gh, m) \<and>
     length (gh_active_request_id_list gh) \<le> MAX_ACTIVE_REQUEST_ID_COUNT"
  by (auto simp: generic_ok_def mrcp_generic_header_prepare_def mrcp_header_allocate_def Let_def split: option.splits)

lemma id_append_length:
  "length (gh_active_request_id_list gh) \<le> MAX_ACTIVE_REQUEST_ID_COUNT \<Longrightarrow>
   length (gh_active_request_id_list (snd (active_request_id_list_append gh rid))) \<le> MAX_ACTIVE_REQUEST_ID_COUNT"
  by (simp add: active_request_id_list_append_def)

lemma active_id_add_ok:
  assumes "apr_ok A" and "generic_ok A m"
  shows "\<exists>m'. active_id_add m rid = Inr m' \<and> generic_ok A m' \<and> same_message m m'"
proof -
  obtain gh where gh: "mrcp_generic_header_prepare m = (Some gh, m)" "length (gh_active_request_id_list gh) \<le> MAX_ACTIVE_REQUEST_ID_COUNT"
    using generic_ok_prepare [OF assms(2)] by blast
  let ?m = "generic_put (snd (active_request_id_list_append gh rid)) m"
  have ok: "generic_ok A ?m" using assms(2) id_append_length [OF gh(2), of rid] by simp
  obtain b sec where "mrcp_generic_header_property_add ?m GENERIC_HEADER_ACTIVE_REQUEST_ID_LIST = Inr (b, section_update (\<lambda>_. sec) ?m)"
    using generic_property_add [OF assms(1) ok] by blast
  then show ?thesis
    using gh(1) ok same_message_trans [OF same_message_generic same_message_section] by (simp add: active_id_add_def)
qed

lemma pending_loop_queue:
  "length (gh_active_request_id_list gh) \<le> MAX_ACTIVE_REQUEST_ID_COUNT \<Longrightarrow>
   \<exists>gh'. pending_loop sel gh q = (gh', filter (\<lambda>m. \<not> sel (req_id m)) q) \<and>
     length (gh_active_request_id_list gh') \<le> MAX_ACTIVE_REQUEST_ID_COUNT \<and>
     gh_active_request_id_list gh' =
       take MAX_ACTIVE_REQUEST_ID_COUNT (gh_active_request_id_list gh @ map req_id (filter (\<lambda>m. sel (req_id m)) q))"
proof (induction q arbitrary: gh)
  case (Cons m q)
  show ?case
  proof (cases "sel (req_id m)")
    case True
    let ?gh = "snd (active_request_id_list_append gh (req_id m))"
    have "take MAX_ACTIVE_REQUEST_ID_COUNT (gh_active_request_id_list ?gh @ xs) =
        take MAX_ACTIVE_REQUEST_ID_COUNT (gh_active_request_id_list gh @ req_id m # xs)" for xs
    proof (cases "length (gh_active_request_id_list gh) = MAX_ACTIVE_REQUEST_ID_COUNT")
      case False
      then have "MAX_ACTIVE_REQUEST_ID_COUNT - length (gh_active_request_id_list gh) =
          Suc (MAX_ACTIVE_REQUEST_ID_COUNT - Suc (length (gh_active_request_id_list gh)))"
        using Cons.prems by linarith
      then show ?thesis using Cons.prems False by (simp add: active_request_id_list_append_def)
    qed (simp add: active_request_id_list_append_def)
    then show ?thesis using Cons.IH [OF id_append_length [OF Cons.prems, of "req_id m"]] True by auto
  next
    case False
    then show ?thesis using Cons.IH [OF Cons.prems] by auto
  qed
qed simp

lemma pending_remove_ok:
  assumes "apr_ok A" and "generic_ok A response"
  shows "\<exists>response'. pending_requests_remove q request response =
      Inr (filter (\<lambda>m. \<not> selected request (req_id m)) q, response') \<and>
    generic_ok A response' \<and> same_message response response'"
proof -
  obtain gh where gh: "mrcp_generic_header_prepare response = (Some gh, response)"
    "length (gh_active_request_id_list gh) \<le> MAX_ACTIVE_REQUEST_ID_COUNT"
    using generic_ok_prepare [OF assms(2)] by blast
  obtain gh' where p: "pending_loop (selected request) gh q = (gh', filter (\<lambda>m. \<not> selected request (req_id m)) q)"
    "length (gh_active_request_id_list gh') \<le> MAX_ACTIVE_REQUEST_ID_COUNT"
    using pending_loop_queue [OF gh(2)] by blast
  let ?m = "generic_put gh' response"
  have ok: "generic_ok A ?m" using assms(2) p(2) by simp
  obtain b sec where "mrcp_generic_header_property_add ?m GENERIC_HEADER_ACTIVE_REQUEST_ID_LIST = Inr (b, section_update (\<lambda>_. sec) ?m)"
    using generic_property_add [OF assms(1) ok] by blast
  then show ?thesis
    using gh(1) p(1) ok same_message_trans [OF same_message_generic same_message_section]
    by (cases "gh_active_request_id_list gh' = []") (simp_all add: pending_requests_remove_def Let_def)
qed

text \<open>Messages that a machine makes.\<close>

lemma created_ok:
  assumes "res_ok req"
  shows "\<exists>ok m'. mrcp_message_resource_set_by_id A m (msg_resource req) = Inr (ok, m') \<and> res_ok m' \<and> generic_ok A m' \<and>
    message_type m' = message_type m \<and> req_id m' = req_id m \<and> method_id m' = method_id m \<and> status m' = status m \<and>
    request_state m' = request_state m"
proof -
  obtain r get where r: "msg_resource req = Some r" "mrcp_resource_validate r" "res_get_resource_header_vtable r = Some get"
    using assms by (auto simp: res_ok_def mrcp_resource_validate_def split: option.splits)
  obtain ok m' where m': "mrcp_message_resource_set_by_id A m (Some r) = Inr (ok, m')" "msg_resource m' = Some r"
    "message_type m' = message_type m" "req_id m' = req_id m" "method_id m' = method_id m" "status m' = status m"
    "request_state m' = request_state m"
    using resource_set_by_id_ready [OF r(2,3), of A m] by (elim exE conjE) (rule that, assumption+)
  have "mh_generic (msg_header m') = \<lparr>acc_data = Some mrcp_generic_header_init, acc_vtable = Some (mrcp_generic_header_vtable A)\<rparr>"
  proof -
    let ?m = "m\<lparr>msg_resource := Some r, msg_channel_id := (msg_channel_id m)\<lparr>ch_resource_name := res_name r\<rparr>\<rparr>"
    obtain h where h: "resource_header_alloc A r ?m = Inr (?m\<lparr>msg_header := h\<rparr>)"
      "header_ready A (get (sl_version (msg_start_line ?m))) h" "acc_data (mh_generic h) = Some mrcp_generic_header_init"
      using header_alloc_ready [OF r(3), of A ?m] by blast
    obtain gm ge where t: "res_get_method_str_table r = Some gm" "res_get_event_str_table r = Some ge"
      using r(2) by (auto simp: mrcp_resource_validate_def)
    have "msg_header m' = h"
      using m'(1) h(1) t by (cases "message_type m")
        (auto simp: mrcp_message_resource_set_by_id_def resource_name_table_def Let_def split: option.splits)
    then show ?thesis using h(2,3) by (cases "mh_generic h") (simp add: header_ready_def)
  qed
  then have "generic_ok A m'" by (simp add: generic_ok_def mrcp_generic_header_init_def)
  then show ?thesis using m' r(1,2) by (simp add: res_ok_def)
qed

lemma response_created:
  assumes "res_ok req"
  shows "\<exists>m. mrcp_response_create A (Some req) = Inr m \<and> res_ok m \<and> generic_ok A m \<and>
    message_type m = MRCP_MESSAGE_TYPE_RESPONSE \<and> req_id m = req_id req \<and> method_id m = method_id req \<and>
    status m = MRCP_STATUS_CODE_SUCCESS \<and> request_state m = MRCP_REQUEST_STATE_COMPLETE"
proof -
  let ?m = "(mrcp_message_create A :: message)\<lparr>msg_channel_id := msg_channel_id req,
    msg_start_line := (msg_start_line (mrcp_message_create A :: message))\<lparr>sl_message_type := MRCP_MESSAGE_TYPE_RESPONSE,
      sl_request_state := MRCP_REQUEST_STATE_COMPLETE, sl_status_code := MRCP_STATUS_CODE_SUCCESS,
      sl_request_id := req_id req, sl_version := sl_version (msg_start_line req),
      sl_method_id := method_id req, sl_method_name := sl_method_name (msg_start_line req)\<rparr>\<rparr>"
  show ?thesis using created_ok [OF assms, of A ?m] by (auto simp: mrcp_response_create_def Let_def)
qed

lemma event_created:
  assumes "res_ok req"
  shows "\<exists>m. mrcp_event_create A (Some req) i = Inr m \<and> res_ok m \<and> generic_ok A m \<and>
    message_type m = MRCP_MESSAGE_TYPE_EVENT \<and> req_id m = req_id req \<and> method_id m = i"
proof -
  let ?m = "(mrcp_message_create A :: message)\<lparr>msg_channel_id := msg_channel_id req,
    msg_start_line := (msg_start_line (mrcp_message_create A :: message))\<lparr>sl_message_type := MRCP_MESSAGE_TYPE_EVENT,
      sl_method_id := i, sl_request_id := req_id req, sl_version := sl_version (msg_start_line req)\<rparr>\<rparr>"
  show ?thesis using created_ok [OF assms, of A ?m] by (auto simp: mrcp_event_create_def Let_def)
qed

lemma internal_stop_created:
  assumes "res_ok source"
  shows "\<exists>m. internal_stop A source stop = Inr m \<and> res_ok m \<and> method_id m = stop \<and>
    message_type m = MRCP_MESSAGE_TYPE_REQUEST \<and> req_id m = req_id source + 1"
proof -
  let ?m = "(mrcp_message_create A :: message)\<lparr>msg_start_line := (msg_start_line (mrcp_message_create A :: message))
    \<lparr>sl_message_type := MRCP_MESSAGE_TYPE_REQUEST, sl_version := sl_version (msg_start_line source), sl_method_id := stop\<rparr>\<rparr>"
  show ?thesis
    using created_ok [OF assms, of A ?m]
    by (auto simp: internal_stop_def mrcp_request_create_def Let_def res_ok_def)
qed

lemma safe_respond [safe_intros]:
  assumes "hooks_ok I H" and "res_ok m" and "I (sm\<lparr>sm_active_request := None\<rparr>)"
  shows "safe I (respond A H f sm m e)"
  using response_created [OF assms(2), of A] safe_response [OF assms(1,3)] by (auto simp: respond_def)

lemma completion_cause_ok:
  assumes "machine_message A F t m" and "\<And>d. header_type d = t \<Longrightarrow> \<exists>d'. put d = Some d' \<and> header_type d' = t"
    and "\<And>d v version. header_type d = t \<Longrightarrow> no_fault (vt_generate (resource_vtable A F t version) i d v)"
  shows "\<exists>m'. completion_cause_default i put m = Inr m' \<and> msg_start_line m' = msg_start_line m"
proof (cases "mrcp_resource_header_property_check m i")
  case False
  obtain version d where d: "acc_vtable (mh_resource (msg_header m)) = Some (resource_vtable A F t version)"
    "acc_data (mh_resource (msg_header m)) = Some d" "header_type d = t"
    using assms(1) by (auto simp: machine_message_def)
  obtain d' where d': "put d = Some d'" "header_type d' = t" using assms(2) [OF d(3)] by blast
  have "no_fault (mrcp_resource_header_property_add (resource_put d' m) i)"
  proof -
    obtain ok v where "vt_generate (resource_vtable A F t version) i d' (hf_value apt_header_field_alloc) = Inr (ok, v)"
      using assms(3) [OF d'(2), of version "hf_value apt_header_field_alloc"] by (auto simp: no_fault_def)
    then have "no_fault (mrcp_header_field_value_generate (mh_resource (msg_header (resource_put d' m))) i False)"
      using d(1) by (simp add: mrcp_header_field_value_generate_def resource_put_def Let_def split: option.split)
    then show ?thesis
      by (auto simp: mrcp_resource_header_property_add_def generated_field_add_def no_fault_def Let_def split: option.splits)
  qed
  then obtain ok m' where m': "mrcp_resource_header_property_add (resource_put d' m) i = Inr (ok, m')"
    by (auto simp: no_fault_def)
  then have "msg_start_line m' = msg_start_line m"
    by (auto simp: mrcp_resource_header_property_add_def generated_field_add_def sbind_eq_Inr_iff resource_put_def
        section_update_def Let_def split: option.splits)
  then show ?thesis
    using False d d' m' by (simp add: completion_cause_default_def mrcp_resource_header_prepare_def mrcp_header_allocate_def Let_def)
qed (simp add: completion_cause_default_def)

text \<open>The helpers as rules for \<open>safe\<close>.\<close>

lemma safe_active_id [safe_intros]:
  assumes "apr_ok A" and "generic_ok A m"
    and "\<And>m'. generic_ok A m' \<Longrightarrow> same_message m m' \<Longrightarrow> safe I (f m')"
  shows "safe I (sbind (active_id_add m rid) f)"
  using active_id_add_ok [OF assms(1,2), of rid] assms(3) by auto

lemma safe_pending [safe_intros]:
  assumes "apr_ok A" and "generic_ok A response"
    and "\<And>response'. generic_ok A response' \<Longrightarrow> same_message response response' \<Longrightarrow>
      safe I (f (filter (\<lambda>m. \<not> selected request (req_id m)) q, response'))"
  shows "safe I (sbind (pending_requests_remove q request response) f)"
  using pending_remove_ok [OF assms(1,2), of q request] assms(3) by auto

lemma safe_response_create:
  assumes "res_ok m" and "\<And>r. res_ok r \<Longrightarrow> generic_ok A r \<Longrightarrow> safe I (f r)"
  shows "safe I (sbind (mrcp_response_create A (Some m)) f)"
  using response_created [OF assms(1), of A] assms(2) by auto

lemma safe_event_create:
  assumes "res_ok m" and "\<And>r. res_ok r \<Longrightarrow> safe I (f r)"
  shows "safe I (sbind (mrcp_event_create A (Some m) i) f)"
  using event_created [OF assms(1), of A i] assms(2) by auto

lemma safe_stop_create:
  assumes "res_ok m" and "\<And>r. res_ok r \<Longrightarrow> method_id r = i \<Longrightarrow> safe I (f r)"
  shows "safe I (sbind (internal_stop A m i) f)"
  using internal_stop_created [OF assms(1), of A i] assms(2) by auto

text \<open>Whether a completion cause can be generated for a header of type \<open>t\<close>.\<close>

definition cause_ok :: "apr \<Rightarrow> c_flt \<Rightarrow> nat \<Rightarrow> nat \<Rightarrow> (resource_header \<Rightarrow> resource_header option) \<Rightarrow> bool" where
  "cause_ok A F t i put \<longleftrightarrow> (\<forall>d. header_type d = t \<longrightarrow> (\<exists>d'. put d = Some d' \<and> header_type d' = t) \<and>
     (\<forall>v version. no_fault (vt_generate (resource_vtable A F t version) i d v)))"

lemma safe_completion_cause:
  assumes "machine_message A F t m" and "cause_ok A F t i put"
    and "\<And>m'. msg_start_line m' = msg_start_line m \<Longrightarrow> safe I (f m')"
  shows "safe I (sbind (completion_cause_default i put m) f)"
  using completion_cause_ok [OF assms(1), of put i] assms(2,3) unfolding cause_ok_def by auto

lemma res_ok_simps [simp]:
  "res_ok (set_request_state st m) = res_ok m"
  "res_ok (set_status_code code m) = res_ok m"
  "res_ok (m\<lparr>msg_header := h\<rparr>) = res_ok m"
  "method_id (set_request_state st m) = method_id m"
  "method_id (set_status_code code m) = method_id m"
  by (simp_all add: res_ok_def set_request_state_def set_status_code_def)

definition opt_ok :: "message option \<Rightarrow> bool" where
  "opt_ok mo \<longleftrightarrow> (case mo of None \<Rightarrow> True | Some m \<Rightarrow> res_ok m)"

lemma opt_ok_simps [simp]: "opt_ok None" "opt_ok (Some m) \<longleftrightarrow> res_ok m"
  by (simp_all add: opt_ok_def)

lemma waiting_for_simps [simp]:
  "waiting_for (sm\<lparr>sm_active_request := None\<rparr>) i \<longleftrightarrow> False"
  "waiting_for (sm\<lparr>sm_active_request := Some m\<rparr>) i \<longleftrightarrow> method_id m = i"
  "waiting_for (sm\<lparr>sm_properties := h\<rparr>) i = waiting_for sm i"
  "waiting_for (sm\<lparr>sm_active := b\<rparr>) i = waiting_for sm i"
  by (simp_all add: waiting_for_def)

text \<open>A queue of pending requests of a method.\<close>

definition queue_ok :: "nat \<Rightarrow> message list \<Rightarrow> bool" where
  "queue_ok i q \<longleftrightarrow> (\<forall>m\<in>set q. method_id m = i \<and> request_state m = MRCP_REQUEST_STATE_PENDING \<and> res_ok m)"

lemma queue_ok_simps [simp]:
  "queue_ok i []"
  "queue_ok i (m # q) \<longleftrightarrow> method_id m = i \<and> request_state m = MRCP_REQUEST_STATE_PENDING \<and> res_ok m \<and> queue_ok i q"
  "queue_ok i (q @ q') \<longleftrightarrow> queue_ok i q \<and> queue_ok i q'"
  "queue_ok i q \<Longrightarrow> queue_ok i (filter P q)"
  by (auto simp: queue_ok_def)

lemma queue_ok_pop: "filter P q = m # q' \<Longrightarrow> queue_ok i q \<Longrightarrow> queue_ok i (m # q')"
  by (metis queue_ok_simps(4))

lemma request_state_set [simp]:
  "request_state (set_request_state st m) = st" "req_id (set_request_state st m) = req_id m"
  by (simp_all add: set_request_state_def)

text \<open>
  The three tables: what is safe for the handler of every method is safe for the update. A
  response that gets to a handler answers the active request.
\<close>

lemma safe_request_update:
  assumes "I sm" and "\<And>i. i < length hs \<Longrightarrow> method_id m = i \<Longrightarrow> safe I ((hs ! i) sm m e)"
    and "length hs \<le> method_id m \<Longrightarrow> method_id m < n \<Longrightarrow> safe I (request_dispatch H sm m e)"
  shows "safe I (request_update H n hs sm m e)"
  using assms by (auto simp: request_update_def intro: safe_Inr)

lemma safe_response_update:
  assumes "I sm"
    and "\<And>i active. i < length hs \<Longrightarrow> sm_active_request sm = Some active \<Longrightarrow> req_id active = req_id m \<Longrightarrow>
      method_id m = i \<Longrightarrow> safe I ((hs ! i) sm m e)"
    and "length hs \<le> method_id m \<Longrightarrow> method_id m < n \<Longrightarrow> safe I (response_dispatch H sm m e)"
  shows "safe I (response_update H n hs sm m e)"
  using assms by (auto simp: response_update_def intro: safe_Inr split: option.split)

lemma safe_event_update:
  assumes "I sm" and "\<And>i. i < length hs \<Longrightarrow> method_id m = i \<Longrightarrow> safe I ((hs ! i) sm m e)"
    and "length hs \<le> method_id m \<Longrightarrow> method_id m < n \<Longrightarrow> safe I (event_dispatch H sm m e)"
  shows "safe I (event_update H n hs sm m e)"
  using assms by (auto simp: event_update_def intro: safe_Inr)

lemma safe_state_update:
  assumes "I sm" and "message_type m = MRCP_MESSAGE_TYPE_REQUEST \<Longrightarrow> safe I (req sm m e)"
    and "message_type m = MRCP_MESSAGE_TYPE_RESPONSE \<Longrightarrow> safe I (resp sm m e)"
    and "message_type m = MRCP_MESSAGE_TYPE_EVENT \<Longrightarrow> safe I (ev sm m e)"
  shows "safe I (state_update req resp ev sm m e)"
  using assms by (auto simp: state_update_def intro: safe_Inr)

section \<open>Replies\<close>

text \<open>
  What becomes of a request: one message goes out for it, either the request itself, to the
  engine, which the machine then waits for, or a response, to the client. Both have the
  identifier and the method of the request.
\<close>

definition one_reply :: "message \<Rightarrow> machine_output list \<Rightarrow>
  ('x resource_machine_scheme, machine_output list) machine_result \<Rightarrow> bool" where
  "one_reply m out r \<longleftrightarrow>
     (\<exists>ok sm m'. r = Inr (ok, sm, out @ [Dispatched m']) \<and> req_id m' = req_id m \<and> method_id m' = method_id m \<and>
        (message_type m' = MRCP_MESSAGE_TYPE_REQUEST \<and> sm_active_request sm = Some m' \<or>
         message_type m' = MRCP_MESSAGE_TYPE_RESPONSE \<and> sm_active_request sm = None))"

definition keeps_kind :: "(message \<Rightarrow> message) \<Rightarrow> bool" where
  "keeps_kind f \<longleftrightarrow> (\<forall>m. req_id (f m) = req_id m \<and> method_id (f m) = method_id m \<and> message_type (f m) = message_type m)"

lemma keeps_kind_simps [simp]: "keeps_kind id" "keeps_kind (set_request_state st)" "keeps_kind (set_status_code code)"
  by (simp_all add: keeps_kind_def set_request_state_def set_status_code_def)

lemma reply_request:
  "message_type m' = MRCP_MESSAGE_TYPE_REQUEST \<Longrightarrow> req_id m' = req_id m \<Longrightarrow> method_id m' = method_id m \<Longrightarrow>
   one_reply m out (request_dispatch log_hooks sm m' out)"
  by (auto simp: one_reply_def request_dispatch_def log_hooks_def)

lemma reply_response:
  "sm_active sm \<Longrightarrow> message_type m' = MRCP_MESSAGE_TYPE_RESPONSE \<Longrightarrow> req_id m' = req_id m \<Longrightarrow> method_id m' = method_id m \<Longrightarrow>
   one_reply m out (response_dispatch log_hooks sm m' out)"
  by (auto simp: one_reply_def response_dispatch_def log_hooks_def)

lemma reply_respond:
  assumes "sm_active sm" and "res_ok m'" and "req_id m' = req_id m" and "method_id m' = method_id m" and "keeps_kind f"
  shows "one_reply m out (respond A log_hooks f sm m' out)"
proof -
  obtain r where "mrcp_response_create A (Some m') = Inr r" "message_type r = MRCP_MESSAGE_TYPE_RESPONSE"
    "req_id r = req_id m'" "method_id r = method_id m'"
    using response_created [OF assms(2), of A] by blast
  then show ?thesis
    using assms by (simp add: respond_def keeps_kind_def) (rule reply_response, simp_all)
qed

lemma reply_stop_pending:
  assumes "apr_ok A" and "res_ok m" and "\<And>q r. message_type r = MRCP_MESSAGE_TYPE_RESPONSE \<Longrightarrow> req_id r = req_id m \<Longrightarrow>
      method_id r = method_id m \<Longrightarrow> one_reply m out (f (q, r))"
  shows "one_reply m out (sbind (mrcp_response_create A (Some m)) (\<lambda>r. sbind (pending_requests_remove q m r) f))"
proof -
  obtain r where r: "mrcp_response_create A (Some m) = Inr r" "generic_ok A r" "message_type r = MRCP_MESSAGE_TYPE_RESPONSE"
    "req_id r = req_id m" "method_id r = method_id m"
    using response_created [OF assms(2), of A] by blast
  obtain r' q' where "pending_requests_remove q m r = Inr (q', r')" "same_message r r'"
    using pending_remove_ok [OF assms(1) r(2), of q m] by blast
  then show ?thesis using r assms(3) by (simp add: same_message_def)
qed

lemma reply_done: "one_reply m out r \<Longrightarrow> one_reply m out (sbind r (\<lambda>(_, sm, e). Inr (True, sm, e)))"
  by (auto simp: one_reply_def)

lemmas reply_intros = reply_request reply_response reply_respond reply_stop_pending reply_done

definition answers_requests ::
  "('x resource_machine_scheme \<Rightarrow> bool) \<Rightarrow> nat \<Rightarrow> (message \<Rightarrow> bool) \<Rightarrow>
   ('x resource_machine_scheme, machine_output list) handler \<Rightarrow> bool" where
  "answers_requests I n valid update \<longleftrightarrow>
     (\<forall>sm m out. I sm \<and> sm_active sm \<and> valid m \<and> message_type m = MRCP_MESSAGE_TYPE_REQUEST \<and> method_id m < n \<longrightarrow>
        one_reply m out (update sm m out))"

section \<open>Messages for examples\<close>

definition sample_message ::
  "apr \<Rightarrow> c_flt \<Rightarrow> nat \<Rightarrow> mrcp_message_type \<Rightarrow> nat \<Rightarrow> request_id \<Rightarrow> mrcp_request_state \<Rightarrow> status_code \<Rightarrow> message" where
  "sample_message A F t type i rid st code =
     (mrcp_message_create A)
       \<lparr>msg_resource := Some (loaded_resource A F t),
        msg_start_line := (msg_start_line (mrcp_message_create A :: message))
          \<lparr>sl_message_type := type, sl_version := MRCP_VERSION_2, sl_method_id := i, sl_request_id := rid,
           sl_request_state := st, sl_status_code := code\<rparr>,
        msg_header := snd (mrcp_message_header_data_alloc (msg_header (mrcp_message_create A))
          (Some (mrcp_generic_header_vtable_get A MRCP_VERSION_2)) (Some (resource_vtable A F t MRCP_VERSION_2)))\<rparr>"

lemma init_type: "t < MRCP_RESOURCE_TYPE_COUNT \<Longrightarrow> header_type (vt_allocate (resource_vtable A F t version)) = t"
  using type_cases [of t]
  by (auto simp: resource_vtables resource_vtables [unfolded One_nat_def] data_vtable_def)

lemma sample_message_ok [simp]:
  "t < MRCP_RESOURCE_TYPE_COUNT \<Longrightarrow> machine_message A F t (sample_message A F t type i rid st code)"
  "message_type (sample_message A F t type i rid st code) = type"
  "method_id (sample_message A F t type i rid st code) = i"
  "req_id (sample_message A F t type i rid st code) = rid"
  "request_state (sample_message A F t type i rid st code) = st"
  "status (sample_message A F t type i rid st code) = code"
proof -
  assume t: "t < MRCP_RESOURCE_TYPE_COUNT"
  show "machine_message A F t (sample_message A F t type i rid st code)"
    using loaded_resource_valid [OF t, of A F] init_type [OF t, of A F MRCP_VERSION_2]
    by (auto simp: machine_message_def res_ok_def generic_ok_def sample_message_def mrcp_message_header_data_alloc_def
        mrcp_header_allocate_def mrcp_generic_header_vtable_get_def mrcp_message_create_def mrcp_header_accessor_init_def
        mrcp_generic_header_init_def mrcp_generic_header_vtable_def mrcp_message_header_init_def Let_def)
qed (simp_all add: sample_message_def)

lemma sample_selection [simp]: "selection (sample_message A F t type i rid st code) = None"
  by (simp add: selection_def mrcp_generic_header_get_def sample_message_def mrcp_message_header_data_alloc_def
      mrcp_header_allocate_def mrcp_generic_header_vtable_get_def mrcp_message_create_def mrcp_header_accessor_init_def
      mrcp_generic_header_init_def mrcp_generic_header_vtable_def mrcp_message_header_init_def Let_def split: option.split)

section \<open>The list of stopped requests\<close>

abbreviation message_fields :: "message \<Rightarrow> header_section" where
  "message_fields m \<equiv> mh_section (msg_header m)"

lemma one_id_generate:
  assumes "apr_ok A" and "short_id rid"
  shows "\<exists>v rest. mrcp_request_id_list_generate A [rid] = Inr (True, v) \<and> str_mem v = dec_int (sint rid) @ NUL # rest"
proof -
  let ?m = "apr_palloc A 11" and ?t = "dec_int (sint rid)"
  have "id_list_write A 10 [rid] True 0 ?m = Inr (True, ?t @ [NUL] @ drop (length ?t + 1) ?m)"
    using id_list_write_text [OF assms(1), of "[rid]" ?m 10 0 True] assms by (simp add: apr_ok_def)
  then show ?thesis by (simp add: mrcp_request_id_list_generate_def str_mem_def)
qed

lemma active_id_first:
  assumes "apr_ok A" and "short_id rid" and "generic_ok A m" and "mrcp_generic_header_get m = Some gh"
    and "gh_active_request_id_list gh = []" and "hs_wf (message_fields m)"
    and "hs_lookup (message_fields m) GENERIC_HEADER_ACTIVE_REQUEST_ID_LIST = None"
    and "GENERIC_HEADER_ACTIVE_REQUEST_ID_LIST < length (hs_arr (message_fields m))"
  shows "\<exists>m' f rest gh'. active_id_add m rid = Inr m' \<and> generic_ok A m' \<and>
    hs_listing (message_fields m') = hs_listing (message_fields m) @ [f] \<and>
    str_mem (hf_value f) = dec_int (sint rid) @ NUL # rest \<and> hs_wf (message_fields m') \<and>
    hs_lookup (message_fields m') GENERIC_HEADER_ACTIVE_REQUEST_ID_LIST = Some f \<and>
    mrcp_generic_header_get m' = Some gh' \<and> gh_active_request_id_list gh' = [rid]"
proof -
  let ?gh = "snd (active_request_id_list_append gh rid)"
  let ?m = "generic_put ?gh m"
  have l: "gh_active_request_id_list ?gh = [rid]" using assms(5) by (simp add: active_request_id_list_append_def)
  have vt: "acc_vtable (mh_generic (msg_header m)) = Some (mrcp_generic_header_vtable A)"
    using assms(3) by (simp add: generic_ok_def)
  have prep: "mrcp_generic_header_prepare m = (Some gh, m)"
    using assms(4) vt
    by (simp add: mrcp_generic_header_prepare_def mrcp_header_allocate_def mrcp_generic_header_get_def)
  obtain v rest where v: "mrcp_request_id_list_generate A [rid] = Inr (True, v)" "str_mem v = dec_int (sint rid) @ NUL # rest"
    using one_id_generate [OF assms(1,2)] by blast
  obtain f where f: "mrcp_header_field_value_generate (mh_generic (msg_header ?m)) GENERIC_HEADER_ACTIVE_REQUEST_ID_LIST False =
      Inr (Some f)" "hf_value f = v"
    using v(1) vt l by (simp add: mrcp_header_field_value_generate_def generic_put_def mrcp_generic_header_vtable_def
        mrcp_generic_header_generate_def Let_def)
  let ?f = "f\<lparr>hf_id := GENERIC_HEADER_ACTIVE_REQUEST_ID_LIST\<rparr>"
  let ?m' = "section_update (\<lambda>h. snd (hs_put h ?f)) ?m"
  have "active_id_add m rid = Inr ?m'"
    using prep f(1) by (simp add: active_id_add_def mrcp_generic_header_property_add_def generated_field_add_def Let_def)
  moreover have "generic_ok A ?m'" using assms(3) l by simp
  moreover have "hs_listing (message_fields ?m') = hs_listing (message_fields m) @ [?f]" "hs_wf (message_fields ?m')"
    "hs_lookup (message_fields ?m') GENERIC_HEADER_ACTIVE_REQUEST_ID_LIST = Some ?f"
    using hsc.listing_put [OF assms(6), of ?f] hsc.put_inv [OF assms(6), of ?f] hsc.lookup_put [OF assms(6), of ?f] assms(7,8)
    by (simp_all add: section_update_def generic_put_def)
  moreover have "mrcp_generic_header_get ?m' = Some ?gh"
    by (simp add: mrcp_generic_header_get_def section_update_def generic_put_def)
  ultimately show ?thesis using v(2) f(2) l by auto
qed

text \<open>C39. The response to a STOP or BARGE-IN-OCCURRED request that also removes pending requests does not name
  them: the list of active requests in memory has the identifiers of the request in progress and
  of the pending requests that were taken out of the queue, up to five, but the field that goes out
  with the response was generated before the pending ones were known, and the attempt to add it
  again is refused, since the message already has the field.\<close>

theorem stopped_requests_not_listed:
  assumes "apr_ok A" and "short_id rid" and "generic_ok A m" and "mrcp_generic_header_get m = Some gh"
    and "gh_active_request_id_list gh = []" and "hs_wf (message_fields m)"
    and "hs_lookup (message_fields m) GENERIC_HEADER_ACTIVE_REQUEST_ID_LIST = None"
    and "GENERIC_HEADER_ACTIVE_REQUEST_ID_LIST < length (hs_arr (message_fields m))"
  shows "\<exists>m1 m2 gh2 f rest. active_id_add m rid = Inr m1 \<and>
    pending_requests_remove q request m1 = Inr (filter (\<lambda>p. \<not> selected request (req_id p)) q, m2) \<and>
    mrcp_generic_header_get m2 = Some gh2 \<and>
    gh_active_request_id_list gh2 =
      take MAX_ACTIVE_REQUEST_ID_COUNT (rid # map req_id (filter (\<lambda>p. selected request (req_id p)) q)) \<and>
    hs_listing (message_fields m2) = hs_listing (message_fields m) @ [f] \<and>
    str_mem (hf_value f) = dec_int (sint rid) @ NUL # rest"
proof -
  obtain m1 f rest gh1 where 1: "active_id_add m rid = Inr m1" "generic_ok A m1"
    "hs_listing (message_fields m1) = hs_listing (message_fields m) @ [f]" "str_mem (hf_value f) = dec_int (sint rid) @ NUL # rest"
    "hs_wf (message_fields m1)" "hs_lookup (message_fields m1) GENERIC_HEADER_ACTIVE_REQUEST_ID_LIST = Some f"
    "mrcp_generic_header_get m1 = Some gh1" "gh_active_request_id_list gh1 = [rid]"
    using active_id_first [OF assms] by blast
  obtain gh2 where 2: "pending_loop (selected request) gh1 q = (gh2, filter (\<lambda>p. \<not> selected request (req_id p)) q)"
    "length (gh_active_request_id_list gh2) \<le> MAX_ACTIVE_REQUEST_ID_COUNT"
    "gh_active_request_id_list gh2 =
       take MAX_ACTIVE_REQUEST_ID_COUNT ([rid] @ map req_id (filter (\<lambda>p. selected request (req_id p)) q))"
    using pending_loop_queue [of gh1 "selected request" q] 1(8) by auto
  let ?m = "generic_put gh2 m1"
  have ok: "generic_ok A ?m" using 1(2) 2(2) by simp
  have fields: "message_fields ?m = message_fields m1" by (simp add: generic_put_def)
  have ne: "gh_active_request_id_list gh2 \<noteq> []" using 2(3) by simp
  have prep: "mrcp_generic_header_prepare m1 = (Some gh1, m1)"
    using 1(2,7) by (simp add: generic_ok_def mrcp_generic_header_prepare_def mrcp_header_allocate_def mrcp_generic_header_get_def)
  obtain fo where g: "mrcp_header_field_value_generate (mh_generic (msg_header ?m)) GENERIC_HEADER_ACTIVE_REQUEST_ID_LIST False = Inr fo"
    using generic_property_add [OF assms(1) ok]
    by (auto simp: mrcp_generic_header_property_add_def generated_field_add_def sbind_eq_Inr_iff)
  obtain b m2 where m2: "mrcp_generic_header_property_add ?m GENERIC_HEADER_ACTIVE_REQUEST_ID_LIST = Inr (b, m2)"
    "hs_listing (message_fields m2) = hs_listing (message_fields m1)" "mrcp_generic_header_get m2 = Some gh2"
  proof (cases fo)
    case None
    then show thesis using g fields that [of False ?m]
      by (simp add: mrcp_generic_header_property_add_def generated_field_add_def mrcp_generic_header_get_def generic_put_def)
  next
    case (Some f')
    let ?f = "f'\<lparr>hf_id := GENERIC_HEADER_ACTIVE_REQUEST_ID_LIST\<rparr>"
    have "hs_listing (snd (hs_put (message_fields m1) ?f)) = hs_listing (message_fields m1)"
      using hsc.listing_put [OF 1(5), of ?f] 1(6) by simp
    then show thesis using g fields Some that [of _ "section_update (\<lambda>h. snd (hs_put h ?f)) ?m"]
      by (simp add: mrcp_generic_header_property_add_def generated_field_add_def mrcp_generic_header_get_def generic_put_def
          section_update_def Let_def)
  qed
  have "pending_requests_remove q request m1 = Inr (filter (\<lambda>p. \<not> selected request (req_id p)) q, m2)"
    using prep 2(1) ne m2(1) by (simp add: pending_requests_remove_def Let_def)
  then show ?thesis using 1 2(3) m2 by auto
qed

definition stop_response :: message where
  "stop_response = sample_message apr_ref five_flt MRCP_SYNTHESIZER_RESOURCE MRCP_MESSAGE_TYPE_RESPONSE 3 9
     MRCP_REQUEST_STATE_COMPLETE MRCP_STATUS_CODE_SUCCESS"

theorem stopped_requests_not_listed_witness:
  "\<exists>m1 m2 gh2 f rest. active_id_add stop_response 1 = Inr m1 \<and>
    pending_requests_remove [stop_response] stop_response m1 = Inr ([], m2) \<and>
    mrcp_generic_header_get m2 = Some gh2 \<and> gh_active_request_id_list gh2 = [1, 9] \<and>
    hs_listing (message_fields m2) = [f] \<and> str_mem (hf_value f) = ''1'' @ NUL # rest"
proof -
  note e = stop_response_def sample_message_def mrcp_message_header_data_alloc_def mrcp_header_allocate_def
    mrcp_generic_header_vtable_get_def mrcp_message_create_def mrcp_generic_header_vtable_def Let_def
    apt_header_section_array_alloc_def mrcp_message_header_init_def apt_header_section_init_def
    mrcp_generic_header_get_def
  have "machine_message apr_ref five_flt MRCP_SYNTHESIZER_RESOURCE stop_response" by (simp add: stop_response_def)
  then have ok: "generic_ok apr_ref stop_response" by (simp add: machine_message_def)
  have gh: "mrcp_generic_header_get stop_response = Some mrcp_generic_header_init" by (simp add: e)
  have h: "hs_wf (message_fields stop_response)" "hs_lookup (message_fields stop_response) 0 = None"
    "0 < length (hs_arr (message_fields stop_response))" "hs_listing (message_fields stop_response) = []"
    by (simp_all add: e hs_wf_def hs_lookup_def apt_header_section_field_get_def hs_listing_def)
  have s: "selected stop_response i" for i
    by (simp add: selected_def selection_def gh mrcp_generic_header_init_def)
  have "short_id 1" "dec_int (sint (1 :: request_id)) = ''1''" by code_simp+
  then show ?thesis
    using stopped_requests_not_listed [OF apr_ref_ok _ ok gh _ h(1-3), of 1 "[stop_response]" stop_response] s h(4)
    by (simp add: mrcp_generic_header_init_def stop_response_def)
qed

end
