(* ===== verification/MrcpReceive.thy ===== *)
theory MrcpReceive
  imports MachineBase
begin

text \<open>
  What comes out of the parser when anything at all comes in. The parser of a connection is run on
  the chunks of bytes that a peer sends; nothing is assumed of these bytes. The theory shows which
  faults they can cause and that every message the parser completes is one the state machines
  accept.
\<close>

section \<open>Interpreting header fields keeps the header\<close>

definition machine_header :: "apr \<Rightarrow> c_flt \<Rightarrow> nat \<Rightarrow> resource_header message_header \<Rightarrow> bool" where
  "machine_header A F t h \<longleftrightarrow>
     acc_vtable (mh_generic h) = Some (mrcp_generic_header_vtable A) \<and>
     (case acc_data (mh_generic h) of None \<Rightarrow> False
      | Some gh \<Rightarrow> length (gh_active_request_id_list gh) \<le> MAX_ACTIVE_REQUEST_ID_COUNT) \<and>
     (\<exists>version d. acc_vtable (mh_resource h) = Some (resource_vtable A F t version) \<and>
        acc_data (mh_resource h) = Some d \<and> header_type d = t)"

lemma machine_message_header: "machine_message A F t m \<longleftrightarrow> res_ok m \<and> machine_header A F t (msg_header m)"
  by (auto simp: machine_message_def machine_header_def generic_ok_def)

lemma machine_header_section [simp]: "machine_header A F t (h\<lparr>mh_section := s\<rparr>) = machine_header A F t h"
  by (simp add: machine_header_def)

lemma id_list_loop_length: "length (id_list_loop n s) \<le> n"
  by (induction n arbitrary: s) (auto simp: Let_def split: prod.split)

lemma generic_parse_length:
  assumes "length (gh_active_request_id_list gh) \<le> MAX_ACTIVE_REQUEST_ID_COUNT" and "mrcp_generic_header_parse A i v gh = (ok, gh')"
  shows "length (gh_active_request_id_list gh') \<le> MAX_ACTIVE_REQUEST_ID_COUNT"
  using assms id_list_loop_length [of MAX_ACTIVE_REQUEST_ID_COUNT "stream_of_str v"]
  by (auto simp: mrcp_generic_header_parse_def mrcp_request_id_list_parse_def Let_def split: if_splits)

lemma data_parse_type:
  assumes "t < MRCP_RESOURCE_TYPE_COUNT" and "header_type d = t" and "vt_parse (resource_vtable A F t version) i v d = (ok, d')"
  shows "header_type d' = t"
  using assms type_cases [OF assms(1)]
  by (cases d) (auto simp: resource_vtables resource_vtables [unfolded One_nat_def] data_vtable_def map_prod_def
      split: prod.splits)

lemma interpret_keeps:
  assumes "machine_header A F t h" and "t < MRCP_RESOURCE_TYPE_COUNT"
  shows "\<exists>x h' f. field_value_interpret h a = Inr (x, h') \<and> machine_header A F t h' \<and>
    mh_section h' = hs_update (mh_section h) a f \<and>
    hf_name f = hf_name (hs_field (mh_section h) a) \<and> hf_value f = hf_value (hs_field (mh_section h) a)"
proof -
  let ?f = "hs_field (mh_section h) a"
  obtain version d gh where h: "acc_vtable (mh_resource h) = Some (resource_vtable A F t version)"
    "acc_data (mh_resource h) = Some d" "header_type d = t" "acc_data (mh_generic h) = Some gh"
    "acc_vtable (mh_generic h) = Some (mrcp_generic_header_vtable A)"
    "length (gh_active_request_id_list gh) \<le> MAX_ACTIVE_REQUEST_ID_COUNT"
    using assms(1) by (auto simp: machine_header_def split: option.splits)
  let ?rvt = "resource_vtable A F t version"
  let ?i = "apt_string_table_id_find (vt_field_table ?rvt) (vt_field_count ?rvt) (hf_name ?f)"
  obtain ok d' where p: "vt_parse ?rvt ?i (hf_value ?f) d = (ok, d')" by fastforce
  have d': "header_type d' = t" by (rule data_parse_type [OF assms(2) h(3) p])
  obtain ok1 r f1 where 1: "mrcp_header_field_value_parse (mh_resource h) ?f = Inr (ok1, r, f1)"
    "acc_vtable r = Some ?rvt" "\<exists>d. acc_data r = Some d \<and> header_type d = t" "hf_name f1 = hf_name ?f" "hf_value f1 = hf_value ?f"
    using h(1-3) p d' by (cases "vt_field_count ?rvt \<le> ?i"; cases "str_length (hf_value ?f) = 0")
      (auto simp: mrcp_header_field_value_parse_def Let_def)
  show ?thesis
  proof (cases ok1)
    case True
    let ?f' = "f1\<lparr>hf_id := hf_id f1 + GENERIC_HEADER_COUNT\<rparr>"
    let ?h = "h\<lparr>mh_resource := r, mh_section := hs_update (mh_section h) a ?f'\<rparr>"
    have "field_value_interpret h a = Inr ((True, False), ?h)"
      using 1(1) True by (simp add: field_value_interpret_def)
    moreover have "machine_header A F t ?h"
      using h(4-6) 1(2,3) by (auto simp: machine_header_def)
    ultimately show ?thesis
      by (intro exI [of _ "(True, False)"] exI [of _ ?h] exI [of _ ?f']) (use 1(4,5) in simp)
  next
    case False
    let ?g = "mrcp_generic_header_vtable A"
    let ?j = "apt_string_table_id_find (vt_field_table ?g) (vt_field_count ?g) (hf_name f1)"
    obtain ok2 gh' where q: "mrcp_generic_header_parse A ?j (hf_value f1) gh = (ok2, gh')" by fastforce
    have gh': "length (gh_active_request_id_list gh') \<le> MAX_ACTIVE_REQUEST_ID_COUNT"
      by (rule generic_parse_length [OF h(6) q])
    obtain ok3 g f2 where 2: "mrcp_header_field_value_parse (mh_generic h) f1 = Inr (ok3, g, f2)"
      "acc_vtable g = Some ?g" "\<exists>gh. acc_data g = Some gh \<and> length (gh_active_request_id_list gh) \<le> MAX_ACTIVE_REQUEST_ID_COUNT"
      "hf_name f2 = hf_name f1" "hf_value f2 = hf_value f1"
      using h(4-6) q gh' by (cases "vt_field_count ?g \<le> ?j"; cases "str_length (hf_value f1) = 0")
        (auto simp: mrcp_header_field_value_parse_def Let_def mrcp_generic_header_vtable_def)
    let ?h = "h\<lparr>mh_generic := g, mh_resource := r, mh_section := hs_update (mh_section h) a f2\<rparr>"
    have "field_value_interpret h a = Inr ((False, ok3), ?h)"
      using 1(1) 2(1) False by (simp add: field_value_interpret_def)
    moreover have "machine_header A F t ?h"
      using 1(2,3) 2(2,3) by (auto simp: machine_header_def)
    ultimately show ?thesis
      by (intro exI [of _ "(False, ok3)"] exI [of _ ?h] exI [of _ f2]) (use 1(4,5) 2(4,5) in simp)
  qed
qed

lemma parse_loop_keeps:
  assumes "t < MRCP_RESOURCE_TYPE_COUNT"
  shows "machine_header A F t h \<Longrightarrow> \<exists>h'. header_fields_parse_loop ring h = Inr h' \<and> machine_header A F t h'"
proof (induction ring arbitrary: h)
  case (Cons a ring)
  obtain resource generic h1 where 1: "field_value_interpret h a = Inr ((resource, generic), h1)" "machine_header A F t h1"
    using interpret_keeps [OF Cons.prems assms, of a] by (metis surj_pair)
  let ?h = "if resource \<or> generic then h1\<lparr>mh_section := snd (apt_header_section_field_set (mh_section h1) a)\<rparr> else h1"
  have "machine_header A F t ?h" using 1(2) by simp
  then show ?case using Cons.IH [of ?h] 1(1) by simp
qed simp

lemma fields_parse_keeps:
  assumes "machine_header A F t h" and "t < MRCP_RESOURCE_TYPE_COUNT"
  shows "\<exists>h'. mrcp_header_fields_parse h = Inr h' \<and> machine_header A F t h'"
  unfolding mrcp_header_fields_parse_def by (rule parse_loop_keeps [OF assms(2,1)])

section \<open>Fields as the parser makes them\<close>

text \<open>Copies of names and values: blocks that are never NULL and that end.\<close>

definition copied :: "header_field \<Rightarrow> bool" where
  "copied f \<longleftrightarrow> str_buf (hf_name f) \<noteq> None \<and> (\<exists>p. str_buf (hf_value f) = Some p \<and> NUL \<in> set p)"

definition ring_copied :: "header_section \<Rightarrow> bool" where
  "ring_copied h \<longleftrightarrow> (\<forall>a\<in>set (hs_ring h). a < length (hs_fields h) \<and> copied (hs_field h a))"

lemma field_parse_copied: "apt_header_field_parse s = (Some f, s') \<Longrightarrow> copied f"
  by (auto simp: apt_header_field_parse_def copied_def Let_def apt_header_field_alloc_def split: prod.splits if_splits)

lemma ring_copied_put:
  assumes "ring_copied h" and "copied f"
  shows "ring_copied (snd (hs_put h f))"
  using assms unfolding ring_copied_def
  by (auto simp: hs_put_def hs_store_def apt_header_section_field_add_def hs_field_def nth_append Let_def intro: less_SucI)

lemma section_parse_copied:
  "apt_header_section_parse h s = (ok, h', s') \<Longrightarrow> ring_copied h \<Longrightarrow> ring_copied h'"
proof (induction "ts_end s - ts_pos s" arbitrary: h s rule: less_induct)
  case less
  obtain f s1 where f: "apt_header_field_parse s = (f, s1)" by fastforce
  note r = ts_reads_field [OF f]
  consider (stop) "ring_copied h'" |
    (loop) h1 where "\<not> apt_text_is_eos s1" "apt_header_section_parse h1 s1 = (ok, h', s')" "ring_copied h1"
    using less.prems f ring_copied_put [OF less.prems(2)] field_parse_copied [of s _ s1]
    by (subst (asm) section_parse_put) (auto split: option.splits if_splits)
  then show ?case
  proof cases
    case (loop h1)
    then have "ts_end s1 - ts_pos s1 < ts_end s - ts_pos s"
      using r by (auto simp: apt_text_is_eos_def ts_reads_def split: if_splits)
    then show ?thesis using less.hyps loop(2,3) by blast
  qed
qed

lemma id_resource_parse_copied: "str_buf v = Some p \<Longrightarrow> NUL \<in> set p \<Longrightarrow> \<exists>r. apt_id_resource_parse v (CHR ''@'') = Inr r"
  using takeWhile_stops [of NUL p "\<lambda>c. c \<noteq> CHR ''@'' \<and> c \<noteq> NUL"] by (simp add: apt_id_resource_parse_def Let_def)

lemma channel_loop_ok:
  "(\<forall>a\<in>set ring. copied (hs_field h a)) \<Longrightarrow> \<exists>ok ch' h'. channel_id_loop ring ch h = Inr (ok, ch', h') \<and>
    (h' = h \<or> (\<exists>a. h' = snd (apt_header_section_field_remove h a)))"
proof (induction ring)
  case (Cons a ring)
  then obtain p where p: "str_buf (hf_value (hs_field h a)) = Some p" "NUL \<in> set p" "str_buf (hf_name (hs_field h a)) \<noteq> None"
    by (auto simp: copied_def)
  obtain r where "apt_id_resource_parse (hf_value (hs_field h a)) (CHR ''@'') = Inr r"
    using id_resource_parse_copied [OF p(1,2)] by blast
  then show ?case using Cons p(3) by (auto simp: Let_def)
qed auto

lemma ring_copied_remove: "ring_copied h \<Longrightarrow> ring_copied (snd (apt_header_section_field_remove h a))"
  by (auto simp: ring_copied_def apt_header_section_field_remove_def hs_field_def Let_def)

lemma ring_copied_array [simp]: "ring_copied (h\<lparr>hs_arr := a\<rparr>) = ring_copied h"
  by (simp add: ring_copied_def hs_field_def)

lemma channel_parse_ok:
  assumes "ring_copied (mh_section h)"
  shows "\<exists>ok ch' sec. mrcp_channel_id_parse ch h = Inr (ok, ch', h\<lparr>mh_section := sec\<rparr>) \<and> ring_copied sec"
proof -
  obtain ok ch' sec where l: "channel_id_loop (hs_ring (mh_section h)) ch (mh_section h) = Inr (ok, ch', sec)"
    "sec = mh_section h \<or> (\<exists>a. sec = snd (apt_header_section_field_remove (mh_section h) a))"
    using channel_loop_ok [of "hs_ring (mh_section h)" "mh_section h" ch] assms unfolding ring_copied_def by blast
  moreover have "ring_copied sec" using l(2) assms ring_copied_remove by blast
  ultimately show ?thesis unfolding mrcp_channel_id_parse_def by (intro exI [of _ ok] exI [of _ ch'] exI [of _ sec]) simp
qed

section \<open>Messages that belong to a loaded resource\<close>

definition received :: "apr \<Rightarrow> c_flt \<Rightarrow> nat \<Rightarrow> message \<Rightarrow> bool" where
  "received A F t m \<longleftrightarrow> t < MRCP_RESOURCE_TYPE_COUNT \<and> msg_resource m = Some (loaded_resource A F t) \<and>
     machine_header A F t (msg_header m) \<and>
     (message_type m = MRCP_MESSAGE_TYPE_REQUEST \<longrightarrow> method_id m < res_method_count (loaded_resource A F t))"

lemma received_machine: "received A F t m \<Longrightarrow> machine_message A F t m"
  using loaded_resource_valid [of t A F] by (auto simp: received_def machine_message_header res_ok_def)

lemma received_body [simp]: "received A F t (m\<lparr>msg_body := b\<rparr>) = received A F t m"
  by (simp add: received_def)

lemma received_section [simp]:
  "received A F t (m\<lparr>msg_header := (msg_header m)\<lparr>mh_section := sec\<rparr>\<rparr>) = received A F t m"
  by (simp add: received_def)

lemma loaded_vtable:
  "t < MRCP_RESOURCE_TYPE_COUNT \<Longrightarrow>
   res_get_resource_header_vtable (loaded_resource A F t) = Some (resource_vtable A F t)"
  using loaded_resource_valid [of t A F] by (auto simp: mrcp_resource_validate_def resource_vtable_def intro!: ext)

lemma header_alloc_machine:
  assumes "t < MRCP_RESOURCE_TYPE_COUNT"
  shows "\<exists>h. resource_header_alloc A (loaded_resource A F t) m = Inr (m\<lparr>msg_header := h\<rparr>) \<and> machine_header A F t h \<and>
    ring_copied (mh_section h) = ring_copied (mh_section (msg_header m))"
proof -
  let ?v = "sl_version (msg_start_line m)"
  let ?h = "snd (mrcp_message_header_data_alloc (msg_header m) (Some (mrcp_generic_header_vtable_get A ?v))
      (Some (resource_vtable A F t ?v)))"
  have "resource_header_alloc A (loaded_resource A F t) m = Inr (m\<lparr>msg_header := ?h\<rparr>)"
    by (simp add: resource_header_alloc_def loaded_vtable [OF assms] Let_def)
  moreover have "machine_header A F t ?h"
    using init_type [OF assms, of A F ?v]
    by (auto simp: machine_header_def mrcp_message_header_data_alloc_def mrcp_header_allocate_def
        mrcp_generic_header_vtable_get_def mrcp_generic_header_vtable_def mrcp_generic_header_init_def)
  moreover have "ring_copied (mh_section ?h) = ring_copied (mh_section (msg_header m))"
    by (simp add: mrcp_message_header_data_alloc_def apt_header_section_array_alloc_def)
  ultimately show ?thesis by blast
qed

lemma resource_set_received:
  assumes "t < MRCP_RESOURCE_TYPE_COUNT"
  shows "\<exists>ok m'. mrcp_message_resource_set A m (Some (loaded_resource A F t)) = Inr (ok, m') \<and> (ok \<longrightarrow> received A F t m') \<and>
    sl_version (msg_start_line m') = sl_version (msg_start_line m) \<and>
    ring_copied (mh_section (msg_header m')) = ring_copied (mh_section (msg_header m))"
proof -
  let ?r = "loaded_resource A F t" and ?m = "m\<lparr>msg_resource := Some (loaded_resource A F t)\<rparr>"
  have v: "mrcp_resource_validate ?r" using loaded_resource_valid [OF assms] by blast
  obtain h where h: "resource_header_alloc A ?r ?m = Inr (?m\<lparr>msg_header := h\<rparr>)" "machine_header A F t h"
    "ring_copied (mh_section h) = ring_copied (mh_section (msg_header m))"
    using header_alloc_machine [OF assms, of A F ?m] by auto
  have "\<exists>table. resource_name_table ?r (message_type m) (sl_version (msg_start_line m)) = Inr table \<and>
      (message_type m = MRCP_MESSAGE_TYPE_REQUEST \<longrightarrow> (\<exists>items. table = Some (items, res_method_count ?r)))"
    using v by (auto simp: resource_name_table_def mrcp_resource_validate_def)
  then obtain table where tab: "resource_name_table ?r (message_type m) (sl_version (msg_start_line m)) = Inr table"
    "message_type m = MRCP_MESSAGE_TYPE_REQUEST \<Longrightarrow> \<exists>items. table = Some (items, res_method_count ?r)" by blast
  show ?thesis
  proof (cases table)
    case None
    then have "message_type m \<noteq> MRCP_MESSAGE_TYPE_REQUEST" using tab(2) by auto
    then have "received A F t (?m\<lparr>msg_header := h\<rparr>)" using assms h(2) by (simp add: received_def)
    then show ?thesis using h(1,3) tab(1) None by (auto simp: mrcp_message_resource_set_def)
  next
    case (Some x)
    obtain items count where x: "x = (items, count)" by fastforce
    let ?i = "apt_string_table_id_find items count (sl_method_name (msg_start_line m))"
    have "\<not> ?i \<ge> count \<longrightarrow> received A F t
        (?m\<lparr>msg_header := h, msg_start_line := (msg_start_line m)\<lparr>sl_method_id := ?i\<rparr>\<rparr>)"
      using assms h(2) tab(2) Some x by (auto simp: received_def)
    then show ?thesis using h(1,3) tab(1) Some x by (simp add: mrcp_message_resource_set_def Let_def)
  qed
qed

text \<open>A factory with the four resources.\<close>

lemma find_loaded:
  assumes "mrcp_resource_loader_create A F True = Some rf" and "mrcp_resource_find rf name = Some r"
  shows "\<exists>t<MRCP_RESOURCE_TYPE_COUNT. r = loaded_resource A F t"
proof -
  have "r = loaded_resource A F 0 \<or> r = loaded_resource A F 1 \<or> r = loaded_resource A F 2 \<or> r = loaded_resource A F 3"
    using assms(2) resources_loaded(2) [OF assms(1)] by (auto simp: mrcp_resource_find_def split: if_splits option.splits)
  moreover have "0 < MRCP_RESOURCE_TYPE_COUNT" "1 < MRCP_RESOURCE_TYPE_COUNT" "2 < MRCP_RESOURCE_TYPE_COUNT"
    "3 < MRCP_RESOURCE_TYPE_COUNT" by simp_all
  ultimately show ?thesis by blast
qed

section \<open>The parser keeps what it promises\<close>

text \<open>The object of a parser on loaded resources.\<close>

definition loaded_obj :: "apr \<Rightarrow> c_flt \<Rightarrow> resource_header mrcp_parser_obj \<Rightarrow> bool" where
  "loaded_obj A F obj \<longleftrightarrow> mrcp_resource_loader_create A F True = Some (po_resource_factory obj) \<and>
     (case po_resource obj of None \<Rightarrow> True | Some r \<Rightarrow> \<exists>t<MRCP_RESOURCE_TYPE_COUNT. r = loaded_resource A F t)"

text \<open>A message whose header is being read: in version 1 its resource is known, in version 2 the
  channel identifier among the fields will tell.\<close>

definition header_started :: "apr \<Rightarrow> c_flt \<Rightarrow> message \<Rightarrow> bool" where
  "header_started A F m \<longleftrightarrow> ring_copied (mh_section (msg_header m)) \<and>
     (sl_version (msg_start_line m) = MRCP_VERSION_2 \<or> (\<exists>t. received A F t m))"

lemma start_line_version: "mrcp_start_line_parse sl str = (True, sl') \<Longrightarrow> sl_version sl' \<noteq> MRCP_VERSION_UNKNOWN"
  by (auto simp: mrcp_start_line_parse_def mrcp_request_line_parse_def mrcp_response_line_parse_def
      mrcp_v2_start_line_parse_def Let_def split: prod.splits if_splits)

lemma message_create_copied: "ring_copied (mh_section (msg_header (mrcp_message_create A)))"
  by (simp add: ring_copied_def mrcp_message_create_def mrcp_message_header_init_def apt_header_section_init_def)

lemma on_start_started:
  assumes "loaded_obj A F obj"
  shows "\<exists>ok msg s'. mrcp_parser_on_start A obj s = Inr (ok, msg, s') \<and> (ok \<longrightarrow> (\<exists>m. msg = Some m \<and> header_started A F m))"
proof -
  obtain b l s1 where l: "apt_text_line_read s = (b, l, s1)" by (metis prod_cases3)
  let ?m = "mrcp_message_create A :: message"
  obtain c sl where sl: "mrcp_start_line_parse (msg_start_line ?m) l = (c, sl)" by fastforce
  consider "\<not> b \<or> \<not> c \<or> (sl_version sl = MRCP_VERSION_1 \<and> po_resource obj = None)" | "b" "c" "sl_version sl = MRCP_VERSION_2" |
    r where "b" "c" "sl_version sl = MRCP_VERSION_1" "po_resource obj = Some r"
    using start_line_version [of "msg_start_line ?m" l sl] sl by (cases "sl_version sl"; cases "po_resource obj"; cases b; cases c) auto
  then show ?thesis
  proof cases
    case 1
    then show ?thesis by (auto simp: mrcp_parser_on_start_def l sl Let_def)
  next
    case 2
    have "header_started A F (?m\<lparr>msg_start_line := sl\<rparr>)"
      using 2 message_create_copied [of A] by (simp add: header_started_def)
    then show ?thesis using 2 by (auto simp: mrcp_parser_on_start_def l sl)
  next
    case (3 r)
    then obtain t where t: "t < MRCP_RESOURCE_TYPE_COUNT" "r = loaded_resource A F t" using assms by (auto simp: loaded_obj_def)
    let ?m1 = "?m\<lparr>msg_start_line := sl, msg_channel_id := (msg_channel_id ?m)\<lparr>ch_resource_name := apt_string_copy (res_name r)\<rparr>\<rparr>"
    obtain ok m' where m': "mrcp_message_resource_set A ?m1 (Some r) = Inr (ok, m')" "ok \<longrightarrow> received A F t m'"
      "ring_copied (mh_section (msg_header m')) = ring_copied (mh_section (msg_header ?m1))"
      using resource_set_received [OF t(1), of A ?m1 F] t(2) by blast
    then have "ok \<longrightarrow> header_started A F m'" using message_create_copied [of A] by (auto simp: header_started_def)
    then show ?thesis using 3 m'(1) by (auto simp: mrcp_parser_on_start_def l sl Let_def)
  qed
qed

lemma channel_resource_started:
  assumes "loaded_obj A F obj" and "ring_copied (mh_section (msg_header m))"
  shows "\<exists>ok m'. channel_resource_set A obj m = Inr (ok, m') \<and> (ok \<longrightarrow> (\<exists>t. received A F t m')) \<and>
    sl_version (msg_start_line m') = sl_version (msg_start_line m) \<and> ring_copied (mh_section (msg_header m'))"
proof -
  obtain ok ch sec where ch: "mrcp_channel_id_parse (msg_channel_id m) (msg_header m) = Inr (ok, ch, (msg_header m)\<lparr>mh_section := sec\<rparr>)"
    "ring_copied sec"
    using channel_parse_ok [OF assms(2)] by blast
  let ?m = "m\<lparr>msg_channel_id := ch, msg_header := (msg_header m)\<lparr>mh_section := sec\<rparr>\<rparr>"
  show ?thesis
  proof (cases "mrcp_resource_find (po_resource_factory obj) (ch_resource_name ch)")
    case None
    then show ?thesis using ch by (cases ok) (auto simp: channel_resource_set_def Let_def)
  next
    case (Some r)
    then obtain t where t: "t < MRCP_RESOURCE_TYPE_COUNT" "r = loaded_resource A F t"
      using find_loaded [of A F "po_resource_factory obj"] assms(1) unfolding loaded_obj_def by blast
    show ?thesis
      using resource_set_received [OF t(1), of A ?m F] ch Some t(2) by (cases ok) (auto simp: channel_resource_set_def Let_def)
  qed
qed

lemma header_complete_started:
  assumes "loaded_obj A F obj" and "header_started A F m"
  shows "\<exists>ok m'. mrcp_parser_on_header_complete A obj m = Inr (ok, m') \<and> (if ok then \<exists>t. received A F t m' else header_started A F m')"
proof -
  obtain ok m1 where 1: "(if sl_version (msg_start_line m) = MRCP_VERSION_2 then channel_resource_set A obj m else Inr (True, m)) = Inr (ok, m1)"
    "if ok then \<exists>t. received A F t m1 else header_started A F m1"
  proof (cases "sl_version (msg_start_line m) = MRCP_VERSION_2")
    case True
    obtain ok m' where "channel_resource_set A obj m = Inr (ok, m')" "ok \<longrightarrow> (\<exists>t. received A F t m')"
      "sl_version (msg_start_line m') = MRCP_VERSION_2" "ring_copied (mh_section (msg_header m'))"
      using channel_resource_started [OF assms(1), of m] assms(2) True by (auto simp: header_started_def)
    then show thesis using True that [of ok m'] by (simp add: header_started_def)
  next
    case False
    then show thesis using that [of True m] assms(2) by (simp add: header_started_def)
  qed
  show ?thesis
  proof (cases ok)
    case False
    then show ?thesis using 1 by (auto simp: mrcp_parser_on_header_complete_def)
  next
    case True
    then obtain t where t: "received A F t m1" using 1(2) by auto
    then obtain h where h: "mrcp_header_fields_parse (msg_header m1) = Inr h" "machine_header A F t h"
      using fields_parse_keeps [of A F t "msg_header m1"] unfolding received_def by blast
    then have "received A F t (m1\<lparr>msg_header := h\<rparr>)" using t by (simp add: received_def)
    then show ?thesis
      using 1(1) True h(1) by (auto simp: mrcp_parser_on_header_complete_def Let_def split: option.split)
  qed
qed

lemma mrcp_body [simp]:
  "ctx_body (mrcp_parser_vtable A) m = msg_body m" "ctx_body_put (mrcp_parser_vtable A) b m = m\<lparr>msg_body := b\<rparr>"
  by (simp_all add: mrcp_parser_vtable_def)

interpretation mrcp_source: message_source "mrcp_parser_vtable A" "mrcp_parser_on_header_complete A" "loaded_obj A F"
  "header_started A F" "\<lambda>m. \<exists>t. received A F t m" for A F
proof (unfold_locales, goal_cases)
  case (1 obj s)
  then show ?case using on_start_started by (simp add: mrcp_parser_vtable_def)
next
  case (2 m s res h s')
  then show ?case using section_parse_copied by (auto simp: mrcp_parser_vtable_def header_started_def)
next
  case (3 obj m)
  then show ?case by (rule header_complete_started)
qed (simp_all add: mrcp_parser_vtable_def)

abbreviation length_overflow :: "message \<Rightarrow> bool" where
  "length_overflow m \<equiv> str_length (msg_body m) = 2 ^ 64 - 1"

lemma receiving_resource_set: "mrcp_source.receiving A F p \<Longrightarrow> mrcp_source.receiving A F (mrcp_parser_resource_set p name)"
  using find_loaded [of A F "po_resource_factory (mp_obj p)"]
  by (auto simp: mrcp_source.receiving_def mrcp_source.stage_ok_def mrcp_parser_resource_set_def loaded_obj_def
      mrcp.parser_inv_def mrcp.body_inv_def split: option.splits)

lemma receiving_loaded:
  "mrcp_resource_loader_create A F True = Some rf \<Longrightarrow> mrcp_source.receiving A F (mrcp_parser_create A rf)"
  unfolding mrcp_parser_create_def by (rule mrcp_source.receiving_create) (simp add: loaded_obj_def)

section \<open>A length that overflows\<close>

definition negative_field :: header_field where
  "negative_field = \<lparr>hf_name = c_literal ''Content-Length'' 14, hf_value = c_literal ''-1'' 2, hf_id = 0\<rparr>"

lemma negative_field_text: "field_ok negative_field" "fields_text [negative_field] = ''Content-Length: -1'' @ CRLF"
  "field_view negative_field = (''Content-Length'', ''-1'')"
  by code_simp+

lemma negative_field_read:
  assumes "field_view f = field_view negative_field" and "parsed_ok f"
  shows "generic_field_id f = GENERIC_HEADER_CONTENT_LENGTH" and "str_length (hf_value f) \<noteq> 0"
    and "apt_size_value_parse (hf_value f) = - 1"
proof -
  have f: "str_bytes (hf_name f) = ''Content-Length''" "str_bytes (hf_value f) = ''-1''" "str_wf (hf_name f)"
    "str_mem (hf_value f) = ''-1'' @ [NUL]" "str_wf (hf_value f)"
    using assms by (auto simp: field_view_def [of f] parsed_ok_def negative_field_text(3))
  show "generic_field_id f = GENERIC_HEADER_CONTENT_LENGTH"
  proof (rule generic_names.id_find_eq)
    show "item_fold (generic_header_string_table ! GENERIC_HEADER_CONTENT_LENGTH) = map tolower (str_bytes (hf_name f))"
      unfolding f(1) content_length_item content_length_fold_eval ..
  qed (use f in simp_all)
  show "str_length (hf_value f) \<noteq> 0" using length_str_bytes [OF f(5)] f(2) by simp
  have "atol (''-1'' @ [NUL]) = - 1" by code_simp
  moreover have "str_buf (hf_value f) = Some (''-1'' @ [NUL])" using f(4) by (auto simp: str_mem_def split: option.splits)
  ultimately show "apt_size_value_parse (hf_value f) = - 1" by (simp add: apt_size_value_parse_def)
qed

lemma negative_length_complete:
  assumes "header_ready A vt (msg_header m)" and "names_disjoint vt" and "hs_wf (mh_section (msg_header m))"
    and "hs_arr (mh_section (msg_header m)) = replicate (GENERIC_HEADER_COUNT + vt_field_count vt) None"
    and "acc_data (mh_generic (msg_header m)) = Some mrcp_generic_header_init"
    and "hs_listing (mh_section (msg_header m)) = [f]" and "field_view f = field_view negative_field" and "parsed_ok f"
    and "sl_version (msg_start_line m) = MRCP_VERSION_1"
  shows "\<exists>m'. mrcp_parser_on_header_complete A obj m = Inr (True, m') \<and> length_overflow m'"
proof -
  note f = negative_field_read [OF assms(7,8)]
  obtain a where a: "hs_ring (mh_section (msg_header m)) = [a]" "hs_field (mh_section (msg_header m)) a = f"
    using assms(6) by (auto simp: hs_listing_def)
  obtain h where h: "mrcp_header_fields_parse (msg_header m) = Inr h" "fields_interpreted A vt [a] (msg_header m) h"
    using fields_parse_interprets [OF assms(1-4)] a(1) by auto
  have get: "apt_header_section_field_get (mh_section h) GENERIC_HEADER_CONTENT_LENGTH = Some a"
    using h(2) assms(4) a(2) f(1) by (simp add: fields_interpreted_def apt_header_section_field_get_def [of "mh_section (msg_header m)"])
  obtain gh where gh: "acc_data (mh_generic h) = Some gh" "gh_content_length gh = - 1"
    using h(2) assms(5) a(2) f by (simp add: fields_interpreted_def generic_step_def mrcp_generic_header_parse_def)
  have "unat (- 1 :: 64 word) = 2 ^ 64 - 1" by (simp add: unsigned_minus_1_eq_mask mask_eq_exp_minus_1)
  then show ?thesis
    using h(1) get gh assms(9)
    by (simp add: mrcp_parser_on_header_complete_def mrcp_generic_header_property_check_def field_check_get
        mrcp_generic_header_get_def Let_def)
qed

lemma negative_length_stage:
  fixes m :: message
  assumes "apr_ok A" and "mp_vtable p = mrcp_parser_vtable A" and "mp_stage p = APT_MESSAGE_STAGE_HEADER"
    and "header_ready A vt (msg_header m)" and "names_disjoint vt"
    and "mh_section (msg_header m) = empty_section\<lparr>hs_arr := replicate (GENERIC_HEADER_COUNT + vt_field_count vt) None\<rparr>"
    and "GENERIC_HEADER_COUNT + vt_field_count vt \<le> UNKNOWN_HEADER_FIELD_ID"
    and "acc_data (mh_generic (msg_header m)) = Some mrcp_generic_header_init"
    and "sl_version (msg_start_line m) = MRCP_VERSION_1"
    and "stream_ok s" and "\<not> ts_is_eos s" and "ts_rest s = ''Content-Length: -1'' @ CRLF @ CRLF"
  shows "parser_header_stage A p m s = Inl OutOfBounds"
proof -
  have wf: "hs_wf (mh_section (msg_header m))" "ts_wf s" using assms(6,10) by (auto simp: hs_wf_def stream_ok_def ts_wf_def)
  let ?s = "s\<lparr>ts_pos := ts_pos s + length (fields_text [negative_field] @ CRLF)\<rparr>"
  have "ts_rest s = fields_text [negative_field] @ CRLF @ []" unfolding negative_field_text(2) using assms(12) by simp
  then obtain h f where h: "apt_header_section_parse (mh_section (msg_header m)) s = (True, h, ?s)" "hs_wf h"
    "hs_arr h = hs_arr (mh_section (msg_header m))" "hs_listing h = [f]" "field_view f = field_view negative_field" "parsed_ok f"
    using section_parse_text [of "[negative_field]" "[]" "mh_section (msg_header m)" s] negative_field_text(1) wf assms(6,7,11)
    by (auto simp: hs_listing_def unfolded_def)
  have "0 < ts_end s" using assms(12) by (cases "ts_end s = 0") (simp_all add: ts_rest_def)
  then have "stream_ok ?s" "0 < ts_end ?s" using ts_reads_section [OF h(1)] stream_ok_reads [OF assms(10)] by auto
  then obtain p' where p': "apt_crlf_segmentation_test p ?s = Inr p'" using mrcp_source.crlf_test_ok by blast
  let ?m = "m\<lparr>msg_header := (msg_header m)\<lparr>mh_section := h\<rparr>\<rparr>"
  obtain m' where m': "mrcp_parser_on_header_complete A (mp_obj p) ?m = Inr (True, m')" "length_overflow m'"
    using negative_length_complete [of A vt ?m f "mp_obj p"] assms(4-6,8,9) h by (auto simp: header_ready_def)
  have "mp_vtable p' = mrcp_parser_vtable A" "mp_obj p' = mp_obj p" using mrcp.crlf_test_keeps [OF p'] assms(2) by simp_all
  then show ?thesis
    using h(1) p' m' assms(1,2) mrcp_source.content_overflow [of p' A A m' ?s]
    by (simp add: parser_header_stage_def mrcp_parser_vtable_def [of A] Let_def)
qed

text \<open>Starting a message of MRCPv1: its header is allocated at once.\<close>

lemma on_start_response:
  assumes "start_line_ok sl" and "sl_version sl = MRCP_VERSION_1" and "sl_message_type sl = MRCP_MESSAGE_TYPE_RESPONSE"
    and "po_resource obj = Some (loaded_resource A F t)" and "t < MRCP_RESOURCE_TYPE_COUNT"
  defines "vt \<equiv> resource_vtable A F t MRCP_VERSION_1"
  shows "\<exists>m s. mrcp_parser_on_start A obj (text_stream (line_text sl 0 @ CRLF @ r)) = Inr (True, Some m, s) \<and>
    ts_rest s = r \<and> stream_ok s \<and> \<not> ts_is_eos s \<and> sl_version (msg_start_line m) = MRCP_VERSION_1 \<and>
    header_ready A vt (msg_header m) \<and> acc_data (mh_generic (msg_header m)) = Some mrcp_generic_header_init \<and>
    mh_section (msg_header m) = empty_section\<lparr>hs_arr := replicate (GENERIC_HEADER_COUNT + vt_field_count vt) None\<rparr>"
proof -
  let ?t = "text_stream (line_text sl 0 @ CRLF @ r)"
  let ?s = "?t\<lparr>ts_pos := length (line_text sl 0 @ CRLF @ r)\<rparr>"
  have msg: "ts_message ?s = ?t"
    by (simp add: ts_message_def text_stream_def apt_text_stream_init_def apt_text_stream_reset_def)
  obtain line t1 sl' where l: "apt_text_line_read ?t = (True, line, t1)" "ts_rest t1 = r"
    "mrcp_start_line_parse (blank_start_line A) line = (True, sl')" "start_line_equiv sl sl'"
    using read_start_line [OF assms(1), of ?s 0 r "[]" "blank_start_line A"] unfolding msg
    by (auto simp: text_stream_def apt_text_stream_init_def apt_text_stream_reset_def)
  have v: "sl_version sl' = MRCP_VERSION_1" "sl_message_type sl' = MRCP_MESSAGE_TYPE_RESPONSE"
    using l(4) assms(2,3) by (auto simp: start_line_equiv_def)
  let ?r = "loaded_resource A F t" and ?m = "mrcp_message_create A :: message"
  let ?m1 = "?m\<lparr>msg_start_line := sl', msg_channel_id := (msg_channel_id ?m)\<lparr>ch_resource_name := apt_string_copy (res_name ?r)\<rparr>,
      msg_resource := Some ?r\<rparr>"
  obtain h where h: "resource_header_alloc A ?r ?m1 = Inr (?m1\<lparr>msg_header := h\<rparr>)" "header_ready A vt h"
    "mh_section h = (mh_section (msg_header ?m1))\<lparr>hs_arr := replicate (GENERIC_HEADER_COUNT + vt_field_count vt) None\<rparr>"
    "acc_data (mh_generic h) = Some mrcp_generic_header_init"
    using header_alloc_ready [OF loaded_vtable [OF assms(5), of A F], of A ?m1] v(1) by (auto simp: vt_def)
  have "mrcp_parser_on_start A obj ?t = Inr (True, Some (?m1\<lparr>msg_header := h\<rparr>), t1)"
    using l(1,3) v assms(4) h(1)
    by (simp add: mrcp_parser_on_start_def mrcp_message_resource_set_def resource_name_table_def mrcp_message_create_def Let_def)
  moreover have "stream_ok t1" by (rule stream_ok_reads [OF stream_ok_text ts_reads_line [OF l(1)]])
  moreover have "\<not> ts_is_eos t1" using l(1) by (auto simp: apt_text_line_read_def split: prod.splits if_splits)
  ultimately show ?thesis
    using l(2) v(1) h(2-4) by (auto simp: mrcp_message_create_def mrcp_message_header_init_def apt_header_section_init_def)
qed

section \<open>Properties\<close>

text \<open>What a parser can become: runs on any bytes at all, and changes of the resource of MRCPv1.\<close>

inductive parser_reaches :: "apr \<Rightarrow> resource_header mrcp_parser \<Rightarrow> resource_header mrcp_parser \<Rightarrow> bool" for A p where
  reaches_start: "parser_reaches A p p"
| reaches_run: "parser_reaches A p q \<Longrightarrow> stream_ok s \<Longrightarrow> 0 < ts_end s \<Longrightarrow>
    mrcp_parser_run A q s = Inr (st, msg, q', s') \<Longrightarrow> parser_reaches A p q'"
| reaches_resource: "parser_reaches A p q \<Longrightarrow> parser_reaches A p (mrcp_parser_resource_set q name)"

lemma reaches_receiving:
  assumes "parser_reaches A p q" and "apr_ok A" and "mrcp_source.receiving A F p"
  shows "mrcp_source.receiving A F q"
  using assms(1)
proof induction
  case (reaches_run q s st msg q' s')
  show ?case
    by (rule conjunct1 [OF mrcp_source.receiving_kept [OF reaches_run.IH assms(2) reaches_run.hyps(2,3)
          reaches_run.hyps(4) [unfolded mrcp_parser_run_def]]])
qed (auto simp: assms(3) receiving_resource_set)

text \<open>C2. Whatever a peer sends, and however the bytes are cut into chunks, the parser never
  dereferences NULL, and a run leaves a block exactly when the header it completes announces a body of 2^64 - 1
  bytes, for which the size of the block wraps around to zero (\<open>headed_message\<close> is the message
  whose header is completed in the run, if there is one). Every other run returns, and every message that it completes belongs to one
  of the four loaded resources, has both of its headers allocated as the state machine of that
  resource needs them, and, when it is a request, has a method of the resource.\<close>

theorem any_bytes_received:
  assumes "apr_ok A" and "mrcp_resource_loader_create A F True = Some rf"
    and "parser_reaches A (mrcp_parser_create A rf) p" and "stream_ok s" and "0 < ts_end s"
  shows "if \<exists>m. headed_message p s = Some m \<and> str_length (msg_body m) = 2 ^ 64 - 1
    then mrcp_parser_run A p s = Inl OutOfBounds
    else \<exists>st msg p' s'. mrcp_parser_run A p s = Inr (st, msg, p', s') \<and> (\<forall>m. msg = Some m \<longrightarrow>
      (\<exists>t<MRCP_RESOURCE_TYPE_COUNT. msg_resource m = Some (loaded_resource A F t) \<and> machine_message A F t m \<and>
        (message_type m = MRCP_MESSAGE_TYPE_REQUEST \<longrightarrow> method_id m < res_method_count (loaded_resource A F t))))"
proof -
  have r: "\<exists>t<MRCP_RESOURCE_TYPE_COUNT. msg_resource m = Some (loaded_resource A F t) \<and> machine_message A F t m \<and>
      (message_type m = MRCP_MESSAGE_TYPE_REQUEST \<longrightarrow> method_id m < res_method_count (loaded_resource A F t))"
    if "received A F t m" for t m
    using that received_machine [OF that] unfolding received_def by blast
  show ?thesis
    using mrcp_source.run_receives [OF reaches_receiving [OF assms(3,1) receiving_loaded [OF assms(2)]] assms(1,4,5)] r
    unfolding mrcp_source.receives_or_overflows_def mrcp_source.receives_def mrcp_parser_run_def mrcp_body
    by (simp only: split: if_splits; blast)
qed

definition loaded_parser :: "resource_header mrcp_parser" where
  "loaded_parser = mrcp_parser_create apr_ref (the (mrcp_resource_loader_create apr_ref five_flt True))"

lemma loaded_sample: "mrcp_resource_loader_create apr_ref five_flt True = Some (the (mrcp_resource_loader_create apr_ref five_flt True))"
  by (simp add: mrcp_resource_loader_create_def mrcp_resource_factory_create_def)

lemma sample_speak_received:
  "\<exists>m p s. mrcp_parser_run apr_ref loaded_parser (text_stream (message_text apr_ref sample_speak 150)) =
      Inr (APT_MESSAGE_STATUS_COMPLETE, Some m, p, s) \<and>
    message_type m = MRCP_MESSAGE_TYPE_REQUEST \<and> msg_resource m = Some (loaded_resource apr_ref five_flt 0)"
proof -
  let ?r = "loaded_resource apr_ref five_flt 0"
  have spk: "sl_method_name (msg_start_line sample_speak) = c_literal ''SPEAK'' 5"
    "sl_message_type (msg_start_line sample_speak) = MRCP_MESSAGE_TYPE_REQUEST"
    and body: "str_length (msg_body sample_speak) < 2 ^ 63"
    and ch: "str_bytes (ch_resource_name (msg_channel_id sample_speak)) = ''speechsynth''"
    by (simp_all add: sample_speak_def str_bytes_def)
  have "item_fold (synth_method_string_table ! 2) = map tolower (str_bytes (c_literal ''SPEAK'' 5))"
    "NUL \<notin> set (str_bytes (c_literal ''SPEAK'' 5))" by code_simp+
  moreover have "resource_name_table ?r MRCP_MESSAGE_TYPE_REQUEST MRCP_VERSION_2 =
      Inr (Some (synth_method_string_table, SYNTHESIZER_METHOD_COUNT))"
    by (simp add: resource_name_table_def loaded_resource_def resource_defs mrcp_resource_create_def synth_method_string_table_get_def)
  ultimately have known: "known_method ?r (msg_start_line sample_speak)"
    unfolding known_method_def spk by (auto intro!: exI [of _ 2])
  have tables: "resource_tables_ok ?r" by (rule loaded_resource_tables) simp
  have hash: "rf_hash (the (mrcp_resource_loader_create apr_ref five_flt True))
      (str_bytes (ch_resource_name (msg_channel_id sample_speak))) = Some ?r"
    unfolding ch resources_loaded(2) [OF loaded_sample] by simp
  show ?thesis
    using parser_run_text [OF apr_ref_ok sample_speak_sendable body _ tables known hash, of 150] ch spk(2)
    unfolding loaded_parser_def by (auto simp: start_line_equiv_def)
qed

theorem any_bytes_received_witness:
  "\<exists>m p s t. mrcp_parser_run apr_ref loaded_parser (text_stream (message_text apr_ref sample_speak 150)) =
      Inr (APT_MESSAGE_STATUS_COMPLETE, Some m, p, s) \<and> machine_message apr_ref five_flt t m \<and>
    method_id m < res_method_count (loaded_resource apr_ref five_flt t)"
proof -
  obtain m p s where run: "mrcp_parser_run apr_ref loaded_parser (text_stream (message_text apr_ref sample_speak 150)) =
      Inr (APT_MESSAGE_STATUS_COMPLETE, Some m, p, s)" "message_type m = MRCP_MESSAGE_TYPE_REQUEST"
    using sample_speak_received by blast
  have "0 < ts_end (text_stream (message_text apr_ref sample_speak 150))" by (simp add: message_text_def)
  from any_bytes_received [OF apr_ref_ok loaded_sample reaches_start stream_ok_text this]
  have "\<exists>t. machine_message apr_ref five_flt t m \<and> method_id m < res_method_count (loaded_resource apr_ref five_flt t)"
    using run unfolding loaded_parser_def by (auto split: if_splits)
  then show ?thesis using run(1) by blast
qed

text \<open>C40. A header that announces a body of -1 bytes makes the parser write outside the block of the
  body: the response of MRCPv1 with any start line and the one field \<open>Content-Length: -1\<close> does so. The
  length is taken for 2^64 - 1, the block has no byte, and the NUL that ends the body is
  written before it.\<close>

theorem negative_length_faults:
  assumes "apr_ok A" and "mrcp_resource_loader_create A F True = Some rf"
    and "start_line_ok sl" and "sl_version sl = MRCP_VERSION_1" and "sl_message_type sl = MRCP_MESSAGE_TYPE_RESPONSE"
  shows "mrcp_parser_run A (mrcp_parser_resource_set (mrcp_parser_create A rf) (Some (c_literal ''speechsynth'' 11)))
    (text_stream (line_text sl 0 @ CRLF @ ''Content-Length: -1'' @ CRLF @ CRLF)) = Inl OutOfBounds"
proof -
  let ?p = "mrcp_parser_resource_set (mrcp_parser_create A rf) (Some (c_literal ''speechsynth'' 11))"
  let ?r = "''Content-Length: -1'' @ CRLF @ CRLF"
  let ?t = "text_stream (line_text sl 0 @ CRLF @ ?r)"
  have p: "po_resource (mp_obj ?p) = Some (loaded_resource A F 0)" "mp_vtable ?p = mrcp_parser_vtable A" "\<not> mp_skip_lf ?p"
    "mp_stage ?p = APT_MESSAGE_STAGE_START_LINE"
    using resources_loaded(2) [OF assms(2)]
    by (simp_all add: mrcp_parser_resource_set_def mrcp_parser_create_def apt_message_parser_create_def mrcp_resource_find_def
        str_bytes_def str_mem_def c_literal_def)
  have t: "0 < MRCP_RESOURCE_TYPE_COUNT" by simp
  note vt = resource_vtables(1) [of A F MRCP_VERSION_1]
  obtain m s where o: "mrcp_parser_on_start A (mp_obj ?p) ?t = Inr (True, Some m, s)"
    "ts_rest s = ?r" "stream_ok s" "\<not> ts_is_eos s" "sl_version (msg_start_line m) = MRCP_VERSION_1"
    "header_ready A (resource_vtable A F 0 MRCP_VERSION_1) (msg_header m)"
    "acc_data (mh_generic (msg_header m)) = Some mrcp_generic_header_init"
    "mh_section (msg_header m) = empty_section\<lparr>hs_arr :=
       replicate (GENERIC_HEADER_COUNT + vt_field_count (resource_vtable A F 0 MRCP_VERSION_1)) None\<rparr>"
    using on_start_response [OF assms(3-5) p(1) t, of ?r] by blast
  let ?p1 = "?p\<lparr>mp_skip_lf := False, mp_message := Some m\<rparr>"
  have "ts_pos s \<noteq> ts_end s" using o(2) by (auto simp: ts_rest_def)
  then have "apt_crlf_segmentation_test ?p1 s = Inr ?p1" by (simp add: apt_crlf_segmentation_test_def)
  moreover have "parser_header_stage A (?p1\<lparr>mp_stage := APT_MESSAGE_STAGE_HEADER\<rparr>) m s = Inl OutOfBounds"
  proof (rule negative_length_stage [OF assms(1) _ _ o(6) _ o(8) _ o(7,5,3,4,2)])
    show "names_disjoint (resource_vtable A F 0 MRCP_VERSION_1)" unfolding vt by (rule synth_disjoint)
    show "GENERIC_HEADER_COUNT + vt_field_count (resource_vtable A F 0 MRCP_VERSION_1) \<le> UNKNOWN_HEADER_FIELD_ID"
      by (simp add: vt data_vtable_def mrcp_synth_header_vtable_def UNKNOWN_HEADER_FIELD_ID_def)
  qed (use p(2) in simp_all)
  moreover have "on_start (mp_vtable ?p) = mrcp_parser_on_start A" using p(2) by (simp add: mrcp_parser_vtable_def)
  ultimately show ?thesis
    using o(1) p(3,4) by (simp add: mrcp_parser_run_def apt_message_parser_run_def parser_start_stage_def Let_def)
qed

theorem negative_length_faults_witness:
  "mrcp_parser_run apr_ref (mrcp_parser_resource_set loaded_parser (Some (c_literal ''speechsynth'' 11)))
    (text_stream (line_text (sample_response MRCP_VERSION_1) 0 @ CRLF @ ''Content-Length: -1'' @ CRLF @ CRLF)) = Inl OutOfBounds"
  unfolding loaded_parser_def
  by (rule negative_length_faults [OF apr_ref_ok loaded_sample]) (simp_all add: sample_response_def start_line_ok_def)

end
