(* ===== verification/RtspStartLine.thy ===== *)
theory RtspStartLine
  imports MrcpStartLine
begin

text \<open>
  The start line of RTSP messages (\<open>rtsp_start_line.c\<close>), the transport of MRCPv1: request lines
  and status lines.

  The message type and the union of the two kinds of lines are only ever set together, so they
  are one datatype. The name of the resource is a pointer into the URL: it is the memory from
  there on.
\<close>

datatype rtsp_version = RTSP_VERSION_UNKNOWN | RTSP_VERSION_1

abbreviation rtsp_version_num :: "rtsp_version \<Rightarrow> nat" where
  "rtsp_version_num v \<equiv> (case v of RTSP_VERSION_UNKNOWN \<Rightarrow> 0 | RTSP_VERSION_1 \<Rightarrow> 1)"

abbreviation RTSP_METHOD_COUNT :: nat where "RTSP_METHOD_COUNT \<equiv> 4"
abbreviation RTSP_METHOD_SETUP :: nat where "RTSP_METHOD_SETUP \<equiv> 0"
abbreviation RTSP_METHOD_UNKNOWN :: nat where "RTSP_METHOD_UNKNOWN \<equiv> RTSP_METHOD_COUNT"
abbreviation RTSP_REASON_PHRASE_COUNT :: nat where "RTSP_REASON_PHRASE_COUNT \<equiv> 12"
abbreviation RTSP_STATUS_CODE_OK :: status_code where "RTSP_STATUS_CODE_OK \<equiv> 200"

record rtsp_request_line =
  rl_method_name :: apt_str
  rl_method_id :: nat
  rl_url :: apt_str
  rl_resource_name :: "char list option"
  rl_version :: rtsp_version

record rtsp_status_line =
  st_version :: rtsp_version
  st_status_code :: status_code
  st_reason :: apt_str

datatype rtsp_start_line =
  RtspUnknown | RtspRequest rtsp_request_line | RtspResponse rtsp_status_line

definition rtsp_request_line_init :: rtsp_request_line where
  "rtsp_request_line_init =
     \<lparr>rl_method_name = apt_string_reset, rl_method_id = RTSP_METHOD_UNKNOWN, rl_url = apt_string_reset,
      rl_resource_name = None, rl_version = RTSP_VERSION_1\<rparr>"

definition rtsp_status_line_init :: rtsp_status_line where
  "rtsp_status_line_init =
     \<lparr>st_version = RTSP_VERSION_1, st_status_code = RTSP_STATUS_CODE_OK, st_reason = apt_string_reset\<rparr>"

abbreviation RTSP_NAME :: "char list" where "RTSP_NAME \<equiv> ''RTSP''"

definition rtsp_method_string_table :: "apt_str_table_item list" where
  "rtsp_method_string_table =
     [table_item ''SETUP'' 5 0, table_item ''ANNOUNCE'' 8 0, table_item ''TEARDOWN'' 8 0, table_item ''DESCRIBE'' 8 0]"

definition rtsp_reason_string_table :: "apt_str_table_item list" where
  "rtsp_reason_string_table =
     [table_item ''OK'' 2 0, table_item ''Created'' 7 0, table_item ''Bad Request'' 11 0,
      table_item ''Unauthorized'' 12 0, table_item ''Not Found'' 9 4, table_item ''Method Not Allowed'' 18 0,
      table_item ''Not Acceptable'' 14 4, table_item ''Proxy Auth Required'' 19 0,
      table_item ''Request Timeout'' 15 0, table_item ''Session Not Found'' 17 0,
      table_item ''Internal Server Error'' 21 0, table_item ''Not Implemented'' 15 4]"

section \<open>Fields of the start line\<close>

text \<open>\<open>strrchr\<close>: the memory behind the last occurrence of a character before the NUL.\<close>

definition behind_last :: "char \<Rightarrow> char list \<Rightarrow> char list option" where
  "behind_last c p =
     (let text = takeWhile (\<lambda>d. d \<noteq> NUL) p
      in if c \<in> set text then Some (drop (length text - length (takeWhile (\<lambda>d. d \<noteq> c) (rev text))) p) else None)"

definition rtsp_resource_uri_parse :: "apt_str \<Rightarrow> rtsp_request_line \<Rightarrow> bool \<times> rtsp_request_line" where
  "rtsp_resource_uri_parse field rl =
     (if str_length field = 0 \<or> str_buf field = None then (False, rl)
      else let url = apt_string_copy field; last = str_length url - 1;
               url = (if str_mem url ! last = CHR ''/''
                      then \<lparr>str_buf = Some ((str_mem url)[last := NUL]), str_length = last\<rparr> else url)
           in (True, rl\<lparr>rl_url := url, rl_resource_name := behind_last (CHR ''/'') (str_mem url)\<rparr>))"

definition rtsp_version_parse :: "apt_str \<Rightarrow> rtsp_version" where
  "rtsp_version_parse field =
     (if str_length field \<le> length RTSP_NAME \<or>
         \<not> strncasecmp_eq (str_mem field) (RTSP_NAME @ [NUL]) (length RTSP_NAME)
      then RTSP_VERSION_UNKNOWN
      else let pos = drop (length RTSP_NAME) (str_mem field)
           in if byte pos = CHR ''/'' \<and> byte (drop 1 pos) = CHR ''1'' then RTSP_VERSION_1
              else RTSP_VERSION_UNKNOWN)"

definition rtsp_version_generate ::
  "apr \<Rightarrow> rtsp_version \<Rightarrow> apt_text_stream \<Rightarrow> fault + bool \<times> apt_text_stream" where
  "rtsp_version_generate A version s =
     (if ts_pos s + length RTSP_NAME + 1 \<ge> ts_end s then Inr (False, s)
      else sbind (ts_write s (RTSP_NAME @ [CHR ''/''])) (\<lambda>s.
           sbind (apt_text_size_value_insert A s (of_nat (rtsp_version_num version))) (\<lambda>(ok, s).
             if \<not> ok then Inr (False, s)
             else if ts_pos s + 2 \<ge> ts_end s then Inr (False, s)
             else sbind (ts_write s [CHR ''.'', CHR ''0'']) (\<lambda>s. Inr (True, s)))))"

text \<open>The status code is read and written as in MRCP: \<open>rtsp_status_code_parse\<close> and
  \<open>rtsp_status_code_generate\<close> have the text of the functions of \<open>mrcp_start_line.c\<close>.\<close>

abbreviation rtsp_status_code_parse :: "apt_str \<Rightarrow> status_code" where
  "rtsp_status_code_parse \<equiv> mrcp_status_code_parse"
abbreviation rtsp_status_code_generate ::
  "apr \<Rightarrow> status_code \<Rightarrow> apt_text_stream \<Rightarrow> fault + bool \<times> apt_text_stream" where
  "rtsp_status_code_generate \<equiv> mrcp_status_code_generate"

section \<open>Lines\<close>

definition rtsp_request_line_generate ::
  "apr \<Rightarrow> rtsp_request_line \<Rightarrow> apt_text_stream \<Rightarrow> fault + bool \<times> rtsp_request_line \<times> apt_text_stream" where
  "rtsp_request_line_generate A rl s =
     (case apt_string_table_str_get rtsp_method_string_table RTSP_METHOD_COUNT (rl_method_id rl) of
        None \<Rightarrow> Inr (False, rl, s)
      | Some method_name \<Rightarrow>
          let rl = rl\<lparr>rl_method_name := method_name\<rparr>
          in sbind (apt_text_string_insert s (rl_method_name rl)) (\<lambda>(ok, s).
             if \<not> ok then Inr (False, rl, s)
             else sbind (apt_text_space_insert s) (\<lambda>(ok, s).
             if \<not> ok then Inr (False, rl, s)
             else sbind (apt_text_string_insert s (rl_url rl)) (\<lambda>(ok, s).
             if \<not> ok then Inr (False, rl, s)
             else sbind (apt_text_space_insert s) (\<lambda>(ok, s).
             if \<not> ok then Inr (False, rl, s)
             else sbind (rtsp_version_generate A (rl_version rl) s) (\<lambda>(ok, s). Inr (ok, rl, s)))))))"

definition rtsp_status_line_generate ::
  "apr \<Rightarrow> rtsp_status_line \<Rightarrow> apt_text_stream \<Rightarrow> fault + bool \<times> apt_text_stream" where
  "rtsp_status_line_generate A st s =
     sbind (rtsp_version_generate A (st_version st) s) (\<lambda>(ok, s).
     if \<not> ok then Inr (False, s)
     else sbind (apt_text_space_insert s) (\<lambda>(ok, s).
     if \<not> ok then Inr (False, s)
     else sbind (rtsp_status_code_generate A (st_status_code st) s) (\<lambda>(ok, s).
     if \<not> ok then Inr (False, s)
     else sbind (apt_text_space_insert s) (\<lambda>(ok, s).
     if \<not> ok then Inr (False, s)
     else apt_text_string_insert s (st_reason st)))))"

text \<open>The two branches behind the first field, and the whole line.\<close>

definition rtsp_status_line_parse :: "apt_str \<Rightarrow> apt_text_stream \<Rightarrow> bool \<times> rtsp_start_line" where
  "rtsp_status_line_parse field s =
     (let st = rtsp_status_line_init\<lparr>st_version := rtsp_version_parse field\<rparr>
      in case apt_text_field_read s APT_TOKEN_SP True of (ok, field, s) \<Rightarrow>
      if \<not> ok then (False, RtspResponse st)
      else let st = st\<lparr>st_status_code := rtsp_status_code_parse field\<rparr>
      in case apt_text_field_read s APT_TOKEN_SP True of (ok, field, s) \<Rightarrow>
      if \<not> ok then (False, RtspResponse st)
      else (True, RtspResponse (st\<lparr>st_reason := apt_string_copy field\<rparr>)))"

definition rtsp_request_line_parse :: "apt_str \<Rightarrow> apt_text_stream \<Rightarrow> bool \<times> rtsp_start_line" where
  "rtsp_request_line_parse field s =
     (let rl = rtsp_request_line_init
            \<lparr>rl_method_name := apt_string_copy field,
             rl_method_id := apt_string_table_id_find rtsp_method_string_table RTSP_METHOD_COUNT field\<rparr>
      in case apt_text_field_read s APT_TOKEN_SP True of (ok, field, s) \<Rightarrow>
      if \<not> ok then (False, RtspRequest rl)
      else case rtsp_resource_uri_parse field rl of (_, rl) \<Rightarrow>
      case apt_text_field_read s APT_TOKEN_SP True of (ok, field, s) \<Rightarrow>
      if \<not> ok then (False, RtspRequest rl)
      else (True, RtspRequest (rl\<lparr>rl_version := rtsp_version_parse field\<rparr>)))"

definition rtsp_start_line_parse :: "rtsp_start_line \<Rightarrow> apt_str \<Rightarrow> bool \<times> rtsp_start_line" where
  "rtsp_start_line_parse sl str =
     (case apt_text_field_read (stream_of_str str) APT_TOKEN_SP True of (ok, field, s) \<Rightarrow>
      if \<not> ok then (False, sl)
      else if take (length RTSP_NAME) (str_mem field) = RTSP_NAME then rtsp_status_line_parse field s
      else rtsp_request_line_parse field s)"

definition rtsp_start_line_generate ::
  "apr \<Rightarrow> rtsp_start_line \<Rightarrow> apt_text_stream \<Rightarrow> fault + bool \<times> rtsp_start_line \<times> apt_text_stream" where
  "rtsp_start_line_generate A sl s =
     sbind (case sl of
              RtspRequest rl \<Rightarrow>
                sbind (rtsp_request_line_generate A rl s) (\<lambda>(ok, rl, s). Inr (ok, RtspRequest rl, s))
            | RtspResponse st \<Rightarrow>
                sbind (rtsp_status_line_generate A st s) (\<lambda>(ok, s). Inr (ok, sl, s))
            | RtspUnknown \<Rightarrow> Inr (False, sl, s)) (\<lambda>(status, sl, s).
     if \<not> status then Inr (False, sl, s)
     else sbind (apt_text_eol_insert s) (\<lambda>(ok, s). Inr (ok, sl, s)))"

definition rtsp_reason_phrase_get :: "nat \<Rightarrow> apt_str option" where
  "rtsp_reason_phrase_get reason =
     apt_string_table_str_get rtsp_reason_string_table RTSP_REASON_PHRASE_COUNT reason"

section \<open>What the generators write\<close>

text \<open>Generators that check for room themselves and that stop at the first one that fails.\<close>

lemma gen_ok_checked [gen_intros]:
  assumes "gen_ok g a" and "gen_ok h b"
  shows "gen_ok (\<lambda>s. sbind (g s) (\<lambda>(ok, s). if \<not> ok then Inr (False, s) else h s)) (a @ b)"
  unfolding gen_ok_def
proof (intro allI impI)
  fix s assume r: "ts_room s (length (a @ b))"
  then have "ts_room s (length a)" by (rule ts_room_mono) simp
  then obtain s1 where s1: "g s = Inr (True, s1)" "ts_wrote s a s1" using gen_okD [OF assms(1)] by blast
  then have "ts_room s1 (length b)" using r by (simp add: ts_room_wrote)
  then obtain s2 where "h s1 = Inr (True, s2)" "ts_wrote s1 b s2" using gen_okD [OF assms(2)] by blast
  then show "\<exists>s'. sbind (g s) (\<lambda>(ok, s). if \<not> ok then Inr (False, s) else h s) = Inr (True, s') \<and> ts_wrote s (a @ b) s'"
    using s1 ts_wrote_trans by auto
qed

lemma gen_ok_guard:
  assumes "gen_ok g t" and "\<And>s. b s \<Longrightarrow> \<not> ts_room s (length t)"
  shows "gen_ok (\<lambda>s. if b s then Inr (False, s) else g s) t"
  using assms by (auto simp: gen_ok_def)

lemma gen_ok_string [gen_intros]: "str_wf str \<Longrightarrow> gen_ok (\<lambda>s. apt_text_string_insert s str) (str_bytes str)"
  using string_insert_room [of _ str] length_str_bytes [of str] by (simp add: gen_ok_def)

lemma gen_ok_char [gen_intros]: "gen_ok (\<lambda>s. apt_text_char_insert s c) [c]"
  using char_insert_room by (simp add: gen_ok_def)

lemma gen_ok_space [gen_intros]: "gen_ok apt_text_space_insert [APT_TOKEN_SP]"
  using gen_ok_char by (simp add: apt_text_space_insert_def [abs_def])

definition rtsp_version_text :: "rtsp_version \<Rightarrow> char list" where
  "rtsp_version_text v = RTSP_NAME @ [CHR ''/''] @ dec (rtsp_version_num v) @ ''.0''"

lemma rtsp_version_text_simps [simp]:
  "rtsp_version_text RTSP_VERSION_1 = ''RTSP/1.0''" "rtsp_version_text RTSP_VERSION_UNKNOWN = ''RTSP/0.0''"
  by code_simp+

lemma rtsp_version_token: "rtsp_version_text v \<noteq> []" "APT_TOKEN_SP \<notin> set (rtsp_version_text v)" "no_eol (rtsp_version_text v)"
  "length (rtsp_version_text v) = 8" "take (length RTSP_NAME) (rtsp_version_text v @ r) = RTSP_NAME"
  by (cases v; simp)+

lemma gen_ok_size [gen_intros]: "apr_ok A \<Longrightarrow> gen_ok (\<lambda>s. apt_text_size_value_insert A s v) (dec (unat v))"
  using gen_ok_int [of A "uint v"] by (simp add: apt_text_size_value_insert_def dec_int_def)

lemma gen_ok_rtsp_version [gen_intros]:
  assumes "apr_ok A" shows "gen_ok (rtsp_version_generate A v) (rtsp_version_text v)"
proof -
  have n: "unat (of_nat (rtsp_version_num v) :: 64 word) = rtsp_version_num v" by (cases v) simp_all
  have "gen_ok (rtsp_version_generate A v)
      ((RTSP_NAME @ [CHR ''/'']) @ dec (unat (of_nat (rtsp_version_num v) :: 64 word)) @ ''.0'' @ [])"
    unfolding rtsp_version_generate_def
    by (intro gen_ok_guard gen_intros assms) (simp_all add: ts_room_def)
  then show ?thesis by (simp add: rtsp_version_text_def n)
qed

section \<open>Lines as text\<close>

definition rtsp_method_name :: "nat \<Rightarrow> char list" where
  "rtsp_method_name i = str_bytes (item_value (rtsp_method_string_table ! i))"

fun rtsp_line_text :: "rtsp_start_line \<Rightarrow> char list" where
  "rtsp_line_text RtspUnknown = []"
| "rtsp_line_text (RtspRequest rl) =
     rtsp_method_name (rl_method_id rl) @ [APT_TOKEN_SP] @ str_bytes (rl_url rl) @ [APT_TOKEN_SP] @ rtsp_version_text (rl_version rl)"
| "rtsp_line_text (RtspResponse st) =
     rtsp_version_text (st_version st) @ [APT_TOKEN_SP] @ dec (unat (st_status_code st)) @ [APT_TOKEN_SP] @ str_bytes (st_reason st)"

text \<open>Lines that can be sent: a known method and a URL without spaces, or a reason phrase.\<close>

fun rtsp_line_ok :: "rtsp_start_line \<Rightarrow> bool" where
  "rtsp_line_ok RtspUnknown = False"
| "rtsp_line_ok (RtspRequest rl) \<longleftrightarrow> rl_method_id rl < RTSP_METHOD_COUNT \<and> str_wf (rl_url rl) \<and>
     str_bytes (rl_url rl) \<noteq> [] \<and> NUL \<notin> set (str_bytes (rl_url rl)) \<and> APT_TOKEN_SP \<notin> set (str_bytes (rl_url rl)) \<and>
     no_eol (str_bytes (rl_url rl))"
| "rtsp_line_ok (RtspResponse st) \<longleftrightarrow> str_wf (st_reason st) \<and> str_bytes (st_reason st) \<noteq> [] \<and>
     hd (str_bytes (st_reason st)) \<noteq> APT_TOKEN_SP \<and> no_eol (str_bytes (st_reason st))"

text \<open>
  What is received for a line that was sent. The method, the version and the status code are the
  same; the URL has lost one slash at its end, and of the reason phrase only the first word is left.
\<close>

definition url_stem :: "char list \<Rightarrow> char list" where
  "url_stem u = (if last u = CHR ''/'' then butlast u else u)"

fun rtsp_line_received :: "rtsp_start_line \<Rightarrow> rtsp_start_line \<Rightarrow> bool" where
  "rtsp_line_received (RtspRequest rl) (RtspRequest rl') \<longleftrightarrow>
     rl_method_id rl' = rl_method_id rl \<and> str_bytes (rl_method_name rl') = rtsp_method_name (rl_method_id rl) \<and>
     str_bytes (rl_url rl') = url_stem (str_bytes (rl_url rl)) \<and> rl_version rl' = rl_version rl \<and>
     (\<forall>xs name. url_stem (str_bytes (rl_url rl)) = xs @ CHR ''/'' # name \<and> CHR ''/'' \<notin> set name \<longrightarrow>
        (\<exists>z. rl_resource_name rl' = Some (name @ NUL # z)))"
| "rtsp_line_received (RtspResponse st) (RtspResponse st') \<longleftrightarrow>
     st_version st' = st_version st \<and> st_status_code st' = st_status_code st \<and>
     str_bytes (st_reason st') = takeWhile (\<lambda>c. c \<noteq> APT_TOKEN_SP) (str_bytes (st_reason st))"
| "rtsp_line_received _ _ = False"

text \<open>What a line says, and the lines for which nothing is lost.\<close>

fun rtsp_line_view :: "rtsp_start_line \<Rightarrow> ((nat \<times> char list \<times> rtsp_version) + (rtsp_version \<times> status_code \<times> char list)) option" where
  "rtsp_line_view RtspUnknown = None"
| "rtsp_line_view (RtspRequest rl) = Some (Inl (rl_method_id rl, str_bytes (rl_url rl), rl_version rl))"
| "rtsp_line_view (RtspResponse st) = Some (Inr (st_version st, st_status_code st, str_bytes (st_reason st)))"

fun rtsp_line_kept :: "rtsp_start_line \<Rightarrow> bool" where
  "rtsp_line_kept RtspUnknown = False"
| "rtsp_line_kept (RtspRequest rl) \<longleftrightarrow> last (str_bytes (rl_url rl)) \<noteq> CHR ''/''"
| "rtsp_line_kept (RtspResponse st) \<longleftrightarrow> APT_TOKEN_SP \<notin> set (str_bytes (st_reason st))"

lemma rtsp_line_kept_view:
  assumes "rtsp_line_received sl sl'" and "rtsp_line_kept sl"
  shows "rtsp_line_view sl' = rtsp_line_view sl"
proof (cases sl)
  case (RtspResponse st)
  then have "takeWhile (\<lambda>c. c \<noteq> APT_TOKEN_SP) (str_bytes (st_reason st)) = str_bytes (st_reason st)"
    using assms(2) by (auto simp: takeWhile_eq_all_conv)
  then show ?thesis using assms(1) RtspResponse by (cases sl') simp_all
qed (use assms in \<open>cases sl'; simp add: url_stem_def\<close>)+

interpretation rtsp_methods: string_table rtsp_method_string_table RTSP_METHOD_COUNT
  by unfold_locales
    (simp_all add: rtsp_method_string_table_def table_item_def item_ok_def item_fold_def str_wf_def str_bytes_def tolower_def)

lemma method_name_cases:
  assumes "i < RTSP_METHOD_COUNT"
  shows "rtsp_method_name i \<in> {''SETUP'', ''ANNOUNCE'', ''TEARDOWN'', ''DESCRIBE''}"
proof -
  have "i = 0 \<or> i = 1 \<or> i = 2 \<or> i = 3" using assms by arith
  then show ?thesis by (elim disjE) (simp_all add: rtsp_method_name_def rtsp_method_string_table_def table_item_def str_bytes_def)
qed

lemma request_generate_seq:
  assumes "apt_string_table_str_get rtsp_method_string_table RTSP_METHOD_COUNT (rl_method_id rl) = Some name"
  shows "rtsp_request_line_generate A rl s =
    sbind (sbind (apt_text_string_insert s name) (\<lambda>(ok, s). if \<not> ok then Inr (False, s)
      else sbind (apt_text_space_insert s) (\<lambda>(ok, s). if \<not> ok then Inr (False, s)
      else sbind (apt_text_string_insert s (rl_url rl)) (\<lambda>(ok, s). if \<not> ok then Inr (False, s)
      else sbind (apt_text_space_insert s) (\<lambda>(ok, s). if \<not> ok then Inr (False, s)
      else rtsp_version_generate A (rl_version rl) s)))))
    (\<lambda>(ok, s). Inr (ok, rl\<lparr>rl_method_name := name\<rparr>, s))"
  using assms
  by (auto simp: rtsp_request_line_generate_def sbind_def Let_def split: sum.splits prod.splits)

lemma rtsp_line_generate_text:
  assumes "apr_ok A" and "rtsp_line_ok sl" and "ts_room s (length (rtsp_line_text sl) + 2)"
  shows "\<exists>sl' s'. rtsp_start_line_generate A sl s = Inr (True, sl', s') \<and> ts_wrote s (rtsp_line_text sl @ CRLF) s'"
proof -
  have r: "ts_room s (length (rtsp_line_text sl))" by (rule ts_room_mono [OF assms(3)]) simp
  have "\<exists>sl' s'. (case sl of
              RtspRequest rl \<Rightarrow> sbind (rtsp_request_line_generate A rl s) (\<lambda>(ok, rl, s). Inr (ok, RtspRequest rl, s))
            | RtspResponse st \<Rightarrow> sbind (rtsp_status_line_generate A st s) (\<lambda>(ok, s). Inr (ok, sl, s))
            | RtspUnknown \<Rightarrow> Inr (False, sl, s)) = Inr (True, sl', s') \<and> ts_wrote s (rtsp_line_text sl) s'"
  proof (cases sl)
    case (RtspRequest rl)
    then have ok: "rl_method_id rl < RTSP_METHOD_COUNT" "str_wf (rl_url rl)" using assms(2) by simp_all
    let ?name = "item_value (rtsp_method_string_table ! rl_method_id rl)"
    have get: "apt_string_table_str_get rtsp_method_string_table RTSP_METHOD_COUNT (rl_method_id rl) = Some ?name"
      using ok(1) by (simp add: apt_string_table_str_get_def)
    have wf: "str_wf ?name" using rtsp_methods.item_okD [OF ok(1)] by (simp add: item_ok_def)
    have "gen_ok (\<lambda>s. sbind (apt_text_string_insert s ?name) (\<lambda>(ok, s). if \<not> ok then Inr (False, s)
        else sbind (apt_text_space_insert s) (\<lambda>(ok, s). if \<not> ok then Inr (False, s)
        else sbind (apt_text_string_insert s (rl_url rl)) (\<lambda>(ok, s). if \<not> ok then Inr (False, s)
        else sbind (apt_text_space_insert s) (\<lambda>(ok, s). if \<not> ok then Inr (False, s)
        else rtsp_version_generate A (rl_version rl) s)))))
      (str_bytes ?name @ [APT_TOKEN_SP] @ str_bytes (rl_url rl) @ [APT_TOKEN_SP] @ rtsp_version_text (rl_version rl))"
      by (intro gen_intros wf ok(2) assms(1))
    from gen_okD [OF this, of s] r show ?thesis
      unfolding RtspRequest by (auto simp: request_generate_seq [OF get] rtsp_method_name_def)
  next
    case (RtspResponse st)
    then have "gen_ok (rtsp_status_line_generate A st) (rtsp_line_text sl)"
      unfolding rtsp_status_line_generate_def [abs_def] RtspResponse rtsp_line_text.simps
      using assms(2) [unfolded RtspResponse] by (intro gen_intros assms(1)) simp
    from gen_okD [OF this r] show ?thesis unfolding RtspResponse by auto
  qed (use assms(2) in simp)
  then obtain sl1 s1 where 1: "(case sl of
              RtspRequest rl \<Rightarrow> sbind (rtsp_request_line_generate A rl s) (\<lambda>(ok, rl, s). Inr (ok, RtspRequest rl, s))
            | RtspResponse st \<Rightarrow> sbind (rtsp_status_line_generate A st s) (\<lambda>(ok, s). Inr (ok, sl, s))
            | RtspUnknown \<Rightarrow> Inr (False, sl, s)) = Inr (True, sl1, s1)" "ts_wrote s (rtsp_line_text sl) s1" by blast
  have "ts_room s1 2" using assms(3) by (simp add: ts_room_wrote [OF 1(2)])
  from eol_insert_room [OF this] obtain s2 where "apt_text_eol_insert s1 = Inr (True, s2)" "ts_wrote s1 CRLF s2" by blast
  then show ?thesis using 1 ts_wrote_trans [OF 1(2)] by (simp add: rtsp_start_line_generate_def)
qed

section \<open>Reading lines\<close>

lemma behind_last_text:
  assumes "NUL \<notin> set xs" and "NUL \<notin> set name" and "c \<notin> set name" and "c \<noteq> NUL"
  shows "behind_last c ((xs @ c # name) @ NUL # z) = Some (name @ NUL # z)"
proof -
  have tw: "takeWhile (\<lambda>d. d \<noteq> NUL) ((xs @ c # name) @ NUL # z) = xs @ c # name"
    using assms by (subst takeWhile_append2) auto
  have "takeWhile (\<lambda>d. d \<noteq> c) (rev name @ c # rev xs) = rev name"
    using assms(3) by (subst takeWhile_append2) auto
  then show ?thesis unfolding behind_last_def tw by (simp add: Let_def)
qed

lemma uri_parse_text:
  assumes "str_wf field" and "str_bytes field = u" and "u \<noteq> []" and "NUL \<notin> set u"
  shows "\<exists>url res. rtsp_resource_uri_parse field rl = (True, rl\<lparr>rl_url := url, rl_resource_name := res\<rparr>) \<and>
    str_bytes url = url_stem u \<and>
    (\<forall>xs name. url_stem u = xs @ CHR ''/'' # name \<and> CHR ''/'' \<notin> set name \<longrightarrow> (\<exists>z. res = Some (name @ NUL # z)))"
proof -
  have len: "str_length field = length u" using length_str_bytes [OF assms(1)] assms(2) by simp
  have copy: "apt_string_copy field = \<lparr>str_buf = Some (u @ [NUL]), str_length = length u\<rparr>"
    using assms(1-3) len by (auto simp: apt_string_copy_def apr_pstrmemdup_def str_bytes_def)
  have buf: "str_buf field \<noteq> None" using assms(2,3) by (auto simp: str_bytes_def str_mem_def split: option.splits)
  define m where "m = (if last u = CHR ''/'' then butlast u @ NUL # [NUL] else u @ NUL # [])"
  have last: "(u @ [NUL]) ! (length u - 1) = last u" using assms(3) by (simp add: nth_append last_conv_nth)
  have upd: "(u @ [NUL])[length u - 1 := NUL] = butlast u @ [NUL, NUL]"
    using assms(3) by (cases u rule: rev_cases) (simp_all add: list_update_append)
  have m: "\<exists>z. m = url_stem u @ NUL # z" by (auto simp: m_def url_stem_def)
  have stem: "NUL \<notin> set (url_stem u)" using assms(4) in_set_butlastD [of NUL u] by (auto simp: url_stem_def)
  have "rtsp_resource_uri_parse field rl = (True, rl\<lparr>rl_url := \<lparr>str_buf = Some m, str_length = length (url_stem u)\<rparr>,
      rl_resource_name := behind_last (CHR ''/'') m\<rparr>)"
    using len buf assms(3) last upd copy
    by (auto simp: rtsp_resource_uri_parse_def Let_def m_def url_stem_def str_mem_def)
  moreover have "str_bytes \<lparr>str_buf = Some m, str_length = length (url_stem u)\<rparr> = url_stem u"
    using m by (auto simp: str_bytes_def str_mem_def)
  moreover have "\<exists>z. behind_last (CHR ''/'') m = Some (name @ NUL # z)"
    if "url_stem u = xs @ CHR ''/'' # name" "CHR ''/'' \<notin> set name" for xs name
    using m stem that behind_last_text [of xs name "CHR ''/''"] by auto
  ultimately show ?thesis by blast
qed

lemma rtsp_version_parse_text:
  assumes "str_length f = 8" and "str_buf f = Some (rtsp_version_text v @ r)"
  shows "rtsp_version_parse f = v"
  using assms
  by (cases v) (simp_all add: rtsp_version_parse_def str_mem_def  byte_def numeral_eq_Suc)

lemma status_line_parse_text:
  assumes "rtsp_line_ok (RtspResponse st)" and "str_length f = 8" and "str_buf f = Some (rtsp_version_text (st_version st) @ r)"
    and "ts_at s (dec (unat (st_status_code st)) @ [APT_TOKEN_SP] @ str_bytes (st_reason st)) tail"
  shows "\<exists>sl'. rtsp_status_line_parse f s = (True, sl') \<and> rtsp_line_received (RtspResponse st) sl'"
proof -
  let ?reason = "str_bytes (st_reason st)"
  let ?w = "takeWhile (\<lambda>c. c \<noteq> APT_TOKEN_SP) ?reason" and ?r = "dropWhile (\<lambda>c. c \<noteq> APT_TOKEN_SP) ?reason"
  obtain f1 s1 where 1: "apt_text_field_read s APT_TOKEN_SP True = (True, f1, s1)"
    "str_buf f1 = Some (dec (unat (st_status_code st)) @ APT_TOKEN_SP # ?reason @ tail)" "ts_at s1 ?reason tail"
    using field_at_next [OF assms(4) dec_token(1,2)] by metis
  have code: "rtsp_status_code_parse f1 = st_status_code st"
    using status_code_parse_text [OF 1(2)] by simp
  have w: "?w \<noteq> []" "APT_TOKEN_SP \<notin> set ?w" "?r = [] \<or> hd ?r = APT_TOKEN_SP" "ts_at s1 (?w @ ?r) tail"
    using assms(1) 1(3) hd_dropWhile [of "\<lambda>c. c \<noteq> APT_TOKEN_SP" ?reason]
    by (auto simp: takeWhile_eq_Nil_iff dest: set_takeWhileD)
  obtain f2 s2 where "apt_text_field_read s1 APT_TOKEN_SP True = (True, f2, s2)" "str_bytes f2 = ?w" "str_wf f2"
    using field_at_some [OF w(4,1,2,3)] by blast
  then show ?thesis
    using 1(1) code rtsp_version_parse_text [OF assms(2,3)] by (simp add: rtsp_status_line_parse_def Let_def)
qed

lemma request_line_parse_text:
  assumes "rtsp_line_ok (RtspRequest rl)" and "str_wf f" and "str_bytes f = rtsp_method_name (rl_method_id rl)"
    and "ts_at s (str_bytes (rl_url rl) @ [APT_TOKEN_SP] @ rtsp_version_text (rl_version rl)) tail"
  shows "\<exists>sl'. rtsp_request_line_parse f s = (True, sl') \<and> rtsp_line_received (RtspRequest rl) sl'"
proof -
  let ?i = "rl_method_id rl" and ?u = "str_bytes (rl_url rl)"
  have ok: "?i < RTSP_METHOD_COUNT" "?u \<noteq> []" "NUL \<notin> set ?u" "APT_TOKEN_SP \<notin> set ?u" using assms(1) by simp_all
  have i: "apt_string_table_id_find rtsp_method_string_table RTSP_METHOD_COUNT f = ?i"
  proof (rule rtsp_methods.id_find_eq [OF ok(1) assms(2)])
    show "NUL \<notin> set (str_bytes f)" using assms(3) method_name_cases [OF ok(1)] by auto
  qed (simp add: assms(3) item_fold_def rtsp_method_name_def)
  obtain f1 s1 where 1: "apt_text_field_read s APT_TOKEN_SP True = (True, f1, s1)" "str_bytes f1 = ?u" "str_wf f1"
    "ts_at s1 (rtsp_version_text (rl_version rl)) tail"
    using field_at_next [OF assms(4) ok(2,4)] by metis
  let ?rl = "rtsp_request_line_init\<lparr>rl_method_name := apt_string_copy f, rl_method_id := ?i\<rparr>"
  obtain url res where u: "rtsp_resource_uri_parse f1 ?rl = (True, ?rl\<lparr>rl_url := url, rl_resource_name := res\<rparr>)"
      "str_bytes url = url_stem ?u"
      "\<forall>xs name. url_stem ?u = xs @ CHR ''/'' # name \<and> CHR ''/'' \<notin> set name \<longrightarrow> (\<exists>z. res = Some (name @ NUL # z))"
    using uri_parse_text [OF 1(3,2) ok(2,3), of ?rl] by (elim exE conjE)
  obtain f2 s2 where 2: "apt_text_field_read s1 APT_TOKEN_SP True = (True, f2, s2)" "str_length f2 = 8"
    "str_buf f2 = Some (rtsp_version_text (rl_version rl) @ tail)"
    using field_at_last [OF 1(4) rtsp_version_token(1,2)] rtsp_version_token(4) by metis
  let ?rl' = "?rl\<lparr>rl_url := url, rl_resource_name := res, rl_version := rl_version rl\<rparr>"
  have "rtsp_request_line_parse f s = (True, RtspRequest ?rl')"
    using i 1(1) u(1) 2(1) rtsp_version_parse_text [OF 2(2,3)] by (simp add: rtsp_request_line_parse_def)
  moreover have "rtsp_line_received (RtspRequest rl) (RtspRequest ?rl')"
    unfolding rtsp_line_received.simps by (intro conjI) (use u(2,3) assms(2,3) in simp_all)
  ultimately show ?thesis by blast
qed

lemma rtsp_line_parse_text:
  assumes "rtsp_line_ok sl" and "str_buf str = Some (rtsp_line_text sl @ tail)" and "str_length str = length (rtsp_line_text sl)"
  shows "\<exists>sl'. rtsp_start_line_parse sl0 str = (True, sl') \<and> rtsp_line_received sl sl'"
proof -
  have at: "ts_at (stream_of_str str) (rtsp_line_text sl) tail" by (rule ts_at_str [OF assms(2,3)])
  show ?thesis
  proof (cases sl)
    case (RtspRequest rl)
    then have i: "rl_method_id rl < RTSP_METHOD_COUNT" using assms(1) by simp
    let ?m = "rtsp_method_name (rl_method_id rl)"
    have m: "?m \<noteq> []" "APT_TOKEN_SP \<notin> set ?m" "take (length RTSP_NAME) (?m @ r) \<noteq> RTSP_NAME" for r
      using method_name_cases [OF i] by auto
    obtain f s where f: "apt_text_field_read (stream_of_str str) APT_TOKEN_SP True = (True, f, s)" "str_bytes f = ?m" "str_wf f"
      "str_buf f = Some (?m @ APT_TOKEN_SP # (str_bytes (rl_url rl) @ [APT_TOKEN_SP] @ rtsp_version_text (rl_version rl)) @ tail)"
      "ts_at s (str_bytes (rl_url rl) @ [APT_TOKEN_SP] @ rtsp_version_text (rl_version rl)) tail"
      using field_at_next [OF at [unfolded RtspRequest rtsp_line_text.simps] m(1,2)] by metis
    have "rtsp_start_line_parse sl0 str = rtsp_request_line_parse f s"
      using f(1,4) m(3) by (simp add: rtsp_start_line_parse_def str_mem_def)
    then show ?thesis
      using request_line_parse_text [OF assms(1) [unfolded RtspRequest] f(3,2,5)] unfolding RtspRequest by simp
  next
    case (RtspResponse st)
    let ?v = "rtsp_version_text (st_version st)"
    obtain f s where f: "apt_text_field_read (stream_of_str str) APT_TOKEN_SP True = (True, f, s)" "str_length f = 8"
      "str_buf f = Some (?v @ APT_TOKEN_SP # (dec (unat (st_status_code st)) @ [APT_TOKEN_SP] @ str_bytes (st_reason st)) @ tail)"
      "ts_at s (dec (unat (st_status_code st)) @ [APT_TOKEN_SP] @ str_bytes (st_reason st)) tail"
      using field_at_next [OF at [unfolded RtspResponse rtsp_line_text.simps] rtsp_version_token(1,2)] rtsp_version_token(4) by metis
    have "rtsp_start_line_parse sl0 str = rtsp_status_line_parse f s"
      using f(1,3) rtsp_version_token(5) by (simp add: rtsp_start_line_parse_def str_mem_def)
    then show ?thesis
      using status_line_parse_text [OF assms(1) [unfolded RtspResponse] f(2,3,4)] unfolding RtspResponse by simp
  qed (use assms(1) in simp)
qed

lemma rtsp_line_no_eol:
  assumes "rtsp_line_ok sl" shows "no_eol (rtsp_line_text sl)"
proof (cases sl)
  case (RtspRequest rl)
  then have "no_eol (rtsp_method_name (rl_method_id rl))"
    using method_name_cases [of "rl_method_id rl"] assms by (auto simp: no_eol_def)
  then show ?thesis using RtspRequest assms rtsp_version_token(3) by simp
qed (use assms rtsp_version_token(3) dec_token(3) in auto)

lemma rtsp_line_read_text:
  assumes "rtsp_line_ok sl" and "ts_rest t = rtsp_line_text sl @ CRLF @ r"
  shows "\<exists>line t1 sl'. apt_text_line_read t = (True, line, t1) \<and> ts_rest t1 = r \<and>
    rtsp_start_line_parse sl0 line = (True, sl') \<and> rtsp_line_received sl sl'"
proof -
  let ?l = "rtsp_line_text sl"
  have line: "apt_text_line_read t = (True, ts_str t (ts_pos t) (length ?l), t\<lparr>ts_pos := ts_pos t + (length ?l + length CRLF)\<rparr>)"
    by (rule apt_text_line_read_eq [OF assms(2) rtsp_line_no_eol [OF assms(1)] line_end_CRLF])
  have "ts_rest t = (?l @ CRLF) @ r" using assms(2) by simp
  from ts_rest_advance [OF this] have rest: "ts_rest (t\<lparr>ts_pos := ts_pos t + (length ?l + length CRLF)\<rparr>) = r"
    by (simp only: length_append)
  have "drop (ts_pos t) (ts_mem t) = ts_rest t @ drop (ts_end t - ts_pos t) (drop (ts_pos t) (ts_mem t))"
    unfolding ts_rest_def by (rule append_take_drop_id [symmetric])
  then obtain tail where "str_buf (ts_str t (ts_pos t) (length ?l)) = Some (?l @ tail)"
    using assms(2) by (auto simp: ts_str_def)
  from rtsp_line_parse_text [OF assms(1) this, of sl0] line rest show ?thesis by (auto simp: ts_str_def)
qed

section \<open>Properties\<close>

text \<open>The start lines of RTSP survive the wire: the generated line of a request is read and
  parsed back to the same method, version and URL, apart from one slash at its end, and the name
  of the resource is what follows the last slash of the URL. Of a response the version and the
  status code come back, and the first word of the reason phrase, which is where its parser
  stops.\<close>

theorem rtsp_start_line_roundtrip:
  assumes "apr_ok A" and "rtsp_line_ok sl" and "ts_room s (length (rtsp_line_text sl) + 2)" and "ts_buf s = ts_pos s"
  shows "\<exists>sl1 s1 line t sl'. rtsp_start_line_generate A sl s = Inr (True, sl1, s1) \<and>
    apt_text_line_read (ts_message s1) = (True, line, t) \<and> ts_rest t = [] \<and>
    rtsp_start_line_parse sl0 line = (True, sl') \<and> rtsp_line_received sl sl'"
proof -
  obtain sl1 s1 where s1: "rtsp_start_line_generate A sl s = Inr (True, sl1, s1)" "ts_wrote s (rtsp_line_text sl @ CRLF) s1"
    using rtsp_line_generate_text [OF assms(1-3)] by blast
  have mem: "ts_mem s1 = take (ts_pos s) (ts_mem s) @ (rtsp_line_text sl @ CRLF) @ drop (ts_pos s1) (ts_mem s1)"
    by (rule ts_wrote_mem(1) [OF s1(2)])
  have "drop (ts_pos s) (ts_mem s1) = (rtsp_line_text sl @ CRLF) @ drop (ts_pos s1) (ts_mem s1)"
    by (subst mem) (use ts_wrote_mem(2) [OF s1(2)] in simp)
  then have "ts_rest (ts_message s1) = rtsp_line_text sl @ CRLF @ []"
    using ts_wroteD(1,5) [OF s1(2)] assms(4) by (simp add: ts_rest_def ts_message_def)
  from rtsp_line_read_text [OF assms(2) this, of sl0] s1(1) show ?thesis by blast
qed

definition sample_setup :: rtsp_start_line where
  "sample_setup = RtspRequest (rtsp_request_line_init
     \<lparr>rl_method_id := RTSP_METHOD_SETUP, rl_url := c_literal ''rtsp://a/media/speechsynthesizer/'' 33\<rparr>)"

lemma sample_setup_line: "rtsp_line_ok sample_setup" "length (rtsp_line_text sample_setup) = 48"
  "url_stem (str_bytes (c_literal ''rtsp://a/media/speechsynthesizer/'' 33)) = ''rtsp://a/media'' @ CHR ''/'' # ''speechsynthesizer''"
  by code_simp+

lemma rtsp_line_received_name:
  "rtsp_line_received (RtspRequest rl) (RtspRequest rl') \<Longrightarrow> url_stem (str_bytes (rl_url rl)) = xs @ CHR ''/'' # name \<Longrightarrow>
   CHR ''/'' \<notin> set name \<Longrightarrow> \<exists>z. rl_resource_name rl' = Some (name @ NUL # z)"
  unfolding rtsp_line_received.simps by blast

theorem rtsp_start_line_roundtrip_witness:
  "\<exists>sl1 s1 line t rl z. rtsp_start_line_generate apr_ref sample_setup out_stream = Inr (True, sl1, s1) \<and>
    apt_text_line_read (ts_message s1) = (True, line, t) \<and>
    rtsp_start_line_parse RtspUnknown line = (True, RtspRequest rl) \<and> rl_method_id rl = RTSP_METHOD_SETUP \<and>
    rl_resource_name rl = Some (''speechsynthesizer'' @ NUL # z)"
proof -
  have r: "ts_room out_stream (length (rtsp_line_text sample_setup) + 2)"
    by (rule out_stream_room) (simp add: sample_setup_line(2))
  obtain sl1 s1 line t sl' where p: "rtsp_start_line_generate apr_ref sample_setup out_stream = Inr (True, sl1, s1)"
    "apt_text_line_read (ts_message s1) = (True, line, t)" "rtsp_start_line_parse RtspUnknown line = (True, sl')"
    "rtsp_line_received sample_setup sl'"
    using rtsp_start_line_roundtrip [OF apr_ref_ok sample_setup_line(1) r out_stream_start, of RtspUnknown] by blast
  obtain rl where rl: "sl' = RtspRequest rl" using p(4) by (cases sl') (simp_all add: sample_setup_def)
  then have "rl_method_id rl = RTSP_METHOD_SETUP" using p(4) by (simp add: sample_setup_def)
  moreover have "\<exists>z. rl_resource_name rl = Some (''speechsynthesizer'' @ NUL # z)"
    using p(4) unfolding rl sample_setup_def by (rule rtsp_line_received_name) (use sample_setup_line(3) in simp_all)
  ultimately show ?thesis using p(1-3) rl by blast
qed

end
