(* ===== verification/RtspHeader.thy ===== *)
theory RtspHeader
  imports RtspStartLine
begin

text \<open>
  The header of RTSP messages (\<open>rtsp_header.c\<close>, \<open>rtsp_header.h\<close>): six fields with typed values, the
  transport among them, next to a header section.

  Identifiers of enumerations are numbers, as the string tables return them. Ports have 16 bits.
  Structures are initialized from what the block holds before: \<open>rtsp_transport_init\<close> leaves the
  delivery as it is.
\<close>

abbreviation RTSP_TRANSPORT_RTP :: nat where "RTSP_TRANSPORT_RTP \<equiv> 0"
abbreviation RTSP_TRANSPORT_COUNT :: nat where "RTSP_TRANSPORT_COUNT \<equiv> 1"
abbreviation RTSP_PROFILE_AVP :: nat where "RTSP_PROFILE_AVP \<equiv> 0"
abbreviation RTSP_PROFILE_COUNT :: nat where "RTSP_PROFILE_COUNT \<equiv> 2"
abbreviation RTSP_PROFILE_NONE :: nat where "RTSP_PROFILE_NONE \<equiv> RTSP_PROFILE_COUNT"
abbreviation RTSP_LOWER_TRANSPORT_UDP :: nat where "RTSP_LOWER_TRANSPORT_UDP \<equiv> 0"
abbreviation RTSP_LOWER_TRANSPORT_COUNT :: nat where "RTSP_LOWER_TRANSPORT_COUNT \<equiv> 2"
abbreviation RTSP_LOWER_TRANSPORT_NONE :: nat where "RTSP_LOWER_TRANSPORT_NONE \<equiv> RTSP_LOWER_TRANSPORT_COUNT"
abbreviation RTSP_TRANSPORT_ATTRIB_CLIENT_PORT :: nat where "RTSP_TRANSPORT_ATTRIB_CLIENT_PORT \<equiv> 0"
abbreviation RTSP_TRANSPORT_ATTRIB_SERVER_PORT :: nat where "RTSP_TRANSPORT_ATTRIB_SERVER_PORT \<equiv> 1"
abbreviation RTSP_TRANSPORT_ATTRIB_SOURCE :: nat where "RTSP_TRANSPORT_ATTRIB_SOURCE \<equiv> 2"
abbreviation RTSP_TRANSPORT_ATTRIB_DESTINATION :: nat where "RTSP_TRANSPORT_ATTRIB_DESTINATION \<equiv> 3"
abbreviation RTSP_TRANSPORT_ATTRIB_UNICAST :: nat where "RTSP_TRANSPORT_ATTRIB_UNICAST \<equiv> 4"
abbreviation RTSP_TRANSPORT_ATTRIB_MULTICAST :: nat where "RTSP_TRANSPORT_ATTRIB_MULTICAST \<equiv> 5"
abbreviation RTSP_TRANSPORT_ATTRIB_MODE :: nat where "RTSP_TRANSPORT_ATTRIB_MODE \<equiv> 6"
abbreviation RTSP_TRANSPORT_ATTRIB_COUNT :: nat where "RTSP_TRANSPORT_ATTRIB_COUNT \<equiv> 7"
abbreviation RTSP_TRANSPORT_ATTRIB_NONE :: nat where "RTSP_TRANSPORT_ATTRIB_NONE \<equiv> RTSP_TRANSPORT_ATTRIB_COUNT"
abbreviation RTSP_DELIVERY_UNICAST :: nat where "RTSP_DELIVERY_UNICAST \<equiv> 0"
abbreviation RTSP_DELIVERY_MULTICAST :: nat where "RTSP_DELIVERY_MULTICAST \<equiv> 1"
abbreviation RTSP_DELIVERY_NONE :: nat where "RTSP_DELIVERY_NONE \<equiv> 2"
abbreviation RTSP_HEADER_FIELD_CSEQ :: nat where "RTSP_HEADER_FIELD_CSEQ \<equiv> 0"
abbreviation RTSP_HEADER_FIELD_TRANSPORT :: nat where "RTSP_HEADER_FIELD_TRANSPORT \<equiv> 1"
abbreviation RTSP_HEADER_FIELD_SESSION_ID :: nat where "RTSP_HEADER_FIELD_SESSION_ID \<equiv> 2"
abbreviation RTSP_HEADER_FIELD_RTP_INFO :: nat where "RTSP_HEADER_FIELD_RTP_INFO \<equiv> 3"
abbreviation RTSP_HEADER_FIELD_CONTENT_TYPE :: nat where "RTSP_HEADER_FIELD_CONTENT_TYPE \<equiv> 4"
abbreviation RTSP_HEADER_FIELD_CONTENT_LENGTH :: nat where "RTSP_HEADER_FIELD_CONTENT_LENGTH \<equiv> 5"
abbreviation RTSP_HEADER_FIELD_COUNT :: nat where "RTSP_HEADER_FIELD_COUNT \<equiv> 6"
abbreviation RTSP_CONTENT_TYPE_COUNT :: nat where "RTSP_CONTENT_TYPE_COUNT \<equiv> 2"
abbreviation RTSP_CONTENT_TYPE_NONE :: nat where "RTSP_CONTENT_TYPE_NONE \<equiv> RTSP_CONTENT_TYPE_COUNT"

record rtsp_port_range =
  pr_min :: "16 word"
  pr_max :: "16 word"

record rtsp_transport =
  tr_protocol :: nat
  tr_profile :: nat
  tr_lower_protocol :: nat
  tr_delivery :: nat
  tr_client_port_range :: rtsp_port_range
  tr_server_port_range :: rtsp_port_range
  tr_source :: apt_str
  tr_destination :: apt_str
  tr_mode :: apt_str

record rtsp_header =
  rh_cseq :: "64 word"
  rh_transport :: rtsp_transport
  rh_session_id :: apt_str
  rh_rtp_info :: apt_str
  rh_content_type :: nat
  rh_content_length :: "64 word"
  rh_section :: header_section

abbreviation rtsp_port_range_init :: rtsp_port_range where
  "rtsp_port_range_init \<equiv> \<lparr>pr_min = 0, pr_max = 0\<rparr>"

definition rtsp_port_range_is_valid :: "rtsp_port_range \<Rightarrow> bool" where
  "rtsp_port_range_is_valid ports = (\<not> (pr_min ports = 0 \<and> pr_max ports = 0))"

definition rtsp_transport_init :: "rtsp_transport \<Rightarrow> rtsp_transport" where
  "rtsp_transport_init tr =
     tr\<lparr>tr_protocol := RTSP_TRANSPORT_RTP, tr_profile := RTSP_PROFILE_NONE,
        tr_lower_protocol := RTSP_LOWER_TRANSPORT_NONE, tr_client_port_range := rtsp_port_range_init,
        tr_server_port_range := rtsp_port_range_init, tr_source := apt_string_reset,
        tr_destination := apt_string_reset, tr_mode := apt_string_reset\<rparr>"

definition rtsp_header_init :: "rtsp_header \<Rightarrow> rtsp_header" where
  "rtsp_header_init h =
     \<lparr>rh_cseq = 0, rh_transport = rtsp_transport_init (rh_transport h), rh_session_id = apt_string_reset,
      rh_rtp_info = apt_string_reset, rh_content_type = RTSP_CONTENT_TYPE_NONE, rh_content_length = 0,
      rh_section = snd (apt_header_section_array_alloc (apt_header_section_init (rh_section h))
                         RTSP_HEADER_FIELD_COUNT)\<rparr>"

section \<open>Tables\<close>

definition rtsp_header_string_table :: "apt_str_table_item list" where
  "rtsp_header_string_table =
     [table_item ''CSeq'' 4 1, table_item ''Transport'' 9 0, table_item ''Session'' 7 0,
      table_item ''RTP-Info'' 8 0, table_item ''Content-Type'' 12 8, table_item ''Content-Length'' 14 8]"

definition rtsp_content_type_string_table :: "apt_str_table_item list" where
  "rtsp_content_type_string_table =
     [table_item ''application/sdp'' 15 12, table_item ''application/mrcp'' 16 12]"

definition rtsp_transport_string_table :: "apt_str_table_item list" where
  "rtsp_transport_string_table = [table_item ''RTP'' 3 0]"

definition rtsp_lower_transport_string_table :: "apt_str_table_item list" where
  "rtsp_lower_transport_string_table = [table_item ''UDP'' 3 0, table_item ''TCP'' 3 0]"

definition rtsp_profile_string_table :: "apt_str_table_item list" where
  "rtsp_profile_string_table = [table_item ''AVP'' 3 0, table_item ''SAVP'' 4 0]"

definition rtsp_transport_attrib_string_table :: "apt_str_table_item list" where
  "rtsp_transport_attrib_string_table =
     [table_item ''client_port'' 11 0, table_item ''server_port'' 11 2, table_item ''source'' 6 2,
      table_item ''destination'' 11 0, table_item ''unicast'' 7 0, table_item ''multicast'' 9 1,
      table_item ''mode'' 4 2]"

section \<open>The transport\<close>

definition rtsp_port_range_parse :: "rtsp_port_range \<Rightarrow> apt_text_stream \<Rightarrow> bool \<times> rtsp_port_range" where
  "rtsp_port_range_parse ports s =
     (case apt_text_field_read s (CHR ''-'') True of (ok, value, s) \<Rightarrow>
      if \<not> ok then (False, ports)
      else let ports = ports\<lparr>pr_min := ucast (apt_size_value_parse value)\<rparr>
      in case apt_text_field_read s (CHR '';'') True of (ok, value, s) \<Rightarrow>
      if ok then (True, ports\<lparr>pr_max := ucast (apt_size_value_parse value)\<rparr>) else (True, ports))"

definition rtsp_port_range_generate ::
  "apr \<Rightarrow> nat \<Rightarrow> rtsp_port_range \<Rightarrow> apt_text_stream \<Rightarrow> fault + bool \<times> apt_text_stream" where
  "rtsp_port_range_generate A attrib ports s =
     (case apt_string_table_str_get rtsp_transport_attrib_string_table RTSP_TRANSPORT_ATTRIB_COUNT attrib of
        None \<Rightarrow> Inr (False, s)
      | Some str \<Rightarrow>
          sbind (apt_text_string_insert s str) (\<lambda>(_, s).
          sbind (apt_text_char_insert s (CHR ''='')) (\<lambda>(_, s).
          sbind (apt_text_size_value_insert A s (ucast (pr_min ports))) (\<lambda>(_, s).
          if pr_max ports > pr_min ports
          then sbind (apt_text_char_insert s (CHR ''-'')) (\<lambda>(_, s).
               sbind (apt_text_size_value_insert A s (ucast (pr_max ports))) (\<lambda>(_, s). Inr (True, s)))
          else Inr (True, s)))))"

definition rtsp_transport_attrib_value_parse :: "apt_str \<Rightarrow> apt_text_stream \<Rightarrow> bool \<times> apt_str" where
  "rtsp_transport_attrib_value_parse value s =
     (case apt_text_field_read s (CHR '';'') True of (ok, field, s) \<Rightarrow>
      if \<not> ok then (False, value) else (True, apt_string_copy field))"

text \<open>The ports of the server are stored where those of the client are.\<close>

definition rtsp_transport_attrib_parse :: "rtsp_transport \<Rightarrow> apt_str \<Rightarrow> bool \<times> rtsp_transport" where
  "rtsp_transport_attrib_parse tr field =
     (case apt_text_field_read (stream_of_str field) (CHR ''='') True of (ok, name, s) \<Rightarrow>
      if \<not> ok then (False, tr)
      else let attrib = apt_string_table_id_find rtsp_transport_attrib_string_table RTSP_TRANSPORT_ATTRIB_COUNT name
      in (True,
          if attrib = RTSP_TRANSPORT_ATTRIB_CLIENT_PORT
          then tr\<lparr>tr_client_port_range := snd (rtsp_port_range_parse (tr_client_port_range tr) s)\<rparr>
          else if attrib = RTSP_TRANSPORT_ATTRIB_SERVER_PORT
          then tr\<lparr>tr_client_port_range := snd (rtsp_port_range_parse (tr_client_port_range tr) s)\<rparr>
          else if attrib = RTSP_TRANSPORT_ATTRIB_SOURCE
          then tr\<lparr>tr_source := snd (rtsp_transport_attrib_value_parse (tr_source tr) s)\<rparr>
          else if attrib = RTSP_TRANSPORT_ATTRIB_DESTINATION
          then tr\<lparr>tr_destination := snd (rtsp_transport_attrib_value_parse (tr_destination tr) s)\<rparr>
          else if attrib = RTSP_TRANSPORT_ATTRIB_UNICAST then tr\<lparr>tr_delivery := RTSP_DELIVERY_UNICAST\<rparr>
          else if attrib = RTSP_TRANSPORT_ATTRIB_MULTICAST then tr\<lparr>tr_delivery := RTSP_DELIVERY_MULTICAST\<rparr>
          else if attrib = RTSP_TRANSPORT_ATTRIB_MODE
          then tr\<lparr>tr_mode := snd (rtsp_transport_attrib_value_parse (tr_mode tr) s)\<rparr>
          else tr))"

definition rtsp_transport_protocol_parse :: "rtsp_transport \<Rightarrow> apt_str \<Rightarrow> bool \<times> rtsp_transport" where
  "rtsp_transport_protocol_parse tr value =
     (let tr = tr\<lparr>tr_protocol := RTSP_TRANSPORT_RTP, tr_profile := RTSP_PROFILE_AVP,
                  tr_lower_protocol := RTSP_LOWER_TRANSPORT_UDP\<rparr>
      in case apt_text_field_read (stream_of_str value) (CHR ''/'') True of (ok, field, s) \<Rightarrow>
      if \<not> ok then (False, tr)
      else let tr = tr\<lparr>tr_protocol := apt_string_table_id_find rtsp_transport_string_table RTSP_TRANSPORT_COUNT field\<rparr>
      in if tr_protocol tr \<ge> RTSP_TRANSPORT_COUNT then (False, tr)
      else case apt_text_field_read s (CHR ''/'') True of (ok, field, s) \<Rightarrow>
      if \<not> ok then (False, tr)
      else let tr = tr\<lparr>tr_profile := apt_string_table_id_find rtsp_profile_string_table RTSP_PROFILE_COUNT field\<rparr>
      in if tr_profile tr \<ge> RTSP_PROFILE_COUNT then (False, tr)
      else case apt_text_field_read s (CHR ''/'') True of (ok, field, s) \<Rightarrow>
      if ok
      then let tr = tr\<lparr>tr_lower_protocol :=
                         apt_string_table_id_find rtsp_lower_transport_string_table RTSP_LOWER_TRANSPORT_COUNT field\<rparr>
           in (\<not> tr_lower_protocol tr \<ge> RTSP_LOWER_TRANSPORT_COUNT, tr)
      else (True, tr))"

function transport_attrib_loop :: "rtsp_transport \<Rightarrow> apt_text_stream \<Rightarrow> rtsp_transport" where
  "transport_attrib_loop tr s =
     (case apt_text_field_read s (CHR '';'') True of (ok, field, s') \<Rightarrow>
        if ok then transport_attrib_loop (snd (rtsp_transport_attrib_parse tr field)) s' else tr)"
  by pat_completeness auto
termination
  by (relation "measure (\<lambda>(tr, s). ts_end s - ts_pos s)") (auto dest!: field_read_advance [OF sym])

declare transport_attrib_loop.simps [simp del]

definition rtsp_transport_parse :: "rtsp_transport \<Rightarrow> apt_str \<Rightarrow> bool \<times> rtsp_transport" where
  "rtsp_transport_parse tr value =
     (case apt_text_field_read (stream_of_str value) (CHR '';'') True of (ok, field, s) \<Rightarrow>
      if \<not> ok then (False, tr)
      else case rtsp_transport_protocol_parse tr field of (ok, tr) \<Rightarrow>
      if \<not> ok then (False, tr) else (True, transport_attrib_loop tr s))"

text \<open>The steps of \<open>rtsp_transport_generate\<close>: one attribute behind a semicolon. The results of the
  functions that insert text are not looked at.\<close>

definition transport_ports_generate ::
  "apr \<Rightarrow> nat \<Rightarrow> rtsp_port_range \<Rightarrow> apt_text_stream \<Rightarrow> fault + bool \<times> apt_text_stream" where
  "transport_ports_generate A attrib ports s =
     (if rtsp_port_range_is_valid ports
      then sbind (apt_text_char_insert s (CHR '';'')) (\<lambda>(_, s). rtsp_port_range_generate A attrib ports s)
      else Inr (True, s))"

definition transport_attribs_generate ::
  "apr \<Rightarrow> rtsp_transport \<Rightarrow> apt_text_stream \<Rightarrow> fault + bool \<times> apt_text_stream" where
  "transport_attribs_generate A tr s =
     sbind (transport_ports_generate A RTSP_TRANSPORT_ATTRIB_CLIENT_PORT (tr_client_port_range tr) s) (\<lambda>(_, s).
     sbind (transport_ports_generate A RTSP_TRANSPORT_ATTRIB_SERVER_PORT (tr_server_port_range tr) s) (\<lambda>(_, s).
     if str_length (tr_mode tr) \<noteq> 0
     then case apt_string_table_str_get rtsp_transport_attrib_string_table RTSP_TRANSPORT_ATTRIB_COUNT
                 RTSP_TRANSPORT_ATTRIB_MODE of
            None \<Rightarrow> Inr (True, s)
          | Some str \<Rightarrow>
              sbind (apt_text_char_insert s (CHR '';'')) (\<lambda>(_, s).
              sbind (apt_text_string_insert s str) (\<lambda>(_, s).
              sbind (apt_text_char_insert s (CHR ''='')) (\<lambda>(_, s).
              sbind (apt_text_string_insert s (tr_mode tr)) (\<lambda>(_, s). Inr (True, s)))))
     else Inr (True, s)))"

text \<open>What the buffer on the stack holds at first is not defined, as that of a fresh block.\<close>

definition rtsp_transport_generate :: "apr \<Rightarrow> rtsp_transport \<Rightarrow> apt_str \<Rightarrow> fault + bool \<times> apt_str" where
  "rtsp_transport_generate A tr value =
     (case (apt_string_table_str_get rtsp_transport_string_table RTSP_TRANSPORT_COUNT (tr_protocol tr),
            apt_string_table_str_get rtsp_profile_string_table RTSP_PROFILE_COUNT (tr_profile tr)) of
        (Some protocol, Some profile) \<Rightarrow>
          sbind (apt_text_string_insert (apt_text_stream_init (apr_palloc A 256) 256) protocol) (\<lambda>(_, s).
          sbind (apt_text_char_insert s (CHR ''/'')) (\<lambda>(_, s).
          sbind (apt_text_string_insert s profile) (\<lambda>(_, s).
          sbind (if tr_delivery tr \<noteq> RTSP_DELIVERY_NONE
                 then let attrib = (if tr_delivery tr = RTSP_DELIVERY_UNICAST then RTSP_TRANSPORT_ATTRIB_UNICAST
                                    else if tr_delivery tr = RTSP_DELIVERY_MULTICAST
                                    then RTSP_TRANSPORT_ATTRIB_MULTICAST
                                    else RTSP_TRANSPORT_ATTRIB_NONE)
                      in case apt_string_table_str_get rtsp_transport_attrib_string_table
                                RTSP_TRANSPORT_ATTRIB_COUNT attrib of
                           None \<Rightarrow> Inr (False, s)
                         | Some delivery \<Rightarrow>
                             sbind (apt_text_char_insert s (CHR '';'')) (\<lambda>(_, s).
                             sbind (apt_text_string_insert s delivery) (\<lambda>(_, s). Inr (True, s)))
                 else Inr (True, s)) (\<lambda>(ok, s).
          if \<not> ok then Inr (False, value)
          else sbind (transport_attribs_generate A tr s) (\<lambda>(_, s).
            let n = ts_pos s - ts_buf s
            in Inr (True, \<lparr>str_buf = Some (take n (drop (ts_buf s) (ts_mem s)) @ [NUL]), str_length = n\<rparr>))))))
      | _ \<Rightarrow> Inr (False, value))"

section \<open>Header fields\<close>

text \<open>\<open>strchr\<close> reads the copy of the value up to its NUL.\<close>

definition rtsp_session_id_parse :: "apt_str \<Rightarrow> apt_str \<Rightarrow> fault + bool \<times> apt_str" where
  "rtsp_session_id_parse session_id value =
     (if str_buf value = None then Inr (False, session_id)
      else let session_id = apt_string_copy value
           in case str_buf session_id of None \<Rightarrow> Inl NullDeref
              | Some p \<Rightarrow>
                  let n = length (takeWhile (\<lambda>c. c \<noteq> CHR '';'' \<and> c \<noteq> NUL) p)
                  in if n \<ge> length p then Inl OutOfBounds
                     else if p ! n = CHR '';'' then Inr (True, \<lparr>str_buf = Some (p[n := NUL]), str_length = n\<rparr>)
                     else Inr (True, session_id))"

definition rtsp_header_field_value_parse ::
  "rtsp_header \<Rightarrow> nat \<Rightarrow> apt_str \<Rightarrow> fault + bool \<times> rtsp_header" where
  "rtsp_header_field_value_parse h i value =
     (if i = RTSP_HEADER_FIELD_CSEQ then Inr (True, h\<lparr>rh_cseq := apt_size_value_parse value\<rparr>)
      else if i = RTSP_HEADER_FIELD_TRANSPORT
      then case rtsp_transport_parse (rh_transport h) value of (ok, tr) \<Rightarrow> Inr (ok, h\<lparr>rh_transport := tr\<rparr>)
      else if i = RTSP_HEADER_FIELD_SESSION_ID
      then sbind (rtsp_session_id_parse (rh_session_id h) value) (\<lambda>(ok, sid). Inr (ok, h\<lparr>rh_session_id := sid\<rparr>))
      else if i = RTSP_HEADER_FIELD_RTP_INFO then Inr (True, h\<lparr>rh_rtp_info := value\<rparr>)
      else if i = RTSP_HEADER_FIELD_CONTENT_TYPE
      then Inr (True, h\<lparr>rh_content_type :=
                          apt_string_table_id_find rtsp_content_type_string_table RTSP_CONTENT_TYPE_COUNT value\<rparr>)
      else if i = RTSP_HEADER_FIELD_CONTENT_LENGTH
      then Inr (True, h\<lparr>rh_content_length := apt_size_value_parse value\<rparr>)
      else Inr (False, h))"

definition rtsp_header_field_value_generate ::
  "apr \<Rightarrow> rtsp_header \<Rightarrow> nat \<Rightarrow> apt_str \<Rightarrow> fault + bool \<times> apt_str" where
  "rtsp_header_field_value_generate A h i value =
     (if i = RTSP_HEADER_FIELD_CSEQ then Inr (True, apt_size_value_generate A (rh_cseq h))
      else if i = RTSP_HEADER_FIELD_TRANSPORT
      then sbind (rtsp_transport_generate A (rh_transport h) value) (\<lambda>(_, value). Inr (True, value))
      else if i = RTSP_HEADER_FIELD_SESSION_ID then Inr (True, rh_session_id h)
      else if i = RTSP_HEADER_FIELD_RTP_INFO then Inr (True, rh_rtp_info h)
      else if i = RTSP_HEADER_FIELD_CONTENT_TYPE
      then Inr (True, case apt_string_table_str_get rtsp_content_type_string_table RTSP_CONTENT_TYPE_COUNT
                             (rh_content_type h) of Some name \<Rightarrow> name | None \<Rightarrow> value)
      else if i = RTSP_HEADER_FIELD_CONTENT_LENGTH then Inr (True, apt_size_value_generate A (rh_content_length h))
      else Inr (True, value))"

text \<open>Looking up the identifier of the field at an address and reading its value.\<close>

definition rtsp_field_interpret :: "rtsp_header \<Rightarrow> nat \<Rightarrow> fault + rtsp_header" where
  "rtsp_field_interpret h a =
     (let f = hs_field (rh_section h) a;
          i = apt_string_table_id_find rtsp_header_string_table RTSP_HEADER_FIELD_COUNT (hf_name f);
          h = h\<lparr>rh_section := hs_update (rh_section h) a (f\<lparr>hf_id := i\<rparr>)\<rparr>
      in if \<not> apt_string_is_empty (hf_value f)
         then sbind (rtsp_header_field_value_parse h i (hf_value f)) (\<lambda>(_, h). Inr h)
         else Inr h)"

definition rtsp_header_field_add :: "rtsp_header \<Rightarrow> nat \<Rightarrow> fault + bool \<times> rtsp_header" where
  "rtsp_header_field_add h a =
     sbind (rtsp_field_interpret h a) (\<lambda>h.
       case apt_header_section_field_add (rh_section h) a of (ok, sec) \<Rightarrow> Inr (ok, h\<lparr>rh_section := sec\<rparr>))"

fun rtsp_fields_parse_loop :: "nat list \<Rightarrow> rtsp_header \<Rightarrow> fault + rtsp_header" where
  "rtsp_fields_parse_loop [] h = Inr h"
| "rtsp_fields_parse_loop (a # ring) h =
     sbind (rtsp_field_interpret h a) (\<lambda>h.
       rtsp_fields_parse_loop ring (h\<lparr>rh_section := snd (apt_header_section_field_set (rh_section h) a)\<rparr>))"

definition rtsp_header_fields_parse :: "rtsp_header \<Rightarrow> fault + bool \<times> rtsp_header" where
  "rtsp_header_fields_parse h =
     sbind (rtsp_fields_parse_loop (hs_ring (rh_section h)) h) (\<lambda>h. Inr (True, h))"

definition rtsp_header_property_add :: "apr \<Rightarrow> rtsp_header \<Rightarrow> nat \<Rightarrow> fault + bool \<times> rtsp_header" where
  "rtsp_header_property_add A h i =
     (case apt_header_section_field_get (rh_section h) i of
        Some a \<Rightarrow>
          let f = hs_field (rh_section h) a
          in sbind (rtsp_header_field_value_generate A h i (hf_value f)) (\<lambda>(ok, value).
               Inr (ok, h\<lparr>rh_section := hs_update (rh_section h) a (f\<lparr>hf_value := value\<rparr>)\<rparr>))
      | None \<Rightarrow>
          let f = apt_header_field_alloc
          in sbind (rtsp_header_field_value_generate A h i (hf_value f)) (\<lambda>(ok, value).
               if \<not> ok then Inr (False, h)
               else case apt_string_table_str_get rtsp_header_string_table RTSP_HEADER_FIELD_COUNT i of
                      None \<Rightarrow> Inr (False, h)
                    | Some name \<Rightarrow>
                        (case hs_store (rh_section h) \<lparr>hf_name = name, hf_value = value, hf_id = i\<rparr> of (a, sec) \<Rightarrow>
                         case apt_header_section_field_insert sec a of (ok, sec) \<Rightarrow>
                           Inr (ok, h\<lparr>rh_section := sec\<rparr>))))"

definition rtsp_header_property_remove :: "rtsp_header \<Rightarrow> nat \<Rightarrow> bool \<times> rtsp_header" where
  "rtsp_header_property_remove h i =
     (case apt_header_section_field_get (rh_section h) i of
        Some a \<Rightarrow>
          (case apt_header_section_field_remove (rh_section h) a of (ok, sec) \<Rightarrow> (ok, h\<lparr>rh_section := sec\<rparr>))
      | None \<Rightarrow> (False, h))"

definition rtsp_header_property_check :: "rtsp_header \<Rightarrow> nat \<Rightarrow> bool" where
  "rtsp_header_property_check h i = apt_header_section_field_check (rh_section h) i"

section \<open>The transport as text\<close>

interpretation rtsp_transports: string_table rtsp_transport_string_table RTSP_TRANSPORT_COUNT
  by unfold_locales
    (simp_all add: rtsp_transport_string_table_def table_item_def item_ok_def item_fold_def str_wf_def str_bytes_def)

interpretation rtsp_profiles: string_table rtsp_profile_string_table RTSP_PROFILE_COUNT
  by unfold_locales
    (simp_all add: rtsp_profile_string_table_def table_item_def item_ok_def item_fold_def str_wf_def str_bytes_def tolower_def)

interpretation rtsp_attribs: string_table rtsp_transport_attrib_string_table RTSP_TRANSPORT_ATTRIB_COUNT
  by unfold_locales
    (simp_all add: rtsp_transport_attrib_string_table_def table_item_def item_ok_def item_fold_def str_wf_def str_bytes_def tolower_def)

definition attrib_name :: "nat \<Rightarrow> char list" where
  "attrib_name i = str_bytes (item_value (rtsp_transport_attrib_string_table ! i))"

lemma attrib_name_simps:
  "attrib_name RTSP_TRANSPORT_ATTRIB_CLIENT_PORT = ''client_port''" "attrib_name RTSP_TRANSPORT_ATTRIB_SERVER_PORT = ''server_port''"
  "attrib_name RTSP_TRANSPORT_ATTRIB_UNICAST = ''unicast''" "attrib_name RTSP_TRANSPORT_ATTRIB_MULTICAST = ''multicast''"
  "attrib_name RTSP_TRANSPORT_ATTRIB_MODE = ''mode''"
  by code_simp+

definition ports_text :: "rtsp_port_range \<Rightarrow> char list" where
  "ports_text ports = dec (unat (pr_min ports)) @ (if pr_max ports > pr_min ports then ''-'' @ dec (unat (pr_max ports)) else [])"

text \<open>
  The attributes that are written for a transport, each with what the parser makes of it. It takes
  the ports of the server for those of the client.
\<close>

definition transport_attribs :: "rtsp_transport \<Rightarrow> (char list \<times> (rtsp_transport \<Rightarrow> rtsp_transport)) list" where
  "transport_attribs tr =
     (if tr_delivery tr = RTSP_DELIVERY_UNICAST then [(''unicast'', tr_delivery_update (\<lambda>_. RTSP_DELIVERY_UNICAST))]
      else if tr_delivery tr = RTSP_DELIVERY_MULTICAST then [(''multicast'', tr_delivery_update (\<lambda>_. RTSP_DELIVERY_MULTICAST))]
      else []) @
     (if rtsp_port_range_is_valid (tr_client_port_range tr)
      then [(''client_port='' @ ports_text (tr_client_port_range tr), tr_client_port_range_update (\<lambda>_. tr_client_port_range tr))]
      else []) @
     (if rtsp_port_range_is_valid (tr_server_port_range tr)
      then [(''server_port='' @ ports_text (tr_server_port_range tr), tr_client_port_range_update (\<lambda>_. tr_server_port_range tr))]
      else []) @
     (if str_bytes (tr_mode tr) \<noteq> []
      then [(''mode='' @ str_bytes (tr_mode tr),
             tr_mode_update (\<lambda>_. \<lparr>str_buf = Some (str_bytes (tr_mode tr) @ [NUL]), str_length = str_length (tr_mode tr)\<rparr>))]
      else [])"

definition profile_text :: "rtsp_transport \<Rightarrow> char list" where
  "profile_text tr = str_bytes (item_value (rtsp_profile_string_table ! tr_profile tr))"

definition transport_text :: "rtsp_transport \<Rightarrow> char list" where
  "transport_text tr = ''RTP/'' @ profile_text tr @ concat (map (\<lambda>(t, _). CHR '';'' # t) (transport_attribs tr))"

text \<open>
  Transports that can be sent: ranges of ports that are not set or have a smallest and a greater
  port, and a mode that fits into the buffer and does not hold the separator.
\<close>

definition ports_ok :: "rtsp_port_range \<Rightarrow> bool" where
  "ports_ok ports \<longleftrightarrow> (rtsp_port_range_is_valid ports \<longrightarrow> pr_min ports < pr_max ports)"

definition transport_ok :: "rtsp_transport \<Rightarrow> bool" where
  "transport_ok tr \<longleftrightarrow> tr_protocol tr = RTSP_TRANSPORT_RTP \<and> tr_profile tr < RTSP_PROFILE_COUNT \<and>
     tr_delivery tr \<le> RTSP_DELIVERY_NONE \<and> ports_ok (tr_client_port_range tr) \<and> ports_ok (tr_server_port_range tr) \<and>
     str_wf (tr_mode tr) \<and> CHR '';'' \<notin> set (str_bytes (tr_mode tr)) \<and>
     (str_bytes (tr_mode tr) \<noteq> [] \<longrightarrow> hd (str_bytes (tr_mode tr)) \<noteq> APT_TOKEN_SP) \<and> length (transport_text tr) < 256"

lemma profile_text_cases: "tr_profile tr < RTSP_PROFILE_COUNT \<Longrightarrow> profile_text tr \<in> {''AVP'', ''SAVP''}"
  by (cases "tr_profile tr"; cases "tr_profile tr - 1") (simp_all add: profile_text_def rtsp_profile_string_table_def table_item_def str_bytes_def)

section \<open>Generating the transport\<close>

lemma str_get_attrib:
  "i < RTSP_TRANSPORT_ATTRIB_COUNT \<Longrightarrow> apt_string_table_str_get rtsp_transport_attrib_string_table RTSP_TRANSPORT_ATTRIB_COUNT i =
     Some (item_value (rtsp_transport_attrib_string_table ! i))"
  by (simp add: apt_string_table_str_get_def)

lemma attrib_wf: "i < RTSP_TRANSPORT_ATTRIB_COUNT \<Longrightarrow> str_wf (item_value (rtsp_transport_attrib_string_table ! i))"
  using rtsp_attribs.item_okD by (simp add: item_ok_def)

lemma gen_ok_if: "(b \<Longrightarrow> gen_ok g t) \<Longrightarrow> (\<not> b \<Longrightarrow> gen_ok h u) \<Longrightarrow> gen_ok (\<lambda>s. if b then g s else h s) (if b then t else u)"
  by simp

lemma unat_port: "unat (ucast (p :: 16 word) :: 64 word) = unat p"
  using unsigned_less [of p, where 'a = nat] by (simp add: unsigned_ucast_eq take_bit_nat_eq_self)

lemma gen_ok_ports:
  assumes "apr_ok A" and "i < RTSP_TRANSPORT_ATTRIB_COUNT"
  shows "gen_ok (rtsp_port_range_generate A i ports) (attrib_name i @ ''='' @ ports_text ports)"
proof -
  have "gen_ok (rtsp_port_range_generate A i ports)
      (attrib_name i @ ''='' @ dec (unat (ucast (pr_min ports) :: 64 word)) @
       (if pr_max ports > pr_min ports then ''-'' @ dec (unat (ucast (pr_max ports) :: 64 word)) @ [] else []))"
    unfolding rtsp_port_range_generate_def [abs_def] str_get_attrib [OF assms(2)] option.case attrib_name_def
    by (intro gen_intros gen_ok_if attrib_wf assms)
  then show ?thesis by (simp add: ports_text_def unat_port cong: if_cong)
qed

definition attribs_text :: "rtsp_transport \<Rightarrow> char list" where
  "attribs_text tr =
     (if rtsp_port_range_is_valid (tr_client_port_range tr) then '';'' @ ''client_port'' @ ''='' @ ports_text (tr_client_port_range tr) else []) @
     (if rtsp_port_range_is_valid (tr_server_port_range tr) then '';'' @ ''server_port'' @ ''='' @ ports_text (tr_server_port_range tr) else []) @
     (if str_length (tr_mode tr) \<noteq> 0 then '';'' @ ''mode'' @ ''='' @ str_bytes (tr_mode tr) @ [] else [])"

lemma gen_ok_attribs:
  assumes "apr_ok A" and "str_wf (tr_mode tr)"
  shows "gen_ok (transport_attribs_generate A tr)
    (attribs_text tr)"
proof -
  have p: "gen_ok (transport_ports_generate A i ports)
      (if rtsp_port_range_is_valid ports then '';'' @ attrib_name i @ ''='' @ ports_text ports else [])"
    if "i < RTSP_TRANSPORT_ATTRIB_COUNT" for i ports
    unfolding transport_ports_generate_def [abs_def] using that
    by (intro gen_ok_if gen_ok_ports gen_intros assms)
  have mode: "apt_string_table_str_get rtsp_transport_attrib_string_table RTSP_TRANSPORT_ATTRIB_COUNT RTSP_TRANSPORT_ATTRIB_MODE =
      Some (item_value (rtsp_transport_attrib_string_table ! RTSP_TRANSPORT_ATTRIB_MODE))"
    by (rule str_get_attrib) simp
  have m: "gen_ok (\<lambda>s. if str_length (tr_mode tr) \<noteq> 0
      then sbind (apt_text_char_insert s (CHR '';'')) (\<lambda>(_, s).
           sbind (apt_text_string_insert s (item_value (rtsp_transport_attrib_string_table ! RTSP_TRANSPORT_ATTRIB_MODE))) (\<lambda>(_, s).
           sbind (apt_text_char_insert s (CHR ''='')) (\<lambda>(_, s).
           sbind (apt_text_string_insert s (tr_mode tr)) (\<lambda>(_, s). Inr (True, s)))))
      else Inr (True, s))
    (if str_length (tr_mode tr) \<noteq> 0 then '';'' @ attrib_name RTSP_TRANSPORT_ATTRIB_MODE @ ''='' @ str_bytes (tr_mode tr) @ [] else [])"
    unfolding attrib_name_def by (intro gen_ok_if gen_intros attrib_wf assms) simp
  have "gen_ok (transport_attribs_generate A tr)
    ((if rtsp_port_range_is_valid (tr_client_port_range tr) then '';'' @ attrib_name RTSP_TRANSPORT_ATTRIB_CLIENT_PORT @ ''='' @ ports_text (tr_client_port_range tr) else []) @
     (if rtsp_port_range_is_valid (tr_server_port_range tr) then '';'' @ attrib_name RTSP_TRANSPORT_ATTRIB_SERVER_PORT @ ''='' @ ports_text (tr_server_port_range tr) else []) @
     (if str_length (tr_mode tr) \<noteq> 0 then '';'' @ attrib_name RTSP_TRANSPORT_ATTRIB_MODE @ ''='' @ str_bytes (tr_mode tr) @ [] else []))"
    unfolding transport_attribs_generate_def [abs_def] mode option.case
    by (rule gen_ok_seq [OF p gen_ok_seq [OF p m]]) simp_all
  then show ?thesis unfolding attrib_name_simps attribs_text_def .
qed

lemma transport_generate_text:
  assumes "apr_ok A" and "transport_ok tr"
  shows "\<exists>value. rtsp_transport_generate A tr v = Inr (True, value) \<and>
    str_buf value = Some (transport_text tr @ [NUL]) \<and> str_length value = length (transport_text tr)"
proof -
  have ok: "tr_protocol tr = RTSP_TRANSPORT_RTP" "tr_profile tr < RTSP_PROFILE_COUNT" "tr_delivery tr \<le> RTSP_DELIVERY_NONE"
    "str_wf (tr_mode tr)" "length (transport_text tr) < 256"
    using assms(2) by (simp_all add: transport_ok_def)
  let ?protocol = "item_value (rtsp_transport_string_table ! RTSP_TRANSPORT_RTP)"
  let ?profile = "item_value (rtsp_profile_string_table ! tr_profile tr)"
  define delivery where "delivery s = (if tr_delivery tr \<noteq> RTSP_DELIVERY_NONE
      then sbind (apt_text_char_insert s (CHR '';'')) (\<lambda>(_, s).
           sbind (apt_text_string_insert s (item_value (rtsp_transport_attrib_string_table !
             (if tr_delivery tr = RTSP_DELIVERY_UNICAST then RTSP_TRANSPORT_ATTRIB_UNICAST else RTSP_TRANSPORT_ATTRIB_MULTICAST))))
             (\<lambda>(_, s). Inr (True, s)))
      else Inr (True, s))" for s
  define dt where "dt = (if tr_delivery tr \<noteq> RTSP_DELIVERY_NONE then '';'' @ attrib_name
      (if tr_delivery tr = RTSP_DELIVERY_UNICAST then RTSP_TRANSPORT_ATTRIB_UNICAST else RTSP_TRANSPORT_ATTRIB_MULTICAST) @ [] else [])"
  have d: "gen_ok delivery dt"
    unfolding delivery_def [abs_def] dt_def attrib_name_def by (intro gen_ok_if gen_intros attrib_wf) simp
  let ?g = "\<lambda>s. sbind (apt_text_string_insert s ?protocol) (\<lambda>(_, s). sbind (apt_text_char_insert s (CHR ''/'')) (\<lambda>(_, s).
      sbind (apt_text_string_insert s ?profile) (\<lambda>(_, s). sbind (delivery s) (\<lambda>(_, s). transport_attribs_generate A tr s))))"
  have wf: "str_wf ?protocol" "str_wf ?profile"
    using rtsp_transports.item_okD [of 0] rtsp_profiles.item_okD [OF ok(2)] by (simp_all add: item_ok_def)
  have len: "str_length (tr_mode tr) \<noteq> 0 \<longleftrightarrow> str_bytes (tr_mode tr) \<noteq> []" using length_str_bytes [OF ok(4)] by (metis length_0_conv)
  have delivery_cases: "tr_delivery tr = RTSP_DELIVERY_UNICAST \<or> tr_delivery tr = RTSP_DELIVERY_MULTICAST \<or> tr_delivery tr = RTSP_DELIVERY_NONE"
    using ok(3) by linarith
  have "gen_ok ?g (str_bytes ?protocol @ ''/'' @ str_bytes ?profile @ dt @ attribs_text tr)"
    by (intro gen_intros wf d gen_ok_attribs assms(1) ok(4))
  also have "str_bytes ?protocol @ ''/'' @ str_bytes ?profile @ dt @ attribs_text tr = transport_text tr"
    using delivery_cases unfolding len attribs_text_def dt_def transport_text_def transport_attribs_def profile_text_def
    by (elim disjE) (simp_all add: attrib_name_simps rtsp_transport_string_table_def table_item_def str_bytes_def)
  finally have g: "gen_ok ?g (transport_text tr)" .
  have gen: "rtsp_transport_generate A tr v = sbind (?g (apt_text_stream_init (apr_palloc A 256) 256)) (\<lambda>(_, s).
      let n = ts_pos s - ts_buf s
      in Inr (True, \<lparr>str_buf = Some (take n (drop (ts_buf s) (ts_mem s)) @ [NUL]), str_length = n\<rparr>))"
    using delivery_cases ok(1,2)
    by (elim disjE) (auto simp: rtsp_transport_generate_def delivery_def str_get_attrib apt_string_table_str_get_def sbind_def Let_def
        split: sum.splits prod.splits)
  let ?s = "apt_text_stream_init (apr_palloc A 256) 256"
  have s: "ts_room ?s (length (transport_text tr))" "ts_buf ?s = 0" "ts_pos ?s = 0"
    using assms(1) ok(5) by (simp_all add: ts_room_def apt_text_stream_init_def apt_text_stream_reset_def apr_ok_def)
  obtain s' where s': "?g ?s = Inr (True, s')" "ts_wrote ?s (transport_text tr) s'" using gen_okD [OF g s(1)] by blast
  have "ts_buf s' = 0" "ts_pos s' = length (transport_text tr)" "take (ts_pos s') (ts_mem s') = transport_text tr"
    using s'(2) s(2,3) by (auto simp: ts_wrote_def)
  then show ?thesis unfolding gen s'(1) by simp
qed

section \<open>Parsing the transport\<close>

text \<open>The text of an attribute and what it changes, wherever it stands in memory.\<close>

definition attrib_effect :: "char list \<Rightarrow> (rtsp_transport \<Rightarrow> rtsp_transport) \<Rightarrow> bool" where
  "attrib_effect t eff \<longleftrightarrow> t \<noteq> [] \<and> CHR '';'' \<notin> set t \<and> hd t \<noteq> APT_TOKEN_SP \<and>
     (\<forall>tr field z. str_buf field = Some (t @ z) \<longrightarrow> str_length field = length t \<longrightarrow> \<not> isdigit (byte z) \<longrightarrow>
        rtsp_transport_attrib_parse tr field = (True, eff tr))"

lemma attrib_found:
  assumes "str_bytes name = attrib_name i" and "str_wf name" and "i < RTSP_TRANSPORT_ATTRIB_COUNT"
  shows "apt_string_table_id_find rtsp_transport_attrib_string_table RTSP_TRANSPORT_ATTRIB_COUNT name = i"
proof (rule rtsp_attribs.id_find_eq [OF assms(3,2)])
  show "NUL \<notin> set (str_bytes name)" using rtsp_attribs.item_okD [OF assms(3)] assms(1) by (simp add: attrib_name_def item_ok_def)
qed (simp add: assms(1) attrib_name_def item_fold_def)

lemma port_value:
  assumes "str_buf f = Some (dec (unat (p :: 16 word)) @ r)" and "\<not> isdigit (byte r)"
  shows "ucast (apt_size_value_parse f) = p"
proof -
  have "unat p < 2 ^ 63" using unsigned_less [of p, where 'a = nat] by simp
  then have "apt_size_value_parse f = of_nat (unat p)" by (rule size_value_parse_text [OF assms])
  moreover have "ucast (ucast p :: 64 word) = p" by (rule bit_word_eqI) (simp add: bit_ucast_iff)
  ultimately show ?thesis by simp
qed

lemma dec_separators: "CHR ''-'' \<notin> set (dec n)" "CHR '';'' \<notin> set (dec n)" "hd (dec n) \<noteq> APT_TOKEN_SP"
proof -
  show "CHR ''-'' \<notin> set (dec n)" using dec_isdigitD [of "CHR ''-''" n] by (auto simp: isdigit_def)
  show "CHR '';'' \<notin> set (dec n)" using dec_isdigitD [of "CHR '';''" n] by (auto simp: isdigit_def)
  show "hd (dec n) \<noteq> APT_TOKEN_SP" using dec_token(1,2) [of n] by (metis hd_in_set)
qed

lemma ports_parse_text:
  assumes "ts_at s (ports_text ports) z" and "pr_min ports < pr_max ports" and "\<not> isdigit (byte z)"
  shows "snd (rtsp_port_range_parse ports0 s) = ports"
proof -
  note d = dec_separators
  have t: "ports_text ports = dec (unat (pr_min ports)) @ ''-'' @ dec (unat (pr_max ports))"
    using assms(2) by (simp add: ports_text_def)
  obtain f1 s1 where 1: "apt_text_field_read s (CHR ''-'') True = (True, f1, s1)"
    "str_buf f1 = Some (dec (unat (pr_min ports)) @ (''-'' @ dec (unat (pr_max ports))) @ z)"
    "ts_at s1 (dec (unat (pr_max ports))) z"
    using field_at [OF assms(1) [unfolded t] dec_token(1) d(1) _ d(3)] by auto
  obtain f2 s2 where 2: "apt_text_field_read s1 (CHR '';'') True = (True, f2, s2)"
    "str_buf f2 = Some (dec (unat (pr_max ports)) @ z)"
    using field_at [of s1 "dec (unat (pr_max ports))" "[]" z "CHR '';''"] 1(3) dec_token(1) d(2,3) by auto
  have "ucast (apt_size_value_parse f1) = pr_min ports" by (rule port_value [OF 1(2)]) (simp add: byte_def isdigit_def)
  moreover have "ucast (apt_size_value_parse f2) = pr_max ports" by (rule port_value [OF 2(2) assms(3)])
  ultimately show ?thesis using 1(1) 2(1) by (simp add: rtsp_port_range_parse_def)
qed

text \<open>Attributes with a value: the name is read up to the equals sign.\<close>

lemma attrib_value_read:
  assumes "str_buf field = Some ((attrib_name i @ ''='' @ v) @ z)" and "str_length field = length (attrib_name i @ ''='' @ v)"
    and "i < RTSP_TRANSPORT_ATTRIB_COUNT"
  shows "\<exists>name s. apt_text_field_read (stream_of_str field) (CHR ''='') True = (True, name, s) \<and> ts_at s v z \<and>
    apt_string_table_id_find rtsp_transport_attrib_string_table RTSP_TRANSPORT_ATTRIB_COUNT name = i"
proof -
  have "\<forall>i \<in> set [0..<RTSP_TRANSPORT_ATTRIB_COUNT]. attrib_name i \<noteq> [] \<and> CHR ''='' \<notin> set (attrib_name i) \<and> hd (attrib_name i) \<noteq> APT_TOKEN_SP"
    by code_simp
  then have "attrib_name i \<noteq> []" "CHR ''='' \<notin> set (attrib_name i)" "hd (attrib_name i) \<noteq> APT_TOKEN_SP"
    using assms(3) by simp_all
  from field_at [OF ts_at_str [OF assms(1,2)] this(1,2) _ this(3)] attrib_found [OF _ _ assms(3)] show ?thesis by auto
qed

lemma effect_ports:
  assumes "pr_min ports < pr_max ports" and "i = RTSP_TRANSPORT_ATTRIB_CLIENT_PORT \<or> i = RTSP_TRANSPORT_ATTRIB_SERVER_PORT"
  shows "attrib_effect (attrib_name i @ ''='' @ ports_text ports) (tr_client_port_range_update (\<lambda>_. ports))"
  unfolding attrib_effect_def
proof (intro conjI allI impI)
  fix tr :: rtsp_transport and field :: apt_str and z
  assume f: "str_buf field = Some ((attrib_name i @ ''='' @ ports_text ports) @ z)"
    "str_length field = length (attrib_name i @ ''='' @ ports_text ports)" and z: "\<not> isdigit (byte z)"
  have i: "i < RTSP_TRANSPORT_ATTRIB_COUNT" using assms(2) by auto
  show "rtsp_transport_attrib_parse tr field = (True, tr\<lparr>tr_client_port_range := ports\<rparr>)"
    using attrib_value_read [OF f i] ports_parse_text [OF _ assms(1) z] assms(2)
    by (auto simp: rtsp_transport_attrib_parse_def)
qed (use assms dec_separators(2) in \<open>auto simp: attrib_name_simps attrib_name_simps(2) [unfolded One_nat_def] ports_text_def\<close>)

lemma effect_mode:
  assumes "v \<noteq> []" and "CHR '';'' \<notin> set v" and "hd v \<noteq> APT_TOKEN_SP"
  shows "attrib_effect (attrib_name RTSP_TRANSPORT_ATTRIB_MODE @ ''='' @ v)
    (tr_mode_update (\<lambda>_. \<lparr>str_buf = Some (v @ [NUL]), str_length = length v\<rparr>))"
  unfolding attrib_effect_def
proof (intro conjI allI impI)
  fix tr :: rtsp_transport and field :: apt_str and z
  assume f: "str_buf field = Some ((attrib_name RTSP_TRANSPORT_ATTRIB_MODE @ ''='' @ v) @ z)"
    "str_length field = length (attrib_name RTSP_TRANSPORT_ATTRIB_MODE @ ''='' @ v)"
  obtain name s where n: "apt_text_field_read (stream_of_str field) (CHR ''='') True = (True, name, s)" "ts_at s v z"
    "apt_string_table_id_find rtsp_transport_attrib_string_table RTSP_TRANSPORT_ATTRIB_COUNT name = RTSP_TRANSPORT_ATTRIB_MODE"
    using attrib_value_read [OF f] by auto
  obtain g s' where g: "apt_text_field_read s (CHR '';'') True = (True, g, s')" "str_bytes g = v" "str_length g = length v"
    using field_at [of s v "[]" z "CHR '';''"] n(2) assms by auto
  have "apt_string_copy g = \<lparr>str_buf = Some (v @ [NUL]), str_length = length v\<rparr>"
    using g(2,3) assms(1) by (auto simp: apt_string_copy_def apr_pstrmemdup_def str_bytes_def)
  then show "rtsp_transport_attrib_parse tr field = (True, tr\<lparr>tr_mode := \<lparr>str_buf = Some (v @ [NUL]), str_length = length v\<rparr>\<rparr>)"
    using n(1,3) g(1) by (simp add: rtsp_transport_attrib_parse_def rtsp_transport_attrib_value_parse_def)
qed (use assms in \<open>auto simp: attrib_name_simps\<close>)

lemma effect_delivery:
  "attrib_effect ''unicast'' (tr_delivery_update (\<lambda>_. RTSP_DELIVERY_UNICAST))"
  "attrib_effect ''multicast'' (tr_delivery_update (\<lambda>_. RTSP_DELIVERY_MULTICAST))"
proof -
  have "\<exists>name s. apt_text_field_read (stream_of_str field) (CHR ''='') True = (True, name, s) \<and>
      apt_string_table_id_find rtsp_transport_attrib_string_table RTSP_TRANSPORT_ATTRIB_COUNT name = i"
    if "str_buf field = Some (attrib_name i @ z)" "str_length field = length (attrib_name i)"
      "i = RTSP_TRANSPORT_ATTRIB_UNICAST \<or> i = RTSP_TRANSPORT_ATTRIB_MULTICAST" for field i z
    using field_at [of "stream_of_str field" "attrib_name i" "[]" z "CHR ''=''"] ts_at_str [OF that(1,2)] that(3)
      attrib_found [of _ i] by (auto simp: attrib_name_simps)
  from this [of _ RTSP_TRANSPORT_ATTRIB_UNICAST] this [of _ RTSP_TRANSPORT_ATTRIB_MULTICAST]
  show "attrib_effect ''unicast'' (tr_delivery_update (\<lambda>_. RTSP_DELIVERY_UNICAST))"
    "attrib_effect ''multicast'' (tr_delivery_update (\<lambda>_. RTSP_DELIVERY_MULTICAST))"
    by (fastforce simp: attrib_effect_def attrib_name_simps rtsp_transport_attrib_parse_def)+
qed

lemma attrib_loop_text:
  assumes "list_all (\<lambda>(t, e). attrib_effect t e) as"
    and "ts_at s (drop 1 (concat (map (\<lambda>(t, _). CHR '';'' # t) as))) z" and "\<not> isdigit (byte z)"
  shows "transport_attrib_loop tr s = fold snd as tr"
  using assms(1,2)
proof (induction as arbitrary: tr s)
  case Nil
  then show ?case using field_at_none [of s z "CHR '';''"] by (subst transport_attrib_loop.simps) auto
next
  case (Cons a as)
  obtain t e where a: "a = (t, e)" "attrib_effect t e" using Cons.prems(1) by (cases a) auto
  let ?r = "concat (map (\<lambda>(t, _). CHR '';'' # t) as)"
  have r: "?r = [] \<or> hd ?r = CHR '';''" by (cases as) auto
  have at: "ts_at s (t @ ?r) z" using Cons.prems(2) a(1) by simp
  obtain f s' where f: "apt_text_field_read s (CHR '';'') True = (True, f, s')" "str_length f = length t"
    "str_buf f = Some (t @ ?r @ z)" "ts_at s' (drop 1 ?r) z"
    using field_at [OF at _ _ r] a(2) by (auto simp: attrib_effect_def)
  have "\<not> isdigit (byte (?r @ z))" using assms(3) by (cases as) (auto simp: byte_def isdigit_def)
  then have "rtsp_transport_attrib_parse tr f = (True, e tr)" using a(2) f(2,3) unfolding attrib_effect_def by blast
  then show ?case using f(1) Cons.IH [OF _ f(4)] Cons.prems(1) a(1) by (subst transport_attrib_loop.simps) simp
qed

lemma protocol_parse_text:
  assumes "tr_profile tr < RTSP_PROFILE_COUNT" and "str_buf f = Some ((''RTP/'' @ profile_text tr) @ z)"
    and "str_length f = length (''RTP/'' @ profile_text tr)"
  shows "rtsp_transport_protocol_parse tr0 f = (True, tr0\<lparr>tr_protocol := RTSP_TRANSPORT_RTP, tr_profile := tr_profile tr,
    tr_lower_protocol := RTSP_LOWER_TRANSPORT_UDP\<rparr>)"
proof -
  have p: "profile_text tr \<noteq> []" "CHR ''/'' \<notin> set (profile_text tr)" "hd (profile_text tr) \<noteq> APT_TOKEN_SP" "NUL \<notin> set (profile_text tr)"
    using profile_text_cases [OF assms(1)] by auto
  have "ts_at (stream_of_str f) (''RTP'' @ ''/'' @ profile_text tr) z" using ts_at_str [OF assms(2,3)] by simp
  from field_at [OF this, of "CHR ''/''"] obtain f1 s1 where 1: "apt_text_field_read (stream_of_str f) (CHR ''/'') True = (True, f1, s1)"
    "str_bytes f1 = ''RTP''" "str_wf f1" "ts_at s1 (profile_text tr) z" by auto
  obtain f2 s2 where 2: "apt_text_field_read s1 (CHR ''/'') True = (True, f2, s2)"
    "str_bytes f2 = profile_text tr" "str_wf f2" "ts_at s2 [] z"
    using field_at [of s1 "profile_text tr" "[]" z "CHR ''/''"] 1(4) p by auto
  obtain f3 where 3: "apt_text_field_read s2 (CHR ''/'') True = (False, f3, s2)" using field_at_none [OF 2(4)] by blast
  have "item_fold (rtsp_transport_string_table ! 0) = map tolower ''RTP''"
    by (simp add: rtsp_transport_string_table_def table_item_def item_fold_def str_bytes_def)
  then have "apt_string_table_id_find rtsp_transport_string_table RTSP_TRANSPORT_COUNT f1 = 0"
    by (intro rtsp_transports.id_find_eq [OF _ 1(3)]) (simp_all add: 1(2))
  moreover have "apt_string_table_id_find rtsp_profile_string_table RTSP_PROFILE_COUNT f2 = tr_profile tr"
    by (rule rtsp_profiles.id_find_eq [OF assms(1) 2(3)]) (use p(4) in \<open>simp_all add: 2(2) profile_text_def item_fold_def\<close>)
  ultimately show ?thesis using 1(1) 2(1) 3 assms(1) by (simp add: rtsp_transport_protocol_parse_def Let_def)
qed

lemma transport_attribs_effect:
  assumes "transport_ok tr" shows "list_all (\<lambda>(t, e). attrib_effect t e) (transport_attribs tr)"
proof -
  have "attrib_effect (''client_port='' @ ports_text ports) (tr_client_port_range_update (\<lambda>_. ports))"
    "attrib_effect (''server_port='' @ ports_text ports) (tr_client_port_range_update (\<lambda>_. ports))"
    if "pr_min ports < pr_max ports" for ports
    using effect_ports [OF that, of RTSP_TRANSPORT_ATTRIB_CLIENT_PORT] effect_ports [OF that, of RTSP_TRANSPORT_ATTRIB_SERVER_PORT]
    unfolding attrib_name_simps by simp_all
  moreover have "attrib_effect (''mode='' @ str_bytes (tr_mode tr)) (tr_mode_update
      (\<lambda>_. \<lparr>str_buf = Some (str_bytes (tr_mode tr) @ [NUL]), str_length = str_length (tr_mode tr)\<rparr>))"
    if "str_bytes (tr_mode tr) \<noteq> []"
    using effect_mode [OF that] that assms length_str_bytes [of "tr_mode tr"] unfolding attrib_name_simps
    by (simp add: transport_ok_def)
  ultimately show ?thesis using assms effect_delivery by (simp add: transport_attribs_def transport_ok_def ports_ok_def)
qed

lemma transport_parse_text:
  assumes "transport_ok tr" and "str_buf v = Some (transport_text tr @ [NUL])" and "str_length v = length (transport_text tr)"
  shows "rtsp_transport_parse tr0 v = (True, fold snd (transport_attribs tr)
    (tr0\<lparr>tr_protocol := RTSP_TRANSPORT_RTP, tr_profile := tr_profile tr, tr_lower_protocol := RTSP_LOWER_TRANSPORT_UDP\<rparr>))"
proof -
  let ?r = "concat (map (\<lambda>(t, _). CHR '';'' # t) (transport_attribs tr))" and ?p = "''RTP/'' @ profile_text tr"
  have prof: "tr_profile tr < RTSP_PROFILE_COUNT" using assms(1) by (simp add: transport_ok_def)
  have at: "ts_at (stream_of_str v) (?p @ ?r) [NUL]" using ts_at_str [OF assms(2,3)] by (simp add: transport_text_def)
  have "CHR '';'' \<notin> set ?p" using profile_text_cases [OF prof] by auto
  moreover have "?r = [] \<or> hd ?r = CHR '';''" by (cases "transport_attribs tr") auto
  ultimately obtain f s where f: "apt_text_field_read (stream_of_str v) (CHR '';'') True = (True, f, s)"
    "str_length f = length ?p" "str_buf f = Some (?p @ ?r @ [NUL])" "ts_at s (drop 1 ?r) [NUL]"
    using field_at [OF at, of "CHR '';''"] by auto
  show ?thesis
    using f(1) protocol_parse_text [OF prof f(3,2)] attrib_loop_text [OF transport_attribs_effect [OF assms(1)] f(4)]
    by (simp add: rtsp_transport_parse_def byte_def isdigit_def)
qed

section \<open>Properties\<close>

text \<open>C25. The transport of a session survives the wire but for one attribute: the value that is generated for a
  transport within the buffer is parsed to the same protocol, profile, delivery and mode. The ports
  of the client come back only if there are none of the server: those of the server are stored in
  their place, and the range of ports of the server is never set. Whatever the lower protocol
  was, it becomes UDP.\<close>

theorem transport_roundtrip:
  assumes "apr_ok A" and "transport_ok tr"
  shows "\<exists>w tr'. rtsp_transport_generate A tr v = Inr (True, w) \<and> str_bytes w = transport_text tr \<and>
    rtsp_transport_parse tr0 w = (True, tr') \<and> tr_protocol tr' = tr_protocol tr \<and> tr_profile tr' = tr_profile tr \<and>
    tr_lower_protocol tr' = RTSP_LOWER_TRANSPORT_UDP \<and>
    tr_delivery tr' = (if tr_delivery tr = RTSP_DELIVERY_NONE then tr_delivery tr0 else tr_delivery tr) \<and>
    tr_client_port_range tr' =
      (if rtsp_port_range_is_valid (tr_server_port_range tr) then tr_server_port_range tr
       else if rtsp_port_range_is_valid (tr_client_port_range tr) then tr_client_port_range tr
       else tr_client_port_range tr0) \<and>
    tr_server_port_range tr' = tr_server_port_range tr0 \<and>
    str_bytes (tr_mode tr') = str_bytes (if str_bytes (tr_mode tr) = [] then tr_mode tr0 else tr_mode tr)"
proof -
  obtain w where v: "rtsp_transport_generate A tr v = Inr (True, w)"
    "str_buf w = Some (transport_text tr @ [NUL])" "str_length w = length (transport_text tr)"
    using transport_generate_text [OF assms] by blast
  have ok: "tr_protocol tr = RTSP_TRANSPORT_RTP" "tr_delivery tr \<le> RTSP_DELIVERY_NONE" "str_wf (tr_mode tr)"
    using assms(2) by (simp_all add: transport_ok_def)
  have mode: "str_bytes \<lparr>str_buf = Some (str_bytes (tr_mode tr) @ [NUL]), str_length = str_length (tr_mode tr)\<rparr> = str_bytes (tr_mode tr)"
    using length_str_bytes [OF ok(3)] by (simp add: str_bytes_def [of "\<lparr>str_buf = _, str_length = _\<rparr>"] str_mem_def)
  have "str_bytes w = transport_text tr" using v(2,3) by (simp add: str_bytes_def str_mem_def)
  then show ?thesis
    using v(1) transport_parse_text [OF assms(2) v(2,3), of tr0] ok(1,2) mode
    by (auto simp: transport_attribs_def)
qed

definition sample_transport :: rtsp_transport where
  "sample_transport =
     \<lparr>tr_protocol = RTSP_TRANSPORT_RTP, tr_profile = RTSP_PROFILE_AVP, tr_lower_protocol = RTSP_LOWER_TRANSPORT_UDP,
      tr_delivery = RTSP_DELIVERY_UNICAST, tr_client_port_range = \<lparr>pr_min = 40, pr_max = 41\<rparr>,
      tr_server_port_range = \<lparr>pr_min = 50, pr_max = 51\<rparr>, tr_source = apt_string_reset,
      tr_destination = apt_string_reset, tr_mode = c_literal ''play'' 4\<rparr>"

lemma sample_transport_ok: "transport_ok sample_transport"
  "transport_text sample_transport = ''RTP/AVP;unicast;client_port=40-41;server_port=50-51;mode=play''"
  by code_simp+

theorem transport_roundtrip_witness:
  "\<exists>w tr'. rtsp_transport_generate apr_ref sample_transport apt_string_reset = Inr (True, w) \<and>
    str_bytes w = ''RTP/AVP;unicast;client_port=40-41;server_port=50-51;mode=play'' \<and>
    rtsp_transport_parse (sample_transport\<lparr>tr_server_port_range := rtsp_port_range_init\<rparr>) w = (True, tr') \<and>
    tr_client_port_range tr' = \<lparr>pr_min = 50, pr_max = 51\<rparr> \<and> tr_server_port_range tr' = rtsp_port_range_init \<and>
    str_bytes (tr_mode tr') = ''play''"
proof -
  have "rtsp_port_range_is_valid (tr_server_port_range sample_transport)" "str_bytes (tr_mode sample_transport) = ''play''"
    "tr_server_port_range sample_transport = \<lparr>pr_min = 50, pr_max = 51\<rparr>"
    by (simp_all add: sample_transport_def rtsp_port_range_is_valid_def str_bytes_def)
  then show ?thesis
    using transport_roundtrip [OF apr_ref_ok sample_transport_ok(1), of apt_string_reset
        "sample_transport\<lparr>tr_server_port_range := rtsp_port_range_init\<rparr>"]
    unfolding sample_transport_ok(2) by auto
qed

end
