(* ===== verification/RtspMessage.thy ===== *)
theory RtspMessage
  imports AptTextMessage RtspHeader
begin

text \<open>
  RTSP messages (\<open>rtsp_message.c\<close>) and their parser and generator (\<open>rtsp_stream.c\<close>): the second
  protocol on top of the text message parser and generator.

  A message is created with the start line that \<open>rtsp_start_line_init\<close> makes for its type.
\<close>

record rtsp_message =
  rm_start_line :: rtsp_start_line
  rm_header :: rtsp_header
  rm_body :: apt_str

text \<open>Of what the block holds before only the delivery of the transport remains.\<close>

definition rtsp_message_create :: "apr \<Rightarrow> rtsp_start_line \<Rightarrow> rtsp_message" where
  "rtsp_message_create A sl =
     \<lparr>rm_start_line = sl,
      rm_header = rtsp_header_init
        \<lparr>rh_cseq = 0,
         rh_transport =
           \<lparr>tr_protocol = 0, tr_profile = 0, tr_lower_protocol = 0, tr_delivery = apr_uninit A,
            tr_client_port_range = rtsp_port_range_init, tr_server_port_range = rtsp_port_range_init,
            tr_source = apt_string_reset, tr_destination = apt_string_reset, tr_mode = apt_string_reset\<rparr>,
         rh_session_id = apt_string_reset, rh_rtp_info = apt_string_reset, rh_content_type = 0,
         rh_content_length = 0, rh_section = \<lparr>hs_fields = [], hs_ring = [], hs_arr = []\<rparr>\<rparr>,
      rm_body = apt_string_reset\<rparr>"

definition rtsp_request_create :: "apr \<Rightarrow> rtsp_message" where
  "rtsp_request_create A =
     rtsp_message_create A (RtspRequest (rtsp_request_line_init\<lparr>rl_version := RTSP_VERSION_1\<rparr>))"

text \<open>The version is read from the request line of the union.\<close>

definition rtsp_response_create ::
  "apr \<Rightarrow> rtsp_message \<Rightarrow> status_code \<Rightarrow> nat \<Rightarrow> fault + rtsp_message" where
  "rtsp_response_create A request status_code reason =
     (let version = (case rm_start_line request of
            RtspRequest rl \<Rightarrow> rl_version rl
          | _ \<Rightarrow> if apr_uninit A = 1 then RTSP_VERSION_1 else RTSP_VERSION_UNKNOWN);
          st = rtsp_status_line_init\<lparr>st_version := version, st_status_code := status_code\<rparr>;
          st = (case rtsp_reason_phrase_get reason of
                  Some reason_str \<Rightarrow> st\<lparr>st_reason := apt_string_copy reason_str\<rparr> | None \<Rightarrow> st);
          response = rtsp_message_create A (RtspResponse st)
      in sbind (if rtsp_header_property_check (rm_header request) RTSP_HEADER_FIELD_CSEQ
                then sbind (rtsp_header_property_add A ((rm_header response)\<lparr>rh_cseq := rh_cseq (rm_header request)\<rparr>)
                              RTSP_HEADER_FIELD_CSEQ) (\<lambda>(_, h). Inr (response\<lparr>rm_header := h\<rparr>))
                else Inr response) (\<lambda>response.
         Inr (if rtsp_header_property_check (rm_header request) RTSP_HEADER_FIELD_TRANSPORT \<and>
                 str_length (tr_mode (rh_transport (rm_header request))) \<noteq> 0
              then response\<lparr>rm_header := (rm_header response)\<lparr>rh_transport := (rh_transport (rm_header response))
                     \<lparr>tr_mode := apt_string_copy (tr_mode (rh_transport (rm_header request)))\<rparr>\<rparr>\<rparr>
              else response)))"

section \<open>Parser\<close>

text \<open>The object of the parser, \<open>rtsp_parser_t\<close>, holds nothing but the parser itself.\<close>

type_synonym rtsp_parser = "(rtsp_message, unit) apt_message_parser"

definition rtsp_parser_on_start ::
  "apr \<Rightarrow> unit \<Rightarrow> apt_text_stream \<Rightarrow> fault + bool \<times> rtsp_message option \<times> apt_text_stream" where
  "rtsp_parser_on_start A obj s =
     (case apt_text_line_read s of (ok, start_line, s) \<Rightarrow>
        if \<not> ok then Inr (False, None, s)
        else let m = rtsp_message_create A RtspUnknown
             in case rtsp_start_line_parse (rm_start_line m) start_line of (ok, sl) \<Rightarrow>
                  if \<not> ok then Inr (False, None, s) else Inr (True, Some (m\<lparr>rm_start_line := sl\<rparr>), s))"

definition rtsp_parser_on_header_complete :: "unit \<Rightarrow> rtsp_message \<Rightarrow> fault + bool \<times> rtsp_message" where
  "rtsp_parser_on_header_complete obj m =
     sbind (rtsp_header_fields_parse (rm_header m)) (\<lambda>(_, h).
       let m = m\<lparr>rm_header := h\<rparr>
       in Inr (True,
            if rtsp_header_property_check h RTSP_HEADER_FIELD_CONTENT_LENGTH
            then m\<lparr>rm_body := (rm_body m)\<lparr>str_length := unat (rh_content_length h)\<rparr>\<rparr>
            else m))"

definition rtsp_parser_vtable :: "apr \<Rightarrow> (rtsp_message, unit) parser_vtable" where
  "rtsp_parser_vtable A =
     \<lparr>on_start = rtsp_parser_on_start A, on_header_complete = Some rtsp_parser_on_header_complete,
      on_body_complete = None, ctx_header = (\<lambda>m. rh_section (rm_header m)),
      ctx_header_put = (\<lambda>sec m. m\<lparr>rm_header := (rm_header m)\<lparr>rh_section := sec\<rparr>\<rparr>),
      ctx_body = rm_body, ctx_body_put = (\<lambda>b m. m\<lparr>rm_body := b\<rparr>)\<rparr>"

definition rtsp_parser_create :: "apr \<Rightarrow> rtsp_parser" where
  "rtsp_parser_create A = apt_message_parser_create () (rtsp_parser_vtable A)"

definition rtsp_parser_run ::
  "apr \<Rightarrow> rtsp_parser \<Rightarrow> apt_text_stream \<Rightarrow> (rtsp_message, unit) parser_result" where
  "rtsp_parser_run A p s = apt_message_parser_run A p s"

section \<open>Generator\<close>

type_synonym rtsp_generator = "rtsp_message apt_message_generator"

text \<open>Header and body are associated with the context before the start line is generated.\<close>

definition rtsp_generator_on_start ::
  "apr \<Rightarrow> rtsp_message \<Rightarrow> apt_text_stream \<Rightarrow> fault + bool \<times> bool \<times> rtsp_message \<times> apt_text_stream" where
  "rtsp_generator_on_start A m s =
     sbind (rtsp_start_line_generate A (rm_start_line m) s) (\<lambda>(ok, sl, s).
       Inr (ok, True, m\<lparr>rm_start_line := sl\<rparr>, s))"

definition rtsp_generator_vtable :: "apr \<Rightarrow> rtsp_message generator_vtable" where
  "rtsp_generator_vtable A =
     \<lparr>gen_on_start = rtsp_generator_on_start A, gen_on_header_complete = None,
      gen_header = (\<lambda>m. rh_section (rm_header m)), gen_body = rm_body,
      gen_body_put = (\<lambda>b m. m\<lparr>rm_body := b\<rparr>)\<rparr>"

definition rtsp_generator_create :: "apr \<Rightarrow> rtsp_generator" where
  "rtsp_generator_create A = apt_message_generator_create (rtsp_generator_vtable A)"

definition rtsp_generator_run ::
  "rtsp_generator \<Rightarrow> (nat \<times> rtsp_message) option \<Rightarrow> apt_text_stream \<Rightarrow>
   fault + apt_message_status \<times> rtsp_generator \<times> rtsp_message option \<times> apt_text_stream" where
  "rtsp_generator_run g message s = apt_message_generator_run g message s"

section \<open>Received header fields\<close>

lemma session_id_no_fault:
  assumes "str_length v \<noteq> 0"
  shows "\<exists>r. rtsp_session_id_parse sid v = Inr r"
proof -
  let ?p = "apr_pstrmemdup (str_mem v) (str_length v)"
  have "NUL \<in> set ?p" by (simp add: apr_pstrmemdup_def)
  then have "length (takeWhile (\<lambda>c. c \<noteq> CHR '';'' \<and> c \<noteq> NUL) ?p) < length ?p" by (rule takeWhile_stops) simp
  then show ?thesis using assms by (auto simp: rtsp_session_id_parse_def apt_string_copy_def Let_def)
qed

lemma rtsp_value_no_fault:
  assumes "str_length v \<noteq> 0"
  shows "\<exists>ok h'. rtsp_header_field_value_parse h i v = Inr (ok, h')"
  using session_id_no_fault [OF assms, of "rh_session_id h"]
  by (auto simp: rtsp_header_field_value_parse_def split: prod.split)

interpretation rtsp_headers: string_table rtsp_header_string_table RTSP_HEADER_FIELD_COUNT
  by unfold_locales
    (simp_all add: rtsp_header_string_table_def table_item_def item_ok_def item_fold_def str_wf_def str_bytes_def tolower_def)

abbreviation rtsp_field_id :: "header_field \<Rightarrow> nat" where
  "rtsp_field_id f \<equiv> apt_string_table_id_find rtsp_header_string_table RTSP_HEADER_FIELD_COUNT (hf_name f)"

text \<open>What one field of the section contributes to the typed values next to it.\<close>

definition typed_value :: "header_field \<Rightarrow> rtsp_header \<Rightarrow> rtsp_header" where
  "typed_value f h =
     (if apt_string_is_empty (hf_value f) then h
      else case rtsp_header_field_value_parse h (rtsp_field_id f) (hf_value f) of Inr (_, h) \<Rightarrow> h | Inl _ \<Rightarrow> h)"

lemma value_parse_section:
  "rtsp_header_field_value_parse (h\<lparr>rh_section := sec\<rparr>) i v =
     sbind (rtsp_header_field_value_parse h i v) (\<lambda>(ok, h'). Inr (ok, h'\<lparr>rh_section := sec\<rparr>))"
  by (auto simp: rtsp_header_field_value_parse_def sbind_def split: prod.split sum.split)

lemma typed_value_section: "typed_value f (h\<lparr>rh_section := sec\<rparr>) = (typed_value f h)\<lparr>rh_section := sec\<rparr>"
  by (auto simp: typed_value_def value_parse_section sbind_def split: sum.split)

lemma typed_values_section:
  "fold (\<lambda>a. typed_value (f a)) ring (h\<lparr>rh_section := sec\<rparr>) = (fold (\<lambda>a. typed_value (f a)) ring h)\<lparr>rh_section := sec\<rparr>"
  by (induction ring arbitrary: h) (simp_all add: typed_value_section)

lemma typed_value_cong: "hf_name f = hf_name g \<Longrightarrow> hf_value f = hf_value g \<Longrightarrow> typed_value f = typed_value g"
  by (simp add: typed_value_def fun_eq_iff)

lemma field_interpret_typed:
  "rtsp_field_interpret h a =
     Inr ((typed_value (hs_field (rh_section h) a) h)\<lparr>rh_section := hs_update (rh_section h) a
       ((hs_field (rh_section h) a)\<lparr>hf_id := rtsp_field_id (hs_field (rh_section h) a)\<rparr>)\<rparr>)"
proof (cases "apt_string_is_empty (hf_value (hs_field (rh_section h) a))")
  case True
  then show ?thesis by (simp add: rtsp_field_interpret_def typed_value_def Let_def)
next
  case False
  let ?f = "hs_field (rh_section h) a"
  have "str_length (hf_value ?f) \<noteq> 0" using False by (simp add: apt_string_is_empty_def split: if_splits)
  from rtsp_value_no_fault [OF this] obtain ok h' where
    "rtsp_header_field_value_parse h (rtsp_field_id ?f) (hf_value ?f) = Inr (ok, h')" by blast
  with False show ?thesis by (simp add: rtsp_field_interpret_def typed_value_def value_parse_section Let_def)
qed

text \<open>A section in which the identifiers of the fields of a ring are entered.\<close>

definition entered :: "nat list \<Rightarrow> header_section \<Rightarrow> header_section \<Rightarrow> bool" where
  "entered ring h h' \<longleftrightarrow> hs_ring h' = hs_ring h \<and> length (hs_fields h') = length (hs_fields h) \<and>
     length (hs_arr h') = length (hs_arr h) \<and>
     (\<forall>a. hf_name (hs_field h' a) = hf_name (hs_field h a) \<and> hf_value (hs_field h' a) = hf_value (hs_field h a)) \<and>
     (\<forall>i < length (hs_arr h). hs_arr h' ! i \<noteq> None \<longleftrightarrow> hs_arr h ! i \<noteq> None \<or>
        (\<exists>a \<in> set ring. rtsp_field_id (hs_field h a) = i))"

lemma entered_trans: "entered r1 h h1 \<Longrightarrow> entered r2 h1 h2 \<Longrightarrow> entered (r1 @ r2) h h2"
  by (auto simp: entered_def)

lemma entered_step:
  assumes "a < length (hs_fields h)"
  shows "entered [a] h (snd (apt_header_section_field_set
    (hs_update h a ((hs_field h a)\<lparr>hf_id := rtsp_field_id (hs_field h a)\<rparr>)) a))"
  using assms by (auto simp: entered_def apt_header_section_field_set_def hs_field_update hs_update_def [of h] hs_field_def
      nth_list_update Let_def split: if_splits)

lemma fields_loop_typed:
  assumes "\<forall>a \<in> set ring. a < length (hs_fields (rh_section h))"
  shows "\<exists>sec. rtsp_fields_parse_loop ring h =
      Inr ((fold (\<lambda>a. typed_value (hs_field (rh_section h) a)) ring h)\<lparr>rh_section := sec\<rparr>) \<and> entered ring (rh_section h) sec"
  using assms
proof (induction ring arbitrary: h)
  case Nil
  then show ?case by (auto simp: entered_def intro!: exI [of _ "rh_section h"])
next
  case (Cons a ring)
  let ?sec = "rh_section h" and ?f = "hs_field (rh_section h) a"
  define sec1 where "sec1 = snd (apt_header_section_field_set (hs_update ?sec a (?f\<lparr>hf_id := rtsp_field_id ?f\<rparr>)) a)"
  have e: "entered [a] ?sec sec1" unfolding sec1_def by (rule entered_step) (use Cons.prems in simp)
  let ?h1 = "(typed_value ?f h)\<lparr>rh_section := sec1\<rparr>"
  obtain sec2 where s2: "rtsp_fields_parse_loop ring ?h1 =
      Inr ((fold (\<lambda>a. typed_value (hs_field sec1 a)) ring ?h1)\<lparr>rh_section := sec2\<rparr>)" "entered ring sec1 sec2"
    using Cons.IH [of ?h1] Cons.prems e by (auto simp: entered_def)
  have "typed_value (hs_field sec1 b) = typed_value (hs_field ?sec b)" for b
    by (rule typed_value_cong) (use e in \<open>simp_all add: entered_def\<close>)
  then show ?case
    using s2 entered_trans [OF e s2(2)]
    by (auto simp: field_interpret_typed sec1_def [symmetric] typed_values_section)
qed

section \<open>RTSP is a message protocol\<close>

lemma rtsp_fields_no_fault: "\<exists>h'. rtsp_fields_parse_loop ring h = Inr h'"
  by (induction ring arbitrary: h) (simp_all add: field_interpret_typed)

lemma rtsp_header_complete_ok:
  "\<exists>m'. rtsp_parser_on_header_complete obj m = Inr (True, m') \<and> rm_start_line m' = rm_start_line m \<and>
     (str_length (rm_body m) < 2 ^ 64 \<longrightarrow> str_length (rm_body m') < 2 ^ 64)"
proof -
  have u: "unat (w :: 64 word) < 2 ^ 64" for w using unsigned_less [of w, where 'a = nat] by simp
  obtain h where "rtsp_fields_parse_loop (hs_ring (rh_section (rm_header m))) (rm_header m) = Inr h"
    using rtsp_fields_no_fault by blast
  then show ?thesis using u by (simp add: rtsp_parser_on_header_complete_def rtsp_header_fields_parse_def Let_def)
qed

lemma rtsp_line_parse_kind: "rtsp_start_line_parse sl str = (True, sl') \<Longrightarrow> sl' \<noteq> RtspUnknown"
  by (auto simp: rtsp_start_line_parse_def rtsp_status_line_parse_def rtsp_request_line_parse_def Let_def
      split: prod.splits if_splits)

lemma rtsp_on_start_cases:
  "\<exists>ok msg s' b l. rtsp_parser_on_start A obj s = Inr (ok, msg, s') \<and> apt_text_line_read s = (b, l, s') \<and>
     (ok \<longrightarrow> (\<exists>m. msg = Some m \<and> rm_body m = apt_string_reset \<and> rm_start_line m \<noteq> RtspUnknown))"
proof -
  obtain b l s1 where l: "apt_text_line_read s = (b, l, s1)" by (metis prod_cases3)
  obtain c sl where "rtsp_start_line_parse (rm_start_line (rtsp_message_create A RtspUnknown)) l = (c, sl)" by fastforce
  then show ?thesis using l rtsp_line_parse_kind
    by (cases "b \<and> c") (auto simp: rtsp_parser_on_start_def rtsp_message_create_def Let_def)
qed

interpretation rtsp: message_protocol "rtsp_parser_vtable A" rtsp_parser_on_header_complete for A
proof (unfold_locales, goal_cases)
  case (2 m obj ok m')
  then show ?case using rtsp_header_complete_ok [of obj m] by (auto simp: rtsp_parser_vtable_def)
next
  case (3 obj s ok msg s')
  then show ?case using rtsp_on_start_cases [of A obj s] ts_reads_line by (auto simp: rtsp_parser_vtable_def)
next
  case (4 obj s ok msg s')
  then show ?case using rtsp_on_start_cases [of A obj s] line_read_eos by (auto simp: rtsp_parser_vtable_def)
next
  case (5 obj s msg s')
  then show ?case using rtsp_on_start_cases [of A obj s] by (auto simp: rtsp_parser_vtable_def apt_string_reset_def)
qed (simp_all add: rtsp_parser_vtable_def)

text \<open>The messages that are received have the start line of a request or of a response.\<close>

interpretation rtsp_source: message_source "rtsp_parser_vtable A" rtsp_parser_on_header_complete "\<lambda>_. True"
  "\<lambda>m. rm_start_line m \<noteq> RtspUnknown" "\<lambda>m. rm_start_line m \<noteq> RtspUnknown" for A
proof (unfold_locales, goal_cases)
  case (1 obj s)
  then show ?case using rtsp_on_start_cases [of A obj s] by (auto simp: rtsp_parser_vtable_def)
next
  case (3 obj m)
  then show ?case using rtsp_header_complete_ok [of obj m] by auto
qed (simp_all add: rtsp_parser_vtable_def)

section \<open>Messages as text\<close>

interpretation rtsp_gen: generator_protocol "rtsp_generator_vtable A" for A
  by unfold_locales (simp add: rtsp_generator_vtable_def)

definition rtsp_text :: "rtsp_message \<Rightarrow> char list" where
  "rtsp_text m = rtsp_line_text (rm_start_line m) @ CRLF @ fields_text (hs_listing (rh_section (rm_header m))) @ CRLF @
     str_bytes (rm_body m)"

text \<open>
  The value of a number among the fields of a header, given by name and value: one field of the
  name, or none for zero.
\<close>

definition number_field :: "(char list \<times> char list) list \<Rightarrow> char list \<Rightarrow> nat \<Rightarrow> bool" where
  "number_field fs name n \<longleftrightarrow>
     (let vs = map snd (filter (\<lambda>(k, v). map tolower k = name) fs) in vs = [dec n] \<or> vs = [] \<and> n = 0)"

text \<open>
  A message that can be sent: a start line, fields with names and values that fit on a line, and
  a body, whose length the header announces; the number of the request is in the header as well.
\<close>

definition rtsp_sendable :: "rtsp_message \<Rightarrow> bool" where
  "rtsp_sendable m \<longleftrightarrow>
     (let fs = hs_listing (rh_section (rm_header m))
      in rtsp_line_ok (rm_start_line m) \<and> str_wf (rm_body m) \<and> str_length (rm_body m) < 2 ^ 63 \<and>
         list_all field_ok fs \<and> list_all (\<lambda>f. NUL \<notin> set (str_bytes (hf_name f))) fs \<and>
         number_field (map field_view fs) ''content-length'' (str_length (rm_body m)) \<and>
         unat (rh_cseq (rm_header m)) < 2 ^ 63 \<and> number_field (map field_view fs) ''cseq'' (unat (rh_cseq (rm_header m))))"

lemma generator_run_rtsp_text:
  assumes "apr_ok A" and "rtsp_sendable m" and "ts_room s (length (rtsp_text m))"
    and "ts_buf s = ts_pos s" and "ts_end s = ts_buf s + ts_length s"
  shows "\<exists>g m' s'. rtsp_generator_run (rtsp_generator_create A) (Some (ptr, m)) s =
      Inr (APT_MESSAGE_STATUS_COMPLETE, g, Some m', s') \<and> ts_holds s' (rtsp_text m)"
proof -
  let ?sl = "rm_start_line m" and ?sec = "rh_section (rm_header m)" and ?b = "str_length (rm_body m)"
  let ?l = "rtsp_line_text ?sl @ CRLF" and ?f = "fields_text (hs_listing ?sec) @ CRLF"
  have sd: "rtsp_line_ok ?sl" "str_wf (rm_body m)" "list_all field_ok (hs_listing ?sec)"
    using assms(2) by (simp_all add: rtsp_sendable_def Let_def)
  have room: "ts_room s (length ?l + (length ?f + ?b))"
    using assms(3) length_str_bytes [OF sd(2)] by (simp add: rtsp_text_def add.assoc)
  then have "ts_room s (length (rtsp_line_text ?sl) + 2)" by (rule ts_room_mono) simp
  from rtsp_line_generate_text [OF assms(1) sd(1) this] obtain sl1 s1 where
    s1: "rtsp_start_line_generate A ?sl s = Inr (True, sl1, s1)" "ts_wrote s ?l s1" by blast
  have room1: "ts_room s1 (length ?f + ?b)" using room by (simp only: ts_room_wrote [OF s1(2)])
  then have "ts_room s1 (length (fields_text (hs_listing ?sec)) + 2)" by (rule ts_room_mono) simp
  from section_generate_room [OF this sd(3)] obtain s2 where
    s2: "apt_header_section_generate ?sec s1 = Inr (True, s2)" "ts_wrote s1 ?f s2" by blast
  have room2: "ts_room s2 ?b" using room1 by (simp only: ts_room_wrote [OF s2(2)])
  have w: "ts_wrote s (?l @ ?f) s2" by (rule ts_wrote_trans [OF s1(2) s2(2)])
  have "ts_holds s []" using ts_roomD [OF room] assms(4) by (simp add: ts_holds_def)
  from ts_holds_wrote [OF this w] have h: "ts_holds s2 (?l @ ?f)" by simp
  have "stream_room s2 = ts_end s2 - ts_pos s2"
    by (rule stream_room_eq) (use assms(4,5) ts_wroteD [OF w] ts_roomD [OF room2] in \<open>simp_all\<close>)
  then have "?b \<le> stream_room s2" using ts_roomD [OF room2] by linarith
  then have "\<exists>g m' s'. rtsp_generator_run (rtsp_generator_create A) (Some (ptr, m)) s =
      Inr (APT_MESSAGE_STATUS_COMPLETE, g, Some m', s') \<and>
      ts_holds s' ((?l @ ?f) @ str_bytes (gen_body (rtsp_generator_vtable A) (m\<lparr>rm_start_line := sl1\<rparr>)))"
    unfolding rtsp_generator_run_def rtsp_generator_create_def
    by (intro rtsp_gen.run_writes [of A m s "m\<lparr>rm_start_line := sl1\<rparr>" s1 s2 True])
      (use s1(1) s2(1) room2 h sd(2) in \<open>simp_all add: rtsp_generator_vtable_def rtsp_generator_on_start_def\<close>)
  then show ?thesis by (simp add: rtsp_text_def rtsp_generator_vtable_def)
qed

lemma rtsp_on_start_text:
  assumes "rtsp_line_ok sl"
  shows "\<exists>sl' s. rtsp_parser_on_start A obj (text_stream (rtsp_line_text sl @ CRLF @ r)) =
      Inr (True, Some (rtsp_message_create A sl'), s) \<and>
    rtsp_line_received sl sl' \<and> ts_rest s = r \<and> stream_ok s \<and> \<not> ts_is_eos s"
proof -
  let ?t = "text_stream (rtsp_line_text sl @ CRLF @ r)"
  have "ts_rest ?t = rtsp_line_text sl @ CRLF @ r" by simp
  from rtsp_line_read_text [OF assms this] obtain line t sl' where l: "apt_text_line_read ?t = (True, line, t)" "ts_rest t = r"
    "rtsp_start_line_parse RtspUnknown line = (True, sl')" "rtsp_line_received sl sl'" by blast
  have "stream_ok t" by (rule stream_ok_reads [OF stream_ok_text ts_reads_line [OF l(1)]])
  moreover have "\<not> ts_is_eos t" using l(1) by (auto simp: apt_text_line_read_def split: prod.splits if_splits)
  ultimately show ?thesis using l by (auto simp: rtsp_parser_on_start_def rtsp_message_create_def Let_def)
qed

lemma rtsp_field_id_iff:
  assumes "parsed_ok f" and "NUL \<notin> set (str_bytes (hf_name f))" and "i < RTSP_HEADER_FIELD_COUNT"
  shows "rtsp_field_id f = i \<longleftrightarrow> map tolower (fst (field_view f)) = item_fold (rtsp_header_string_table ! i)"
  using rtsp_headers.id_find_eq [OF assms(3) _ assms(2)] rtsp_headers.id_find_fold [OF _ assms(3) _ assms(2)] assms(1)
  by (auto simp: parsed_ok_def field_view_def)

lemma number_read:
  fixes sel :: "rtsp_header \<Rightarrow> 64 word"
  assumes sel: "\<And>f h. sel (typed_value f h) =
      (if rtsp_field_id f = i \<and> \<not> apt_string_is_empty (hf_value f) then apt_size_value_parse (hf_value f) else sel h)"
    and "i < RTSP_HEADER_FIELD_COUNT" and "list_all parsed_ok fs" and "list_all (\<lambda>f. NUL \<notin> set (str_bytes (hf_name f))) fs"
    and "number_field (map field_view fs) (item_fold (rtsp_header_string_table ! i)) n" and "n < 2 ^ 63"
  shows "sel h = 0 \<Longrightarrow> sel (fold typed_value fs h) = of_nat n"
    and "\<forall>f \<in> set fs. rtsp_field_id f \<noteq> i \<Longrightarrow> n = 0"
proof -
  let ?P = "\<lambda>f. rtsp_field_id f = i"
  let ?step = "\<lambda>f v. if ?P f \<and> \<not> apt_string_is_empty (hf_value f) then apt_size_value_parse (hf_value f) else v"
  have "sel (fold typed_value fs h) = fold ?step fs (sel h)" for h
    by (induction fs arbitrary: h) (simp_all add: sel)
  moreover have "fold ?step fs v = fold ?step (filter ?P fs) v" for v
    by (induction fs arbitrary: v) simp_all
  ultimately have steps: "sel (fold typed_value fs h) = fold ?step (filter ?P fs) (sel h)" for h by simp
  have "filter ?P fs = filter ((\<lambda>(k, v). map tolower k = item_fold (rtsp_header_string_table ! i)) \<circ> field_view) fs"
    using rtsp_field_id_iff [OF _ _ assms(2)] assms(3,4)
    by (intro filter_cong) (auto simp: list_all_iff case_prod_unfold)
  then have vs: "map (\<lambda>f. str_bytes (hf_value f)) (filter ?P fs) = [dec n] \<or> filter ?P fs = [] \<and> n = 0"
    using assms(5) by (auto simp: number_field_def filter_map Let_def field_view_def [abs_def] comp_def)
  then show "n = 0" if "\<forall>f \<in> set fs. rtsp_field_id f \<noteq> i"
    using that by (auto simp: filter_empty_conv [THEN iffD2])
  show "sel (fold typed_value fs h) = of_nat n" if z: "sel h = 0"
  proof (cases "filter ?P fs = []")
    case True
    then show ?thesis using vs z steps by auto
  next
    case False
    then obtain f where f: "filter ?P fs = [f]" "str_bytes (hf_value f) = dec n" using vs by auto
    then have "f \<in> set (filter ?P fs)" by simp
    then have "f \<in> set fs" "?P f" by simp_all
    then have m: "str_mem (hf_value f) = dec n @ [NUL]" "str_wf (hf_value f)" using assms(3) f(2) by (auto simp: parsed_ok_def list_all_iff)
    then have b: "str_buf (hf_value f) = Some (dec n @ [NUL])" by (auto simp: str_mem_def split: option.splits)
    have "str_length (hf_value f) \<noteq> 0" using f(2) dec_token(1) [of n] length_str_bytes [OF m(2)] by (metis length_0_conv)
    then show ?thesis
      using size_value_parse_text [OF b _ assms(6)] f(1) \<open>?P f\<close> b steps
      by (simp add: apt_string_is_empty_def byte_def isdigit_def)
  qed
qed

lemma typed_value_numbers:
  "rh_cseq (typed_value f h) = (if rtsp_field_id f = RTSP_HEADER_FIELD_CSEQ \<and> \<not> apt_string_is_empty (hf_value f)
     then apt_size_value_parse (hf_value f) else rh_cseq h)"
  "rh_content_length (typed_value f h) = (if rtsp_field_id f = RTSP_HEADER_FIELD_CONTENT_LENGTH \<and> \<not> apt_string_is_empty (hf_value f)
     then apt_size_value_parse (hf_value f) else rh_content_length h)"
  by (auto simp: typed_value_def rtsp_header_field_value_parse_def sbind_def split: prod.split sum.split)

lemma rtsp_number_names:
  "item_fold (rtsp_header_string_table ! RTSP_HEADER_FIELD_CSEQ) = ''cseq''"
  "item_fold (rtsp_header_string_table ! RTSP_HEADER_FIELD_CONTENT_LENGTH) = ''content-length''"
  by code_simp+

lemma rtsp_header_complete_text:
  assumes "hs_wf sec" and "hs_arr sec = replicate RTSP_HEADER_FIELD_COUNT None" and "list_all parsed_ok (hs_listing sec)"
    and "list_all (\<lambda>f. NUL \<notin> set (str_bytes (hf_name f))) (hs_listing sec)"
    and "number_field (map field_view (hs_listing sec)) ''content-length'' n" and "n < 2 ^ 63"
    and "number_field (map field_view (hs_listing sec)) ''cseq'' c" and "c < 2 ^ 63"
    and "rm_body m = apt_string_reset" and "rh_cseq (rm_header m) = 0" and "rh_content_length (rm_header m) = 0"
  shows "\<exists>m'. rtsp_parser_on_header_complete obj (m\<lparr>rm_header := (rm_header m)\<lparr>rh_section := sec\<rparr>\<rparr>) = Inr (True, m') \<and>
    rm_body m' = apt_string_reset\<lparr>str_length := n\<rparr> \<and> rm_start_line m' = rm_start_line m \<and>
    map field_view (hs_listing (rh_section (rm_header m'))) = map field_view (hs_listing sec) \<and>
    rh_cseq (rm_header m') = of_nat c"
proof -
  let ?h = "(rm_header m)\<lparr>rh_section := sec\<rparr>"
  obtain sec' where loop: "rtsp_fields_parse_loop (hs_ring sec) ?h =
      Inr ((fold (\<lambda>a. typed_value (hs_field sec a)) (hs_ring sec) ?h)\<lparr>rh_section := sec'\<rparr>)" "entered (hs_ring sec) sec sec'"
    using fields_loop_typed [of "hs_ring sec" ?h] assms(1) by (auto simp: hs_wf_def)
  have fold: "fold (\<lambda>a. typed_value (hs_field sec a)) (hs_ring sec) ?h = fold typed_value (hs_listing sec) ?h"
    by (simp add: hs_listing_def fold_map comp_def)
  note len = number_read [OF typed_value_numbers(2) _ assms(3,4) assms(5) [folded rtsp_number_names] assms(6)]
  have l: "rh_content_length (fold typed_value (hs_listing sec) ?h) = of_nat n" by (rule len(1)) (simp_all add: assms(11))
  have c: "rh_cseq (fold typed_value (hs_listing sec) ?h) = of_nat c"
    by (rule number_read(1) [OF typed_value_numbers(1) _ assms(3,4) assms(7) [folded rtsp_number_names] assms(8)])
      (simp_all add: assms(10))
  have view: "map field_view (hs_listing sec') = map field_view (hs_listing sec)"
    using loop(2) by (simp add: entered_def hs_listing_def field_view_def)
  have check: "apt_header_section_field_check sec' RTSP_HEADER_FIELD_CONTENT_LENGTH \<or> n = 0"
    using loop(2) assms(2) len(2) by (auto simp: entered_def apt_header_section_field_check_def hs_listing_def)
  have n: "unat (of_nat n :: 64 word) = n" using assms(6) by (simp add: unat_of_nat)
  have "apt_string_reset\<lparr>str_length := 0\<rparr> = apt_string_reset" by (simp add: apt_string_reset_def)
  then show ?thesis
    using loop(1) l c view check n assms(9)
    by (auto simp: rtsp_parser_on_header_complete_def rtsp_header_fields_parse_def rtsp_header_property_check_def fold Let_def)
qed

lemma message_create_parts:
  "rm_start_line (rtsp_message_create A sl) = sl" "rm_body (rtsp_message_create A sl) = apt_string_reset"
  "rh_cseq (rm_header (rtsp_message_create A sl)) = 0" "rh_content_length (rm_header (rtsp_message_create A sl)) = 0"
  "hs_arr (rh_section (rm_header (rtsp_message_create A sl))) = replicate RTSP_HEADER_FIELD_COUNT None"
  "hs_listing (rh_section (rm_header (rtsp_message_create A sl))) = []"
  "hs_wf (rh_section (rm_header (rtsp_message_create A sl)))"
  by (simp_all add: rtsp_message_create_def rtsp_header_init_def apt_header_section_init_def
      apt_header_section_array_alloc_def hs_listing_def hs_wf_def)

lemma parser_run_rtsp_text:
  assumes "apr_ok A" and "rtsp_sendable m" and "unfolded (str_bytes (rm_body m) @ r)"
  shows "\<exists>m' p' s'. rtsp_parser_run A (rtsp_parser_create A) (text_stream (rtsp_text m @ r)) =
      Inr (APT_MESSAGE_STATUS_COMPLETE, Some m', p', s') \<and>
    rtsp_line_received (rm_start_line m) (rm_start_line m') \<and>
    map field_view (hs_listing (rh_section (rm_header m'))) = map field_view (hs_listing (rh_section (rm_header m))) \<and>
    rh_cseq (rm_header m') = rh_cseq (rm_header m) \<and> str_bytes (rm_body m') = str_bytes (rm_body m) \<and> ts_rest s' = r"
proof -
  let ?fs = "hs_listing (rh_section (rm_header m))" and ?b = "str_bytes (rm_body m)" and ?c = "unat (rh_cseq (rm_header m))"
  define Q where "Q m' \<longleftrightarrow> rtsp_line_received (rm_start_line m) (rm_start_line m') \<and>
    map field_view (hs_listing (rh_section (rm_header m'))) = map field_view ?fs \<and>
    rh_cseq (rm_header m') = rh_cseq (rm_header m)" for m' :: rtsp_message
  have sd: "rtsp_line_ok (rm_start_line m)" "str_wf (rm_body m)" "length ?b < 2 ^ 63" "list_all field_ok ?fs"
    "list_all (\<lambda>k. NUL \<notin> set (fst k)) (map field_view ?fs)" "number_field (map field_view ?fs) ''content-length'' (length ?b)"
    "?c < 2 ^ 63" "number_field (map field_view ?fs) ''cseq'' ?c"
    using assms(2) length_str_bytes [of "rm_body m"] by (simp_all add: rtsp_sendable_def Let_def list.pred_map comp_def field_view_def)
  let ?p = "rtsp_parser_create A" and ?r = "fields_text ?fs @ CRLF @ ?b @ r"
  obtain sl s where o: "rtsp_parser_on_start A (mp_obj ?p) (text_stream (rtsp_line_text (rm_start_line m) @ CRLF @ ?r)) =
      Inr (True, Some (rtsp_message_create A sl), s)" "rtsp_line_received (rm_start_line m) sl" "ts_rest s = ?r"
      "stream_ok s" "\<not> ts_is_eos s"
    using rtsp_on_start_text [OF sd(1)] by blast
  let ?m = "rtsp_message_create A sl"
  have complete: "\<exists>m'. rtsp_parser_on_header_complete obj (?m\<lparr>rm_header := (rm_header ?m)\<lparr>rh_section := sec\<rparr>\<rparr>) = Inr (True, m') \<and>
      rm_body m' = apt_string_reset\<lparr>str_length := length ?b\<rparr> \<and> Q m'"
    if sec: "hs_wf sec" "hs_arr sec = replicate RTSP_HEADER_FIELD_COUNT None" "list_all parsed_ok (hs_listing sec)"
      "map field_view (hs_listing sec) = map field_view ?fs" for sec obj
  proof -
    have "list_all (\<lambda>f. NUL \<notin> set (str_bytes (hf_name f))) (hs_listing sec)"
      using sd(5) unfolding sec(4) [symmetric] by (simp add: list.pred_map comp_def field_view_def)
    then show ?thesis
      using rtsp_header_complete_text [OF sec(1-3), of "length ?b" ?c ?m obj] sd(3,6-8) sec(4) o(2)
      by (auto simp: message_create_parts Q_def)
  qed
  have put: "Q (fold (\<lambda>b m. m\<lparr>rm_body := b\<rparr>) cs m') = Q m'" for cs m'
    by (induction cs arbitrary: m') (simp_all add: Q_def)
  have run: "rtsp_parser_run A ?p (text_stream (rtsp_text m @ r)) = parser_header_stage A
      (?p\<lparr>mp_skip_lf := False, mp_message := Some ?m, mp_stage := APT_MESSAGE_STAGE_HEADER\<rparr>) ?m s"
    unfolding rtsp_parser_run_def
    by (rule rtsp.run_reads [of _ A])
      (use o(1,3) in \<open>simp_all add: rtsp_parser_create_def apt_message_parser_create_def rtsp_parser_vtable_def rtsp_text_def\<close>)
  let ?p1 = "?p\<lparr>mp_skip_lf := False, mp_message := Some ?m, mp_stage := APT_MESSAGE_STAGE_HEADER\<rparr>"
  have "\<exists>m1 m' cs p' s'. parser_header_stage A ?p1 ?m s = Inr (APT_MESSAGE_STATUS_COMPLETE, Some m', p', s') \<and>
      Q m1 \<and> m' = fold (ctx_body_put (rtsp_parser_vtable A)) cs m1 \<and>
      str_bytes (ctx_body (rtsp_parser_vtable A) m') = ?b \<and> ts_rest s' = r"
  proof (rule rtsp.header_stage_reads [OF _ assms(1) _ o(4,5,3) sd(4) assms(3) sd(3)], goal_cases)
    case (6 h)
    then show ?case using complete by (simp add: rtsp_parser_vtable_def message_create_parts)
  qed (simp_all add: rtsp_parser_create_def apt_message_parser_create_def rtsp_parser_vtable_def message_create_parts
      UNKNOWN_HEADER_FIELD_ID_def)
  then obtain m1 m' cs p' s' where h: "parser_header_stage A ?p1 ?m s = Inr (APT_MESSAGE_STATUS_COMPLETE, Some m', p', s')"
    "Q m1" "m' = fold (\<lambda>b m. m\<lparr>rm_body := b\<rparr>) cs m1" "str_bytes (rm_body m') = ?b" "ts_rest s' = r"
    by (auto simp: rtsp_parser_vtable_def)
  have "Q m'" using h(2) unfolding h(3) put .
  then show ?thesis unfolding run using h(1,4,5) by (auto simp: Q_def)
qed

section \<open>Properties\<close>

text \<open>C12. RTSP messages and the wire: a message that is generated into a buffer with enough room is
  complete, and the parser, given the bytes and whatever follows them, completes a message with
  the same header fields in the same order, the same number of the request as a typed value, and the
  same body, whose end it finds by the announced length. Of the start line, the method, the version
  and the status code are the same; the URL has lost one slash at its end, if it had one, and of the reason phrase only the
  first word is left (\<open>rtsp_line_received\<close>). When the URL does not end in a slash, or the reason phrase
  is one word, the whole line says the same. The bytes that follow are left for the next message. What
  follows the header must not look like the continuation of a field (\<open>unfolded\<close>).\<close>

theorem rtsp_message_roundtrip:
  assumes "apr_ok A" and "rtsp_sendable m" and "ts_room s (length (rtsp_text m))"
    and "ts_buf s = ts_pos s" and "ts_end s = ts_buf s + ts_length s" and "unfolded (str_bytes (rm_body m) @ r)"
  shows "\<exists>g m1 s1 m' p' s2.
    rtsp_generator_run (rtsp_generator_create A) (Some (ptr, m)) s = Inr (APT_MESSAGE_STATUS_COMPLETE, g, Some m1, s1) \<and>
    rtsp_parser_run A (rtsp_parser_create A) (text_stream (ts_text s1 @ r)) =
      Inr (APT_MESSAGE_STATUS_COMPLETE, Some m', p', s2) \<and>
    rtsp_line_received (rm_start_line m) (rm_start_line m') \<and>
    (rtsp_line_kept (rm_start_line m) \<longrightarrow> rtsp_line_view (rm_start_line m') = rtsp_line_view (rm_start_line m)) \<and>
    map field_view (hs_listing (rh_section (rm_header m'))) = map field_view (hs_listing (rh_section (rm_header m))) \<and>
    rh_cseq (rm_header m') = rh_cseq (rm_header m) \<and> str_bytes (rm_body m') = str_bytes (rm_body m) \<and> ts_rest s2 = r"
proof -
  obtain g m1 s1 where g: "rtsp_generator_run (rtsp_generator_create A) (Some (ptr, m)) s =
      Inr (APT_MESSAGE_STATUS_COMPLETE, g, Some m1, s1)" "ts_holds s1 (rtsp_text m)"
    using generator_run_rtsp_text [OF assms(1-5)] by blast
  show ?thesis
    using parser_run_rtsp_text [OF assms(1,2,6)] g(1) rtsp_line_kept_view unfolding ts_holds_text [OF g(2), symmetric] by blast
qed

text \<open>The answer to a request with the number 7, and a body.\<close>

definition sample_answer :: rtsp_message where
  "sample_answer = (rtsp_message_create apr_ref (RtspResponse (rtsp_status_line_init\<lparr>st_reason := c_literal ''OK'' 2\<rparr>)))
     \<lparr>rm_header := (rm_header (rtsp_message_create apr_ref RtspUnknown))
        \<lparr>rh_cseq := 7, rh_content_length := 3,
         rh_section := \<lparr>hs_fields =
             [\<lparr>hf_name = c_literal ''CSeq'' 4, hf_value = c_literal ''7'' 1, hf_id = 0\<rparr>,
              \<lparr>hf_name = c_literal ''Content-Length'' 14, hf_value = c_literal ''3'' 1, hf_id = 5\<rparr>],
            hs_ring = [0, 1], hs_arr = [Some 0, None, None, None, None, Some 1]\<rparr>\<rparr>,
      rm_body := c_literal ''v=0'' 3\<rparr>"

lemma sample_answer_parts:
  "rm_start_line sample_answer = RtspResponse (rtsp_status_line_init\<lparr>st_reason := c_literal ''OK'' 2\<rparr>)"
  "hs_listing (rh_section (rm_header sample_answer)) =
     [\<lparr>hf_name = c_literal ''CSeq'' 4, hf_value = c_literal ''7'' 1, hf_id = 0\<rparr>,
      \<lparr>hf_name = c_literal ''Content-Length'' 14, hf_value = c_literal ''3'' 1, hf_id = 5\<rparr>]"
  "rm_body sample_answer = c_literal ''v=0'' 3" "rh_cseq (rm_header sample_answer) = 7"
  by (simp_all add: sample_answer_def rtsp_message_create_def hs_listing_def hs_field_def)

lemma sample_answer_text: "length (rtsp_text sample_answer) < 256"
  "unfolded (str_bytes (rm_body sample_answer) @ '' rest'')" "str_bytes (rm_body sample_answer) = ''v=0''"
  unfolding rtsp_text_def sample_answer_parts by code_simp+

lemma sample_answer_sendable: "rtsp_sendable sample_answer"
proof -
  let ?fs = "hs_listing (rh_section (rm_header sample_answer))"
  have "rtsp_line_ok (rm_start_line sample_answer)" "str_wf (rm_body sample_answer)" "str_length (rm_body sample_answer) = 3"
    "list_all field_ok ?fs" "list_all (\<lambda>f. NUL \<notin> set (str_bytes (hf_name f))) ?fs"
    "number_field (map field_view ?fs) ''content-length'' 3" "number_field (map field_view ?fs) ''cseq'' 7"
    unfolding sample_answer_parts by code_simp+
  then show ?thesis by (simp add: rtsp_sendable_def sample_answer_parts(4))
qed

theorem rtsp_message_roundtrip_witness:
  "\<exists>g m1 s1 m' p' s2.
    rtsp_generator_run (rtsp_generator_create apr_ref) (Some (0, sample_answer)) out_stream =
      Inr (APT_MESSAGE_STATUS_COMPLETE, g, Some m1, s1) \<and>
    rtsp_parser_run apr_ref (rtsp_parser_create apr_ref) (text_stream (ts_text s1 @ '' rest'')) =
      Inr (APT_MESSAGE_STATUS_COMPLETE, Some m', p', s2) \<and>
    rtsp_line_view (rm_start_line m') = rtsp_line_view (rm_start_line sample_answer) \<and>
    rh_cseq (rm_header m') = 7 \<and> str_bytes (rm_body m') = ''v=0'' \<and> ts_rest s2 = '' rest''"
proof -
  have "ts_end out_stream = ts_buf out_stream + ts_length out_stream"
    by (simp add: out_stream_def apt_text_stream_init_def apt_text_stream_reset_def)
  moreover have "rtsp_line_kept (rm_start_line sample_answer)" unfolding sample_answer_parts by code_simp
  moreover note rtsp_message_roundtrip [OF apr_ref_ok sample_answer_sendable out_stream_room [OF sample_answer_text(1)]
      out_stream_start _ sample_answer_text(2), of 0]
  ultimately show ?thesis unfolding sample_answer_text(3) sample_answer_parts(4) by blast
qed

text \<open>The reason phrases of the program, and the response to a request as the program makes it.\<close>

interpretation rtsp_reasons: string_table rtsp_reason_string_table RTSP_REASON_PHRASE_COUNT
  by unfold_locales
    (simp_all add: rtsp_reason_string_table_def table_item_def item_ok_def item_fold_def str_wf_def str_bytes_def tolower_def)

definition reason_text :: "nat \<Rightarrow> char list" where
  "reason_text reason = str_bytes (item_value (rtsp_reason_string_table ! reason))"

lemma reason_phrase:
  assumes "reason < RTSP_REASON_PHRASE_COUNT"
  shows "\<exists>str. rtsp_reason_phrase_get reason = Some str \<and> str_bytes str = reason_text reason \<and> str_wf str"
    and "reason_text reason \<noteq> [] \<and> hd (reason_text reason) \<noteq> APT_TOKEN_SP \<and> no_eol (reason_text reason)"
proof -
  show "\<exists>str. rtsp_reason_phrase_get reason = Some str \<and> str_bytes str = reason_text reason \<and> str_wf str"
    using rtsp_reasons.item_okD [OF assms] assms
    by (simp add: rtsp_reason_phrase_get_def apt_string_table_str_get_def reason_text_def item_ok_def)
  have "\<forall>i \<in> set [0..<RTSP_REASON_PHRASE_COUNT]. reason_text i \<noteq> [] \<and> hd (reason_text i) \<noteq> APT_TOKEN_SP \<and> no_eol (reason_text i)"
    by code_simp
  then show "reason_text reason \<noteq> [] \<and> hd (reason_text reason) \<noteq> APT_TOKEN_SP \<and> no_eol (reason_text reason)"
    using assms by simp
qed

lemma number_field_single: "map tolower k = name \<Longrightarrow> number_field [(k, dec n)] name n"
  by (simp add: number_field_def)

lemma cseq_added:
  assumes "apr_ok A"
  shows "\<exists>sec f. rtsp_header_property_add A ((rm_header (rtsp_message_create A sl))\<lparr>rh_cseq := c\<rparr>) RTSP_HEADER_FIELD_CSEQ =
      Inr (True, (rm_header (rtsp_message_create A sl))\<lparr>rh_cseq := c, rh_section := sec\<rparr>) \<and>
    hs_listing sec = [f] \<and> field_view f = (''CSeq'', dec (unat c)) \<and> field_ok f"
proof -
  have v: "str_bytes (apt_size_value_generate A c) = dec (unat c)" "str_wf (apt_size_value_generate A c)"
    using size_value_generate_text [OF assms, of "unat c"] unsigned_less [of c, where 'a = nat] by simp_all
  have n: "str_bytes (c_literal ''CSeq'' 4) = ''CSeq''" "str_wf (c_literal ''CSeq'' 4)" "header_name_ok ''CSeq''"
    by (simp_all add: str_bytes_def str_wf_def header_name_ok_def no_eol_def apt_text_is_wsp_def)
  have "header_value_ok (dec (unat c))"
    using dec_token(3) [of "unat c"] dec_hd [of "unat c"] by (auto simp: header_value_ok_def apt_text_is_wsp_def isdigit_def)
  then show ?thesis
    using v n
    by (auto simp: rtsp_header_property_add_def rtsp_message_create_def rtsp_header_init_def apt_header_section_init_def
        apt_header_section_array_alloc_def apt_header_section_field_get_def rtsp_header_field_value_generate_def
        apt_string_table_str_get_def rtsp_header_string_table_def hs_store_def apt_header_section_field_insert_def
        hs_listing_def hs_field_def field_view_def field_ok_def table_item_def)
qed
text \<open>C27. The response to a request with a number says what the caller asks for, in the version of the request:
  its status line has the status code and the reason phrase, its only header field is the number of
  the request, and the mode of the transport is that of the request. It can be sent as it is if the number
  is below 2^63.\<close>

theorem rtsp_response_answers:
  assumes "apr_ok A" and "rm_start_line request = RtspRequest rl" and "reason < RTSP_REASON_PHRASE_COUNT"
    and "rtsp_header_property_check (rm_header request) RTSP_HEADER_FIELD_CSEQ"
    and "str_wf (tr_mode (rh_transport (rm_header request)))"
  shows "\<exists>response. rtsp_response_create A request code reason = Inr response \<and>
    (\<exists>st. rm_start_line response = RtspResponse st \<and> st_version st = rl_version rl \<and> st_status_code st = code \<and>
       str_bytes (st_reason st) = reason_text reason) \<and>
    rh_cseq (rm_header response) = rh_cseq (rm_header request) \<and>
    map field_view (hs_listing (rh_section (rm_header response))) = [(''CSeq'', dec (unat (rh_cseq (rm_header request))))] \<and>
    str_bytes (tr_mode (rh_transport (rm_header response))) =
      (if rtsp_header_property_check (rm_header request) RTSP_HEADER_FIELD_TRANSPORT
       then str_bytes (tr_mode (rh_transport (rm_header request))) else []) \<and>
    (unat (rh_cseq (rm_header request)) < 2 ^ 63 \<longrightarrow> rtsp_sendable response)"
proof -
  obtain str where str: "rtsp_reason_phrase_get reason = Some str" "str_bytes str = reason_text reason" "str_wf str"
    using reason_phrase(1) [OF assms(3)] by blast
  let ?c = "rh_cseq (rm_header request)" and ?mode = "tr_mode (rh_transport (rm_header request))"
  let ?st = "\<lparr>st_version = rl_version rl, st_status_code = code, st_reason = apt_string_copy str\<rparr>"
  let ?m = "rtsp_message_create A (RtspResponse ?st)"
  let ?copy = "rtsp_header_property_check (rm_header request) RTSP_HEADER_FIELD_TRANSPORT \<and> str_length ?mode \<noteq> 0"
  obtain sec f where add: "rtsp_header_property_add A ((rm_header ?m)\<lparr>rh_cseq := ?c\<rparr>) RTSP_HEADER_FIELD_CSEQ =
      Inr (True, (rm_header ?m)\<lparr>rh_cseq := ?c, rh_section := sec\<rparr>)"
    "hs_listing sec = [f]" "field_view f = (''CSeq'', dec (unat ?c))" "field_ok f"
    using cseq_added [OF assms(1)] by blast
  let ?r = "?m\<lparr>rm_header := (rm_header ?m)\<lparr>rh_cseq := ?c, rh_section := sec,
      rh_transport := (rh_transport (rm_header ?m))\<lparr>tr_mode := if ?copy then apt_string_copy ?mode else apt_string_reset\<rparr>\<rparr>\<rparr>"
  have mode: "tr_mode (rh_transport (rm_header ?m)) = apt_string_reset"
    by (simp add: rtsp_message_create_def rtsp_header_init_def rtsp_transport_init_def)
  have create: "rtsp_response_create A request code reason = Inr ?r"
    using assms(2,4) str(1) add(1) mode by (simp add: rtsp_response_create_def rtsp_status_line_init_def Let_def)
  have "rtsp_line_ok (RtspResponse ?st)" using str(2,3) reason_phrase(2) [OF assms(3)] by simp
  moreover have "str_bytes (hf_name f) = ''CSeq''" using add(3) by (simp add: field_view_def)
  moreover have "map tolower ''CSeq'' = ''cseq''" by code_simp
  then have "number_field [(''CSeq'', dec (unat ?c))] ''cseq'' (unat ?c)" by (rule number_field_single)
  moreover have "number_field [(''CSeq'', dec (unat ?c))] ''content-length'' 0" by (simp add: number_field_def)
  ultimately have "rtsp_sendable ?r" if "unat ?c < 2 ^ 63"
    using that add(2-4) by (simp add: rtsp_sendable_def message_create_parts Let_def apt_string_reset_def str_wf_def str_mem_def)
  moreover have "str_bytes ?mode = []" if "str_length ?mode = 0" using that by (simp add: str_bytes_def)
  ultimately show ?thesis
    using create add(2,3) str(2,3) assms(5) by (auto simp: message_create_parts str_bytes_def [of apt_string_reset])
qed

definition sample_request :: rtsp_message where
  "sample_request = sample_answer\<lparr>rm_start_line := sample_setup\<rparr>"

theorem rtsp_response_answers_witness:
  "\<exists>response st. rtsp_response_create apr_ref sample_request 404 4 = Inr response \<and> rm_start_line response = RtspResponse st \<and>
    str_bytes (st_reason st) = ''Not Found'' \<and> rh_cseq (rm_header response) = 7 \<and> rtsp_sendable response"
proof -
  have "rm_start_line sample_request = RtspRequest (rtsp_request_line_init
      \<lparr>rl_method_id := RTSP_METHOD_SETUP, rl_url := c_literal ''rtsp://a/media/speechsynthesizer/'' 33\<rparr>)"
    "rh_cseq (rm_header sample_request) = 7"
    by (simp_all add: sample_request_def sample_setup_def sample_answer_parts)
  moreover have "rtsp_header_property_check (rm_header sample_request) RTSP_HEADER_FIELD_CSEQ"
    "str_wf (tr_mode (rh_transport (rm_header sample_request)))"
    by (simp_all add: sample_request_def sample_answer_def rtsp_header_property_check_def apt_header_section_field_check_def
        rtsp_message_create_def rtsp_header_init_def rtsp_transport_init_def apt_string_reset_def str_wf_def str_mem_def)
  moreover have "reason_text 4 = ''Not Found''" by code_simp
  ultimately show ?thesis
    using rtsp_response_answers [OF apr_ref_ok, of sample_request _ 4 404] by auto
qed

text \<open>What a parser can become: runs on any bytes at all.\<close>

inductive rtsp_reaches :: "apr \<Rightarrow> rtsp_parser \<Rightarrow> rtsp_parser \<Rightarrow> bool" for A p where
  rtsp_reaches_start: "rtsp_reaches A p p"
| rtsp_reaches_run: "rtsp_reaches A p q \<Longrightarrow> stream_ok s \<Longrightarrow> 0 < ts_end s \<Longrightarrow>
    rtsp_parser_run A q s = Inr (st, msg, q', s') \<Longrightarrow> rtsp_reaches A p q'"

lemma rtsp_reaches_receiving:
  assumes "rtsp_reaches A p q" and "apr_ok A" and "rtsp_source.receiving A p"
  shows "rtsp_source.receiving A q"
  using assms(1)
proof induction
  case (rtsp_reaches_run q s st msg q' s')
  show ?case
    by (rule conjunct1 [OF rtsp_source.receiving_kept [OF rtsp_reaches_run.IH assms(2) rtsp_reaches_run.hyps(2,3)
          rtsp_reaches_run.hyps(4) [unfolded rtsp_parser_run_def]]])
qed (rule assms(3))

text \<open>C13. Whatever a peer sends to an RTSP parser, and however the bytes are cut into chunks, a run returns,
  makes progress or reports the end of the stream, and completes only requests and responses, with one exception: it leaves
  a block exactly when the header it completes announces a body of 2^64 - 1 bytes (\<open>headed_message\<close>
  is the message whose header is completed in the run, if there is one).\<close>

theorem rtsp_any_bytes:
  assumes "apr_ok A" and "rtsp_reaches A (rtsp_parser_create A) p" and "stream_ok s" and "0 < ts_end s"
  shows "if \<exists>m. headed_message p s = Some m \<and> str_length (rm_body m) = 2 ^ 64 - 1
    then rtsp_parser_run A p s = Inl OutOfBounds
    else \<exists>st msg p' s'. rtsp_parser_run A p s = Inr (st, msg, p', s') \<and>
      (ts_pos s < ts_pos s' \<or> apt_text_is_eos s') \<and> (\<forall>m. msg = Some m \<longrightarrow> rm_start_line m \<noteq> RtspUnknown)"
proof -
  have inv: "rtsp_source.receiving A p"
    by (rule rtsp_reaches_receiving [OF assms(2,1)])
      (simp add: rtsp_parser_create_def rtsp_source.receiving_create)
  then have "rtsp.parser_inv A p" by (simp add: rtsp_source.receiving_def)
  note progress = rtsp.run_progress [OF this assms(1,3), folded rtsp_parser_run_def]
  have body: "ctx_body (rtsp_parser_vtable A) m = rm_body m" for m by (simp add: rtsp_parser_vtable_def)
  from rtsp_source.run_receives [OF inv assms(1,3,4), folded rtsp_parser_run_def]
  show ?thesis
    unfolding rtsp_source.receives_or_overflows_def rtsp_source.receives_def body
    using progress by (simp only: split: if_splits; blast)
qed

theorem rtsp_any_bytes_witness:
  "\<exists>m p s. rtsp_parser_run apr_ref (rtsp_parser_create apr_ref) (text_stream (rtsp_text sample_answer @ '' rest'')) =
      Inr (APT_MESSAGE_STATUS_COMPLETE, Some m, p, s) \<and> rm_start_line m \<noteq> RtspUnknown \<and> (0 < ts_pos s \<or> apt_text_is_eos s)"
proof -
  let ?t = "text_stream (rtsp_text sample_answer @ '' rest'')"
  obtain m p s where run: "rtsp_parser_run apr_ref (rtsp_parser_create apr_ref) ?t =
      Inr (APT_MESSAGE_STATUS_COMPLETE, Some m, p, s)"
    using parser_run_rtsp_text [OF apr_ref_ok sample_answer_sendable sample_answer_text(2)] by blast
  have t: "0 < ts_end ?t" "ts_pos ?t = 0"
    by (simp_all add: text_stream_def apt_text_stream_init_def apt_text_stream_reset_def)
  from rtsp_any_bytes [OF apr_ref_ok rtsp_reaches_start stream_ok_text t(1)] show ?thesis using run t(2) by (auto split: if_splits)
qed

end
