(* ===== verification/AptQueues.thy ===== *)
theory AptQueues
  imports Prelude
begin

text \<open>
  The two queues of the toolkit. \<open>apt_obj_list.c\<close> is a doubly linked ring of elements, each with a
  pointer to an object; \<open>apt_cyclic_queue.c\<close> is an array that is written at its head, read at its
  tail and enlarged by half when it is full. Both are first-in first-out queues: that contract is
  the locale \<open>fifo_queue\<close>, which both implementations satisfy.

  A ring is the list of its elements from the first to the last. An element is an address and the
  object it points to; \<open>ol_fresh\<close> is the address the next allocation returns. Sizes of the cyclic
  queue are natural numbers: the arrays it allocates are assumed to fit into memory, and the
  failure of \<open>malloc\<close>, which the code does not check, is not modelled.
\<close>

section \<open>The contract\<close>

text \<open>A sequence of operations on a queue, what it pops, and the same on a list.\<close>

datatype 'a queue_op = QPush 'a | QPop

fun queue_run ::
  "('q \<Rightarrow> 'a \<Rightarrow> fault + bool \<times> 'q) \<Rightarrow> ('q \<Rightarrow> fault + 'a option \<times> 'q) \<Rightarrow> 'a queue_op list \<Rightarrow> 'q \<Rightarrow>
   fault + 'a option list \<times> 'q" where
  "queue_run push pop [] q = Inr ([], q)"
| "queue_run push pop (QPush x # ops) q = sbind (push q x) (\<lambda>(_, q). queue_run push pop ops q)"
| "queue_run push pop (QPop # ops) q = sbind (pop q) (\<lambda>(x, q).
     sbind (queue_run push pop ops q) (\<lambda>(xs, q). Inr (x # xs, q)))"

fun fifo_run :: "'a queue_op list \<Rightarrow> 'a list \<Rightarrow> 'a option list \<times> 'a list" where
  "fifo_run [] xs = ([], xs)"
| "fifo_run (QPush x # ops) xs = fifo_run ops (xs @ [x])"
| "fifo_run (QPop # ops) [] = (case fifo_run ops [] of (ys, zs) \<Rightarrow> (None # ys, zs))"
| "fifo_run (QPop # ops) (x # xs) = (case fifo_run ops xs of (ys, zs) \<Rightarrow> (Some x # ys, zs))"

locale fifo_queue =
  fixes ok :: "'q \<Rightarrow> bool" and contents :: "'q \<Rightarrow> 'a list"
    and push :: "'q \<Rightarrow> 'a \<Rightarrow> fault + bool \<times> 'q" and pop :: "'q \<Rightarrow> fault + 'a option \<times> 'q"
  assumes push_contents: "ok q \<Longrightarrow> \<exists>q'. push q x = Inr (True, q') \<and> ok q' \<and> contents q' = contents q @ [x]"
    and pop_contents: "ok q \<Longrightarrow> \<exists>q'. pop q = Inr ((case contents q of [] \<Rightarrow> None | x # _ \<Rightarrow> Some x), q') \<and>
      ok q' \<and> contents q' = tl (contents q)"
begin

lemma run_refines:
  "ok q \<Longrightarrow> \<exists>q'. queue_run push pop ops q = Inr (fst (fifo_run ops (contents q)), q') \<and> ok q' \<and>
    contents q' = snd (fifo_run ops (contents q))"
proof (induction ops arbitrary: q)
  case (Cons op ops)
  show ?case
  proof (cases op)
    case (QPush x)
    obtain q1 where "push q x = Inr (True, q1)" "ok q1" "contents q1 = contents q @ [x]"
      using push_contents [OF Cons.prems] by blast
    then show ?thesis using Cons.IH [of q1] QPush by auto
  next
    case QPop
    obtain q1 where q1: "pop q = Inr ((case contents q of [] \<Rightarrow> None | x # _ \<Rightarrow> Some x), q1)" "ok q1"
      "contents q1 = tl (contents q)"
      using pop_contents [OF Cons.prems] by blast
    then show ?thesis
      using Cons.IH [OF q1(2)] QPop by (cases "contents q") (auto split: prod.splits)
  qed
qed simp

end

section \<open>Lists of objects\<close>

record 'a apt_obj_list =
  ol_elems :: "(nat \<times> 'a) list"
  ol_fresh :: nat

definition apt_list_create :: "nat \<Rightarrow> 'a apt_obj_list" where
  "apt_list_create addr = \<lparr>ol_elems = [], ol_fresh = addr\<rparr>"

definition apt_list_push_back :: "'a apt_obj_list \<Rightarrow> 'a \<Rightarrow> nat \<times> 'a apt_obj_list" where
  "apt_list_push_back l obj =
     (ol_fresh l, l\<lparr>ol_elems := ol_elems l @ [(ol_fresh l, obj)], ol_fresh := Suc (ol_fresh l)\<rparr>)"

definition apt_list_pop_front :: "'a apt_obj_list \<Rightarrow> 'a option \<times> 'a apt_obj_list" where
  "apt_list_pop_front l =
     (case ol_elems l of [] \<Rightarrow> (None, l) | (_, obj) # es \<Rightarrow> (Some obj, l\<lparr>ol_elems := es\<rparr>))"

definition apt_list_head :: "'a apt_obj_list \<Rightarrow> 'a option" where
  "apt_list_head l = (case ol_elems l of [] \<Rightarrow> None | (_, obj) # _ \<Rightarrow> Some obj)"

definition apt_obj_list_tail :: "'a apt_obj_list \<Rightarrow> 'a option" where
  "apt_obj_list_tail l = (if ol_elems l = [] then None else Some (snd (last (ol_elems l))))"

definition apt_list_first_elem_get :: "'a apt_obj_list \<Rightarrow> nat option" where
  "apt_list_first_elem_get l = (case ol_elems l of [] \<Rightarrow> None | (a, _) # _ \<Rightarrow> Some a)"

definition apt_list_last_elem_get :: "'a apt_obj_list \<Rightarrow> nat option" where
  "apt_list_last_elem_get l = (if ol_elems l = [] then None else Some (fst (last (ol_elems l))))"

text \<open>The address that follows an address; \<open>None\<close> stands for the sentinel. An address that is
  not in the list cannot be followed.\<close>

fun elem_next :: "(nat \<times> 'a) list \<Rightarrow> nat \<Rightarrow> fault + nat option" where
  "elem_next [] a = Inl OutOfBounds"
| "elem_next ((b, _) # es) a =
     (if a = b then Inr (case es of [] \<Rightarrow> None | (c, _) # _ \<Rightarrow> Some c) else elem_next es a)"

definition apt_list_next_elem_get :: "'a apt_obj_list \<Rightarrow> nat \<Rightarrow> fault + nat option" where
  "apt_list_next_elem_get l a = elem_next (ol_elems l) a"

definition apt_list_prev_elem_get :: "'a apt_obj_list \<Rightarrow> nat \<Rightarrow> fault + nat option" where
  "apt_list_prev_elem_get l a = elem_next (rev (ol_elems l)) a"

fun insert_before :: "(nat \<times> 'a) list \<Rightarrow> nat \<Rightarrow> nat \<times> 'a \<Rightarrow> fault + (nat \<times> 'a) list" where
  "insert_before [] a e = Inl OutOfBounds"
| "insert_before (x # es) a e =
     (if a = fst x then Inr (e # x # es) else sbind (insert_before es a e) (\<lambda>es. Inr (x # es)))"

definition apt_list_elem_insert :: "'a apt_obj_list \<Rightarrow> nat \<Rightarrow> 'a \<Rightarrow> fault + nat \<times> 'a apt_obj_list" where
  "apt_list_elem_insert l a obj =
     sbind (insert_before (ol_elems l) a (ol_fresh l, obj)) (\<lambda>es.
       Inr (ol_fresh l, l\<lparr>ol_elems := es, ol_fresh := Suc (ol_fresh l)\<rparr>))"

definition apt_list_elem_remove :: "'a apt_obj_list \<Rightarrow> nat \<Rightarrow> fault + nat option \<times> 'a apt_obj_list" where
  "apt_list_elem_remove l a =
     sbind (elem_next (ol_elems l) a) (\<lambda>nxt.
       Inr (nxt, l\<lparr>ol_elems := remove1 (a, the (map_of (ol_elems l) a)) (ol_elems l)\<rparr>))"

definition apt_list_is_empty :: "'a apt_obj_list \<Rightarrow> bool" where
  "apt_list_is_empty l \<longleftrightarrow> ol_elems l = []"

definition apt_list_elem_object_get :: "'a apt_obj_list \<Rightarrow> nat \<Rightarrow> fault + 'a" where
  "apt_list_elem_object_get l a = (case map_of (ol_elems l) a of None \<Rightarrow> Inl OutOfBounds | Some obj \<Rightarrow> Inr obj)"

text \<open>
  The loop that takes the objects with some property out of a list, as the state machines of the
  synthesizer and of the recognizer write it: elements are visited by address while they are
  removed. The first argument bounds the number of rounds.
\<close>

fun list_sweep ::
  "nat \<Rightarrow> ('a \<Rightarrow> bool) \<Rightarrow> 'a apt_obj_list \<Rightarrow> nat option \<Rightarrow> fault + ('a list \<times> 'a apt_obj_list) option" where
  "list_sweep n P l None = Inr (Some ([], l))"
| "list_sweep 0 P l (Some a) = Inr None"
| "list_sweep (Suc n) P l (Some a) =
     sbind (apt_list_elem_object_get l a) (\<lambda>obj.
       if P obj
       then sbind (apt_list_elem_remove l a) (\<lambda>(nxt, l).
              sbind (list_sweep n P l nxt) (\<lambda>r. Inr (map_option (map_prod (Cons obj) id) r)))
       else sbind (apt_list_next_elem_get l a) (\<lambda>nxt. list_sweep n P l nxt))"

definition list_objs :: "'a apt_obj_list \<Rightarrow> 'a list" where
  "list_objs l = map snd (ol_elems l)"

definition obj_list_wf :: "'a apt_obj_list \<Rightarrow> bool" where
  "obj_list_wf l \<longleftrightarrow> distinct (map fst (ol_elems l)) \<and> list_all (\<lambda>e. fst e < ol_fresh l) (ol_elems l)"

lemma elem_next_mid:
  "a \<notin> fst ` set xs \<Longrightarrow> elem_next (xs @ (a, obj) # ys) a = Inr (case ys of [] \<Rightarrow> None | (b, _) # _ \<Rightarrow> Some b)"
  by (induction xs) auto

lemma object_mid: "a \<notin> fst ` set xs \<Longrightarrow> map_of (xs @ (a, obj) # ys) a = Some obj"
  by (induction xs) auto

lemma remove_mid:
  assumes "distinct (map fst (xs @ (a, obj) # ys))" and that: "ol_elems l = xs @ (a, obj) # ys"
  shows "apt_list_elem_remove l a = Inr (case ys of [] \<Rightarrow> None | (b, _) # _ \<Rightarrow> Some b, l\<lparr>ol_elems := xs @ ys\<rparr>)"
proof -
  have "a \<notin> fst ` set xs" using assms by auto
  moreover from this have "(a, obj) \<notin> set xs" by force
  ultimately show ?thesis
    using that elem_next_mid [of a xs obj ys] object_mid [of a xs obj ys]
    by (simp add: apt_list_elem_remove_def remove1_append)
qed

lemma list_sweep_from:
  assumes "distinct (map fst (xs @ ys))" and "ol_elems l = xs @ ys" and "length ys \<le> n"
  shows "list_sweep n P l (case ys of [] \<Rightarrow> None | (b, _) # _ \<Rightarrow> Some b) =
    Inr (Some (filter P (map snd ys), l\<lparr>ol_elems := xs @ filter (\<lambda>e. \<not> P (snd e)) ys\<rparr>))"
  using assms
proof (induction ys arbitrary: xs l n)
  case (Cons y ys)
  obtain a obj where y: "y = (a, obj)" by (cases y)
  obtain k where n: "n = Suc k" using Cons.prems(3) by (cases n) auto
  have a: "a \<notin> fst ` set xs" using Cons.prems(1) y by auto
  have get: "apt_list_elem_object_get l a = Inr obj"
    using Cons.prems(2) y object_mid [OF a] by (simp add: apt_list_elem_object_get_def)
  show ?case
  proof (cases "P obj")
    case True
    have "apt_list_elem_remove l a = Inr (case ys of [] \<Rightarrow> None | (b, _) # _ \<Rightarrow> Some b, l\<lparr>ol_elems := xs @ ys\<rparr>)"
      using remove_mid [of xs a obj ys l] Cons.prems(1,2) y by simp
    then show ?thesis
      using Cons.IH [of xs "l\<lparr>ol_elems := xs @ ys\<rparr>" k] Cons.prems get True y n by simp
  next
    case False
    have "apt_list_next_elem_get l a = Inr (case ys of [] \<Rightarrow> None | (b, _) # _ \<Rightarrow> Some b)"
      using Cons.prems(2) y elem_next_mid [OF a] by (simp add: apt_list_next_elem_get_def)
    then show ?thesis
      using Cons.IH [of "xs @ [y]" l k] Cons.prems get False y n by simp
  qed
qed (cases n; simp)

lemma obj_list_wf_push:
  assumes "obj_list_wf l" and "apt_list_push_back l x = (a, l')"
  shows "obj_list_wf l' \<and> list_objs l' = list_objs l @ [x]"
  using assms by (force simp: obj_list_wf_def apt_list_push_back_def list_objs_def list_all_iff less_Suc_eq)

lemma obj_list_wf_pop:
  assumes "obj_list_wf l" and "apt_list_pop_front l = (x, l')"
  shows "obj_list_wf l' \<and> list_objs l' = tl (list_objs l) \<and> x = (case list_objs l of [] \<Rightarrow> None | y # _ \<Rightarrow> Some y)"
  using assms by (auto simp: obj_list_wf_def apt_list_pop_front_def list_objs_def split: list.splits prod.splits)

interpretation obj_fifo: fifo_queue obj_list_wf list_objs
  "\<lambda>l x. Inr (True, snd (apt_list_push_back l x))" "\<lambda>l. Inr (apt_list_pop_front l)"
proof
  show "\<exists>q'. Inr (True, snd (apt_list_push_back q x)) = Inr (True, q') \<and> obj_list_wf q' \<and>
      list_objs q' = list_objs q @ [x]" if "obj_list_wf q" for q :: "'a apt_obj_list" and x
    using obj_list_wf_push [OF that, of x "fst (apt_list_push_back q x)" "snd (apt_list_push_back q x)"] by simp
  show "\<exists>q'. Inr (apt_list_pop_front q) = Inr (case list_objs q of [] \<Rightarrow> None | x # _ \<Rightarrow> Some x, q') \<and>
      obj_list_wf q' \<and> list_objs q' = tl (list_objs q)" if "obj_list_wf q" for q :: "'a apt_obj_list"
    using obj_list_wf_pop [OF that, of "fst (apt_list_pop_front q)" "snd (apt_list_pop_front q)"]
    by (intro exI [of _ "snd (apt_list_pop_front q)"]) (simp add: prod_eq_iff)
qed

section \<open>Cyclic queues\<close>

text \<open>A slot of the array that was never written holds \<open>None\<close>.\<close>

record 'a apt_cyclic_queue =
  cq_data :: "'a option list"
  cq_max_size :: nat
  cq_actual_size :: nat
  cq_head :: nat
  cq_tail :: nat

definition apt_cyclic_queue_create :: "nat \<Rightarrow> 'a apt_cyclic_queue" where
  "apt_cyclic_queue_create n =
     \<lparr>cq_data = replicate n None, cq_max_size = n, cq_actual_size = 0, cq_head = 0, cq_tail = 0\<rparr>"

text \<open>The two calls of \<open>memcpy\<close>, and the rest of the new array.\<close>

definition apt_cyclic_queue_resize :: "'a apt_cyclic_queue \<Rightarrow> fault + bool \<times> 'a apt_cyclic_queue" where
  "apt_cyclic_queue_resize q =
     (let new_size = cq_max_size q + cq_max_size q div 2;
          offset = cq_max_size q - cq_head q;
          part1 = take offset (drop (cq_head q) (cq_data q));
          part2 = (if cq_head q \<noteq> 0 then take (cq_head q) (cq_data q) else []);
          new_data = part1 @ part2 @ replicate (new_size - length (part1 @ part2)) None
      in if cq_head q > cq_max_size q \<or> length (part1 @ part2) > new_size then Inl OutOfBounds
         else Inr (True, q\<lparr>cq_tail := 0, cq_head := cq_max_size q, cq_max_size := new_size, cq_data := new_data\<rparr>))"

definition apt_cyclic_queue_push :: "'a apt_cyclic_queue \<Rightarrow> 'a \<Rightarrow> fault + bool \<times> 'a apt_cyclic_queue" where
  "apt_cyclic_queue_push q obj =
     sbind (if cq_actual_size q \<ge> cq_max_size q then apt_cyclic_queue_resize q else Inr (True, q)) (\<lambda>(ok, q).
       if \<not> ok then Inr (False, q)
       else if cq_head q \<ge> length (cq_data q) then Inl OutOfBounds
       else Inr (True, q\<lparr>cq_data := (cq_data q)[cq_head q := Some obj],
                         cq_head := (cq_head q + 1) mod cq_max_size q,
                         cq_actual_size := cq_actual_size q + 1\<rparr>))"

definition apt_cyclic_queue_pop :: "'a apt_cyclic_queue \<Rightarrow> fault + 'a option \<times> 'a apt_cyclic_queue" where
  "apt_cyclic_queue_pop q =
     (if cq_actual_size q \<noteq> 0
      then if cq_tail q \<ge> length (cq_data q) then Inl OutOfBounds
           else Inr (cq_data q ! cq_tail q,
                     q\<lparr>cq_tail := (cq_tail q + 1) mod cq_max_size q, cq_actual_size := cq_actual_size q - 1\<rparr>)
      else Inr (None, q))"

definition apt_cyclic_queue_clear :: "'a apt_cyclic_queue \<Rightarrow> 'a apt_cyclic_queue" where
  "apt_cyclic_queue_clear q = q\<lparr>cq_actual_size := 0, cq_head := 0, cq_tail := 0\<rparr>"

definition apt_cyclic_queue_is_empty :: "'a apt_cyclic_queue \<Rightarrow> bool" where
  "apt_cyclic_queue_is_empty q = (if cq_actual_size q \<noteq> 0 then True else False)"

definition cyclic_contents :: "'a apt_cyclic_queue \<Rightarrow> 'a list" where
  "cyclic_contents q =
     map (\<lambda>i. the (cq_data q ! ((cq_tail q + i) mod cq_max_size q))) [0..<cq_actual_size q]"

definition cyclic_wf :: "'a apt_cyclic_queue \<Rightarrow> bool" where
  "cyclic_wf q \<longleftrightarrow> 2 \<le> cq_max_size q \<and> length (cq_data q) = cq_max_size q \<and>
     cq_actual_size q \<le> cq_max_size q \<and> cq_tail q < cq_max_size q \<and>
     cq_head q = (cq_tail q + cq_actual_size q) mod cq_max_size q \<and>
     (\<forall>i < cq_actual_size q. cq_data q ! ((cq_tail q + i) mod cq_max_size q) \<noteq> None)"

lemma mod_window_le:
  fixes m t i j :: nat
  assumes "(t + i) mod m = (t + j) mod m" and "i \<le> j" and "j < m"
  shows "i = j"
proof -
  have "m dvd (t + j) - (t + i)" using assms(1,2) by (metis add_le_mono le_refl mod_eq_dvd_iff_nat)
  then have "m dvd j - i" by simp
  then show ?thesis using assms(2,3) by (meson dvd_imp_le diff_le_self le_antisym le_trans linorder_not_less zero_less_diff)
qed

lemma mod_window_inj:
  fixes m t i j :: nat
  shows "(t + i) mod m = (t + j) mod m \<Longrightarrow> i < m \<Longrightarrow> j < m \<Longrightarrow> i = j"
  by (cases "i \<le> j") (use mod_window_le [of t i m j] mod_window_le [of t j m i] in auto)

text \<open>Pushing into a queue that has room.\<close>

lemma cyclic_push_room:
  assumes "cyclic_wf q" and "cq_actual_size q < cq_max_size q"
  shows "\<exists>q'. apt_cyclic_queue_push q x = Inr (True, q') \<and> cyclic_wf q' \<and> cyclic_contents q' = cyclic_contents q @ [x]"
proof -
  let ?m = "cq_max_size q" and ?n = "cq_actual_size q" and ?h = "cq_head q" and ?t = "cq_tail q"
  let ?q = "q\<lparr>cq_data := (cq_data q)[?h := Some x], cq_head := (?h + 1) mod ?m, cq_actual_size := ?n + 1\<rparr>"
  have m: "0 < ?m" "?h = (?t + ?n) mod ?m" "length (cq_data q) = ?m" using assms(1) by (auto simp: cyclic_wf_def)
  then have h: "?h < ?m" by simp
  have old: "(cq_data q)[?h := Some x] ! ((?t + i) mod ?m) = cq_data q ! ((?t + i) mod ?m)" if "i < ?n" for i
    using mod_window_inj [of ?t i ?m ?n] that assms(2) m(2) by (intro nth_list_update_neq) auto
  have new: "(cq_data q)[?h := Some x] ! ((?t + ?n) mod ?m) = Some x" using m h by simp
  have "apt_cyclic_queue_push q x = Inr (True, ?q)"
    using assms(2) h m(3) by (simp add: apt_cyclic_queue_push_def)
  moreover have "cyclic_wf ?q"
    using assms old new by (auto simp: cyclic_wf_def less_Suc_eq mod_Suc_eq)
  moreover have "cyclic_contents ?q = cyclic_contents q @ [x]"
    using old new by (auto simp: cyclic_contents_def)
  ultimately show ?thesis by blast
qed

lemma cyclic_resize_full:
  assumes "cyclic_wf q" and "cq_actual_size q = cq_max_size q"
  shows "\<exists>q'. apt_cyclic_queue_resize q = Inr (True, q') \<and> cyclic_wf q' \<and> cyclic_contents q' = cyclic_contents q \<and>
    cq_actual_size q' < cq_max_size q'"
proof -
  let ?m = "cq_max_size q" and ?t = "cq_tail q" and ?d = "cq_data q"
  let ?new = "?m + ?m div 2" and ?r = "drop ?t ?d @ take ?t ?d"
  let ?q = "q\<lparr>cq_tail := 0, cq_head := ?m, cq_max_size := ?new, cq_data := ?r @ replicate (?new - ?m) None\<rparr>"
  have m: "2 \<le> ?m" "?t < ?m" "cq_head q = ?t" "length ?d = ?m" using assms by (auto simp: cyclic_wf_def)
  have slot: "(?r @ replicate (?new - ?m) None) ! i = ?d ! ((?t + i) mod ?m)" if "i < ?m" for i
  proof (cases "i < ?m - ?t")
    case True
    then show ?thesis using m by (simp add: nth_append)
  next
    case False
    then have "?m \<le> ?t + i" "?t + i - ?m < ?m" using m(2) that by linarith+
    then have "(?t + i) mod ?m = (?t + i) - ?m" by (simp add: le_mod_geq)
    then have "(?t + i) mod ?m = i - (?m - ?t)" using m False by simp
    moreover have "i - (?m - ?t) < ?t" using False that m(2) by linarith
    ultimately show ?thesis using False that m by (simp add: nth_append)
  qed
  have "apt_cyclic_queue_resize q = Inr (True, ?q)"
    using m by (auto simp: apt_cyclic_queue_resize_def Let_def)
  moreover have "cyclic_wf ?q"
    using assms m slot by (auto simp: cyclic_wf_def)
  moreover have "cyclic_contents ?q = cyclic_contents q"
    using assms(2) m slot by (auto simp: cyclic_contents_def)
  moreover have "cq_actual_size ?q < cq_max_size ?q" using assms(2) m by simp
  ultimately show ?thesis by blast
qed

lemma cyclic_push:
  assumes "cyclic_wf q"
  shows "\<exists>q'. apt_cyclic_queue_push q x = Inr (True, q') \<and> cyclic_wf q' \<and> cyclic_contents q' = cyclic_contents q @ [x]"
proof (cases "cq_actual_size q < cq_max_size q")
  case False
  then have full: "cq_actual_size q = cq_max_size q" using assms by (simp add: cyclic_wf_def)
  obtain q1 where q1: "apt_cyclic_queue_resize q = Inr (True, q1)" "cyclic_wf q1" "cyclic_contents q1 = cyclic_contents q"
    "cq_actual_size q1 < cq_max_size q1"
    using cyclic_resize_full [OF assms full] by blast
  then have "apt_cyclic_queue_push q x = apt_cyclic_queue_push q1 x"
    using full by (simp add: apt_cyclic_queue_push_def)
  then show ?thesis using cyclic_push_room [OF q1(2,4), of x] q1(3) by simp
qed (use cyclic_push_room [OF assms] in blast)

lemma cyclic_pop:
  assumes "cyclic_wf q"
  shows "\<exists>q'. apt_cyclic_queue_pop q = Inr (case cyclic_contents q of [] \<Rightarrow> None | x # _ \<Rightarrow> Some x, q') \<and>
    cyclic_wf q' \<and> cyclic_contents q' = tl (cyclic_contents q)"
proof (cases "cq_actual_size q")
  case 0
  then show ?thesis using assms by (simp add: apt_cyclic_queue_pop_def cyclic_contents_def)
next
  case (Suc n)
  let ?m = "cq_max_size q" and ?t = "cq_tail q"
  let ?q = "q\<lparr>cq_tail := (?t + 1) mod ?m, cq_actual_size := n\<rparr>"
  have m: "0 < ?m" "?t < ?m" "length (cq_data q) = ?m" "\<forall>i < Suc n. cq_data q ! ((?t + i) mod ?m) \<noteq> None"
    using assms Suc by (auto simp: cyclic_wf_def)
  have shift: "((?t + 1) mod ?m + i) mod ?m = (?t + Suc i) mod ?m" for i by (simp add: mod_add_left_eq)
  obtain y where y: "cq_data q ! ?t = Some y" using m(2) m(4) by force
  have c: "cyclic_contents q = y # cyclic_contents ?q"
  proof -
    have "[0..<Suc n] = 0 # map Suc [0..<n]" by (simp add: upt_conv_Cons map_Suc_upt del: upt_Suc)
    then show ?thesis using Suc y m(2) shift by (simp add: cyclic_contents_def o_def del: upt_Suc)
  qed
  moreover have "apt_cyclic_queue_pop q = Inr (Some y, ?q)"
    using Suc y m by (simp add: apt_cyclic_queue_pop_def)
  moreover have "cyclic_wf ?q"
  proof -
    have "cq_data q ! (((?t + 1) mod ?m + i) mod ?m) \<noteq> None" if "i < n" for i
      using m(4) [rule_format, of "Suc i"] that unfolding shift [of i] by simp
    moreover have "cq_head q = ((?t + 1) mod ?m + n) mod ?m" using assms Suc shift [of n] by (simp add: cyclic_wf_def)
    ultimately show ?thesis using assms Suc m(1) by (simp add: cyclic_wf_def)
  qed
  ultimately show ?thesis by simp
qed

interpretation cyclic_fifo: fifo_queue cyclic_wf cyclic_contents apt_cyclic_queue_push apt_cyclic_queue_pop
proof (rule fifo_queue.intro)
  show "\<exists>q'. apt_cyclic_queue_push q x = Inr (True, q') \<and> cyclic_wf q' \<and> cyclic_contents q' = cyclic_contents q @ [x]"
    if "cyclic_wf q" for q :: "'a apt_cyclic_queue" and x
    by (rule cyclic_push [OF that])
  show "\<exists>q'. apt_cyclic_queue_pop q = Inr (case cyclic_contents q of [] \<Rightarrow> None | x # _ \<Rightarrow> Some x, q') \<and>
      cyclic_wf q' \<and> cyclic_contents q' = tl (cyclic_contents q)" if "cyclic_wf q" for q :: "'a apt_cyclic_queue"
    by (rule cyclic_pop [OF that])
qed

lemma cyclic_create_wf: "2 \<le> n \<Longrightarrow> cyclic_wf (apt_cyclic_queue_create n)"
  by (simp add: cyclic_wf_def apt_cyclic_queue_create_def)

lemma cyclic_create_contents [simp]: "cyclic_contents (apt_cyclic_queue_create n) = []"
  by (simp add: cyclic_contents_def apt_cyclic_queue_create_def)

lemma obj_list_create_wf [simp]: "obj_list_wf (apt_list_create a)"
  by (simp add: obj_list_wf_def apt_list_create_def)

section \<open>Properties\<close>

text \<open>C7. A cyclic queue created with at least two slots implements a first-in first-out queue: any
  sequence of pushes and pops returns what the same sequence returns on a list and leaves the
  same objects, the array being enlarged as often as needed and wherever its head and tail
  stand, and no access falls outside the array. Clearing the queue empties it.\<close>

theorem cyclic_queue_refines_fifo:
  assumes "2 \<le> n"
  shows "\<exists>q. queue_run apt_cyclic_queue_push apt_cyclic_queue_pop ops (apt_cyclic_queue_create n) =
      Inr (fst (fifo_run ops []), q) \<and> cyclic_wf q \<and> cyclic_contents q = snd (fifo_run ops []) \<and>
    cyclic_wf (apt_cyclic_queue_clear q) \<and> cyclic_contents (apt_cyclic_queue_clear q) = []"
proof -
  have "cyclic_wf (apt_cyclic_queue_clear q)" if "cyclic_wf q" for q :: "'a apt_cyclic_queue"
    using that by (auto simp: cyclic_wf_def apt_cyclic_queue_clear_def)
  moreover have "cyclic_contents (apt_cyclic_queue_clear q) = []" for q :: "'a apt_cyclic_queue"
    by (simp add: cyclic_contents_def apt_cyclic_queue_clear_def)
  ultimately show ?thesis
    using cyclic_fifo.run_refines [OF cyclic_create_wf [OF assms], of ops] by auto
qed

theorem cyclic_queue_refines_fifo_witness:
  "\<exists>q. queue_run apt_cyclic_queue_push apt_cyclic_queue_pop [QPush (1 :: nat), QPush 2, QPop, QPush 3, QPush 4, QPop]
      (apt_cyclic_queue_create 2) = Inr ([Some 1, Some 2], q) \<and> cyclic_contents q = [3, 4]"
  using cyclic_queue_refines_fifo [of 2 "[QPush (1 :: nat), QPush 2, QPop, QPush 3, QPush 4, QPop]"] by auto

text \<open>C36. Two defects of the cyclic queue. The query whether a queue is empty answers the opposite: it
  is true exactly when the queue holds an object. A queue with a single slot is not enlarged
  when it is full, since half of one is rounded down to nothing, and its second object is
  written past the end of the array.\<close>

theorem cyclic_queue_defects:
  "(apt_cyclic_queue_is_empty q \<longleftrightarrow> cyclic_contents q \<noteq> []) \<and>
   sbind (apt_cyclic_queue_push (apt_cyclic_queue_create 1) x) (\<lambda>(_, q). apt_cyclic_queue_push q y) = Inl OutOfBounds"
  by (simp add: apt_cyclic_queue_is_empty_def cyclic_contents_def apt_cyclic_queue_push_def
      apt_cyclic_queue_create_def apt_cyclic_queue_resize_def Let_def)

text \<open>C23. Removing objects from a list while visiting its elements by address removes exactly the
  objects asked for, reports them in the order of the list, and keeps the order of the others; as
  many rounds as the list has elements are enough for the loop to end, and it never follows the
  address of a removed element.\<close>

theorem list_sweep_partitions:
  assumes "obj_list_wf l"
  shows "\<exists>l'. list_sweep (length (ol_elems l)) P l (apt_list_first_elem_get l) = Inr (Some (filter P (list_objs l), l')) \<and>
    obj_list_wf l' \<and> list_objs l' = filter (\<lambda>x. \<not> P x) (list_objs l)"
proof -
  let ?l = "l\<lparr>ol_elems := filter (\<lambda>e. \<not> P (snd e)) (ol_elems l)\<rparr>"
  have "list_sweep (length (ol_elems l)) P l (apt_list_first_elem_get l) = Inr (Some (filter P (list_objs l), ?l))"
    using list_sweep_from [of "[]" "ol_elems l" l "length (ol_elems l)" P] assms
    by (simp add: obj_list_wf_def apt_list_first_elem_get_def list_objs_def)
  moreover have "obj_list_wf ?l"
    using assms by (auto simp: obj_list_wf_def distinct_map_filter list_all_iff)
  ultimately show ?thesis by (simp add: list_objs_def filter_map o_def)
qed

definition sample_list :: "nat apt_obj_list" where
  "sample_list = \<lparr>ol_elems = [(7, 10), (8, 11), (9, 12)], ol_fresh = 10\<rparr>"

theorem list_sweep_partitions_witness:
  "\<exists>l'. list_sweep 3 (\<lambda>x. x \<noteq> 11) sample_list (Some 7) = Inr (Some ([10, 12], l')) \<and> list_objs l' = [11]"
proof -
  have "obj_list_wf sample_list" by (simp add: obj_list_wf_def sample_list_def)
  then show ?thesis
    using list_sweep_partitions [of sample_list "\<lambda>x. x \<noteq> 11"]
    by (auto simp: sample_list_def list_objs_def apt_list_first_elem_get_def numeral_3_eq_3)
qed

end
