(* ===== verification/AptTimers.thy ===== *)
theory AptTimers
  imports Prelude
begin

text \<open>
  The timer queue of the toolkit (\<open>apt_timer_queue.c\<close>): one-shot timers kept in a ring sorted by the
  time they are scheduled at, which is counted in milliseconds from a moment that moves when the
  elapsed time reaches \<open>0xFFFF\<close>. Times are 32-bit words and wrap around as in the code.

  A timer is an address. The ring is the list of the addresses of its timers, and the two fields
  of a timer that matter, its scheduled time and whether it has a procedure, are functions of the
  address. Linking a timer that is already in the ring a second time destroys the ring; setting
  such a timer has the value \<open>None\<close>.

  The procedure of a timer may set and kill timers. It is a parameter: for an address and the
  state of its environment it gives the new state and the calls it makes, in order. The loop that
  processes the elapsed timers takes a bound on its rounds, and is \<open>None\<close> when the bound is too
  small.
\<close>

section \<open>The code\<close>

type_synonym timer = nat

record apt_timer_queue =
  tq_ring :: "timer list"
  tq_elapsed_time :: "32 word"
  tm_scheduled_time :: "timer \<Rightarrow> 32 word"
  tm_has_proc :: "timer \<Rightarrow> bool"

definition apt_timer_queue_create :: "apt_timer_queue" where
  "apt_timer_queue_create =
     \<lparr>tq_ring = [], tq_elapsed_time = 0, tm_scheduled_time = (\<lambda>_. 0), tm_has_proc = (\<lambda>_. False)\<rparr>"

definition apt_timer_create :: "apt_timer_queue \<Rightarrow> timer \<Rightarrow> bool \<Rightarrow> apt_timer_queue" where
  "apt_timer_create q t has_proc =
     q\<lparr>tm_scheduled_time := (tm_scheduled_time q)(t := 0), tm_has_proc := (tm_has_proc q)(t := has_proc)\<rparr>"

definition apt_timer_queue_is_empty :: "apt_timer_queue \<Rightarrow> bool" where
  "apt_timer_queue_is_empty q \<longleftrightarrow> tq_ring q = []"

definition apt_timer_queue_timeout_get :: "apt_timer_queue \<Rightarrow> 32 word option" where
  "apt_timer_queue_timeout_get q =
     (case tq_ring q of [] \<Rightarrow> None | t # _ \<Rightarrow> Some (tm_scheduled_time q t - tq_elapsed_time q))"

text \<open>The loop visits the ring from its last timer; the list is given in that order.\<close>

fun insert_backwards :: "(timer \<Rightarrow> 32 word) \<Rightarrow> timer list \<Rightarrow> timer \<Rightarrow> timer list" where
  "insert_backwards at [] t = [t]"
| "insert_backwards at (x # xs) t = (if at x \<le> at t then t # x # xs else x # insert_backwards at xs t)"

definition apt_timer_insert :: "apt_timer_queue \<Rightarrow> timer \<Rightarrow> bool \<times> apt_timer_queue" where
  "apt_timer_insert q t =
     (True, q\<lparr>tq_ring := rev (insert_backwards (tm_scheduled_time q) (rev (tq_ring q)) t)\<rparr>)"

definition apt_timer_set :: "apt_timer_queue \<Rightarrow> timer \<Rightarrow> 32 word \<Rightarrow> (bool \<times> apt_timer_queue) option" where
  "apt_timer_set q t timeout =
     (if timeout = 0 \<or> \<not> tm_has_proc q t then Some (False, q)
      else if t \<in> set (tq_ring q) then None
      else let q = q\<lparr>tm_scheduled_time := (tm_scheduled_time q)(t := tq_elapsed_time q + timeout)\<rparr>
           in if tq_ring q = [] then Some (True, q\<lparr>tq_ring := [t]\<rparr>) else Some (apt_timer_insert q t))"

definition apt_timer_kill :: "apt_timer_queue \<Rightarrow> timer \<Rightarrow> bool \<times> apt_timer_queue" where
  "apt_timer_kill q t =
     (if tm_scheduled_time q t = 0 then (False, q)
      else let q = q\<lparr>tq_ring := remove1 t (tq_ring q), tm_scheduled_time := (tm_scheduled_time q)(t := 0)\<rparr>
           in (True, if tq_ring q = [] then q\<lparr>tq_elapsed_time := 0\<rparr> else q))"

definition apt_timers_reschedule :: "apt_timer_queue \<Rightarrow> apt_timer_queue" where
  "apt_timers_reschedule q =
     q\<lparr>tm_scheduled_time := (\<lambda>t. if t \<in> set (tq_ring q) then tm_scheduled_time q t - tq_elapsed_time q
                                 else tm_scheduled_time q t),
       tq_elapsed_time := 0\<rparr>"

text \<open>The calls a procedure makes.\<close>

datatype timer_call = TimerSet timer "32 word" | TimerKill timer

fun timer_calls :: "timer_call list \<Rightarrow> apt_timer_queue \<Rightarrow> apt_timer_queue option" where
  "timer_calls [] q = Some q"
| "timer_calls (TimerSet t timeout # cs) q = Option.bind (apt_timer_set q t timeout) (\<lambda>(_, q). timer_calls cs q)"
| "timer_calls (TimerKill t # cs) q = timer_calls cs (snd (apt_timer_kill q t))"

type_synonym 'e timer_proc = "timer \<Rightarrow> 'e \<Rightarrow> 'e \<times> timer_call list"

fun timers_process :: "nat \<Rightarrow> 'e timer_proc \<Rightarrow> apt_timer_queue \<Rightarrow> 'e \<Rightarrow> (apt_timer_queue \<times> 'e) option" where
  "timers_process 0 proc q e = None"
| "timers_process (Suc n) proc q e =
     (case tq_ring q of [] \<Rightarrow> None
      | t # ts \<Rightarrow>
          if tm_scheduled_time q t > tq_elapsed_time q then Some (q, e)
          else let q = q\<lparr>tq_ring := ts, tm_scheduled_time := (tm_scheduled_time q)(t := 0)\<rparr>
               in case proc t e of (e, calls) \<Rightarrow>
                    Option.bind (timer_calls calls q) (\<lambda>q.
                      if tq_ring q = [] then Some (q, e) else timers_process n proc q e))"

definition apt_timer_queue_advance ::
  "nat \<Rightarrow> 'e timer_proc \<Rightarrow> apt_timer_queue \<Rightarrow> 32 word \<Rightarrow> 'e \<Rightarrow> (apt_timer_queue \<times> 'e) option" where
  "apt_timer_queue_advance n proc q elapsed_time e =
     (if tq_ring q = [] then Some (q, e)
      else let q = q\<lparr>tq_elapsed_time := tq_elapsed_time q + elapsed_time\<rparr>;
               q = (if tq_elapsed_time q \<ge> 0xFFFF then apt_timers_reschedule q else q)
           in timers_process n proc q e)"

section \<open>Sorted rings\<close>

text \<open>
  What every operation keeps, also in the middle of an advance: the ring is sorted by scheduled
  time and has no timer twice, a timer that is not set has no scheduled time, and the elapsed
  time stays below the mark. Between operations no timer of the ring is due.
\<close>

definition timers_wf :: "apt_timer_queue \<Rightarrow> bool" where
  "timers_wf q \<longleftrightarrow> sorted (map (tm_scheduled_time q) (tq_ring q)) \<and> distinct (tq_ring q) \<and>
     (\<forall>t. t \<notin> set (tq_ring q) \<longrightarrow> tm_scheduled_time q t = 0) \<and> tq_elapsed_time q < 0xFFFF"

definition due :: "apt_timer_queue \<Rightarrow> timer set" where
  "due q = {t \<in> set (tq_ring q). tm_scheduled_time q t \<le> tq_elapsed_time q}"

definition timers_ok :: "apt_timer_queue \<Rightarrow> bool" where
  "timers_ok q \<longleftrightarrow> timers_wf q \<and> due q = {}"

text \<open>The longest timeout that does not wrap around.\<close>

definition timeout_ok :: "32 word \<Rightarrow> bool" where
  "timeout_ok timeout \<longleftrightarrow> unat timeout \<le> 2 ^ 32 - 2 ^ 16"

lemma finite_due [simp]: "finite (due q)"
  by (simp add: due_def)

lemma insert_backwards_set [simp]: "set (insert_backwards at xs t) = insert t (set xs)"
  by (induction xs) auto

lemma insert_backwards_distinct [simp]: "distinct (insert_backwards at xs t) \<longleftrightarrow> t \<notin> set xs \<and> distinct xs"
  by (induction xs) auto

lemma insert_backwards_sorted:
  fixes at :: "timer \<Rightarrow> 32 word"
  shows "sorted_wrt (\<lambda>x y. at y \<le> at x) xs \<Longrightarrow> sorted_wrt (\<lambda>x y. at y \<le> at x) (insert_backwards at xs t)"
  by (induction xs) auto

lemma insert_backwards_sorted_rev:
  fixes at :: "timer \<Rightarrow> 32 word"
  assumes "sorted (map at xs)"
  shows "sorted (map at (rev (insert_backwards at (rev xs) t)))"
proof -
  have "sorted_wrt (\<lambda>x y. at y \<le> at x) (rev xs)" using assms by (simp add: sorted_wrt_rev sorted_wrt_map)
  from insert_backwards_sorted [OF this, of t] show ?thesis by (simp only: sorted_wrt_rev sorted_wrt_map)
qed

lemma kill_keeps:
  assumes "timers_wf q"
  shows "timers_wf (snd (apt_timer_kill q t)) \<and> due (snd (apt_timer_kill q t)) \<subseteq> due q"
proof (cases "tm_scheduled_time q t = 0")
  case False
  let ?at = "(tm_scheduled_time q)(t := 0)" and ?ring = "remove1 t (tq_ring q)"
  have t: "t \<notin> set ?ring" using assms by (simp add: timers_wf_def)
  then have "map ?at ?ring = map (tm_scheduled_time q) ?ring" by (intro map_cong) auto
  then have "sorted (map ?at ?ring)" using assms sorted_map_remove1 [of "tm_scheduled_time q" "tq_ring q" t] by (simp add: timers_wf_def)
  moreover have "x \<notin> set ?ring \<Longrightarrow> ?at x = 0" for x using assms by (auto simp: timers_wf_def)
  moreover have "distinct ?ring" "tq_elapsed_time q < 0xFFFF" using assms by (auto simp: timers_wf_def)
  moreover have "set ?ring \<subseteq> set (tq_ring q)" by (rule set_remove1_subset)
  ultimately show ?thesis
    using False t by (cases "?ring = []") (auto simp: apt_timer_kill_def Let_def timers_wf_def due_def)
qed (use assms in \<open>simp add: apt_timer_kill_def\<close>)

lemma set_keeps:
  assumes "timers_wf q" and "t \<notin> set (tq_ring q)" and "timeout_ok timeout"
  shows "\<exists>ok q'. apt_timer_set q t timeout = Some (ok, q') \<and> timers_wf q' \<and> due q' = due q \<and>
    set (tq_ring q') \<subseteq> insert t (set (tq_ring q))"
proof (cases "timeout = 0 \<or> \<not> tm_has_proc q t")
  case False
  let ?s = "tq_elapsed_time q + timeout" and ?at = "(tm_scheduled_time q)(t := tq_elapsed_time q + timeout)"
  let ?q = "q\<lparr>tm_scheduled_time := ?at, tq_ring := rev (insert_backwards ?at (rev (tq_ring q)) t)\<rparr>"
  have l: "unat (tq_elapsed_time q) < 0xFFFF" using assms(1) by (simp add: timers_wf_def word_less_nat_alt)
  have "0 < unat timeout" using False by (simp add: unat_gt_0)
  then have s: "tq_elapsed_time q < ?s"
    using l assms(3) by (simp add: word_less_nat_alt unat_word_ariths timeout_ok_def)
  have m: "map ?at (tq_ring q) = map (tm_scheduled_time q) (tq_ring q)" using assms(2) by (intro map_cong) auto
  have r: "apt_timer_set q t timeout = Some (True, ?q)"
    using False assms(2) by (auto simp: apt_timer_set_def Let_def apt_timer_insert_def)
  have "timers_wf ?q"
    using assms(1,2) insert_backwards_sorted_rev [of ?at "tq_ring q" t] m by (auto simp: timers_wf_def)
  moreover have "due ?q = due q" using s assms(2) by (auto simp: due_def)
  ultimately show ?thesis using r by auto
qed (use assms in \<open>auto simp: apt_timer_set_def\<close>)

section \<open>Procedures\<close>

text \<open>
  The calls of the procedure of the timer \<open>t\<close>: it kills whatever timers it likes, and sets no timer
  but its own, which it may set again after killing it. Whether it has set its timer is \<open>b\<close>.
\<close>

fun calls_ok :: "timer \<Rightarrow> bool \<Rightarrow> timer_call list \<Rightarrow> bool" where
  "calls_ok t b [] = True"
| "calls_ok t b (TimerKill u # cs) = calls_ok t (b \<and> u \<noteq> t) cs"
| "calls_ok t b (TimerSet u timeout # cs) \<longleftrightarrow> u = t \<and> \<not> b \<and> timeout_ok timeout \<and> calls_ok t True cs"

definition proc_ok :: "'e timer_proc \<Rightarrow> bool" where
  "proc_ok proc \<longleftrightarrow> (\<forall>t e. calls_ok t False (snd (proc t e)))"

lemma kill_ring:
  assumes "timers_wf q" and "t \<in> set (tq_ring q) \<longrightarrow> tm_scheduled_time q t \<noteq> 0"
  shows "set (tq_ring (snd (apt_timer_kill q u))) \<subseteq> set (tq_ring q)"
    and "t \<notin> set (tq_ring (snd (apt_timer_kill q t)))"
    and "u \<noteq> t \<Longrightarrow> tm_scheduled_time (snd (apt_timer_kill q u)) t = tm_scheduled_time q t"
  using assms set_remove1_subset [of u "tq_ring q"]
  by (auto simp: apt_timer_kill_def Let_def timers_wf_def)

lemma calls_keep:
  assumes "calls_ok t b calls" and "timers_wf q" and "\<not> b \<longrightarrow> t \<notin> set (tq_ring q)"
    and "t \<in> set (tq_ring q) \<longrightarrow> tm_scheduled_time q t \<noteq> 0"
  shows "\<exists>q'. timer_calls calls q = Some q' \<and> timers_wf q' \<and> due q' \<subseteq> due q"
  using assms
proof (induction t b calls arbitrary: q rule: calls_ok.induct)
  case (2 t b u cs)
  let ?q = "snd (apt_timer_kill q u)"
  note ring = kill_ring(1,3) [OF 2(3,5), of u] and kept = kill_keeps [OF 2(3), of u]
  have "t \<notin> set (tq_ring ?q)" if "\<not> (b \<and> u \<noteq> t)" using that 2(4) ring(1) kill_ring(2) [OF 2(3,5)] by blast
  moreover have "tm_scheduled_time ?q t \<noteq> 0" if "t \<in> set (tq_ring ?q)"
  proof (cases "u = t")
    case True
    then show ?thesis using that kill_ring(2) [OF 2(3,5)] by simp
  next
    case False
    then show ?thesis using that 2(5) ring(1) unfolding ring(2) [OF False] by blast
  qed
  ultimately have "\<exists>q'. timer_calls cs ?q = Some q' \<and> timers_wf q' \<and> due q' \<subseteq> due ?q"
    by (intro 2(1)) (use 2(2) kept in simp_all)
  then show ?case using kept unfolding timer_calls.simps by blast
next
  case (3 t b u timeout cs)
  have u: "u = t" "t \<notin> set (tq_ring q)" "timeout_ok timeout" "calls_ok t True cs" using 3(2,4) by auto
  obtain ok q1 where q1: "apt_timer_set q t timeout = Some (ok, q1)" "timers_wf q1" "due q1 = due q"
    using set_keeps [OF 3(3) u(2,3)] by blast
  have "tm_scheduled_time q1 t \<noteq> 0" if "t \<in> set (tq_ring q1)"
  proof
    assume "tm_scheduled_time q1 t = 0"
    then have "t \<in> due q1" using that by (simp add: due_def)
    then show False using u(2) unfolding q1(3) by (simp add: due_def)
  qed
  then have "\<exists>q'. timer_calls cs q1 = Some q' \<and> timers_wf q' \<and> due q' \<subseteq> due q1"
    by (intro 3(1)) (use u(4) q1(2) in simp_all)
  then show ?case using q1(1,3) u(1) by simp
qed simp

lemma process_ends:
  assumes "proc_ok proc" and "timers_wf q" and "tq_ring q \<noteq> []" and "card (due q) < n"
  shows "\<exists>q' e'. timers_process n proc q e = Some (q', e') \<and> timers_ok q'"
  using assms(2-4)
proof (induction n arbitrary: q e)
  case (Suc n)
  obtain t ts where r: "tq_ring q = t # ts" using Suc.prems(2) by (cases "tq_ring q") auto
  show ?case
  proof (cases "tm_scheduled_time q t > tq_elapsed_time q")
    case True
    then have "due q = {}" using Suc.prems(1) r by (auto simp: due_def timers_wf_def)
    then show ?thesis using True r Suc.prems(1) by (simp add: timers_ok_def)
  next
    case False
    let ?q = "q\<lparr>tq_ring := ts, tm_scheduled_time := (tm_scheduled_time q)(t := 0)\<rparr>"
    have d: "t \<notin> set ts" using Suc.prems(1) r by (simp add: timers_wf_def)
    then have "map ((tm_scheduled_time q)(t := 0)) ts = map (tm_scheduled_time q) ts" by (intro map_cong) auto
    then have wf: "timers_wf ?q" using Suc.prems(1) r by (auto simp: timers_wf_def)
    have "t \<in> due q" using r False by (simp add: due_def)
    moreover have "due ?q \<subseteq> due q - {t}" using d by (auto simp: due_def r split: if_splits)
    ultimately have less: "card (due ?q) < card (due q)"
      by (meson card_Diff1_less card_mono finite_Diff finite_due le_less_trans)
    have calls: "calls_ok t False (snd (proc t e))" using assms(1) by (simp add: proc_ok_def)
    obtain q1 where q1: "timer_calls (snd (proc t e)) ?q = Some q1" "timers_wf q1" "due q1 \<subseteq> due ?q"
      using calls_keep [OF calls wf] d by auto
    have "card (due q1) < n" using card_mono [OF _ q1(3)] less Suc.prems(3) by simp
    then have "tq_ring q1 \<noteq> [] \<Longrightarrow> \<exists>q' e'. timers_process n proc q1 (fst (proc t e)) = Some (q', e') \<and> timers_ok q'"
      using Suc.IH q1(2) by blast
    moreover have "tq_ring q1 = [] \<Longrightarrow> timers_ok q1" using q1(2) by (simp add: timers_ok_def due_def)
    moreover have "timers_process (Suc n) proc q e =
        (if tq_ring q1 = [] then Some (q1, fst (proc t e)) else timers_process n proc q1 (fst (proc t e)))"
      using r False q1(1) by (simp add: split_beta Let_def)
    ultimately show ?thesis by (cases "tq_ring q1 = []") simp_all
  qed
qed simp

section \<open>Advancing\<close>

text \<open>
  Advancing past the mark is harmless when no timer is overdue by then: scheduled times and the
  elapsed time move by the same amount.
\<close>

definition advance_safe :: "apt_timer_queue \<Rightarrow> 32 word \<Rightarrow> bool" where
  "advance_safe q dt \<longleftrightarrow> unat (tq_elapsed_time q) + unat dt < 0xFFFF \<or>
     unat (tq_elapsed_time q) + unat dt < 2 ^ 32 \<and>
     list_all (\<lambda>t. tq_elapsed_time q + dt \<le> tm_scheduled_time q t) (tq_ring q)"

definition advanced :: "apt_timer_queue \<Rightarrow> 32 word \<Rightarrow> apt_timer_queue" where
  "advanced q dt = (let q = q\<lparr>tq_elapsed_time := tq_elapsed_time q + dt\<rparr>
     in if tq_elapsed_time q \<ge> 0xFFFF then apt_timers_reschedule q else q)"

lemma sorted_map_mono:
  assumes "sorted (map f xs)" and "\<And>x y. x \<in> set xs \<Longrightarrow> y \<in> set xs \<Longrightarrow> f x \<le> f y \<Longrightarrow> g x \<le> g y"
  shows "sorted (map g xs)"
  using assms by (induction xs) auto

lemma advanced_wf:
  assumes "timers_wf q" and "advance_safe q dt"
  shows "timers_wf (advanced q dt) \<and> tq_ring (advanced q dt) = tq_ring q \<and>
    due (advanced q dt) = {t \<in> set (tq_ring q). tm_scheduled_time q t \<le> tq_elapsed_time q + dt}"
proof (cases "tq_elapsed_time q + dt \<ge> 0xFFFF")
  case False
  then show ?thesis using assms(1) by (auto simp: advanced_def Let_def timers_wf_def due_def)
next
  case True
  let ?e = "tq_elapsed_time q + dt" and ?at = "tm_scheduled_time q"
  have "\<not> unat (tq_elapsed_time q) + unat dt < 0xFFFF"
  proof
    assume less: "unat (tq_elapsed_time q) + unat dt < 0xFFFF"
    then have "unat ?e < 0xFFFF" by (simp add: unat_word_ariths)
    then show False using True by (simp add: word_le_nat_alt)
  qed
  then have late: "?e \<le> ?at t" if "t \<in> set (tq_ring q)" for t
    using assms(2) that by (simp add: advance_safe_def list_all_iff)
  have mono: "?at x - ?e \<le> ?at y - ?e" if "x \<in> set (tq_ring q)" "y \<in> set (tq_ring q)" "?at x \<le> ?at y" for x y
    using that(3) unfolding word_le_nat_alt unat_sub [OF late [OF that(1)]] unat_sub [OF late [OF that(2)]]
    by (rule diff_le_mono)
  have "map (\<lambda>t. if t \<in> set (tq_ring q) then ?at t - ?e else ?at t) (tq_ring q) = map (\<lambda>t. ?at t - ?e) (tq_ring q)"
    by (intro map_cong) auto
  moreover have "sorted (map (\<lambda>t. ?at t - ?e) (tq_ring q))"
    by (rule sorted_map_mono [of ?at]) (use assms(1) mono in \<open>simp_all add: timers_wf_def\<close>)
  ultimately have wf: "timers_wf (advanced q dt)"
    using True assms(1) by (simp add: advanced_def Let_def apt_timers_reschedule_def timers_wf_def cong: map_cong)
  have "?at t - ?e = 0 \<longleftrightarrow> ?at t \<le> ?e" if "t \<in> set (tq_ring q)" for t
    using late [OF that] by (metis antisym eq_iff_diff_eq_0 order_refl)
  then have "due (advanced q dt) = {t \<in> set (tq_ring q). ?at t \<le> ?e}"
    using True by (simp add: advanced_def Let_def apt_timers_reschedule_def due_def cong: conj_cong)
  then show ?thesis using wf True by (simp add: advanced_def Let_def apt_timers_reschedule_def)
qed

lemma advanced_time_left:
  assumes "t \<in> set (tq_ring q)"
  shows "tm_scheduled_time (advanced q dt) t - tq_elapsed_time (advanced q dt) =
    tm_scheduled_time q t - (tq_elapsed_time q + dt)"
  using assms by (simp add: advanced_def Let_def apt_timers_reschedule_def)

lemma advance_process:
  "tq_ring q \<noteq> [] \<Longrightarrow> apt_timer_queue_advance n proc q dt e = timers_process n proc (advanced q dt) e"
  by (simp add: apt_timer_queue_advance_def advanced_def Let_def)

lemma takeWhile_sorted:
  fixes at :: "timer \<Rightarrow> 32 word"
  shows "sorted (map at xs) \<Longrightarrow> takeWhile (\<lambda>t. at t \<le> b) xs = filter (\<lambda>t. at t \<le> b) xs \<and>
    dropWhile (\<lambda>t. at t \<le> b) xs = filter (\<lambda>t. \<not> at t \<le> b) xs"
proof (induction xs)
  case (Cons x xs)
  have "filter (\<lambda>t. at t \<le> b) xs = []" "filter (\<lambda>t. \<not> at t \<le> b) xs = xs" if "\<not> at x \<le> b"
    using Cons.prems that by (auto simp: filter_empty_conv filter_id_conv intro: order_trans)
  then show ?case using Cons by auto
qed simp

text \<open>A procedure that only notes which timer has elapsed.\<close>

definition timer_log :: "timer list timer_proc" where
  "timer_log t e = (e @ [t], [])"

abbreviation (input) is_due :: "apt_timer_queue \<Rightarrow> timer \<Rightarrow> bool" where
  "is_due q t \<equiv> tm_scheduled_time q t \<le> tq_elapsed_time q"

definition fired :: "apt_timer_queue \<Rightarrow> apt_timer_queue" where
  "fired q = q\<lparr>tq_ring := dropWhile (is_due q) (tq_ring q),
     tm_scheduled_time := (\<lambda>t. if t \<in> set (takeWhile (is_due q) (tq_ring q)) then 0 else tm_scheduled_time q t)\<rparr>"

lemma fired_step:
  assumes "distinct (t # ts)" and "tq_ring q = t # ts" and "is_due q t"
  defines "q1 \<equiv> q\<lparr>tq_ring := ts, tm_scheduled_time := (tm_scheduled_time q)(t := 0)\<rparr>"
  shows "fired q1 = fired q \<and> takeWhile (is_due q) (tq_ring q) = t # takeWhile (is_due q1) ts"
proof -
  have same: "takeWhile (is_due q1) ts = takeWhile (is_due q) ts" "dropWhile (is_due q1) ts = dropWhile (is_due q) ts"
    using assms(1) by (auto simp: q1_def intro!: takeWhile_cong dropWhile_cong)
  have "tm_scheduled_time (fired q1) = tm_scheduled_time (fired q)"
    using assms(2,3) same(1) by (auto simp: fired_def fun_eq_iff q1_def)
  moreover have "tq_ring (fired q1) = tq_ring (fired q)" using assms(2,3) same(2) by (simp add: fired_def q1_def)
  ultimately have "fired q1 = fired q" by (simp add: fired_def q1_def)
  then show ?thesis using same(1) assms(2,3) by simp
qed

lemma process_log:
  assumes "distinct (tq_ring q)" and "tq_ring q \<noteq> []" and "length (tq_ring q) < n"
  shows "timers_process n timer_log q e = Some (fired q, e @ takeWhile (is_due q) (tq_ring q))"
  using assms
proof (induction n arbitrary: q e)
  case (Suc n)
  obtain t ts where r: "tq_ring q = t # ts" using Suc.prems(2) by (cases "tq_ring q") auto
  show ?case
  proof (cases "is_due q t")
    case False
    then have "tq_elapsed_time q < tm_scheduled_time q t" by simp
    then show ?thesis using r by (simp add: fired_def)
  next
    case True
    let ?q = "q\<lparr>tq_ring := ts, tm_scheduled_time := (tm_scheduled_time q)(t := 0)\<rparr>"
    have f: "fired ?q = fired q" "takeWhile (is_due q) (tq_ring q) = t # takeWhile (is_due ?q) ts"
      using fired_step [of t ts q] Suc.prems(1) r True by simp_all
    have step: "timers_process (Suc n) timer_log q e =
        (if ts = [] then Some (?q, e @ [t]) else timers_process n timer_log ?q (e @ [t]))"
      using r leD [OF True] by (simp add: timer_log_def Let_def)
    show ?thesis
    proof (cases "ts = []")
      case True
      then have "fired q = ?q" unfolding f(1) [symmetric] by (simp add: fired_def fun_upd_def)
      then show ?thesis unfolding step f(2) using True by simp
    next
      case False
      then have "timers_process n timer_log ?q (e @ [t]) = Some (fired ?q, (e @ [t]) @ takeWhile (is_due ?q) (tq_ring ?q))"
        by (intro Suc.IH) (use Suc.prems(1,3) r in simp_all)
      moreover have "tq_ring ?q = ts" by simp
      ultimately show ?thesis using False by (simp only: step f if_False append_assoc append_Cons append_Nil)
    qed
  qed
qed simp

section \<open>Properties\<close>

text \<open>C8. Advancing a timer queue fires exactly the timers whose time has come, each once and in the
  order of their scheduled times; the others stay in the queue with the time that remains to them
  reduced by the elapsed time, and none of them is due. That holds also when the elapsed time
  passes the mark at which times are counted anew, provided no timer is overdue at that moment.\<close>

theorem due_timers_fire_in_order:
  assumes "timers_ok q" and "advance_safe q dt"
  defines "now \<equiv> tq_elapsed_time q + dt"
  shows "\<exists>q'. apt_timer_queue_advance (Suc (length (tq_ring q))) timer_log q dt [] =
      Some (q', filter (\<lambda>t. tm_scheduled_time q t \<le> now) (tq_ring q)) \<and>
    tq_ring q' = filter (\<lambda>t. now < tm_scheduled_time q t) (tq_ring q) \<and>
    sorted (map (tm_scheduled_time q) (tq_ring q)) \<and>
    (\<forall>t \<in> set (tq_ring q'). tm_scheduled_time q' t - tq_elapsed_time q' = tm_scheduled_time q t - now)"
proof (cases "tq_ring q = []")
  case False
  let ?q = "advanced q dt"
  have s: "sorted (map (tm_scheduled_time q) (tq_ring q))" "distinct (tq_ring q)" "timers_wf q"
    using assms(1) by (auto simp: timers_ok_def timers_wf_def)
  have rq: "tq_ring ?q = tq_ring q" and dq: "due ?q = {t \<in> set (tq_ring q). tm_scheduled_time q t \<le> now}"
    using advanced_wf [OF s(3) assms(2)] unfolding now_def by blast+
  let ?D = "\<lambda>t. tm_scheduled_time ?q t \<le> tq_elapsed_time ?q"
  have D: "?D t \<longleftrightarrow> tm_scheduled_time q t \<le> now" if "t \<in> set (tq_ring q)" for t
  proof -
    have "t \<in> due ?q \<longleftrightarrow> tm_scheduled_time q t \<le> now" unfolding dq using that by simp
    then show ?thesis unfolding due_def rq using that by simp
  qed
  have p: "timers_process (Suc (length (tq_ring q))) timer_log ?q [] = Some (fired ?q, takeWhile ?D (tq_ring q))"
    using process_log [of ?q "Suc (length (tq_ring q))" "[]"] s(2) False unfolding rq by simp
  have "takeWhile ?D (tq_ring q) = takeWhile (\<lambda>t. tm_scheduled_time q t \<le> now) (tq_ring q)"
    "dropWhile ?D (tq_ring q) = dropWhile (\<lambda>t. tm_scheduled_time q t \<le> now) (tq_ring q)"
    by (rule takeWhile_cong dropWhile_cong; use D in simp)+
  with takeWhile_sorted [OF s(1), of now]
  have f: "takeWhile ?D (tq_ring q) = filter (\<lambda>t. tm_scheduled_time q t \<le> now) (tq_ring q)"
    "dropWhile ?D (tq_ring q) = filter (\<lambda>t. now < tm_scheduled_time q t) (tq_ring q)"
    by (simp_all add: not_le)
  have ring: "tq_ring (fired ?q) = filter (\<lambda>t. now < tm_scheduled_time q t) (tq_ring q)"
    using f(2) by (simp add: fired_def rq)
  have left: "tm_scheduled_time (fired ?q) t - tq_elapsed_time (fired ?q) = tm_scheduled_time q t - now"
    if "t \<in> set (tq_ring (fired ?q))" for t
  proof -
    have t: "t \<in> set (tq_ring q)" "t \<notin> set (takeWhile ?D (tq_ring q))" using that unfolding ring f(1) by auto
    then have "tm_scheduled_time (fired ?q) t = tm_scheduled_time ?q t" by (simp add: fired_def rq)
    moreover have "tq_elapsed_time (fired ?q) = tq_elapsed_time ?q" by (simp add: fired_def)
    ultimately show ?thesis using advanced_time_left [OF t(1), of dt] by (simp only: now_def)
  qed
  show ?thesis
    unfolding advance_process [OF False] p f(1) using ring left s(1) by (intro exI [of _ "fired ?q"]) simp
qed (simp add: apt_timer_queue_advance_def)

definition two_timers :: apt_timer_queue where
  "two_timers = \<lparr>tq_ring = [3, 5], tq_elapsed_time = 0xFF00, tm_scheduled_time = (\<lambda>t. if t = 3 then 0x10000
     else if t = 5 then 0x10010 else 0), tm_has_proc = (\<lambda>_. True)\<rparr>"

lemma two_timers_ok: "timers_ok two_timers"
  by (auto simp: timers_ok_def timers_wf_def due_def two_timers_def)

theorem due_timers_fire_in_order_witness:
  "\<exists>q'. apt_timer_queue_advance 3 timer_log two_timers 0x100 [] = Some (q', [3]) \<and> tq_ring q' = [5]"
proof -
  have "advance_safe two_timers 0x100" by (simp add: advance_safe_def two_timers_def)
  from due_timers_fire_in_order [OF two_timers_ok this] show ?thesis
    by (auto simp: two_timers_def numeral_3_eq_3)
qed

text \<open>C14. Advancing ends, whatever timers the procedures of the elapsed timers kill, and whether or not they set their own
  timer again, under three conditions: a procedure sets no timer but its own, and does not set it twice without killing
  it in between (\<open>calls_ok\<close>); it gives timeouts of at most 2^32 - 2^16, which do not wrap around; and when
  the elapsed time passes the mark, at which times are counted anew, no timer is overdue (\<open>advance_safe\<close>;
  an overdue timer is lost then). One round per timer and one more are enough, no timer is
  linked twice, and afterwards the ring is sorted again and no timer in it is due.\<close>

theorem advance_ends:
  assumes "timers_ok q" and "advance_safe q dt" and "proc_ok proc"
  shows "\<exists>q' e'. apt_timer_queue_advance (Suc (length (tq_ring q))) proc q dt e = Some (q', e') \<and> timers_ok q'"
proof (cases "tq_ring q = []")
  case False
  have wf: "timers_wf q" using assms(1) by (simp add: timers_ok_def)
  note a = advanced_wf [OF wf assms(2)]
  have "card (due (advanced q dt)) \<le> card (set (tq_ring q))" using a by (intro card_mono) auto
  then have "card (due (advanced q dt)) < Suc (length (tq_ring q))"
    using card_length [of "tq_ring q"] by simp
  then show ?thesis
    unfolding advance_process [OF False] using a False by (intro process_ends [OF assms(3)]) simp_all
qed (use assms(1) in \<open>simp add: apt_timer_queue_advance_def\<close>)

text \<open>A periodic timer that changes its mind about the period, and stops the timer 7.\<close>

definition periodic :: "nat timer_proc" where
  "periodic t e = (e + 1, [TimerSet t 10, TimerKill t, TimerSet t 20, TimerKill 7])"

theorem advance_ends_witness:
  "\<exists>q' e'. apt_timer_queue_advance 3 periodic two_timers 0x100 0 = Some (q', e') \<and> timers_ok q'"
proof -
  have "advance_safe two_timers 0x100" by (simp add: advance_safe_def two_timers_def)
  moreover have "proc_ok periodic"
    by (simp add: proc_ok_def periodic_def timeout_ok_def)
  ultimately have "\<exists>q' e'. apt_timer_queue_advance (Suc (length (tq_ring two_timers))) periodic two_timers 0x100 0 =
      Some (q', e') \<and> timers_ok q'"
    by (rule advance_ends [OF two_timers_ok])
  then show ?thesis by (simp add: two_timers_def numeral_3_eq_3)
qed

text \<open>C37. A timer that is overdue when the elapsed time reaches the mark is lost. Counting times anew
  subtracts the elapsed time from its scheduled time, which wraps around: nothing fires, and the
  timer is left with more than twenty-four days to go.\<close>

theorem overdue_timer_lost:
  assumes "timers_ok q" and "tq_ring q = t # ts" and "0xFFFF \<le> unat (tq_elapsed_time q) + unat dt"
    and "unat (tq_elapsed_time q) + unat dt < 2 ^ 31" and "tm_scheduled_time q t < tq_elapsed_time q + dt"
  shows "\<exists>q'. apt_timer_queue_advance (Suc n) proc q dt e = Some (q', e) \<and> tq_ring q' = t # ts \<and>
    tm_scheduled_time q' t - tq_elapsed_time q' > 2 ^ 31"
proof -
  let ?now = "tq_elapsed_time q + dt"
  have now: "unat ?now = unat (tq_elapsed_time q) + unat dt" using assms(4) by (simp add: unat_word_ariths)
  then have mark: "?now \<ge> 0xFFFF" using assms(3) by (simp add: word_le_nat_alt)
  have "unat (tm_scheduled_time q t - ?now) = 2 ^ 32 + unat (tm_scheduled_time q t) - unat ?now"
    using assms(5) by (simp add: unat_sub_if_size word_size word_less_nat_alt)
  then have big: "tm_scheduled_time q t - ?now > 2 ^ 31"
    using now assms(4) by (simp add: word_less_nat_alt)
  then have "tm_scheduled_time q t - ?now > 0" by (simp add: word_less_nat_alt)
  then show ?thesis
    using big mark assms(2) by (simp add: apt_timer_queue_advance_def Let_def apt_timers_reschedule_def)
qed

theorem overdue_timer_lost_witness:
  "\<exists>q'. apt_timer_queue_advance 3 timer_log two_timers 0x105 [] = Some (q', []) \<and> tq_ring q' = [3, 5] \<and>
    tm_scheduled_time q' 3 - tq_elapsed_time q' > 2 ^ 31"
  using overdue_timer_lost [OF two_timers_ok, where t = 3 and ts = "[5]" and dt = "0x105" and n = 2 and proc = timer_log and e = "[]"]
  by (simp add: two_timers_def numeral_3_eq_3)

end
