(* ===== verification/SynthMachine.thy ===== *)
theory SynthMachine
  imports MachineBase
begin

text \<open>
  The state machine of the synthesizer (\<open>mrcp_synth_state_machine.c\<close>): idle, speaking or paused.
  SPEAK requests that arrive while one is in progress wait in a queue.
\<close>

section \<open>The code\<close>

datatype mrcp_synth_state = SYNTHESIZER_STATE_IDLE | SYNTHESIZER_STATE_SPEAKING | SYNTHESIZER_STATE_PAUSED

record synth_machine = resource_machine +
  syn_state :: mrcp_synth_state
  syn_is_pending :: bool
  syn_speaker :: "message option"
  syn_queue :: "message list"

type_synonym 'e synth_hooks = "(synth_machine, 'e) machine_hooks"
type_synonym 'e synth_handler = "(synth_machine, 'e) handler"

definition synth_request_dispatch :: "'e synth_hooks \<Rightarrow> 'e synth_handler" where
  "synth_request_dispatch H sm m e = request_dispatch H sm m e"

definition synth_response_dispatch :: "'e synth_hooks \<Rightarrow> 'e synth_handler" where
  "synth_response_dispatch H sm m e = response_dispatch H sm m e"

definition synth_event_dispatch :: "'e synth_hooks \<Rightarrow> 'e synth_handler" where
  "synth_event_dispatch H sm m e = event_dispatch H sm m e"

definition synth_state_change :: "synth_machine \<Rightarrow> mrcp_synth_state \<Rightarrow> synth_machine" where
  "synth_state_change sm st =
     (let sm = sm\<lparr>syn_state := st\<rparr> in if st = SYNTHESIZER_STATE_IDLE then sm\<lparr>syn_speaker := None\<rparr> else sm)"

definition synth_request_set_params :: "'e synth_hooks \<Rightarrow> 'e synth_handler" where
  "synth_request_set_params H sm m e =
     synth_request_dispatch H (sm\<lparr>sm_properties := mrcp_header_fields_set (sm_properties sm) (msg_header m)\<rparr>) m e"

definition synth_response_set_params :: "'e synth_hooks \<Rightarrow> 'e synth_handler" where
  "synth_response_set_params H sm m e = synth_response_dispatch H sm m e"

definition synth_request_get_params :: "'e synth_hooks \<Rightarrow> 'e synth_handler" where
  "synth_request_get_params H sm m e = synth_request_dispatch H sm m e"

definition synth_response_get_params :: "'e synth_hooks \<Rightarrow> 'e synth_handler" where
  "synth_response_get_params H sm m e =
     (case sm_active_request sm of None \<Rightarrow> Inl NullDeref
      | Some active \<Rightarrow>
          synth_response_dispatch H sm
            (m\<lparr>msg_header := mrcp_header_fields_get (msg_header m) (sm_properties sm) (msg_header active)\<rparr>) e)"

definition synth_request_speak :: "apr \<Rightarrow> 'e synth_hooks \<Rightarrow> 'e synth_handler" where
  "synth_request_speak A H sm m e =
     (let m = m\<lparr>msg_header := mrcp_header_fields_inherit (msg_header m) (sm_properties sm)\<rparr>
      in if syn_speaker sm \<noteq> None
         then let m = set_request_state MRCP_REQUEST_STATE_PENDING m
              in respond A H (set_request_state MRCP_REQUEST_STATE_PENDING) (sm\<lparr>syn_queue := syn_queue sm @ [m]\<rparr>) m e
         else synth_request_dispatch H sm m e)"

definition synth_response_speak :: "apr \<Rightarrow> 'e synth_hooks \<Rightarrow> 'e synth_handler" where
  "synth_response_speak A H sm m e =
     (let sm = (if request_state m = MRCP_REQUEST_STATE_INPROGRESS
                then synth_state_change (sm\<lparr>syn_speaker := sm_active_request sm\<rparr>) SYNTHESIZER_STATE_SPEAKING
                else sm)
      in if syn_is_pending sm
         then case sm_active_request sm of None \<Rightarrow> Inl NullDeref
              | Some active \<Rightarrow> sbind (mrcp_event_create A (Some active) SYNTHESIZER_SPEECH_MARKER) (\<lambda>event.
                  synth_event_dispatch H (sm\<lparr>syn_is_pending := False\<rparr>)
                    (set_request_state MRCP_REQUEST_STATE_INPROGRESS event) e)
         else synth_response_dispatch H sm m e)"

definition synth_pending_requests_remove :: "synth_machine \<Rightarrow> message \<Rightarrow> message \<Rightarrow> fault + synth_machine \<times> message" where
  "synth_pending_requests_remove sm request response =
     sbind (pending_requests_remove (syn_queue sm) request response) (\<lambda>(q, response).
       Inr (sm\<lparr>syn_queue := q\<rparr>, response))"

definition synth_request_stop :: "apr \<Rightarrow> 'e synth_hooks \<Rightarrow> 'e synth_handler" where
  "synth_request_stop A H sm m e =
     (if (case syn_speaker sm of None \<Rightarrow> False | Some s \<Rightarrow> selected m (req_id s))
      then synth_request_dispatch H sm m e
      else sbind (mrcp_response_create A (Some m)) (\<lambda>response.
             sbind (synth_pending_requests_remove sm m response) (\<lambda>(sm, response).
               synth_response_dispatch H sm response e)))"

text \<open>The next pending request is sent to the engine after something else was dispatched.\<close>

definition synth_pending_dispatch :: "'e synth_hooks \<Rightarrow> message option \<Rightarrow> synth_machine \<Rightarrow> 'e \<Rightarrow> (synth_machine, 'e) machine_result" where
  "synth_pending_dispatch H pending sm e =
     (case pending of None \<Rightarrow> Inr (True, sm, e)
      | Some m \<Rightarrow> sbind (synth_request_dispatch H (sm\<lparr>syn_is_pending := True\<rparr>) m e) (\<lambda>(_, sm, e). Inr (True, sm, e)))"

definition synth_queue_pop :: "synth_machine \<Rightarrow> message option \<times> synth_machine" where
  "synth_queue_pop sm =
     (case syn_queue sm of [] \<Rightarrow> (None, sm) | m # q \<Rightarrow> (Some m, sm\<lparr>syn_queue := q\<rparr>))"

definition synth_response_stop :: "'e synth_hooks \<Rightarrow> 'e synth_handler" where
  "synth_response_stop H sm m e =
     (case (syn_speaker sm, sm_active_request sm) of
        (Some s, Some active) \<Rightarrow>
          sbind (active_id_add m (req_id s)) (\<lambda>m.
            sbind (synth_pending_requests_remove sm active m) (\<lambda>(sm, m).
              case synth_queue_pop (synth_state_change sm SYNTHESIZER_STATE_IDLE) of (pending, sm) \<Rightarrow>
                sbind (synth_response_dispatch H sm m e) (\<lambda>(_, sm, e). synth_pending_dispatch H pending sm e)))
      | _ \<Rightarrow> Inl NullDeref)"

definition synth_request_pause :: "apr \<Rightarrow> 'e synth_hooks \<Rightarrow> 'e synth_handler" where
  "synth_request_pause A H sm m e =
     sbind (if syn_speaker sm \<noteq> None
            then if syn_state sm = SYNTHESIZER_STATE_SPEAKING then synth_request_dispatch H sm m e else respond A H id sm m e
            else respond A H (set_status_code MRCP_STATUS_CODE_METHOD_NOT_VALID) sm m e) (\<lambda>(_, sm, e). Inr (True, sm, e))"

definition synth_response_pause :: "'e synth_hooks \<Rightarrow> 'e synth_handler" where
  "synth_response_pause H sm m e =
     sbind (if status m = MRCP_STATUS_CODE_SUCCESS
            then case syn_speaker sm of None \<Rightarrow> Inl NullDeref
                 | Some s \<Rightarrow> sbind (active_id_add m (req_id s)) (\<lambda>m. Inr (synth_state_change sm SYNTHESIZER_STATE_PAUSED, m))
            else Inr (sm, m)) (\<lambda>(sm, m).
       sbind (synth_response_dispatch H sm m e) (\<lambda>(_, sm, e). Inr (True, sm, e)))"

definition synth_request_resume :: "apr \<Rightarrow> 'e synth_hooks \<Rightarrow> 'e synth_handler" where
  "synth_request_resume A H sm m e =
     sbind (if syn_speaker sm \<noteq> None
            then if syn_state sm = SYNTHESIZER_STATE_PAUSED then synth_request_dispatch H sm m e else respond A H id sm m e
            else respond A H (set_status_code MRCP_STATUS_CODE_METHOD_NOT_VALID) sm m e) (\<lambda>(_, sm, e). Inr (True, sm, e))"

definition synth_response_resume :: "'e synth_hooks \<Rightarrow> 'e synth_handler" where
  "synth_response_resume H sm m e =
     sbind (if status m = MRCP_STATUS_CODE_SUCCESS
            then case syn_speaker sm of None \<Rightarrow> Inl NullDeref
                 | Some s \<Rightarrow> sbind (active_id_add m (req_id s)) (\<lambda>m. Inr (synth_state_change sm SYNTHESIZER_STATE_SPEAKING, m))
            else Inr (sm, m)) (\<lambda>(sm, m).
       sbind (synth_response_dispatch H sm m e) (\<lambda>(_, sm, e). Inr (True, sm, e)))"

definition kill_on_barge_in :: "message \<Rightarrow> fault + bool" where
  "kill_on_barge_in m =
     (case mrcp_resource_header_get m of None \<Rightarrow> Inr True
      | Some d \<Rightarrow>
          if mrcp_resource_header_property_check m SYNTHESIZER_HEADER_KILL_ON_BARGE_IN
          then case synth_data d of None \<Rightarrow> Inl OutOfBounds | Some h \<Rightarrow> Inr (sh_kill_on_barge_in h)
          else Inr True)"

definition synth_request_barge_in_occurred :: "apr \<Rightarrow> 'e synth_hooks \<Rightarrow> 'e synth_handler" where
  "synth_request_barge_in_occurred A H sm m e =
     sbind (if syn_speaker sm \<noteq> None then kill_on_barge_in m else Inr False) (\<lambda>kill.
       if kill then synth_request_dispatch H sm m e else respond A H id sm m e)"

definition synth_response_barge_in_occurred :: "'e synth_hooks \<Rightarrow> 'e synth_handler" where
  "synth_response_barge_in_occurred H sm m e =
     (case (syn_speaker sm, sm_active_request sm) of
        (Some s, Some active) \<Rightarrow>
          sbind (active_id_add m (req_id s)) (\<lambda>m.
            sbind (synth_pending_requests_remove sm active m) (\<lambda>(sm, m).
              synth_response_dispatch H (synth_state_change sm SYNTHESIZER_STATE_IDLE) m e))
      | _ \<Rightarrow> Inl NullDeref)"

definition synth_request_control :: "apr \<Rightarrow> 'e synth_hooks \<Rightarrow> 'e synth_handler" where
  "synth_request_control A H sm m e =
     (if syn_state sm = SYNTHESIZER_STATE_SPEAKING then synth_request_dispatch H sm m e
      else respond A H id sm m e)"

definition synth_response_control :: "'e synth_hooks \<Rightarrow> 'e synth_handler" where
  "synth_response_control H sm m e =
     (case syn_speaker sm of None \<Rightarrow> Inl NullDeref
      | Some s \<Rightarrow> sbind (active_id_add m (req_id s)) (\<lambda>m. synth_response_dispatch H sm m e))"

definition synth_request_define_lexicon :: "apr \<Rightarrow> 'e synth_hooks \<Rightarrow> 'e synth_handler" where
  "synth_request_define_lexicon A H sm m e =
     (if syn_state sm = SYNTHESIZER_STATE_IDLE then synth_request_dispatch H sm m e
      else respond A H (set_status_code MRCP_STATUS_CODE_METHOD_NOT_VALID) sm m e)"

definition synth_response_define_lexicon :: "'e synth_hooks \<Rightarrow> 'e synth_handler" where
  "synth_response_define_lexicon H sm m e = synth_response_dispatch H sm m e"

definition synth_event_speech_marker :: "'e synth_hooks \<Rightarrow> 'e synth_handler" where
  "synth_event_speech_marker H sm m e =
     (case syn_speaker sm of None \<Rightarrow> Inr (False, sm, e)
      | Some r \<Rightarrow>
          if req_id r \<noteq> req_id m then Inr (False, sm, e)
          else synth_event_dispatch H sm (set_request_state MRCP_REQUEST_STATE_INPROGRESS m) e)"

fun synth_cause_put :: "resource_header \<Rightarrow> resource_header option" where
  "synth_cause_put (SynthData h) = Some (SynthData (h\<lparr>sh_completion_cause := SYNTHESIZER_COMPLETION_CAUSE_NORMAL\<rparr>))"
| "synth_cause_put _ = None"

definition synth_event_speak_complete :: "'e synth_hooks \<Rightarrow> 'e synth_handler" where
  "synth_event_speak_complete H sm m e =
     (case syn_speaker sm of None \<Rightarrow> Inr (False, sm, e)
      | Some s \<Rightarrow>
          if req_id s \<noteq> req_id m then Inr (False, sm, e)
          else if waiting_for sm SYNTHESIZER_STOP then Inr (False, sm, e)
          else sbind (completion_cause_default SYNTHESIZER_HEADER_COMPLETION_CAUSE synth_cause_put m) (\<lambda>m.
                 sbind (synth_event_dispatch H (synth_state_change sm SYNTHESIZER_STATE_IDLE) m e) (\<lambda>(_, sm, e).
                   case synth_queue_pop sm of (pending, sm) \<Rightarrow> synth_pending_dispatch H pending sm e)))"

definition synth_request_method_array :: "apr \<Rightarrow> 'e synth_hooks \<Rightarrow> 'e synth_handler list" where
  "synth_request_method_array A H =
     [synth_request_set_params H, synth_request_get_params H, synth_request_speak A H,
      synth_request_stop A H, synth_request_pause A H, synth_request_resume A H,
      synth_request_barge_in_occurred A H, synth_request_control A H, synth_request_define_lexicon A H]"

definition synth_response_method_array :: "apr \<Rightarrow> 'e synth_hooks \<Rightarrow> 'e synth_handler list" where
  "synth_response_method_array A H =
     [synth_response_set_params H, synth_response_get_params H, synth_response_speak A H,
      synth_response_stop H, synth_response_pause H, synth_response_resume H,
      synth_response_barge_in_occurred H, synth_response_control H, synth_response_define_lexicon H]"

definition synth_event_method_array :: "'e synth_hooks \<Rightarrow> 'e synth_handler list" where
  "synth_event_method_array H =
     [synth_event_speech_marker H, synth_event_speak_complete H]"

definition synth_request_state_update :: "apr \<Rightarrow> 'e synth_hooks \<Rightarrow> 'e synth_handler" where
  "synth_request_state_update A H = request_update H SYNTHESIZER_METHOD_COUNT (synth_request_method_array A H)"

definition synth_response_state_update :: "apr \<Rightarrow> 'e synth_hooks \<Rightarrow> 'e synth_handler" where
  "synth_response_state_update A H = response_update H SYNTHESIZER_METHOD_COUNT (synth_response_method_array A H)"

definition synth_event_state_update :: "'e synth_hooks \<Rightarrow> 'e synth_handler" where
  "synth_event_state_update H = event_update H SYNTHESIZER_EVENT_COUNT (synth_event_method_array H)"

definition synth_state_update :: "apr \<Rightarrow> 'e synth_hooks \<Rightarrow> 'e synth_handler" where
  "synth_state_update A H =
     state_update (synth_request_state_update A H) (synth_response_state_update A H) (synth_event_state_update H)"

definition synth_state_deactivate :: "apr \<Rightarrow> 'e synth_hooks \<Rightarrow> synth_machine \<Rightarrow> 'e \<Rightarrow> (synth_machine, 'e) machine_result" where
  "synth_state_deactivate A H sm e =
     (case syn_speaker sm of None \<Rightarrow> Inr (False, sm, e)
      | Some source \<Rightarrow> sbind (internal_stop A source SYNTHESIZER_STOP) (\<lambda>m. synth_request_dispatch H sm m e))"

definition mrcp_synth_state_machine_create ::
  "apr \<Rightarrow> c_flt \<Rightarrow> resource_header message_header \<Rightarrow> mrcp_version \<Rightarrow> synth_machine" where
  "mrcp_synth_state_machine_create A F block version =
     \<lparr>sm_active = True, sm_active_request = None,
      sm_properties = mrcp_message_header_create block (Some (mrcp_generic_header_vtable_get A version))
        (Some (resource_vtable A F MRCP_SYNTHESIZER_RESOURCE version)),
      syn_state = SYNTHESIZER_STATE_IDLE, syn_is_pending = False, syn_speaker = None, syn_queue = []\<rparr>"

section \<open>The invariant\<close>

text \<open>
  The machine knows the SPEAK request in progress exactly when it is not idle, it waits for the
  answer to a STOP request only while there is one, and the queue holds pending SPEAK requests.
\<close>

definition synth_inv :: "synth_machine \<Rightarrow> bool" where
  "synth_inv sm \<longleftrightarrow> (syn_speaker sm = None \<longleftrightarrow> syn_state sm = SYNTHESIZER_STATE_IDLE) \<and>
     (waiting_for sm SYNTHESIZER_STOP \<longrightarrow> syn_speaker sm \<noteq> None) \<and>
     queue_ok SYNTHESIZER_SPEAK (syn_queue sm) \<and>
     opt_ok (sm_active_request sm) \<and> opt_ok (syn_speaker sm)"

text \<open>
  What the machine does not survive while no SPEAK request is in progress: the answer to a PAUSE,
  RESUME, CONTROL or BARGE-IN-OCCURRED request, which arrives after the SPEAK request has completed,
  and a response to STOP that has the identifier of another request.
\<close>

definition synth_hazard :: "synth_machine \<Rightarrow> message \<Rightarrow> bool" where
  "synth_hazard sm m \<longleftrightarrow> message_type m = MRCP_MESSAGE_TYPE_RESPONSE \<and> syn_speaker sm = None \<and>
     (case sm_active_request sm of None \<Rightarrow> False | Some active \<Rightarrow> req_id active = req_id m) \<and>
     (method_id m \<in> {SYNTHESIZER_BARGE_IN_OCCURRED, SYNTHESIZER_CONTROL} \<or>
      method_id m \<in> {SYNTHESIZER_PAUSE, SYNTHESIZER_RESUME} \<and> status m = MRCP_STATUS_CODE_SUCCESS \<or>
      method_id m = SYNTHESIZER_STOP \<and> answers_other sm m)"

definition synth_admissible :: "apr \<Rightarrow> c_flt \<Rightarrow> synth_machine \<Rightarrow> message \<Rightarrow> bool" where
  "synth_admissible A F sm m \<longleftrightarrow> apr_ok A \<and> machine_message A F MRCP_SYNTHESIZER_RESOURCE m"

lemma waiting_for_synth [simp]:
  "waiting_for (sm\<lparr>syn_state := v0\<rparr>) i = waiting_for sm i"
  "waiting_for (sm\<lparr>syn_speaker := v1\<rparr>) i = waiting_for sm i"
  "waiting_for (sm\<lparr>syn_queue := v2\<rparr>) i = waiting_for sm i"
  "waiting_for (sm\<lparr>syn_is_pending := v3\<rparr>) i = waiting_for sm i"
  by (simp_all add: waiting_for_def)

lemma synth_cause: "cause_ok A F MRCP_SYNTHESIZER_RESOURCE SYNTHESIZER_HEADER_COMPLETION_CAUSE synth_cause_put"
proof -
  have "(\<exists>d'. synth_cause_put d = Some d' \<and> header_type d' = MRCP_SYNTHESIZER_RESOURCE) \<and>
      no_fault (vt_generate (resource_vtable A F MRCP_SYNTHESIZER_RESOURCE version) SYNTHESIZER_HEADER_COMPLETION_CAUSE d v)"
    if "header_type d = MRCP_SYNTHESIZER_RESOURCE" for d v version
    using that by (cases d) (simp_all add: resource_vtables data_vtable_def mrcp_synth_header_vtable_def
        mrcp_synth_header_generate_def)
  then show ?thesis by (simp add: cause_ok_def)
qed

lemmas synth_dispatch_defs = synth_request_dispatch_def synth_response_dispatch_def synth_event_dispatch_def
  synth_state_change_def

lemmas synth_request_defs = synth_request_set_params_def synth_request_get_params_def synth_request_speak_def synth_request_stop_def
  synth_request_pause_def synth_request_resume_def synth_request_barge_in_occurred_def synth_request_control_def
  synth_request_define_lexicon_def
  synth_dispatch_defs

lemmas synth_response_defs = synth_response_set_params_def synth_response_get_params_def synth_response_speak_def synth_response_stop_def
  synth_response_pause_def synth_response_resume_def synth_response_barge_in_occurred_def
  synth_response_control_def synth_response_define_lexicon_def
  synth_dispatch_defs

lemma kill_on_barge_in_ok:
  assumes "machine_message A F MRCP_SYNTHESIZER_RESOURCE m"
  shows "\<exists>b. kill_on_barge_in m = Inr b"
proof -
  obtain d where d: "acc_data (mh_resource (msg_header m)) = Some d" "header_type d = MRCP_SYNTHESIZER_RESOURCE"
    using assms by (auto simp: machine_message_def)
  then show ?thesis by (cases d) (auto simp: kill_on_barge_in_def mrcp_resource_header_get_def)
qed

lemma safe_kill:
  assumes "machine_message A F MRCP_SYNTHESIZER_RESOURCE m" and "\<And>b. safe I (f b)"
  shows "safe I (sbind (kill_on_barge_in m) f)"
  using kill_on_barge_in_ok [OF assms(1)] assms(2) by auto

lemma synth_request_safe:
  assumes "hooks_ok synth_inv H" and "synth_inv sm" and "apr_ok A" and "machine_message A F MRCP_SYNTHESIZER_RESOURCE m"
  shows "safe synth_inv (synth_request_state_update A H sm m e)"
  unfolding synth_request_state_update_def
proof (rule safe_request_update)
  fix i :: nat
  assume i: "i < length (synth_request_method_array A H)" "method_id m = i"
  have ok: "res_ok m" "generic_ok A m" using assms(4) by (simp_all add: machine_message_def)
  from i(1) have "i = 0 \<or> i = 1 \<or> i = 2 \<or> i = 3 \<or> i = 4 \<or> i = 5 \<or> i = 6 \<or> i = 7 \<or> i = 8" by (simp add: synth_request_method_array_def) arith
  then show "safe synth_inv ((synth_request_method_array A H ! i) sm m e)"
    using assms(1-4) ok i(2)
    by (elim disjE) (auto simp: synth_request_method_array_def synth_request_defs Let_def synth_inv_def
        synth_pending_requests_remove_def sbind_assoc
        intro!: safe_request safe_respond safe_response safe_response_create safe_pending safe_Inr safe_bind safe_kill split: option.split)
qed (use assms in \<open>simp_all add: synth_request_method_array_def\<close>)

lemma synth_response_safe:
  assumes "hooks_ok synth_inv H" and "synth_inv sm" and "apr_ok A" and "machine_message A F MRCP_SYNTHESIZER_RESOURCE m"
    and "message_type m = MRCP_MESSAGE_TYPE_RESPONSE" and "\<not> synth_hazard sm m"
  shows "safe synth_inv (synth_response_state_update A H sm m e)"
  unfolding synth_response_state_update_def
proof (rule safe_response_update)
  fix i :: nat and active
  assume i: "i < length (synth_response_method_array A H)" "method_id m = i"
    and a: "sm_active_request sm = Some active" "req_id active = req_id m"
  have ok: "res_ok m" "generic_ok A m" using assms(4) by (simp_all add: machine_message_def)
  have facts: "i = SYNTHESIZER_STOP \<Longrightarrow> syn_speaker sm \<noteq> None"
    "i \<in> {SYNTHESIZER_BARGE_IN_OCCURRED, SYNTHESIZER_CONTROL} \<Longrightarrow> syn_speaker sm \<noteq> None"
    "i \<in> {SYNTHESIZER_PAUSE, SYNTHESIZER_RESUME} \<Longrightarrow> status m = MRCP_STATUS_CODE_SUCCESS \<Longrightarrow> syn_speaker sm \<noteq> None"
    using assms(2,5,6) a i(2) by (auto simp: synth_inv_def waiting_for_def synth_hazard_def answers_other_def)
  from i(1) have "i = 0 \<or> i = 1 \<or> i = 2 \<or> i = 3 \<or> i = 4 \<or> i = 5 \<or> i = 6 \<or> i = 7 \<or> i = 8" by (simp add: synth_response_method_array_def) arith
  then show "safe synth_inv ((synth_response_method_array A H ! i) sm m e)"
    using assms(1-3) ok facts a(1)
    by (elim disjE) (auto simp: synth_response_method_array_def synth_response_defs Let_def synth_inv_def
        synth_pending_requests_remove_def synth_queue_pop_def synth_pending_dispatch_def sbind_assoc
        intro!: safe_response safe_active_id safe_pending safe_bind safe_request safe_Inr safe_event safe_event_create
          safe_completion_cause split: option.split list.split dest!: queue_ok_pop [where i = 2])
qed (use assms in \<open>simp_all add: synth_response_method_array_def\<close>)

lemma synth_event_safe:
  assumes "hooks_ok synth_inv H" and "synth_inv sm" and "machine_message A F MRCP_SYNTHESIZER_RESOURCE m"
  shows "safe synth_inv (synth_event_state_update H sm m e)"
  unfolding synth_event_state_update_def
proof (rule safe_event_update)
  fix i :: nat
  assume i: "i < length (synth_event_method_array H)" "method_id m = i"
  then have "i = 0 \<or> i = 1" by (simp add: synth_event_method_array_def) arith
  then show "safe synth_inv ((synth_event_method_array H ! i) sm m e)"
    using assms synth_cause [of A F]
    by (elim disjE) (auto simp: synth_event_method_array_def Let_def synth_inv_def
        synth_event_speech_marker_def synth_event_speak_complete_def synth_dispatch_defs
        synth_queue_pop_def synth_pending_dispatch_def split: option.split list.split
        intro!: safe_event safe_Inr safe_completion_cause safe_bind safe_request)
qed (use assms in \<open>simp_all add: synth_event_method_array_def\<close>)

lemma synth_update_safe:
  assumes "hooks_ok synth_inv H" and "synth_inv sm" and "synth_admissible A F sm m" and "\<not> synth_hazard sm m"
  shows "safe synth_inv (synth_state_update A H sm m e)"
  unfolding synth_state_update_def
proof (rule safe_state_update)
  have m: "apr_ok A" "machine_message A F MRCP_SYNTHESIZER_RESOURCE m"
    using assms(3) by (simp_all add: synth_admissible_def)
  show "safe synth_inv (synth_request_state_update A H sm m e)"
    by (rule synth_request_safe [OF assms(1,2) m(1,2)])
  show "safe synth_inv (synth_response_state_update A H sm m e)" if "message_type m = MRCP_MESSAGE_TYPE_RESPONSE"
    by (rule synth_response_safe [OF assms(1,2) m(1,2) that assms(4)])
  show "safe synth_inv (synth_event_state_update H sm m e)"
    by (rule synth_event_safe [OF assms(1,2) m(2)])
qed (rule assms(2))

definition synth_deactivate :: "apr \<Rightarrow> 'e synth_hooks \<Rightarrow> synth_machine \<Rightarrow> 'e \<Rightarrow> (synth_machine, 'e) machine_result" where
  "synth_deactivate A H = mrcp_state_machine_deactivate (Some (synth_state_deactivate A H))"

lemma synth_deactivate_safe:
  assumes "hooks_ok synth_inv H" and "synth_inv sm"
  shows "safe synth_inv (synth_deactivate A H sm e)"
  using assms
  by (auto simp: synth_deactivate_def mrcp_state_machine_deactivate_def synth_state_deactivate_def synth_inv_def
      synth_dispatch_defs split: option.split intro!: safe_Inr safe_stop_create safe_request)

lemmas synth_update_defs = synth_state_update_def state_update_def request_update_def response_update_def event_update_def
  synth_request_state_update_def synth_response_state_update_def synth_event_state_update_def
  synth_request_method_array_def synth_response_method_array_def synth_event_method_array_def
  request_dispatch_def response_dispatch_def event_dispatch_def log_hooks_def

lemma synth_hazard_faults:
  assumes "synth_hazard sm m"
  shows "synth_state_update A H sm m e = Inl NullDeref"
  using assms unfolding synth_hazard_def answers_other_def
  by (auto simp: synth_update_defs synth_response_barge_in_occurred_def synth_response_control_def synth_response_pause_def
      synth_response_resume_def synth_response_stop_def split: option.splits)

interpretation synth_machine: resource_state_machine synth_inv
  "synth_admissible A F" synth_hazard "synth_state_update A" "synth_deactivate A" for A F
  by (rule resource_state_machine.intro; (rule synth_update_safe synth_hazard_faults synth_deactivate_safe; assumption))

lemma synth_inv_create: "synth_inv (mrcp_synth_state_machine_create A F block version)"
  by (simp add: synth_inv_def mrcp_synth_state_machine_create_def waiting_for_def)

section \<open>Properties\<close>

text \<open>A message of a type and method, for a request.\<close>

definition message_is :: "mrcp_message_type \<Rightarrow> nat \<Rightarrow> request_id \<Rightarrow> message \<Rightarrow> bool" where
  "message_is type i rid m \<longleftrightarrow> message_type m = type \<and> method_id m = i \<and> req_id m = rid"


definition synth_sample :: "mrcp_message_type \<Rightarrow> nat \<Rightarrow> request_id \<Rightarrow> mrcp_request_state \<Rightarrow> message" where
  "synth_sample type i rid st = sample_message apr_ref five_flt MRCP_SYNTHESIZER_RESOURCE type i rid st MRCP_STATUS_CODE_SUCCESS"

definition synth_sample_start :: synth_machine where
  "synth_sample_start = mrcp_synth_state_machine_create apr_ref five_flt
     (msg_header (mrcp_message_create apr_ref)) MRCP_VERSION_2"


section \<open>A queue that drains\<close>

lemma speak_completed:
  assumes "synth_inv sm" and "sm_active sm" and "syn_speaker sm = Some cur" and "\<not> waiting_for sm SYNTHESIZER_STOP"
    and "message_is MRCP_MESSAGE_TYPE_EVENT SYNTHESIZER_SPEAK_COMPLETE (req_id cur) m"
    and "machine_message A F MRCP_SYNTHESIZER_RESOURCE m"
  shows "\<exists>m'. msg_start_line m' = msg_start_line m \<and> synth_state_update A log_hooks sm m out =
    (case syn_queue sm of
       [] \<Rightarrow> Inr (True, sm\<lparr>syn_state := SYNTHESIZER_STATE_IDLE, syn_speaker := None\<rparr>, out @ [Dispatched m'])
     | p # q \<Rightarrow> Inr (True, sm\<lparr>syn_state := SYNTHESIZER_STATE_IDLE, syn_speaker := None, syn_queue := q,
           syn_is_pending := True, sm_active_request := Some p\<rparr>, out @ [Dispatched m', Dispatched p]))"
proof -
  obtain m' where m': "completion_cause_default SYNTHESIZER_HEADER_COMPLETION_CAUSE synth_cause_put m = Inr m'"
    "msg_start_line m' = msg_start_line m"
    using completion_cause_ok [OF assms(6), of synth_cause_put SYNTHESIZER_HEADER_COMPLETION_CAUSE] synth_cause [of A F]
    unfolding cause_ok_def by blast
  show ?thesis
    using assms(2-5) m' unfolding message_is_def
    by (intro exI [of _ m'] conjI) (auto simp: synth_update_defs synth_event_speak_complete_def synth_event_dispatch_def
        synth_state_change_def synth_queue_pop_def synth_pending_dispatch_def synth_request_dispatch_def split: list.split)
qed

lemma speak_started:
  assumes "syn_is_pending sm" and "sm_active_request sm = Some p" and "sm_active sm" and "res_ok p"
    and "message_is MRCP_MESSAGE_TYPE_RESPONSE SYNTHESIZER_SPEAK (req_id p) m" and "request_state m = MRCP_REQUEST_STATE_INPROGRESS"
  shows "\<exists>m'. message_is MRCP_MESSAGE_TYPE_EVENT SYNTHESIZER_SPEECH_MARKER (req_id p) m' \<and>
    synth_state_update A log_hooks sm m out =
      Inr (True, sm\<lparr>syn_speaker := Some p, syn_state := SYNTHESIZER_STATE_SPEAKING, syn_is_pending := False\<rparr>,
        out @ [Dispatched m'])"
proof -
  obtain ev where ev: "mrcp_event_create A (Some p) SYNTHESIZER_SPEECH_MARKER = Inr ev"
    "message_type ev = MRCP_MESSAGE_TYPE_EVENT" "req_id ev = req_id p" "method_id ev = SYNTHESIZER_SPEECH_MARKER"
    using event_created [OF assms(4), of A SYNTHESIZER_SPEECH_MARKER] by blast
  show ?thesis
    using assms(1-3,5,6) ev unfolding message_is_def
    by (intro exI [of _ "set_request_state MRCP_REQUEST_STATE_INPROGRESS ev"])
      (simp add: synth_update_defs synth_response_speak_def synth_event_dispatch_def synth_state_change_def Let_def
        set_request_state_def)
qed

text \<open>
  What an engine sends that speaks a request and then the pending ones: SPEAK-COMPLETE for the
  one in progress, then the response that the next one has started, and so on.
\<close>

fun engine_speaks :: "(request_id \<Rightarrow> message) \<Rightarrow> (request_id \<Rightarrow> message) \<Rightarrow> request_id \<Rightarrow> request_id list \<Rightarrow> machine_input list" where
  "engine_speaks started completed cur [] = [Receive (completed cur)]"
| "engine_speaks started completed cur (p # q) =
     Receive (completed cur) # Receive (started p) # engine_speaks started completed p q"

definition speaks_ok :: "apr \<Rightarrow> c_flt \<Rightarrow> (request_id \<Rightarrow> message) \<Rightarrow> (request_id \<Rightarrow> message) \<Rightarrow> bool" where
  "speaks_ok A F started completed \<longleftrightarrow>
     (\<forall>i. message_is MRCP_MESSAGE_TYPE_RESPONSE SYNTHESIZER_SPEAK i (started i) \<and>
          request_state (started i) = MRCP_REQUEST_STATE_INPROGRESS \<and>
          message_is MRCP_MESSAGE_TYPE_EVENT SYNTHESIZER_SPEAK_COMPLETE i (completed i) \<and>
          machine_message A F MRCP_SYNTHESIZER_RESOURCE (completed i))"

text \<open>The requests that were sent to the engine, and the requests the client was told to be complete.\<close>

fun sent_requests :: "machine_output list \<Rightarrow> message list" where
  "sent_requests [] = []"
| "sent_requests (Dispatched m # out) =
     (if message_type m = MRCP_MESSAGE_TYPE_REQUEST then m # sent_requests out else sent_requests out)"
| "sent_requests (Deactivated # out) = sent_requests out"

fun completed_ids :: "machine_output list \<Rightarrow> request_id list" where
  "completed_ids [] = []"
| "completed_ids (Dispatched m # out) =
     (if message_type m = MRCP_MESSAGE_TYPE_EVENT \<and> method_id m = SYNTHESIZER_SPEAK_COMPLETE
      then req_id m # completed_ids out else completed_ids out)"
| "completed_ids (Deactivated # out) = completed_ids out"

lemma queue_drains:
  assumes "speaks_ok A F started completed" and "list_all (\<lambda>m. message_type m = MRCP_MESSAGE_TYPE_REQUEST) (syn_queue sm)"
    and "synth_inv sm" and "sm_active sm" and "syn_speaker sm = Some cur" and "\<not> waiting_for sm SYNTHESIZER_STOP"
    and "syn_queue sm = q"
  shows "\<exists>sm' out'. machine_feed (synth_state_update A log_hooks) deactivate 
      (engine_speaks started completed (req_id cur) (map req_id q)) sm out =
      Inr (sm', out @ out') \<and>
    syn_state sm' = SYNTHESIZER_STATE_IDLE \<and> syn_queue sm' = [] \<and> sent_requests out' = q \<and>
    completed_ids out' = map req_id (cur # q)"
  using assms(2-)
proof (induction q arbitrary: sm cur out)
  case Nil
  obtain m' where m': "msg_start_line m' = msg_start_line (completed (req_id cur))"
    "synth_state_update A log_hooks sm (completed (req_id cur)) out =
       Inr (True, sm\<lparr>syn_state := SYNTHESIZER_STATE_IDLE, syn_speaker := None\<rparr>, out @ [Dispatched m'])"
    using speak_completed [OF Nil.prems(2-5), of "completed (req_id cur)" A F out] assms(1) Nil.prems(6)
    by (auto simp: speaks_ok_def)
  have "message_is MRCP_MESSAGE_TYPE_EVENT SYNTHESIZER_SPEAK_COMPLETE (req_id cur) m'"
    using assms(1) m'(1) by (simp add: speaks_ok_def message_is_def)
  then show ?case
    using m'(2) Nil.prems(6)
    by (intro exI [of _ "sm\<lparr>syn_state := SYNTHESIZER_STATE_IDLE, syn_speaker := None\<rparr>"] exI [of _ "[Dispatched m']"])
      (simp add: mrcp_state_machine_update_def message_is_def)
next
  case (Cons p q)
  let ?sm1 = "sm\<lparr>syn_state := SYNTHESIZER_STATE_IDLE, syn_speaker := None, syn_queue := q, syn_is_pending := True,
    sm_active_request := Some p\<rparr>"
  let ?sm2 = "?sm1\<lparr>syn_speaker := Some p, syn_state := SYNTHESIZER_STATE_SPEAKING, syn_is_pending := False\<rparr>"
  obtain c where c: "msg_start_line c = msg_start_line (completed (req_id cur))"
    "synth_state_update A log_hooks sm (completed (req_id cur)) out = Inr (True, ?sm1, out @ [Dispatched c, Dispatched p])"
    using speak_completed [OF Cons.prems(2-5), of "completed (req_id cur)" A F out] assms(1) Cons.prems(6)
    by (auto simp: speaks_ok_def)
  have p: "res_ok p" "method_id p = SYNTHESIZER_SPEAK" "queue_ok SYNTHESIZER_SPEAK q"
    using Cons.prems(2,6) by (auto simp: synth_inv_def)
  obtain s where s: "message_is MRCP_MESSAGE_TYPE_EVENT SYNTHESIZER_SPEECH_MARKER (req_id p) s"
    "synth_state_update A log_hooks ?sm1 (started (req_id p)) (out @ [Dispatched c, Dispatched p]) =
       Inr (True, ?sm2, out @ [Dispatched c, Dispatched p, Dispatched s])"
    using speak_started [of ?sm1 p "started (req_id p)" A "out @ [Dispatched c, Dispatched p]"] assms(1) p(1) Cons.prems(3)
    by (auto simp: speaks_ok_def)
  have "synth_inv ?sm2" using Cons.prems(2) p by (simp add: synth_inv_def)
  then obtain sm' out' where r: "machine_feed (synth_state_update A log_hooks) deactivate 
      (engine_speaks started completed (req_id p) (map req_id q)) ?sm2
      (out @ [Dispatched c, Dispatched p, Dispatched s]) = Inr (sm', (out @ [Dispatched c, Dispatched p, Dispatched s]) @ out')"
    "syn_state sm' = SYNTHESIZER_STATE_IDLE" "syn_queue sm' = []" "sent_requests out' = q" "completed_ids out' = map req_id (p # q)"
    using Cons.IH [of ?sm2 p "out @ [Dispatched c, Dispatched p, Dispatched s]"] Cons.prems p(2) by auto
  have "message_is MRCP_MESSAGE_TYPE_EVENT SYNTHESIZER_SPEAK_COMPLETE (req_id cur) c"
    using assms(1) c(1) by (simp add: speaks_ok_def message_is_def)
  then show ?case
    using c(2) s r Cons.prems(1,6)
    by (intro exI [of _ sm'] exI [of _ "[Dispatched c, Dispatched p, Dispatched s] @ out'"])
      (simp add: mrcp_state_machine_update_def message_is_def)
qed

text \<open>What is queued for a SPEAK request that arrives while another one is in progress.\<close>

definition pending_speak :: "synth_machine \<Rightarrow> message \<Rightarrow> message" where
  "pending_speak sm m = set_request_state MRCP_REQUEST_STATE_PENDING
     (m\<lparr>msg_header := mrcp_header_fields_inherit (msg_header m) (sm_properties sm)\<rparr>)"

lemma pending_speak_simps [simp]:
  "message_type (pending_speak sm m) = message_type m" "method_id (pending_speak sm m) = method_id m"
  "req_id (pending_speak sm m) = req_id m" "res_ok (pending_speak sm m) = res_ok m"
  "request_state (pending_speak sm m) = MRCP_REQUEST_STATE_PENDING"
  by (simp_all add: pending_speak_def set_request_state_def res_ok_def)

definition speak_request :: "message \<Rightarrow> bool" where
  "speak_request m \<longleftrightarrow> message_type m = MRCP_MESSAGE_TYPE_REQUEST \<and> method_id m = SYNTHESIZER_SPEAK \<and> res_ok m"

lemma speaks_queued:
  assumes "list_all speak_request ps" and "syn_speaker sm = Some cur" and "sm_active sm"
    and "sm_active_request sm = None"
  shows "\<exists>out'. machine_feed (synth_state_update A log_hooks) deactivate (map Receive ps) sm out =
      Inr (sm\<lparr>syn_queue := syn_queue sm @ map (pending_speak sm) ps\<rparr>, out @ out') \<and>
    sent_requests out' = [] \<and> completed_ids out' = []"
  using assms
proof (induction ps arbitrary: sm out)
  case Nil
  then show ?case by (intro exI [of _ "[]"]) simp
next
  case (Cons p ps)
  let ?sm = "sm\<lparr>syn_queue := syn_queue sm @ [pending_speak sm p]\<rparr>"
  have p: "speak_request p" using Cons.prems(1) by simp
  then have "res_ok (pending_speak sm p)" by (simp add: speak_request_def)
  from response_created [OF this, of A] obtain r where r: "mrcp_response_create A (Some (pending_speak sm p)) = Inr r"
    "message_type r = MRCP_MESSAGE_TYPE_RESPONSE" by blast
  let ?r = "set_request_state MRCP_REQUEST_STATE_PENDING r"
  have step: "synth_state_update A log_hooks sm p out = Inr (True, ?sm, out @ [Dispatched ?r])"
    using p r(1) Cons.prems(2-4)
    by (simp add: synth_update_defs synth_request_speak_def respond_def speak_request_def pending_speak_def Let_def)
  obtain out' where "machine_feed (synth_state_update A log_hooks) deactivate (map Receive ps) ?sm (out @ [Dispatched ?r]) =
      Inr (?sm\<lparr>syn_queue := syn_queue ?sm @ map (pending_speak ?sm) ps\<rparr>, (out @ [Dispatched ?r]) @ out')"
    "sent_requests out' = []" "completed_ids out' = []"
    using Cons.IH [of ?sm "out @ [Dispatched ?r]"] Cons.prems by auto
  then show ?case
    using step r(2)
    by (intro exI [of _ "Dispatched ?r # out'"])
      (simp add: mrcp_state_machine_update_def pending_speak_def set_request_state_def)
qed

lemma machine_feed_append:
  "machine_feed update deactivate (is @ js) sm e =
   sbind (machine_feed update deactivate is sm e) (\<lambda>(sm, e). machine_feed update deactivate js sm e)"
  by (induction "is" arbitrary: sm e) (auto simp: sbind_assoc intro!: arg_cong [where f = "sbind _"])

lemma outputs_append [simp]:
  "sent_requests (out @ out') = sent_requests out @ sent_requests out'"
  "completed_ids (out @ out') = completed_ids out @ completed_ids out'"
  by (induction out rule: sent_requests.induct) auto

text \<open>C4. Every SPEAK request is spoken: on a new machine, SPEAK requests that arrive while another is in
  progress wait in the queue, and when the engine completes each request it has started, the
  machine sends the engine all requests one by one in the order in which they arrived, reports the
  completion of each to the client in the same order, and ends idle with an empty queue.\<close>

theorem speak_requests_complete_in_order:
  assumes "speaks_ok A F started completed" and "list_all speak_request (cur # ps)"
  shows "\<exists>sm out. machine_feed (synth_state_update A log_hooks) (synth_deactivate A log_hooks)
      (Receive cur # Receive (started (req_id cur)) # map Receive ps @
       engine_speaks started completed (req_id cur) (map req_id ps))
      (mrcp_synth_state_machine_create A F block version) [] = Inr (sm, out) \<and>
    syn_state sm = SYNTHESIZER_STATE_IDLE \<and> syn_queue sm = [] \<and>
    map req_id (sent_requests out) = map req_id (cur # ps) \<and> completed_ids out = map req_id (cur # ps)"
proof -
  let ?sm0 = "mrcp_synth_state_machine_create A F block version"
  let ?cur = "cur\<lparr>msg_header := mrcp_header_fields_inherit (msg_header cur) (sm_properties ?sm0)\<rparr>"
  let ?sm1 = "?sm0\<lparr>sm_active_request := Some ?cur\<rparr>" and ?r = "started (req_id cur)"
  let ?sm2 = "?sm0\<lparr>syn_speaker := Some ?cur, syn_state := SYNTHESIZER_STATE_SPEAKING\<rparr>"
  have cur: "message_type cur = MRCP_MESSAGE_TYPE_REQUEST" "method_id cur = SYNTHESIZER_SPEAK" "res_ok cur"
    using assms(2) by (simp_all add: speak_request_def)
  have new: "syn_speaker ?sm0 = None" "sm_active ?sm0" "sm_active_request ?sm0 = None" "\<not> syn_is_pending ?sm0"
    "syn_queue ?sm0 = []"
    by (simp_all add: mrcp_synth_state_machine_create_def)
  have r: "message_type ?r = MRCP_MESSAGE_TYPE_RESPONSE" "method_id ?r = SYNTHESIZER_SPEAK" "req_id ?r = req_id cur"
    "request_state ?r = MRCP_REQUEST_STATE_INPROGRESS"
    using assms(1) by (simp_all add: speaks_ok_def message_is_def)
  have 1: "synth_state_update A log_hooks ?sm0 cur [] = Inr (True, ?sm1, [Dispatched ?cur])"
    using cur new by (simp add: synth_update_defs synth_request_speak_def synth_request_dispatch_def Let_def)
  have 2: "synth_state_update A log_hooks ?sm1 ?r out = Inr (True, ?sm2, out @ [Dispatched ?r])" for out
    using r new by (simp add: synth_update_defs synth_response_speak_def synth_response_dispatch_def synth_state_change_def Let_def)
  let ?ps = "map (pending_speak ?sm2) ps"
  let ?sm3 = "?sm2\<lparr>syn_queue := syn_queue ?sm2 @ ?ps\<rparr>" and ?d = "synth_deactivate A log_hooks"
  obtain out' where 3: "machine_feed (synth_state_update A log_hooks) ?d (map Receive ps) ?sm2 [Dispatched ?cur, Dispatched ?r] =
      Inr (?sm3, [Dispatched ?cur, Dispatched ?r] @ out')" "sent_requests out' = []" "completed_ids out' = []"
    using speaks_queued [of ps ?sm2 ?cur A ?d "[Dispatched ?cur, Dispatched ?r]"] assms(2) new by auto
  have "queue_ok SYNTHESIZER_SPEAK ?ps" "list_all (\<lambda>m. message_type m = MRCP_MESSAGE_TYPE_REQUEST) ?ps"
    using assms(2) by (auto simp: queue_ok_def speak_request_def list_all_iff)
  then have inv: "synth_inv ?sm3" "list_all (\<lambda>m. message_type m = MRCP_MESSAGE_TYPE_REQUEST) (syn_queue ?sm3)"
    "syn_queue ?sm3 = ?ps" "\<not> waiting_for ?sm3 SYNTHESIZER_STOP"
    using cur(3) new by (simp_all add: synth_inv_def waiting_for_def)
  obtain sm out where "machine_feed (synth_state_update A log_hooks) ?d
      (engine_speaks started completed (req_id ?cur) (map req_id ?ps)) ?sm3 ([Dispatched ?cur, Dispatched ?r] @ out') =
      Inr (sm, ([Dispatched ?cur, Dispatched ?r] @ out') @ out)"
    "syn_state sm = SYNTHESIZER_STATE_IDLE" "syn_queue sm = []" "sent_requests out = ?ps"
    "completed_ids out = map req_id (?cur # ?ps)"
    using queue_drains [OF assms(1) inv(2,1) _ _ inv(4,3), of ?cur ?d "[Dispatched ?cur, Dispatched ?r] @ out'"] new(2) by auto
  then show ?thesis
    using 1 2 [of "[Dispatched ?cur]"] 3 cur r
    by (intro exI [of _ sm] exI [of _ "([Dispatched ?cur, Dispatched ?r] @ out') @ out"])
      (simp add: mrcp_state_machine_update_def machine_feed_append comp_def)
qed

theorem speak_requests_complete_in_order_witness:
  "\<exists>sm out. machine_feed (synth_state_update apr_ref log_hooks) (synth_deactivate apr_ref log_hooks)
      [Receive (synth_sample MRCP_MESSAGE_TYPE_REQUEST SYNTHESIZER_SPEAK 1 MRCP_REQUEST_STATE_COMPLETE),
       Receive (synth_sample MRCP_MESSAGE_TYPE_RESPONSE SYNTHESIZER_SPEAK 1 MRCP_REQUEST_STATE_INPROGRESS),
       Receive (synth_sample MRCP_MESSAGE_TYPE_REQUEST SYNTHESIZER_SPEAK 2 MRCP_REQUEST_STATE_COMPLETE),
       Receive (synth_sample MRCP_MESSAGE_TYPE_EVENT SYNTHESIZER_SPEAK_COMPLETE 1 MRCP_REQUEST_STATE_COMPLETE),
       Receive (synth_sample MRCP_MESSAGE_TYPE_RESPONSE SYNTHESIZER_SPEAK 2 MRCP_REQUEST_STATE_INPROGRESS),
       Receive (synth_sample MRCP_MESSAGE_TYPE_EVENT SYNTHESIZER_SPEAK_COMPLETE 2 MRCP_REQUEST_STATE_COMPLETE)]
      synth_sample_start [] = Inr (sm, out) \<and>
    syn_state sm = SYNTHESIZER_STATE_IDLE \<and> syn_queue sm = [] \<and>
    map req_id (sent_requests out) = [1, 2] \<and> completed_ids out = [1, 2]"
proof -
  let ?speak = "\<lambda>i. synth_sample MRCP_MESSAGE_TYPE_REQUEST SYNTHESIZER_SPEAK i MRCP_REQUEST_STATE_COMPLETE"
  let ?started = "\<lambda>i. synth_sample MRCP_MESSAGE_TYPE_RESPONSE SYNTHESIZER_SPEAK i MRCP_REQUEST_STATE_INPROGRESS"
  let ?completed = "\<lambda>i. synth_sample MRCP_MESSAGE_TYPE_EVENT SYNTHESIZER_SPEAK_COMPLETE i MRCP_REQUEST_STATE_COMPLETE"
  have "machine_message apr_ref five_flt MRCP_SYNTHESIZER_RESOURCE (synth_sample type i rid st)" for type i rid st
    by (simp add: synth_sample_def)
  then have "speaks_ok apr_ref five_flt ?started ?completed" "list_all speak_request [?speak 1, ?speak 2]"
    by (auto simp: speaks_ok_def message_is_def speak_request_def synth_sample_def machine_message_def)
  from speak_requests_complete_in_order [OF this, of "msg_header (mrcp_message_create apr_ref)" MRCP_VERSION_2]
  show ?thesis by (simp add: synth_sample_start_def synth_sample_def)
qed

text \<open>C38. The fault of the synthesizer is reached in an ordinary conversation: a SPEAK request is in progress,
  the client sends PAUSE, the speech ends before the engine answers, and the positive answer to
  PAUSE then makes the server dereference NULL. (\<open>synth_response_pause\<close> does not check that there
  still is a speaker.)\<close>

theorem late_pause_response_faults:
  assumes "machine_message A F MRCP_SYNTHESIZER_RESOURCE completed"
    and "message_is MRCP_MESSAGE_TYPE_REQUEST SYNTHESIZER_SPEAK i speak"
    and "message_is MRCP_MESSAGE_TYPE_RESPONSE SYNTHESIZER_SPEAK i started"
    and "request_state started = MRCP_REQUEST_STATE_INPROGRESS"
    and "message_is MRCP_MESSAGE_TYPE_REQUEST SYNTHESIZER_PAUSE j pause"
    and "message_is MRCP_MESSAGE_TYPE_EVENT SYNTHESIZER_SPEAK_COMPLETE i completed"
    and "message_is MRCP_MESSAGE_TYPE_RESPONSE SYNTHESIZER_PAUSE j paused"
    and "status paused = MRCP_STATUS_CODE_SUCCESS"
  shows "machine_feed (synth_state_update A log_hooks) (synth_deactivate A log_hooks)
    (map Receive [speak, started, pause, completed, paused]) (mrcp_synth_state_machine_create A F block version) [] =
    Inl NullDeref"
proof -
  obtain c where "completion_cause_default SYNTHESIZER_HEADER_COMPLETION_CAUSE synth_cause_put completed = Inr c"
    using completion_cause_ok [OF assms(1), of synth_cause_put SYNTHESIZER_HEADER_COMPLETION_CAUSE] synth_cause [of A F]
    unfolding cause_ok_def by blast
  then show ?thesis
    using assms(2-) unfolding message_is_def
    by (simp add: mrcp_state_machine_update_def synth_update_defs mrcp_synth_state_machine_create_def Let_def
        synth_request_speak_def synth_response_speak_def synth_request_pause_def synth_response_pause_def
        synth_event_speak_complete_def synth_queue_pop_def synth_pending_dispatch_def synth_dispatch_defs waiting_for_def)
qed

theorem late_pause_response_faults_witness:
  "machine_feed (synth_state_update apr_ref log_hooks) (synth_deactivate apr_ref log_hooks)
    [Receive (synth_sample MRCP_MESSAGE_TYPE_REQUEST SYNTHESIZER_SPEAK 1 MRCP_REQUEST_STATE_COMPLETE),
     Receive (synth_sample MRCP_MESSAGE_TYPE_RESPONSE SYNTHESIZER_SPEAK 1 MRCP_REQUEST_STATE_INPROGRESS),
     Receive (synth_sample MRCP_MESSAGE_TYPE_REQUEST SYNTHESIZER_PAUSE 2 MRCP_REQUEST_STATE_COMPLETE),
     Receive (synth_sample MRCP_MESSAGE_TYPE_EVENT SYNTHESIZER_SPEAK_COMPLETE 1 MRCP_REQUEST_STATE_COMPLETE),
     Receive (synth_sample MRCP_MESSAGE_TYPE_RESPONSE SYNTHESIZER_PAUSE 2 MRCP_REQUEST_STATE_COMPLETE)]
    synth_sample_start [] = Inl NullDeref"
proof -
  let ?speak = "synth_sample MRCP_MESSAGE_TYPE_REQUEST SYNTHESIZER_SPEAK 1 MRCP_REQUEST_STATE_COMPLETE"
  let ?started = "synth_sample MRCP_MESSAGE_TYPE_RESPONSE SYNTHESIZER_SPEAK 1 MRCP_REQUEST_STATE_INPROGRESS"
  let ?pause = "synth_sample MRCP_MESSAGE_TYPE_REQUEST SYNTHESIZER_PAUSE 2 MRCP_REQUEST_STATE_COMPLETE"
  let ?completed = "synth_sample MRCP_MESSAGE_TYPE_EVENT SYNTHESIZER_SPEAK_COMPLETE 1 MRCP_REQUEST_STATE_COMPLETE"
  let ?paused = "synth_sample MRCP_MESSAGE_TYPE_RESPONSE SYNTHESIZER_PAUSE 2 MRCP_REQUEST_STATE_COMPLETE"
  have f: "machine_message apr_ref five_flt MRCP_SYNTHESIZER_RESOURCE ?completed"
    "message_is MRCP_MESSAGE_TYPE_REQUEST SYNTHESIZER_SPEAK 1 ?speak"
    "message_is MRCP_MESSAGE_TYPE_RESPONSE SYNTHESIZER_SPEAK 1 ?started"
    "request_state ?started = MRCP_REQUEST_STATE_INPROGRESS"
    "message_is MRCP_MESSAGE_TYPE_REQUEST SYNTHESIZER_PAUSE 2 ?pause"
    "message_is MRCP_MESSAGE_TYPE_EVENT SYNTHESIZER_SPEAK_COMPLETE 1 ?completed"
    "message_is MRCP_MESSAGE_TYPE_RESPONSE SYNTHESIZER_PAUSE 2 ?paused"
    "status ?paused = MRCP_STATUS_CODE_SUCCESS"
    by (simp_all add: synth_sample_def message_is_def)
  show ?thesis
    using late_pause_response_faults [OF f, of "msg_header (mrcp_message_create apr_ref)" MRCP_VERSION_2]
    by (simp only: synth_sample_start_def list.map)
qed

lemma synth_answers_requests:
  assumes "apr_ok A"
  shows "answers_requests synth_inv SYNTHESIZER_METHOD_COUNT (machine_message A F MRCP_SYNTHESIZER_RESOURCE) (synth_state_update A log_hooks)"
  unfolding answers_requests_def
proof (intro allI impI, elim conjE)
  fix sm m out
  assume sm: "synth_inv sm" "sm_active sm" and m: "machine_message A F MRCP_SYNTHESIZER_RESOURCE m"
    "message_type m = MRCP_MESSAGE_TYPE_REQUEST" and "method_id m < SYNTHESIZER_METHOD_COUNT"
  have "res_ok m" using m(1) by (simp add: machine_message_def)
  obtain b where kill: "kill_on_barge_in m = Inr b" using kill_on_barge_in_ok [OF m(1)] by blast
  from \<open>method_id m < SYNTHESIZER_METHOD_COUNT\<close> have "method_id m = 0 \<or> method_id m = 1 \<or> method_id m = 2 \<or> method_id m = 3 \<or> method_id m = 4 \<or> method_id m = 5 \<or> method_id m = 6 \<or> method_id m = 7 \<or> method_id m = 8" by arith
  then show "one_reply m out (synth_state_update A log_hooks sm m out)"
    using sm m(2) assms \<open>res_ok m\<close> kill
    by (elim disjE) (auto simp: synth_state_update_def state_update_def synth_request_state_update_def request_update_def
        synth_request_method_array_def synth_request_defs Let_def synth_inv_def
        synth_pending_requests_remove_def sbind_assoc split: option.split
        intro!: reply_request reply_response reply_respond reply_stop_pending reply_done)
qed

end
