(* ===== verification/RecogMachine.thy ===== *)
theory RecogMachine
  imports MachineBase
begin

text \<open>
  The state machine of the recognizer (\<open>mrcp_recog_state_machine.c\<close>): idle, recognizing, or with a
  result. RECOGNIZE requests that arrive during a recognition wait in a queue.
\<close>

section \<open>The code\<close>

datatype mrcp_recog_state = RECOGNIZER_STATE_IDLE | RECOGNIZER_STATE_RECOGNIZING | RECOGNIZER_STATE_RECOGNIZED

record recog_machine = resource_machine +
  rgm_state :: mrcp_recog_state
  rgm_is_pending :: bool
  rgm_recog :: "message option"
  rgm_queue :: "message list"

type_synonym 'e recog_hooks = "(recog_machine, 'e) machine_hooks"
type_synonym 'e recog_handler = "(recog_machine, 'e) handler"

definition recog_request_dispatch :: "'e recog_hooks \<Rightarrow> 'e recog_handler" where
  "recog_request_dispatch H sm m e = request_dispatch H sm m e"

definition recog_response_dispatch :: "'e recog_hooks \<Rightarrow> 'e recog_handler" where
  "recog_response_dispatch H sm m e = response_dispatch H sm m e"

definition recog_event_dispatch :: "'e recog_hooks \<Rightarrow> 'e recog_handler" where
  "recog_event_dispatch H sm m e = event_dispatch H sm m e"

definition recog_state_change :: "recog_machine \<Rightarrow> mrcp_recog_state \<Rightarrow> recog_machine" where
  "recog_state_change sm st =
     (let sm = sm\<lparr>rgm_state := st\<rparr> in if st = RECOGNIZER_STATE_IDLE then sm\<lparr>rgm_recog := None\<rparr> else sm)"

definition recog_request_set_params :: "'e recog_hooks \<Rightarrow> 'e recog_handler" where
  "recog_request_set_params H sm m e =
     recog_request_dispatch H (sm\<lparr>sm_properties := mrcp_header_fields_set (sm_properties sm) (msg_header m)\<rparr>) m e"

definition recog_response_set_params :: "'e recog_hooks \<Rightarrow> 'e recog_handler" where
  "recog_response_set_params H sm m e = recog_response_dispatch H sm m e"

definition recog_request_get_params :: "'e recog_hooks \<Rightarrow> 'e recog_handler" where
  "recog_request_get_params H sm m e = recog_request_dispatch H sm m e"

definition recog_response_get_params :: "'e recog_hooks \<Rightarrow> 'e recog_handler" where
  "recog_response_get_params H sm m e =
     (case sm_active_request sm of None \<Rightarrow> Inl NullDeref
      | Some active \<Rightarrow>
          recog_response_dispatch H sm
            (m\<lparr>msg_header := mrcp_header_fields_get (msg_header m) (sm_properties sm) (msg_header active)\<rparr>) e)"

definition recog_request_define_grammar :: "apr \<Rightarrow> 'e recog_hooks \<Rightarrow> 'e recog_handler" where
  "recog_request_define_grammar A H sm m e =
     (if rgm_state sm = RECOGNIZER_STATE_RECOGNIZING
      then respond A H (set_status_code MRCP_STATUS_CODE_METHOD_NOT_VALID) sm m e
      else recog_request_dispatch H
             (if rgm_state sm = RECOGNIZER_STATE_RECOGNIZED then recog_state_change sm RECOGNIZER_STATE_IDLE else sm) m e)"

fun recog_cause_put :: "resource_header \<Rightarrow> resource_header option" where
  "recog_cause_put (RecogData h) = Some (RecogData (h\<lparr>rh_completion_cause := 0\<rparr>))"
| "recog_cause_put _ = None"

definition recog_response_define_grammar :: "'e recog_hooks \<Rightarrow> 'e recog_handler" where
  "recog_response_define_grammar H sm m e =
     sbind (completion_cause_default RECOGNIZER_HEADER_COMPLETION_CAUSE recog_cause_put m) (\<lambda>m.
       recog_response_dispatch H sm m e)"

definition recog_request_recognize :: "apr \<Rightarrow> 'e recog_hooks \<Rightarrow> 'e recog_handler" where
  "recog_request_recognize A H sm m e =
     (let m = m\<lparr>msg_header := mrcp_header_fields_inherit (msg_header m) (sm_properties sm)\<rparr>
      in if rgm_state sm = RECOGNIZER_STATE_RECOGNIZING
         then let m = set_request_state MRCP_REQUEST_STATE_PENDING m
              in respond A H (set_request_state MRCP_REQUEST_STATE_PENDING) (sm\<lparr>rgm_queue := rgm_queue sm @ [m]\<rparr>) m e
         else recog_request_dispatch H sm m e)"

definition recog_response_recognize :: "'e recog_hooks \<Rightarrow> 'e recog_handler" where
  "recog_response_recognize H sm m e =
     (let sm = (if request_state m = MRCP_REQUEST_STATE_INPROGRESS
                then recog_state_change (sm\<lparr>rgm_recog := sm_active_request sm\<rparr>) RECOGNIZER_STATE_RECOGNIZING
                else sm)
      in if rgm_is_pending sm then Inr (True, sm\<lparr>rgm_is_pending := False\<rparr>, e)
         else recog_response_dispatch H sm m e)"

definition recog_request_interpret :: "'e recog_hooks \<Rightarrow> 'e recog_handler" where
  "recog_request_interpret H sm m e =
     recog_request_dispatch H sm
       (m\<lparr>msg_header := mrcp_header_fields_inherit (msg_header m) (sm_properties sm)\<rparr>) e"

definition recog_response_interpret :: "'e recog_hooks \<Rightarrow> 'e recog_handler" where
  "recog_response_interpret H sm m e = recog_response_dispatch H sm m e"

definition recog_request_get_result :: "apr \<Rightarrow> 'e recog_hooks \<Rightarrow> 'e recog_handler" where
  "recog_request_get_result A H sm m e =
     (if rgm_state sm = RECOGNIZER_STATE_RECOGNIZED then recog_request_dispatch H sm m e
      else respond A H (set_status_code MRCP_STATUS_CODE_METHOD_NOT_VALID) sm m e)"

definition recog_response_get_result :: "'e recog_hooks \<Rightarrow> 'e recog_handler" where
  "recog_response_get_result H sm m e = recog_response_dispatch H sm m e"

definition recog_request_recognition_start_timers :: "apr \<Rightarrow> 'e recog_hooks \<Rightarrow> 'e recog_handler" where
  "recog_request_recognition_start_timers A H sm m e =
     (if rgm_state sm = RECOGNIZER_STATE_RECOGNIZING then recog_request_dispatch H sm m e
      else respond A H (set_status_code MRCP_STATUS_CODE_METHOD_NOT_VALID) sm m e)"

definition recog_response_recognition_start_timers :: "'e recog_hooks \<Rightarrow> 'e recog_handler" where
  "recog_response_recognition_start_timers H sm m e = recog_response_dispatch H sm m e"

definition recog_pending_requests_remove :: "recog_machine \<Rightarrow> message \<Rightarrow> message \<Rightarrow> fault + recog_machine \<times> message" where
  "recog_pending_requests_remove sm request response =
     sbind (pending_requests_remove (rgm_queue sm) request response) (\<lambda>(q, response).
       Inr (sm\<lparr>rgm_queue := q\<rparr>, response))"

text \<open>The immediate answer to a STOP request that has nothing in progress to stop.\<close>

definition recog_stop_pending :: "apr \<Rightarrow> 'e recog_hooks \<Rightarrow> 'e recog_handler" where
  "recog_stop_pending A H sm m e =
     sbind (mrcp_response_create A (Some m)) (\<lambda>response.
       sbind (recog_pending_requests_remove sm m response) (\<lambda>(sm, response).
         recog_response_dispatch H sm response e))"

definition recog_request_stop :: "apr \<Rightarrow> 'e recog_hooks \<Rightarrow> 'e recog_handler" where
  "recog_request_stop A H sm m e =
     (if rgm_state sm = RECOGNIZER_STATE_RECOGNIZING
      then case selection m of None \<Rightarrow> recog_request_dispatch H sm m e
           | Some gh \<Rightarrow>
               (case rgm_recog sm of None \<Rightarrow> Inl NullDeref
                | Some r \<Rightarrow>
                    if active_request_id_list_find gh (req_id r) then recog_request_dispatch H sm m e
                    else recog_stop_pending A H sm m e)
      else recog_stop_pending A H
             (if rgm_state sm = RECOGNIZER_STATE_RECOGNIZED then recog_state_change sm RECOGNIZER_STATE_IDLE else sm) m e)"

text \<open>The next pending request is sent to the engine after something else was dispatched.\<close>

definition recog_pending_dispatch :: "'e recog_hooks \<Rightarrow> message option \<Rightarrow> recog_machine \<Rightarrow> 'e \<Rightarrow> (recog_machine, 'e) machine_result" where
  "recog_pending_dispatch H pending sm e =
     (case pending of None \<Rightarrow> Inr (True, sm, e)
      | Some m \<Rightarrow> sbind (recog_request_dispatch H (sm\<lparr>rgm_is_pending := True\<rparr>) m e) (\<lambda>(_, sm, e). Inr (True, sm, e)))"

definition recog_queue_pop :: "recog_machine \<Rightarrow> message option \<times> recog_machine" where
  "recog_queue_pop sm =
     (case rgm_queue sm of [] \<Rightarrow> (None, sm) | m # q \<Rightarrow> (Some m, sm\<lparr>rgm_queue := q\<rparr>))"

definition recog_response_stop :: "'e recog_hooks \<Rightarrow> 'e recog_handler" where
  "recog_response_stop H sm m e =
     (case (rgm_recog sm, sm_active_request sm) of
        (Some r, Some active) \<Rightarrow>
          sbind (active_id_add m (req_id r)) (\<lambda>m.
            sbind (recog_pending_requests_remove sm active m) (\<lambda>(sm, m).
              case recog_queue_pop (recog_state_change sm RECOGNIZER_STATE_IDLE) of (pending, sm) \<Rightarrow>
                sbind (recog_response_dispatch H sm m e) (\<lambda>(_, sm, e). recog_pending_dispatch H pending sm e)))
      | _ \<Rightarrow> Inl NullDeref)"

definition recog_event_start_of_input :: "'e recog_hooks \<Rightarrow> 'e recog_handler" where
  "recog_event_start_of_input H sm m e =
     (case rgm_recog sm of None \<Rightarrow> Inr (False, sm, e)
      | Some r \<Rightarrow>
          if req_id r \<noteq> req_id m then Inr (False, sm, e)
          else recog_event_dispatch H sm (set_request_state MRCP_REQUEST_STATE_INPROGRESS m) e)"

definition recog_event_recognition_complete :: "'e recog_hooks \<Rightarrow> 'e recog_handler" where
  "recog_event_recognition_complete H sm m e =
     (case rgm_recog sm of None \<Rightarrow> Inr (False, sm, e)
      | Some r \<Rightarrow>
          if req_id r \<noteq> req_id m then Inr (False, sm, e)
          else if waiting_for sm RECOGNIZER_STOP then Inr (False, sm, e)
          else sbind (completion_cause_default RECOGNIZER_HEADER_COMPLETION_CAUSE recog_cause_put m) (\<lambda>m.
                 sbind (recog_event_dispatch H (recog_state_change sm RECOGNIZER_STATE_RECOGNIZED) m e) (\<lambda>(_, sm, e).
                   case recog_queue_pop sm of (pending, sm) \<Rightarrow> recog_pending_dispatch H pending sm e)))"

definition recog_event_interpretation_complete :: "'e recog_hooks \<Rightarrow> 'e recog_handler" where
  "recog_event_interpretation_complete H sm m e =
     sbind (completion_cause_default RECOGNIZER_HEADER_COMPLETION_CAUSE recog_cause_put m) (\<lambda>m.
       recog_event_dispatch H sm m e)"

definition recog_request_method_array :: "apr \<Rightarrow> 'e recog_hooks \<Rightarrow> 'e recog_handler list" where
  "recog_request_method_array A H =
     [recog_request_set_params H, recog_request_get_params H, recog_request_define_grammar A H,
      recog_request_recognize A H, recog_request_interpret H, recog_request_get_result A H,
      recog_request_recognition_start_timers A H, recog_request_stop A H]"

definition recog_response_method_array :: "'e recog_hooks \<Rightarrow> 'e recog_handler list" where
  "recog_response_method_array H =
     [recog_response_set_params H, recog_response_get_params H, recog_response_define_grammar H,
      recog_response_recognize H, recog_response_interpret H, recog_response_get_result H,
      recog_response_recognition_start_timers H, recog_response_stop H]"

definition recog_event_method_array :: "'e recog_hooks \<Rightarrow> 'e recog_handler list" where
  "recog_event_method_array H =
     [recog_event_start_of_input H, recog_event_recognition_complete H,
      recog_event_interpretation_complete H]"

definition recog_request_state_update :: "apr \<Rightarrow> 'e recog_hooks \<Rightarrow> 'e recog_handler" where
  "recog_request_state_update A H = request_update H RECOGNIZER_METHOD_COUNT (recog_request_method_array A H)"

definition recog_response_state_update :: "'e recog_hooks \<Rightarrow> 'e recog_handler" where
  "recog_response_state_update H = response_update H RECOGNIZER_METHOD_COUNT (recog_response_method_array H)"

definition recog_event_state_update :: "'e recog_hooks \<Rightarrow> 'e recog_handler" where
  "recog_event_state_update H = event_update H RECOGNIZER_EVENT_COUNT (recog_event_method_array H)"

definition recog_state_update :: "apr \<Rightarrow> 'e recog_hooks \<Rightarrow> 'e recog_handler" where
  "recog_state_update A H =
     state_update (recog_request_state_update A H) (recog_response_state_update H) (recog_event_state_update H)"

definition recog_state_deactivate :: "apr \<Rightarrow> 'e recog_hooks \<Rightarrow> recog_machine \<Rightarrow> 'e \<Rightarrow> (recog_machine, 'e) machine_result" where
  "recog_state_deactivate A H sm e =
     (if rgm_state sm \<noteq> RECOGNIZER_STATE_RECOGNIZING then Inr (False, sm, e)
      else case rgm_recog sm of None \<Rightarrow> Inr (False, sm, e)
           | Some source \<Rightarrow> sbind (internal_stop A source RECOGNIZER_STOP) (\<lambda>m. recog_request_dispatch H sm m e))"

definition mrcp_recog_state_machine_create ::
  "apr \<Rightarrow> c_flt \<Rightarrow> resource_header message_header \<Rightarrow> mrcp_version \<Rightarrow> recog_machine" where
  "mrcp_recog_state_machine_create A F block version =
     \<lparr>sm_active = True, sm_active_request = None,
      sm_properties = mrcp_message_header_create block (Some (mrcp_generic_header_vtable_get A version))
        (Some (resource_vtable A F MRCP_RECOGNIZER_RESOURCE version)),
      rgm_state = RECOGNIZER_STATE_IDLE, rgm_is_pending = False, rgm_recog = None, rgm_queue = []\<rparr>"

section \<open>The invariant\<close>

text \<open>
  The machine knows a recognition exactly when it is not idle, it waits for the answer to a STOP
  request only during a recognition, and the queue holds pending RECOGNIZE requests.
\<close>

definition recog_inv :: "recog_machine \<Rightarrow> bool" where
  "recog_inv sm \<longleftrightarrow> (rgm_recog sm = None \<longleftrightarrow> rgm_state sm = RECOGNIZER_STATE_IDLE) \<and>
     (waiting_for sm RECOGNIZER_STOP \<longrightarrow> rgm_state sm = RECOGNIZER_STATE_RECOGNIZING) \<and>
     queue_ok RECOGNIZER_RECOGNIZE (rgm_queue sm) \<and>
     opt_ok (sm_active_request sm) \<and> opt_ok (rgm_recog sm)"

text \<open>
  What the machine does not survive: a response to STOP that has the identifier of the request the
  machine waits for, which is another request, while there is no RECOGNIZE request the machine knows.
\<close>

definition recog_hazard :: "recog_machine \<Rightarrow> message \<Rightarrow> bool" where
  "recog_hazard sm m \<longleftrightarrow> answers_other sm m \<and> method_id m = RECOGNIZER_STOP \<and> rgm_recog sm = None"

definition recog_admissible :: "apr \<Rightarrow> c_flt \<Rightarrow> recog_machine \<Rightarrow> message \<Rightarrow> bool" where
  "recog_admissible A F sm m \<longleftrightarrow> apr_ok A \<and> machine_message A F MRCP_RECOGNIZER_RESOURCE m"

lemma waiting_for_recog [simp]:
  "waiting_for (sm\<lparr>rgm_state := v0\<rparr>) i = waiting_for sm i"
  "waiting_for (sm\<lparr>rgm_recog := v1\<rparr>) i = waiting_for sm i"
  "waiting_for (sm\<lparr>rgm_queue := v2\<rparr>) i = waiting_for sm i"
  "waiting_for (sm\<lparr>rgm_is_pending := v3\<rparr>) i = waiting_for sm i"
  by (simp_all add: waiting_for_def)

lemma recog_cause: "cause_ok A F MRCP_RECOGNIZER_RESOURCE RECOGNIZER_HEADER_COMPLETION_CAUSE recog_cause_put"
proof -
  have "(\<exists>d'. recog_cause_put d = Some d' \<and> header_type d' = MRCP_RECOGNIZER_RESOURCE) \<and>
      no_fault (vt_generate (resource_vtable A F MRCP_RECOGNIZER_RESOURCE version) RECOGNIZER_HEADER_COMPLETION_CAUSE d v)"
    if "header_type d = MRCP_RECOGNIZER_RESOURCE" for d v version
    using that by (cases d) (simp_all add: resource_vtables [unfolded One_nat_def] data_vtable_def recog_v1_vtable_def recog_v2_vtable_def
        mrcp_v1_recog_header_generate_def mrcp_v2_recog_header_generate_def mrcp_recog_header_generate_def)
  then show ?thesis by (simp add: cause_ok_def)
qed

lemmas recog_dispatch_defs = recog_request_dispatch_def recog_response_dispatch_def recog_event_dispatch_def
  recog_state_change_def

lemmas recog_request_defs = recog_request_set_params_def recog_request_get_params_def recog_request_define_grammar_def
  recog_request_recognize_def recog_request_interpret_def recog_request_get_result_def
  recog_request_recognition_start_timers_def recog_request_stop_def
  recog_dispatch_defs

lemmas recog_response_defs = recog_response_set_params_def recog_response_get_params_def recog_response_define_grammar_def
  recog_response_recognize_def recog_response_interpret_def recog_response_get_result_def
  recog_response_recognition_start_timers_def recog_response_stop_def
  recog_dispatch_defs

lemma recog_request_safe:
  assumes "hooks_ok recog_inv H" and "recog_inv sm" and "apr_ok A" and "machine_message A F MRCP_RECOGNIZER_RESOURCE m"
  shows "safe recog_inv (recog_request_state_update A H sm m e)"
  unfolding recog_request_state_update_def
proof (rule safe_request_update)
  fix i :: nat
  assume i: "i < length (recog_request_method_array A H)" "method_id m = i"
  have ok: "res_ok m" "generic_ok A m" using assms(4) by (simp_all add: machine_message_def)
  from i(1) have "i = 0 \<or> i = 1 \<or> i = 2 \<or> i = 3 \<or> i = 4 \<or> i = 5 \<or> i = 6 \<or> i = 7" by (simp add: recog_request_method_array_def) arith
  then show "safe recog_inv ((recog_request_method_array A H ! i) sm m e)"
    using assms(1-3) ok i(2)
    by (elim disjE) (auto simp: recog_request_method_array_def recog_request_defs Let_def recog_inv_def
        recog_stop_pending_def recog_pending_requests_remove_def sbind_assoc
        intro!: safe_request safe_respond safe_response safe_response_create safe_pending safe_Inr safe_bind split: option.split)
qed (use assms in \<open>auto simp: recog_inv_def recog_request_method_array_def machine_message_def intro!: safe_request\<close>)

lemma recog_response_safe:
  assumes "hooks_ok recog_inv H" and "recog_inv sm" and "apr_ok A" and "machine_message A F MRCP_RECOGNIZER_RESOURCE m"
    and "message_type m = MRCP_MESSAGE_TYPE_RESPONSE" and "\<not> recog_hazard sm m"
  shows "safe recog_inv (recog_response_state_update H sm m e)"
  unfolding recog_response_state_update_def
proof (rule safe_response_update)
  fix i :: nat and active
  assume i: "i < length (recog_response_method_array H)" "method_id m = i"
    and a: "sm_active_request sm = Some active" "req_id active = req_id m"
  have ok: "res_ok m" "generic_ok A m" using assms(4) by (simp_all add: machine_message_def)
  have facts: "i = RECOGNIZER_STOP \<Longrightarrow> rgm_recog sm \<noteq> None" "machine_message A F MRCP_RECOGNIZER_RESOURCE m"
    "cause_ok A F MRCP_RECOGNIZER_RESOURCE RECOGNIZER_HEADER_COMPLETION_CAUSE recog_cause_put"
    using assms(2,4-6) a i(2) recog_cause by (auto simp: recog_inv_def waiting_for_def recog_hazard_def answers_other_def)
  from i(1) have "i = 0 \<or> i = 1 \<or> i = 2 \<or> i = 3 \<or> i = 4 \<or> i = 5 \<or> i = 6 \<or> i = 7" by (simp add: recog_response_method_array_def) arith
  then show "safe recog_inv ((recog_response_method_array H ! i) sm m e)"
    using assms(1-3) ok facts a(1)
    by (elim disjE) (auto simp: recog_response_method_array_def recog_response_defs Let_def recog_inv_def
        recog_pending_requests_remove_def recog_queue_pop_def recog_pending_dispatch_def sbind_assoc
        intro!: safe_response safe_active_id safe_pending safe_bind safe_request safe_Inr safe_event safe_event_create
          safe_completion_cause split: option.split list.split dest!: queue_ok_pop [where i = 3])
qed (use assms in \<open>auto simp: recog_inv_def recog_response_method_array_def intro!: safe_response\<close>)

lemma recog_event_safe:
  assumes "hooks_ok recog_inv H" and "recog_inv sm" and "machine_message A F MRCP_RECOGNIZER_RESOURCE m"
  shows "safe recog_inv (recog_event_state_update H sm m e)"
  unfolding recog_event_state_update_def
proof (rule safe_event_update)
  fix i :: nat
  assume i: "i < length (recog_event_method_array H)" "method_id m = i"
  then have "i = 0 \<or> i = 1 \<or> i = 2" by (simp add: recog_event_method_array_def) arith
  then show "safe recog_inv ((recog_event_method_array H ! i) sm m e)"
    using assms recog_cause [of A F]
    by (elim disjE) (auto simp: recog_event_method_array_def Let_def recog_inv_def
        recog_event_start_of_input_def recog_event_recognition_complete_def recog_event_interpretation_complete_def recog_dispatch_defs
        recog_queue_pop_def recog_pending_dispatch_def split: option.split list.split
        intro!: safe_event safe_Inr safe_completion_cause safe_bind safe_request)
qed (use assms in \<open>simp_all add: recog_event_method_array_def\<close>)

lemma recog_update_safe:
  assumes "hooks_ok recog_inv H" and "recog_inv sm" and "recog_admissible A F sm m" and "\<not> recog_hazard sm m"
  shows "safe recog_inv (recog_state_update A H sm m e)"
  unfolding recog_state_update_def
proof (rule safe_state_update)
  have m: "apr_ok A" "machine_message A F MRCP_RECOGNIZER_RESOURCE m"
    using assms(3) by (simp_all add: recog_admissible_def)
  show "safe recog_inv (recog_request_state_update A H sm m e)"
    by (rule recog_request_safe [OF assms(1,2) m(1,2)])
  show "safe recog_inv (recog_response_state_update H sm m e)" if "message_type m = MRCP_MESSAGE_TYPE_RESPONSE"
    by (rule recog_response_safe [OF assms(1,2) m(1,2) that assms(4)])
  show "safe recog_inv (recog_event_state_update H sm m e)"
    by (rule recog_event_safe [OF assms(1,2) m(2)])
qed (rule assms(2))

definition recog_deactivate :: "apr \<Rightarrow> 'e recog_hooks \<Rightarrow> recog_machine \<Rightarrow> 'e \<Rightarrow> (recog_machine, 'e) machine_result" where
  "recog_deactivate A H = mrcp_state_machine_deactivate (Some (recog_state_deactivate A H))"

lemma recog_deactivate_safe:
  assumes "hooks_ok recog_inv H" and "recog_inv sm"
  shows "safe recog_inv (recog_deactivate A H sm e)"
  using assms
  by (auto simp: recog_deactivate_def mrcp_state_machine_deactivate_def recog_state_deactivate_def recog_inv_def
      recog_dispatch_defs split: option.split intro!: safe_Inr safe_stop_create safe_request)

lemma recog_hazard_faults:
  assumes "recog_hazard sm m"
  shows "recog_state_update A H sm m e = Inl NullDeref"
  using assms unfolding recog_hazard_def answers_other_def
  by (auto simp: recog_state_update_def state_update_def response_update_def recog_response_state_update_def
      recog_response_method_array_def recog_response_stop_def split: option.splits)

interpretation recog_machine: resource_state_machine recog_inv
  "recog_admissible A F" recog_hazard "recog_state_update A" "recog_deactivate A" for A F
  by (rule resource_state_machine.intro; (rule recog_update_safe recog_hazard_faults recog_deactivate_safe; assumption))

lemma recog_inv_create: "recog_inv (mrcp_recog_state_machine_create A F block version)"
  by (simp add: recog_inv_def mrcp_recog_state_machine_create_def waiting_for_def)

section \<open>Properties\<close>


definition recog_sample :: "mrcp_message_type \<Rightarrow> nat \<Rightarrow> request_id \<Rightarrow> mrcp_request_state \<Rightarrow> message" where
  "recog_sample type i rid st = sample_message apr_ref five_flt MRCP_RECOGNIZER_RESOURCE type i rid st MRCP_STATUS_CODE_SUCCESS"

definition recog_sample_start :: recog_machine where
  "recog_sample_start = mrcp_recog_state_machine_create apr_ref five_flt
     (msg_header (mrcp_message_create apr_ref)) MRCP_VERSION_2"

lemmas recog_update_defs = recog_state_update_def state_update_def request_update_def response_update_def event_update_def
  recog_request_state_update_def recog_response_state_update_def recog_event_state_update_def
  recog_request_method_array_def recog_response_method_array_def recog_event_method_array_def
  request_dispatch_def response_dispatch_def event_dispatch_def log_hooks_def


lemma recog_answers_requests:
  assumes "apr_ok A"
  shows "answers_requests recog_inv RECOGNIZER_METHOD_COUNT (machine_message A F MRCP_RECOGNIZER_RESOURCE) (recog_state_update A log_hooks)"
  unfolding answers_requests_def
proof (intro allI impI, elim conjE)
  fix sm m out
  assume sm: "recog_inv sm" "sm_active sm" and m: "machine_message A F MRCP_RECOGNIZER_RESOURCE m"
    "message_type m = MRCP_MESSAGE_TYPE_REQUEST" and "method_id m < RECOGNIZER_METHOD_COUNT"
  have "res_ok m" using m(1) by (simp add: machine_message_def)
  from \<open>method_id m < RECOGNIZER_METHOD_COUNT\<close> have "method_id m = 0 \<or> method_id m = 1 \<or> method_id m = 2 \<or> method_id m = 3 \<or> method_id m = 4 \<or> method_id m = 5 \<or> method_id m = 6 \<or> method_id m = 7 \<or> method_id m = 8 \<or> method_id m = 9 \<or> method_id m = 10 \<or> method_id m = 11 \<or> method_id m = 12" by arith
  then show "one_reply m out (recog_state_update A log_hooks sm m out)"
    using sm m(2) assms \<open>res_ok m\<close>
    by (elim disjE) (auto simp: recog_state_update_def state_update_def recog_request_state_update_def request_update_def
        recog_request_method_array_def recog_request_defs Let_def recog_inv_def
        recog_stop_pending_def recog_pending_requests_remove_def sbind_assoc split: option.split
        intro!: reply_request reply_response reply_respond reply_stop_pending reply_done)
qed

end
