(* ===== verification/RecorderMachine.thy ===== *)
theory RecorderMachine
  imports MachineBase
begin

text \<open>
  The state machine of the recorder (\<open>mrcp_recorder_state_machine.c\<close>): idle or recording, one
  request at a time.
\<close>

section \<open>The code\<close>

datatype mrcp_recorder_state = RECORDER_STATE_IDLE | RECORDER_STATE_RECORDING

record recorder_machine = resource_machine +
  rcm_state :: mrcp_recorder_state
  rcm_record :: "message option"

type_synonym 'e recorder_hooks = "(recorder_machine, 'e) machine_hooks"
type_synonym 'e recorder_handler = "(recorder_machine, 'e) handler"

definition recorder_request_dispatch :: "'e recorder_hooks \<Rightarrow> 'e recorder_handler" where
  "recorder_request_dispatch H sm m e = request_dispatch H sm m e"

definition recorder_response_dispatch :: "'e recorder_hooks \<Rightarrow> 'e recorder_handler" where
  "recorder_response_dispatch H sm m e = response_dispatch H sm m e"

definition recorder_event_dispatch :: "'e recorder_hooks \<Rightarrow> 'e recorder_handler" where
  "recorder_event_dispatch H sm m e = event_dispatch H sm m e"

definition recorder_state_change :: "recorder_machine \<Rightarrow> mrcp_recorder_state \<Rightarrow> recorder_machine" where
  "recorder_state_change sm st =
     (let sm = sm\<lparr>rcm_state := st\<rparr> in if st = RECORDER_STATE_IDLE then sm\<lparr>rcm_record := None\<rparr> else sm)"

definition recorder_request_set_params :: "'e recorder_hooks \<Rightarrow> 'e recorder_handler" where
  "recorder_request_set_params H sm m e =
     recorder_request_dispatch H (sm\<lparr>sm_properties := mrcp_header_fields_set (sm_properties sm) (msg_header m)\<rparr>) m e"

definition recorder_response_set_params :: "'e recorder_hooks \<Rightarrow> 'e recorder_handler" where
  "recorder_response_set_params H sm m e = recorder_response_dispatch H sm m e"

definition recorder_request_get_params :: "'e recorder_hooks \<Rightarrow> 'e recorder_handler" where
  "recorder_request_get_params H sm m e = recorder_request_dispatch H sm m e"

definition recorder_response_get_params :: "'e recorder_hooks \<Rightarrow> 'e recorder_handler" where
  "recorder_response_get_params H sm m e =
     (case sm_active_request sm of None \<Rightarrow> Inl NullDeref
      | Some active \<Rightarrow>
          recorder_response_dispatch H sm
            (m\<lparr>msg_header := mrcp_header_fields_get (msg_header m) (sm_properties sm) (msg_header active)\<rparr>) e)"

definition recorder_request_record :: "apr \<Rightarrow> 'e recorder_hooks \<Rightarrow> 'e recorder_handler" where
  "recorder_request_record A H sm m e =
     (let m = m\<lparr>msg_header := mrcp_header_fields_inherit (msg_header m) (sm_properties sm)\<rparr>
      in if rcm_state sm = RECORDER_STATE_RECORDING
         then respond A H (set_status_code MRCP_STATUS_CODE_METHOD_NOT_VALID) sm m e
         else recorder_request_dispatch H sm m e)"

definition recorder_response_record :: "'e recorder_hooks \<Rightarrow> 'e recorder_handler" where
  "recorder_response_record H sm m e =
     (let sm = (if request_state m = MRCP_REQUEST_STATE_INPROGRESS
                then recorder_state_change (sm\<lparr>rcm_record := sm_active_request sm\<rparr>) RECORDER_STATE_RECORDING
                else sm)
      in recorder_response_dispatch H sm m e)"

definition recorder_request_stop :: "apr \<Rightarrow> 'e recorder_hooks \<Rightarrow> 'e recorder_handler" where
  "recorder_request_stop A H sm m e =
     (if rcm_state sm = RECORDER_STATE_RECORDING then recorder_request_dispatch H sm m e else respond A H id sm m e)"

definition recorder_response_stop :: "'e recorder_hooks \<Rightarrow> 'e recorder_handler" where
  "recorder_response_stop H sm m e =
     (case rcm_record sm of None \<Rightarrow> Inl NullDeref
      | Some r \<Rightarrow> sbind (active_id_add m (req_id r)) (\<lambda>m.
          recorder_response_dispatch H (recorder_state_change sm RECORDER_STATE_IDLE) m e))"

definition recorder_request_start_timers :: "apr \<Rightarrow> 'e recorder_hooks \<Rightarrow> 'e recorder_handler" where
  "recorder_request_start_timers A H sm m e =
     (if rcm_state sm = RECORDER_STATE_RECORDING then recorder_request_dispatch H sm m e
      else respond A H (set_status_code MRCP_STATUS_CODE_METHOD_NOT_VALID) sm m e)"

definition recorder_response_start_timers :: "'e recorder_hooks \<Rightarrow> 'e recorder_handler" where
  "recorder_response_start_timers H sm m e = recorder_response_dispatch H sm m e"

definition recorder_event_start_of_input :: "'e recorder_hooks \<Rightarrow> 'e recorder_handler" where
  "recorder_event_start_of_input H sm m e =
     (case rcm_record sm of None \<Rightarrow> Inr (False, sm, e)
      | Some r \<Rightarrow>
          if req_id r \<noteq> req_id m then Inr (False, sm, e)
          else recorder_event_dispatch H sm (set_request_state MRCP_REQUEST_STATE_INPROGRESS m) e)"

fun recorder_cause_put :: "resource_header \<Rightarrow> resource_header option" where
  "recorder_cause_put (RecorderData h) = Some (RecorderData (h\<lparr>rc_completion_cause := 0\<rparr>))"
| "recorder_cause_put _ = None"

definition recorder_event_record_complete :: "'e recorder_hooks \<Rightarrow> 'e recorder_handler" where
  "recorder_event_record_complete H sm m e =
     (case rcm_record sm of None \<Rightarrow> Inr (False, sm, e)
      | Some r \<Rightarrow>
          if req_id r \<noteq> req_id m then Inr (False, sm, e)
          else if waiting_for sm RECORDER_STOP then Inr (False, sm, e)
          else sbind (completion_cause_default RECORDER_HEADER_COMPLETION_CAUSE recorder_cause_put m) (\<lambda>m.
                 recorder_event_dispatch H (recorder_state_change sm RECORDER_STATE_IDLE) m e))"

definition recorder_request_method_array :: "apr \<Rightarrow> 'e recorder_hooks \<Rightarrow> 'e recorder_handler list" where
  "recorder_request_method_array A H =
     [recorder_request_set_params H, recorder_request_get_params H, recorder_request_record A H,
      recorder_request_stop A H, recorder_request_start_timers A H]"

definition recorder_response_method_array :: "'e recorder_hooks \<Rightarrow> 'e recorder_handler list" where
  "recorder_response_method_array H =
     [recorder_response_set_params H, recorder_response_get_params H, recorder_response_record H,
      recorder_response_stop H, recorder_response_start_timers H]"

definition recorder_event_method_array :: "'e recorder_hooks \<Rightarrow> 'e recorder_handler list" where
  "recorder_event_method_array H = [recorder_event_start_of_input H, recorder_event_record_complete H]"

definition recorder_request_state_update :: "apr \<Rightarrow> 'e recorder_hooks \<Rightarrow> 'e recorder_handler" where
  "recorder_request_state_update A H = request_update H RECORDER_METHOD_COUNT (recorder_request_method_array A H)"

definition recorder_response_state_update :: "'e recorder_hooks \<Rightarrow> 'e recorder_handler" where
  "recorder_response_state_update H = response_update H RECORDER_METHOD_COUNT (recorder_response_method_array H)"

definition recorder_event_state_update :: "'e recorder_hooks \<Rightarrow> 'e recorder_handler" where
  "recorder_event_state_update H = event_update H RECORDER_EVENT_COUNT (recorder_event_method_array H)"

definition recorder_state_update :: "apr \<Rightarrow> 'e recorder_hooks \<Rightarrow> 'e recorder_handler" where
  "recorder_state_update A H =
     state_update (recorder_request_state_update A H) (recorder_response_state_update H) (recorder_event_state_update H)"

definition recorder_state_deactivate :: "apr \<Rightarrow> 'e recorder_hooks \<Rightarrow> recorder_machine \<Rightarrow> 'e \<Rightarrow> (recorder_machine, 'e) machine_result" where
  "recorder_state_deactivate A H sm e =
     (if rcm_state sm \<noteq> RECORDER_STATE_RECORDING then Inr (False, sm, e)
      else case rcm_record sm of None \<Rightarrow> Inr (False, sm, e)
           | Some source \<Rightarrow> sbind (internal_stop A source RECORDER_STOP) (\<lambda>m. recorder_request_dispatch H sm m e))"

definition mrcp_recorder_state_machine_create ::
  "apr \<Rightarrow> c_flt \<Rightarrow> resource_header message_header \<Rightarrow> mrcp_version \<Rightarrow> recorder_machine" where
  "mrcp_recorder_state_machine_create A F block version =
     \<lparr>sm_active = True, sm_active_request = None,
      sm_properties = mrcp_message_header_create block (Some (mrcp_generic_header_vtable_get A version))
        (Some (resource_vtable A F MRCP_RECORDER_RESOURCE version)),
      rcm_state = RECORDER_STATE_IDLE, rcm_record = None\<rparr>"

section \<open>The invariant\<close>

text \<open>
  The machine knows the request in progress exactly when it records, it waits for the answer to a
  STOP request only while it records, and the requests it keeps belong to a resource.
\<close>

definition recorder_inv :: "recorder_machine \<Rightarrow> bool" where
  "recorder_inv sm \<longleftrightarrow> (rcm_record sm = None \<longleftrightarrow> rcm_state sm = RECORDER_STATE_IDLE) \<and>
     (waiting_for sm RECORDER_STOP \<longrightarrow> rcm_state sm = RECORDER_STATE_RECORDING) \<and>
     opt_ok (sm_active_request sm) \<and> opt_ok (rcm_record sm)"

text \<open>
  What the machine does not survive: a response to STOP that has the identifier of the request the
  machine waits for, which is another request, while there is no RECORD request in progress.
\<close>

definition recorder_hazard :: "recorder_machine \<Rightarrow> message \<Rightarrow> bool" where
  "recorder_hazard sm m \<longleftrightarrow> answers_other sm m \<and> method_id m = RECORDER_STOP \<and> rcm_record sm = None"

definition recorder_admissible :: "apr \<Rightarrow> c_flt \<Rightarrow> recorder_machine \<Rightarrow> message \<Rightarrow> bool" where
  "recorder_admissible A F sm m \<longleftrightarrow> apr_ok A \<and> machine_message A F MRCP_RECORDER_RESOURCE m"

lemma waiting_for_recorder [simp]:
  "waiting_for (sm\<lparr>rcm_state := st\<rparr>) i = waiting_for sm i" "waiting_for (sm\<lparr>rcm_record := r\<rparr>) i = waiting_for sm i"
  by (simp_all add: waiting_for_def)

lemma recorder_cause: "cause_ok A F MRCP_RECORDER_RESOURCE RECORDER_HEADER_COMPLETION_CAUSE recorder_cause_put"
proof -
  have "(\<exists>d'. recorder_cause_put d = Some d' \<and> header_type d' = MRCP_RECORDER_RESOURCE) \<and>
      no_fault (vt_generate (resource_vtable A F MRCP_RECORDER_RESOURCE version) RECORDER_HEADER_COMPLETION_CAUSE d v)"
    if "header_type d = MRCP_RECORDER_RESOURCE" for d v version
    using that by (cases d) (simp_all add: resource_vtables data_vtable_def mrcp_recorder_header_vtable_def
        mrcp_recorder_header_generate_def)
  then show ?thesis by (simp add: cause_ok_def)
qed

lemmas recorder_dispatch_defs = recorder_request_dispatch_def recorder_response_dispatch_def recorder_event_dispatch_def
  recorder_state_change_def

lemmas recorder_request_defs = recorder_request_set_params_def recorder_request_get_params_def recorder_request_record_def
  recorder_request_stop_def recorder_request_start_timers_def recorder_dispatch_defs

lemmas recorder_response_defs = recorder_response_set_params_def recorder_response_get_params_def
  recorder_response_record_def recorder_response_stop_def recorder_response_start_timers_def recorder_dispatch_defs

lemma recorder_request_safe:
  assumes "hooks_ok recorder_inv H" and "recorder_inv sm" and "res_ok m"
  shows "safe recorder_inv (recorder_request_state_update A H sm m e)"
  unfolding recorder_request_state_update_def
proof (rule safe_request_update)
  fix i :: nat
  assume i: "i < length (recorder_request_method_array A H)" "method_id m = i"
  then have "i = 0 \<or> i = 1 \<or> i = 2 \<or> i = 3 \<or> i = 4" by (simp add: recorder_request_method_array_def) arith
  then show "safe recorder_inv ((recorder_request_method_array A H ! i) sm m e)"
    using assms i(2)
    by (elim disjE) (auto simp: recorder_request_method_array_def recorder_request_defs Let_def recorder_inv_def
        intro!: safe_request safe_respond)
qed (use assms in \<open>simp_all add: recorder_request_method_array_def\<close>)

lemma recorder_response_safe:
  assumes "hooks_ok recorder_inv H" and "recorder_inv sm" and "apr_ok A" and "machine_message A F t m"
    and "message_type m = MRCP_MESSAGE_TYPE_RESPONSE" and "\<not> recorder_hazard sm m"
  shows "safe recorder_inv (recorder_response_state_update H sm m e)"
  unfolding recorder_response_state_update_def
proof (rule safe_response_update)
  fix i :: nat and active
  assume i: "i < length (recorder_response_method_array H)" "method_id m = i"
    and a: "sm_active_request sm = Some active" "req_id active = req_id m"
  have ok: "res_ok m" "generic_ok A m" using assms(4) by (simp_all add: machine_message_def)
  have stop: "i = RECORDER_STOP \<Longrightarrow> rcm_record sm \<noteq> None"
    using assms(2,5,6) a i(2) by (auto simp: recorder_inv_def waiting_for_def recorder_hazard_def answers_other_def)
  from i(1) have "i = 0 \<or> i = 1 \<or> i = 2 \<or> i = 3 \<or> i = 4" by (simp add: recorder_response_method_array_def) arith
  then show "safe recorder_inv ((recorder_response_method_array H ! i) sm m e)"
    using assms(1-3) ok stop a(1)
    by (elim disjE) (auto simp: recorder_response_method_array_def recorder_response_defs Let_def recorder_inv_def
        intro!: safe_response safe_active_id)
qed (use assms in \<open>simp_all add: recorder_response_method_array_def\<close>)

lemma recorder_event_safe:
  assumes "hooks_ok recorder_inv H" and "recorder_inv sm" and "machine_message A F MRCP_RECORDER_RESOURCE m"
  shows "safe recorder_inv (recorder_event_state_update H sm m e)"
  unfolding recorder_event_state_update_def
proof (rule safe_event_update)
  fix i :: nat
  assume i: "i < length (recorder_event_method_array H)" "method_id m = i"
  then have "i = 0 \<or> i = 1" by (simp add: recorder_event_method_array_def) arith
  then show "safe recorder_inv ((recorder_event_method_array H ! i) sm m e)"
    using assms recorder_cause [of A F]
    by (elim disjE) (auto simp: recorder_event_method_array_def recorder_event_start_of_input_def Let_def recorder_inv_def
        recorder_event_record_complete_def recorder_dispatch_defs split: option.split
        intro!: safe_event safe_Inr safe_completion_cause)
qed (use assms in \<open>simp_all add: recorder_event_method_array_def\<close>)

lemma recorder_update_safe:
  assumes "hooks_ok recorder_inv H" and "recorder_inv sm" and "recorder_admissible A F sm m" and "\<not> recorder_hazard sm m"
  shows "safe recorder_inv (recorder_state_update A H sm m e)"
  unfolding recorder_state_update_def
proof (rule safe_state_update)
  have m: "apr_ok A" "machine_message A F MRCP_RECORDER_RESOURCE m" "res_ok m"
    using assms(3) by (simp_all add: recorder_admissible_def machine_message_def)
  show "safe recorder_inv (recorder_request_state_update A H sm m e)"
    by (rule recorder_request_safe [OF assms(1,2) m(3)])
  show "safe recorder_inv (recorder_response_state_update H sm m e)" if "message_type m = MRCP_MESSAGE_TYPE_RESPONSE"
    by (rule recorder_response_safe [OF assms(1,2) m(1,2) that assms(4)])
  show "safe recorder_inv (recorder_event_state_update H sm m e)"
    by (rule recorder_event_safe [OF assms(1,2) m(2)])
qed (rule assms(2))

definition recorder_deactivate :: "apr \<Rightarrow> 'e recorder_hooks \<Rightarrow> recorder_machine \<Rightarrow> 'e \<Rightarrow> (recorder_machine, 'e) machine_result" where
  "recorder_deactivate A H = mrcp_state_machine_deactivate (Some (recorder_state_deactivate A H))"

lemma recorder_deactivate_safe:
  assumes "hooks_ok recorder_inv H" and "recorder_inv sm"
  shows "safe recorder_inv (recorder_deactivate A H sm e)"
  using assms
  by (auto simp: recorder_deactivate_def mrcp_state_machine_deactivate_def recorder_state_deactivate_def recorder_inv_def
      recorder_dispatch_defs split: option.split intro!: safe_Inr safe_stop_create safe_request)

lemma recorder_hazard_faults:
  assumes "recorder_hazard sm m"
  shows "recorder_state_update A H sm m e = Inl NullDeref"
  using assms unfolding recorder_hazard_def answers_other_def
  by (auto simp: recorder_state_update_def state_update_def response_update_def recorder_response_state_update_def
      recorder_response_method_array_def recorder_response_stop_def split: option.splits)

interpretation recorder_machine: resource_state_machine recorder_inv
  "recorder_admissible A F" recorder_hazard "recorder_state_update A" "recorder_deactivate A" for A F
  by (rule resource_state_machine.intro; (rule recorder_update_safe recorder_hazard_faults recorder_deactivate_safe; assumption))

lemma recorder_inv_create: "recorder_inv (mrcp_recorder_state_machine_create A F block version)"
  by (simp add: recorder_inv_def mrcp_recorder_state_machine_create_def waiting_for_def)

section \<open>Properties\<close>


definition recorder_sample :: "mrcp_message_type \<Rightarrow> nat \<Rightarrow> request_id \<Rightarrow> mrcp_request_state \<Rightarrow> message" where
  "recorder_sample type i rid st = sample_message apr_ref five_flt MRCP_RECORDER_RESOURCE type i rid st MRCP_STATUS_CODE_SUCCESS"

definition recorder_sample_start :: recorder_machine where
  "recorder_sample_start = mrcp_recorder_state_machine_create apr_ref five_flt
     (msg_header (mrcp_message_create apr_ref)) MRCP_VERSION_2"

lemmas recorder_update_defs = recorder_state_update_def state_update_def request_update_def response_update_def event_update_def
  recorder_request_state_update_def recorder_response_state_update_def recorder_event_state_update_def
  recorder_request_method_array_def recorder_response_method_array_def recorder_event_method_array_def
  request_dispatch_def response_dispatch_def event_dispatch_def log_hooks_def


lemma recorder_answers_requests:
  assumes "apr_ok A"
  shows "answers_requests recorder_inv RECORDER_METHOD_COUNT (machine_message A F MRCP_RECORDER_RESOURCE) (recorder_state_update A log_hooks)"
  unfolding answers_requests_def
proof (intro allI impI, elim conjE)
  fix sm m out
  assume sm: "recorder_inv sm" "sm_active sm" and m: "machine_message A F MRCP_RECORDER_RESOURCE m"
    "message_type m = MRCP_MESSAGE_TYPE_REQUEST" and "method_id m < RECORDER_METHOD_COUNT"
  have "res_ok m" using m(1) by (simp add: machine_message_def)
  from \<open>method_id m < RECORDER_METHOD_COUNT\<close> have "method_id m = 0 \<or> method_id m = 1 \<or> method_id m = 2 \<or> method_id m = 3 \<or> method_id m = 4" by arith
  then show "one_reply m out (recorder_state_update A log_hooks sm m out)"
    using sm m(2) assms \<open>res_ok m\<close>
    by (elim disjE) (auto simp: recorder_state_update_def state_update_def recorder_request_state_update_def request_update_def
        recorder_request_method_array_def recorder_request_defs Let_def recorder_inv_def split: option.split
        intro!: reply_request reply_response reply_respond reply_stop_pending reply_done)
qed

end
