(* ===== verification/VerifierMachine.thy ===== *)
theory VerifierMachine
  imports MachineBase
begin

text \<open>
  The state machine of the verifier (\<open>mrcp_verifier_state_machine.c\<close>): idle, with an open
  session, or verifying.
\<close>

section \<open>The code\<close>

datatype mrcp_verifier_state = VERIFIER_STATE_IDLE | VERIFIER_STATE_OPENED | VERIFIER_STATE_VERIFYING

record verifier_machine = resource_machine +
  vfm_state :: mrcp_verifier_state
  vfm_verify :: "message option"

type_synonym 'e verifier_hooks = "(verifier_machine, 'e) machine_hooks"
type_synonym 'e verifier_handler = "(verifier_machine, 'e) handler"

definition verifier_request_dispatch :: "'e verifier_hooks \<Rightarrow> 'e verifier_handler" where
  "verifier_request_dispatch H sm m e = request_dispatch H sm m e"

definition verifier_response_dispatch :: "'e verifier_hooks \<Rightarrow> 'e verifier_handler" where
  "verifier_response_dispatch H sm m e = response_dispatch H sm m e"

definition verifier_event_dispatch :: "'e verifier_hooks \<Rightarrow> 'e verifier_handler" where
  "verifier_event_dispatch H sm m e = event_dispatch H sm m e"

definition verifier_state_change :: "verifier_machine \<Rightarrow> mrcp_verifier_state \<Rightarrow> verifier_machine" where
  "verifier_state_change sm st =
     (let sm = sm\<lparr>vfm_state := st\<rparr> in if st = VERIFIER_STATE_IDLE then sm\<lparr>vfm_verify := None\<rparr> else sm)"

definition verifier_request_set_params :: "'e verifier_hooks \<Rightarrow> 'e verifier_handler" where
  "verifier_request_set_params H sm m e =
     verifier_request_dispatch H (sm\<lparr>sm_properties := mrcp_header_fields_set (sm_properties sm) (msg_header m)\<rparr>) m e"

definition verifier_response_set_params :: "'e verifier_hooks \<Rightarrow> 'e verifier_handler" where
  "verifier_response_set_params H sm m e = verifier_response_dispatch H sm m e"

definition verifier_request_get_params :: "'e verifier_hooks \<Rightarrow> 'e verifier_handler" where
  "verifier_request_get_params H sm m e = verifier_request_dispatch H sm m e"

definition verifier_response_get_params :: "'e verifier_hooks \<Rightarrow> 'e verifier_handler" where
  "verifier_response_get_params H sm m e =
     (case sm_active_request sm of None \<Rightarrow> Inl NullDeref
      | Some active \<Rightarrow>
          verifier_response_dispatch H sm
            (m\<lparr>msg_header := mrcp_header_fields_get (msg_header m) (sm_properties sm) (msg_header active)\<rparr>) e)"

definition verifier_request_start_session :: "apr \<Rightarrow> 'e verifier_hooks \<Rightarrow> 'e verifier_handler" where
  "verifier_request_start_session A H sm m e =
     (if vfm_state sm = VERIFIER_STATE_VERIFYING then respond A H (set_status_code MRCP_STATUS_CODE_METHOD_NOT_VALID) sm m e
      else verifier_request_dispatch H sm m e)"

definition verifier_response_start_session :: "'e verifier_hooks \<Rightarrow> 'e verifier_handler" where
  "verifier_response_start_session H sm m e = verifier_response_dispatch H (verifier_state_change sm VERIFIER_STATE_OPENED) m e"

definition verifier_request_end_session :: "apr \<Rightarrow> 'e verifier_hooks \<Rightarrow> 'e verifier_handler" where
  "verifier_request_end_session A H sm m e =
     (if vfm_state sm = VERIFIER_STATE_IDLE then respond A H (set_status_code MRCP_STATUS_CODE_METHOD_NOT_VALID) sm m e
      else verifier_request_dispatch H sm m e)"

definition verifier_response_end_session :: "'e verifier_hooks \<Rightarrow> 'e verifier_handler" where
  "verifier_response_end_session H sm m e = verifier_response_dispatch H (verifier_state_change sm VERIFIER_STATE_IDLE) m e"

definition verifier_request_query_voiceprint :: "apr \<Rightarrow> 'e verifier_hooks \<Rightarrow> 'e verifier_handler" where
  "verifier_request_query_voiceprint A H sm m e =
     (if vfm_state sm = VERIFIER_STATE_IDLE then respond A H (set_status_code MRCP_STATUS_CODE_METHOD_NOT_VALID) sm m e
      else verifier_request_dispatch H sm m e)"

definition verifier_response_query_voiceprint :: "'e verifier_hooks \<Rightarrow> 'e verifier_handler" where
  "verifier_response_query_voiceprint H sm m e = verifier_response_dispatch H sm m e"

definition verifier_request_delete_voiceprint :: "apr \<Rightarrow> 'e verifier_hooks \<Rightarrow> 'e verifier_handler" where
  "verifier_request_delete_voiceprint A H sm m e =
     (if vfm_state sm = VERIFIER_STATE_IDLE then respond A H (set_status_code MRCP_STATUS_CODE_METHOD_NOT_VALID) sm m e
      else verifier_request_dispatch H sm m e)"

definition verifier_response_delete_voiceprint :: "'e verifier_hooks \<Rightarrow> 'e verifier_handler" where
  "verifier_response_delete_voiceprint H sm m e = verifier_response_dispatch H sm m e"

definition verifier_request_verify :: "apr \<Rightarrow> 'e verifier_hooks \<Rightarrow> 'e verifier_handler" where
  "verifier_request_verify A H sm m e =
     (if vfm_state sm = VERIFIER_STATE_IDLE \<or> vfm_state sm = VERIFIER_STATE_VERIFYING then respond A H (set_status_code MRCP_STATUS_CODE_METHOD_NOT_VALID) sm m e
      else verifier_request_dispatch H (sm\<lparr>vfm_verify := Some m\<rparr>) m e)"

definition verifier_response_verify :: "'e verifier_hooks \<Rightarrow> 'e verifier_handler" where
  "verifier_response_verify H sm m e = verifier_response_dispatch H (verifier_state_change sm VERIFIER_STATE_VERIFYING) m e"

definition verifier_request_verify_from_buffer :: "apr \<Rightarrow> 'e verifier_hooks \<Rightarrow> 'e verifier_handler" where
  "verifier_request_verify_from_buffer A H sm m e =
     (if vfm_state sm = VERIFIER_STATE_IDLE \<or> vfm_state sm = VERIFIER_STATE_VERIFYING then respond A H (set_status_code MRCP_STATUS_CODE_METHOD_NOT_VALID) sm m e
      else verifier_request_dispatch H (sm\<lparr>vfm_verify := Some m\<rparr>) m e)"

definition verifier_response_verify_from_buffer :: "'e verifier_hooks \<Rightarrow> 'e verifier_handler" where
  "verifier_response_verify_from_buffer H sm m e = verifier_response_dispatch H (verifier_state_change sm VERIFIER_STATE_VERIFYING) m e"

definition verifier_request_verify_rollback :: "'e verifier_hooks \<Rightarrow> 'e verifier_handler" where
  "verifier_request_verify_rollback H sm m e = verifier_request_dispatch H sm m e"

definition verifier_response_verify_rollback :: "'e verifier_hooks \<Rightarrow> 'e verifier_handler" where
  "verifier_response_verify_rollback H sm m e = verifier_response_dispatch H sm m e"

definition verifier_request_stop :: "apr \<Rightarrow> 'e verifier_hooks \<Rightarrow> 'e verifier_handler" where
  "verifier_request_stop A H sm m e =
     (if vfm_state sm = VERIFIER_STATE_IDLE then respond A H (set_status_code MRCP_STATUS_CODE_METHOD_NOT_VALID) sm m e
      else if vfm_state sm = VERIFIER_STATE_OPENED then respond A H id sm m e
      else verifier_request_dispatch H sm m e)"

definition verifier_response_stop :: "'e verifier_hooks \<Rightarrow> 'e verifier_handler" where
  "verifier_response_stop H sm m e =
     (case vfm_verify sm of None \<Rightarrow> Inl NullDeref
      | Some r \<Rightarrow> sbind (active_id_add m (req_id r)) (\<lambda>m.
          verifier_response_dispatch H (verifier_state_change sm VERIFIER_STATE_OPENED) m e))"

definition verifier_request_clear_buffer :: "'e verifier_hooks \<Rightarrow> 'e verifier_handler" where
  "verifier_request_clear_buffer H sm m e = verifier_request_dispatch H sm m e"

definition verifier_response_clear_buffer :: "'e verifier_hooks \<Rightarrow> 'e verifier_handler" where
  "verifier_response_clear_buffer H sm m e = verifier_response_dispatch H sm m e"

definition verifier_request_start_input_timers :: "apr \<Rightarrow> 'e verifier_hooks \<Rightarrow> 'e verifier_handler" where
  "verifier_request_start_input_timers A H sm m e =
     (if vfm_state sm = VERIFIER_STATE_IDLE \<or> vfm_state sm = VERIFIER_STATE_VERIFYING then respond A H (set_status_code MRCP_STATUS_CODE_METHOD_NOT_VALID) sm m e
      else verifier_request_dispatch H sm m e)"

definition verifier_response_start_input_timers :: "'e verifier_hooks \<Rightarrow> 'e verifier_handler" where
  "verifier_response_start_input_timers H sm m e = verifier_response_dispatch H sm m e"

definition verifier_request_get_intermidiate_result :: "apr \<Rightarrow> 'e verifier_hooks \<Rightarrow> 'e verifier_handler" where
  "verifier_request_get_intermidiate_result A H sm m e =
     (if vfm_state sm \<noteq> VERIFIER_STATE_VERIFYING then respond A H (set_status_code MRCP_STATUS_CODE_METHOD_NOT_VALID) sm m e
      else verifier_request_dispatch H sm m e)"

definition verifier_response_get_intermidiate_result :: "'e verifier_hooks \<Rightarrow> 'e verifier_handler" where
  "verifier_response_get_intermidiate_result H sm m e = verifier_response_dispatch H sm m e"

definition verifier_event_start_of_input :: "'e verifier_hooks \<Rightarrow> 'e verifier_handler" where
  "verifier_event_start_of_input H sm m e =
     (case vfm_verify sm of None \<Rightarrow> Inr (False, sm, e)
      | Some r \<Rightarrow>
          if req_id r \<noteq> req_id m then Inr (False, sm, e)
          else verifier_event_dispatch H sm (set_request_state MRCP_REQUEST_STATE_INPROGRESS m) e)"

fun verifier_cause_put :: "resource_header \<Rightarrow> resource_header option" where
  "verifier_cause_put (VerifierData h) = Some (VerifierData (h\<lparr>vf_completion_cause := 0\<rparr>))"
| "verifier_cause_put _ = None"

definition verifier_event_verification_complete :: "'e verifier_hooks \<Rightarrow> 'e verifier_handler" where
  "verifier_event_verification_complete H sm m e =
     (case vfm_verify sm of None \<Rightarrow> Inr (False, sm, e)
      | Some r \<Rightarrow>
          if req_id r \<noteq> req_id m then Inr (False, sm, e)
          else if waiting_for sm VERIFIER_STOP then Inr (False, sm, e)
          else sbind (completion_cause_default VERIFIER_HEADER_COMPLETION_CAUSE verifier_cause_put m) (\<lambda>m.
                 verifier_event_dispatch H (verifier_state_change sm VERIFIER_STATE_OPENED) m e))"

definition verifier_request_method_array :: "apr \<Rightarrow> 'e verifier_hooks \<Rightarrow> 'e verifier_handler list" where
  "verifier_request_method_array A H =
     [verifier_request_set_params H, verifier_request_get_params H, verifier_request_start_session A H,
      verifier_request_end_session A H, verifier_request_query_voiceprint A H,
      verifier_request_delete_voiceprint A H, verifier_request_verify A H,
      verifier_request_verify_from_buffer A H, verifier_request_verify_rollback H,
      verifier_request_stop A H, verifier_request_clear_buffer H, verifier_request_start_input_timers A H,
      verifier_request_get_intermidiate_result A H]"

definition verifier_response_method_array :: "'e verifier_hooks \<Rightarrow> 'e verifier_handler list" where
  "verifier_response_method_array H =
     [verifier_response_set_params H, verifier_response_get_params H, verifier_response_start_session H,
      verifier_response_end_session H, verifier_response_query_voiceprint H,
      verifier_response_delete_voiceprint H, verifier_response_verify H,
      verifier_response_verify_from_buffer H, verifier_response_verify_rollback H,
      verifier_response_stop H, verifier_response_clear_buffer H, verifier_response_start_input_timers H,
      verifier_response_get_intermidiate_result H]"

definition verifier_event_method_array :: "'e verifier_hooks \<Rightarrow> 'e verifier_handler list" where
  "verifier_event_method_array H =
     [verifier_event_start_of_input H, verifier_event_verification_complete H]"

definition verifier_request_state_update :: "apr \<Rightarrow> 'e verifier_hooks \<Rightarrow> 'e verifier_handler" where
  "verifier_request_state_update A H = request_update H VERIFIER_METHOD_COUNT (verifier_request_method_array A H)"

definition verifier_response_state_update :: "'e verifier_hooks \<Rightarrow> 'e verifier_handler" where
  "verifier_response_state_update H = response_update H VERIFIER_METHOD_COUNT (verifier_response_method_array H)"

definition verifier_event_state_update :: "'e verifier_hooks \<Rightarrow> 'e verifier_handler" where
  "verifier_event_state_update H = event_update H VERIFIER_EVENT_COUNT (verifier_event_method_array H)"

definition verifier_state_update :: "apr \<Rightarrow> 'e verifier_hooks \<Rightarrow> 'e verifier_handler" where
  "verifier_state_update A H =
     state_update (verifier_request_state_update A H) (verifier_response_state_update H) (verifier_event_state_update H)"

definition verifier_state_deactivate :: "apr \<Rightarrow> 'e verifier_hooks \<Rightarrow> verifier_machine \<Rightarrow> 'e \<Rightarrow> (verifier_machine, 'e) machine_result" where
  "verifier_state_deactivate A H sm e =
     (if vfm_state sm \<noteq> VERIFIER_STATE_VERIFYING then Inr (False, sm, e)
      else case vfm_verify sm of None \<Rightarrow> Inr (False, sm, e)
           | Some source \<Rightarrow> sbind (internal_stop A source VERIFIER_STOP) (\<lambda>m. verifier_request_dispatch H sm m e))"

definition mrcp_verifier_state_machine_create ::
  "apr \<Rightarrow> c_flt \<Rightarrow> resource_header message_header \<Rightarrow> mrcp_version \<Rightarrow> verifier_machine" where
  "mrcp_verifier_state_machine_create A F block version =
     \<lparr>sm_active = True, sm_active_request = None,
      sm_properties = mrcp_message_header_create block (Some (mrcp_generic_header_vtable_get A version))
        (Some (resource_vtable A F MRCP_VERIFIER_RESOURCE version)),
      vfm_state = VERIFIER_STATE_IDLE, vfm_verify = None\<rparr>"

section \<open>The invariant\<close>

text \<open>
  The machine knows the request in progress while it verifies and while it waits for the answer to
  a VERIFY or a STOP request; without a session there is none.
\<close>

definition verifier_inv :: "verifier_machine \<Rightarrow> bool" where
  "verifier_inv sm \<longleftrightarrow> (vfm_state sm = VERIFIER_STATE_IDLE \<longrightarrow> vfm_verify sm = None) \<and>
     (vfm_state sm = VERIFIER_STATE_VERIFYING \<or> waiting_for sm VERIFIER_VERIFY \<or> waiting_for sm VERIFIER_VERIFY_FROM_BUFFER \<or>
      waiting_for sm VERIFIER_STOP \<longrightarrow> vfm_verify sm \<noteq> None) \<and>
     opt_ok (sm_active_request sm) \<and> opt_ok (vfm_verify sm)"

text \<open>
  What makes the machine believe that it verifies although no request to verify is known: a response
  to VERIFY or VERIFY-FROM-BUFFER that has the identifier of the request the machine waits for, which
  is another request.
\<close>

definition verifier_misled :: "verifier_machine \<Rightarrow> message \<Rightarrow> bool" where
  "verifier_misled sm m \<longleftrightarrow> answers_other sm m \<and> method_id m \<in> {VERIFIER_VERIFY, VERIFIER_VERIFY_FROM_BUFFER} \<and>
     vfm_verify sm = None"

text \<open>
  What the machine does not survive: a response to STOP that has the identifier of the request the
  machine waits for, which is another request, while no request to verify is known.
\<close>

definition verifier_hazard :: "verifier_machine \<Rightarrow> message \<Rightarrow> bool" where
  "verifier_hazard sm m \<longleftrightarrow> answers_other sm m \<and> method_id m = VERIFIER_STOP \<and> vfm_verify sm = None"

definition verifier_admissible :: "apr \<Rightarrow> c_flt \<Rightarrow> verifier_machine \<Rightarrow> message \<Rightarrow> bool" where
  "verifier_admissible A F sm m \<longleftrightarrow> apr_ok A \<and> machine_message A F MRCP_VERIFIER_RESOURCE m \<and> \<not> verifier_misled sm m"

lemma waiting_for_verifier [simp]:
  "waiting_for (sm\<lparr>vfm_state := v0\<rparr>) i = waiting_for sm i"
  "waiting_for (sm\<lparr>vfm_verify := v1\<rparr>) i = waiting_for sm i"
  by (simp_all add: waiting_for_def)

lemma verifier_cause: "cause_ok A F MRCP_VERIFIER_RESOURCE VERIFIER_HEADER_COMPLETION_CAUSE verifier_cause_put"
proof -
  have "(\<exists>d'. verifier_cause_put d = Some d' \<and> header_type d' = MRCP_VERIFIER_RESOURCE) \<and>
      no_fault (vt_generate (resource_vtable A F MRCP_VERIFIER_RESOURCE version) VERIFIER_HEADER_COMPLETION_CAUSE d v)"
    if "header_type d = MRCP_VERIFIER_RESOURCE" for d v version
    using that by (cases d) (simp_all add: resource_vtables data_vtable_def mrcp_verifier_header_vtable_def
        mrcp_verifier_header_generate_def)
  then show ?thesis by (simp add: cause_ok_def)
qed

lemmas verifier_dispatch_defs = verifier_request_dispatch_def verifier_response_dispatch_def verifier_event_dispatch_def
  verifier_state_change_def

lemmas verifier_request_defs = verifier_request_set_params_def verifier_request_get_params_def verifier_request_start_session_def
  verifier_request_end_session_def verifier_request_query_voiceprint_def verifier_request_delete_voiceprint_def
  verifier_request_verify_def verifier_request_verify_from_buffer_def verifier_request_verify_rollback_def
  verifier_request_stop_def verifier_request_clear_buffer_def verifier_request_start_input_timers_def
  verifier_request_get_intermidiate_result_def
  verifier_dispatch_defs

lemmas verifier_response_defs = verifier_response_set_params_def verifier_response_get_params_def verifier_response_start_session_def
  verifier_response_end_session_def verifier_response_query_voiceprint_def
  verifier_response_delete_voiceprint_def verifier_response_verify_def verifier_response_verify_from_buffer_def
  verifier_response_verify_rollback_def verifier_response_stop_def verifier_response_clear_buffer_def
  verifier_response_start_input_timers_def verifier_response_get_intermidiate_result_def
  verifier_dispatch_defs

lemma verifier_request_safe:
  assumes "hooks_ok verifier_inv H" and "verifier_inv sm" and "apr_ok A" and "machine_message A F MRCP_VERIFIER_RESOURCE m"
  shows "safe verifier_inv (verifier_request_state_update A H sm m e)"
  unfolding verifier_request_state_update_def
proof (rule safe_request_update)
  fix i :: nat
  assume i: "i < length (verifier_request_method_array A H)" "method_id m = i"
  have ok: "res_ok m" "generic_ok A m" using assms(4) by (simp_all add: machine_message_def)
  from i(1) have "i = 0 \<or> i = 1 \<or> i = 2 \<or> i = 3 \<or> i = 4 \<or> i = 5 \<or> i = 6 \<or> i = 7 \<or> i = 8 \<or> i = 9 \<or> i = 10 \<or> i = 11 \<or> i = 12" by (simp add: verifier_request_method_array_def) arith
  then show "safe verifier_inv ((verifier_request_method_array A H ! i) sm m e)"
    using assms(1-3) ok i(2) mrcp_verifier_state.nchotomy [THEN spec, of "vfm_state sm"]
    by (elim disjE) (auto simp: verifier_request_method_array_def verifier_request_defs Let_def verifier_inv_def
        intro!: safe_request safe_respond safe_response safe_response_create safe_pending safe_Inr safe_bind split: option.split)
qed (use assms in \<open>simp_all add: verifier_request_method_array_def\<close>)

lemma verifier_response_safe:
  assumes "hooks_ok verifier_inv H" and "verifier_inv sm" and "apr_ok A" and "machine_message A F MRCP_VERIFIER_RESOURCE m"
    and "message_type m = MRCP_MESSAGE_TYPE_RESPONSE" and "\<not> verifier_hazard sm m" and "\<not> verifier_misled sm m"
  shows "safe verifier_inv (verifier_response_state_update H sm m e)"
  unfolding verifier_response_state_update_def
proof (rule safe_response_update)
  fix i :: nat and active
  assume i: "i < length (verifier_response_method_array H)" "method_id m = i"
    and a: "sm_active_request sm = Some active" "req_id active = req_id m"
  have ok: "res_ok m" "generic_ok A m" using assms(4) by (simp_all add: machine_message_def)
  have facts: "i \<in> {VERIFIER_VERIFY, VERIFIER_VERIFY_FROM_BUFFER, VERIFIER_STOP} \<Longrightarrow> vfm_verify sm \<noteq> None"
    using assms(2,5-7) a i(2) by (auto simp: verifier_inv_def waiting_for_def verifier_hazard_def verifier_misled_def answers_other_def)
  from i(1) have "i = 0 \<or> i = 1 \<or> i = 2 \<or> i = 3 \<or> i = 4 \<or> i = 5 \<or> i = 6 \<or> i = 7 \<or> i = 8 \<or> i = 9 \<or> i = 10 \<or> i = 11 \<or> i = 12" by (simp add: verifier_response_method_array_def) arith
  then show "safe verifier_inv ((verifier_response_method_array H ! i) sm m e)"
    using assms(1-3) ok facts a(1)
    by (elim disjE) (auto simp: verifier_response_method_array_def verifier_response_defs Let_def verifier_inv_def
        intro!: safe_response safe_active_id safe_pending safe_bind safe_request safe_Inr safe_event safe_event_create
          safe_completion_cause split: option.split list.split)
qed (use assms in \<open>simp_all add: verifier_response_method_array_def\<close>)

lemma verifier_event_safe:
  assumes "hooks_ok verifier_inv H" and "verifier_inv sm" and "machine_message A F MRCP_VERIFIER_RESOURCE m"
  shows "safe verifier_inv (verifier_event_state_update H sm m e)"
  unfolding verifier_event_state_update_def
proof (rule safe_event_update)
  fix i :: nat
  assume i: "i < length (verifier_event_method_array H)" "method_id m = i"
  then have "i = 0 \<or> i = 1" by (simp add: verifier_event_method_array_def) arith
  then show "safe verifier_inv ((verifier_event_method_array H ! i) sm m e)"
    using assms verifier_cause [of A F]
    by (elim disjE) (auto simp: verifier_event_method_array_def Let_def verifier_inv_def
        verifier_event_start_of_input_def verifier_event_verification_complete_def verifier_dispatch_defs split: option.split list.split
        intro!: safe_event safe_Inr safe_completion_cause safe_bind safe_request)
qed (use assms in \<open>simp_all add: verifier_event_method_array_def\<close>)

lemma verifier_update_safe:
  assumes "hooks_ok verifier_inv H" and "verifier_inv sm" and "verifier_admissible A F sm m" and "\<not> verifier_hazard sm m"
  shows "safe verifier_inv (verifier_state_update A H sm m e)"
  unfolding verifier_state_update_def
proof (rule safe_state_update)
  have m: "apr_ok A" "machine_message A F MRCP_VERIFIER_RESOURCE m" "\<not> verifier_misled sm m"
    using assms(3) by (simp_all add: verifier_admissible_def)
  show "safe verifier_inv (verifier_request_state_update A H sm m e)"
    by (rule verifier_request_safe [OF assms(1,2) m(1,2)])
  show "safe verifier_inv (verifier_response_state_update H sm m e)" if "message_type m = MRCP_MESSAGE_TYPE_RESPONSE"
    by (rule verifier_response_safe [OF assms(1,2) m(1,2) that assms(4) m(3)])
  show "safe verifier_inv (verifier_event_state_update H sm m e)"
    by (rule verifier_event_safe [OF assms(1,2) m(2)])
qed (rule assms(2))

definition verifier_deactivate :: "apr \<Rightarrow> 'e verifier_hooks \<Rightarrow> verifier_machine \<Rightarrow> 'e \<Rightarrow> (verifier_machine, 'e) machine_result" where
  "verifier_deactivate A H = mrcp_state_machine_deactivate (Some (verifier_state_deactivate A H))"

lemma verifier_deactivate_safe:
  assumes "hooks_ok verifier_inv H" and "verifier_inv sm"
  shows "safe verifier_inv (verifier_deactivate A H sm e)"
  using assms
  by (auto simp: verifier_deactivate_def mrcp_state_machine_deactivate_def verifier_state_deactivate_def verifier_inv_def
      verifier_dispatch_defs split: option.split intro!: safe_Inr safe_stop_create safe_request)

lemma verifier_hazard_faults:
  assumes "verifier_hazard sm m"
  shows "verifier_state_update A H sm m e = Inl NullDeref"
  using assms unfolding verifier_hazard_def answers_other_def
  by (auto simp: verifier_state_update_def state_update_def response_update_def verifier_response_state_update_def
      verifier_response_method_array_def verifier_response_stop_def split: option.splits)

interpretation verifier_machine: resource_state_machine verifier_inv
  "verifier_admissible A F" verifier_hazard "verifier_state_update A" "verifier_deactivate A" for A F
  by (rule resource_state_machine.intro; (rule verifier_update_safe verifier_hazard_faults verifier_deactivate_safe; assumption))

lemma verifier_inv_create: "verifier_inv (mrcp_verifier_state_machine_create A F block version)"
  by (simp add: verifier_inv_def mrcp_verifier_state_machine_create_def waiting_for_def)

section \<open>Properties\<close>


definition verifier_sample :: "mrcp_message_type \<Rightarrow> nat \<Rightarrow> request_id \<Rightarrow> mrcp_request_state \<Rightarrow> message" where
  "verifier_sample type i rid st = sample_message apr_ref five_flt MRCP_VERIFIER_RESOURCE type i rid st MRCP_STATUS_CODE_SUCCESS"

definition verifier_sample_start :: verifier_machine where
  "verifier_sample_start = mrcp_verifier_state_machine_create apr_ref five_flt
     (msg_header (mrcp_message_create apr_ref)) MRCP_VERSION_2"


lemma verifier_answers_requests:
  assumes "apr_ok A"
  shows "answers_requests verifier_inv VERIFIER_METHOD_COUNT (machine_message A F MRCP_VERIFIER_RESOURCE) (verifier_state_update A log_hooks)"
  unfolding answers_requests_def
proof (intro allI impI, elim conjE)
  fix sm m out
  assume sm: "verifier_inv sm" "sm_active sm" and m: "machine_message A F MRCP_VERIFIER_RESOURCE m"
    "message_type m = MRCP_MESSAGE_TYPE_REQUEST" and "method_id m < VERIFIER_METHOD_COUNT"
  have "res_ok m" using m(1) by (simp add: machine_message_def)
  from \<open>method_id m < VERIFIER_METHOD_COUNT\<close> have "method_id m = 0 \<or> method_id m = 1 \<or> method_id m = 2 \<or> method_id m = 3 \<or> method_id m = 4 \<or> method_id m = 5 \<or> method_id m = 6 \<or> method_id m = 7 \<or> method_id m = 8 \<or> method_id m = 9 \<or> method_id m = 10 \<or> method_id m = 11 \<or> method_id m = 12" by arith
  then show "one_reply m out (verifier_state_update A log_hooks sm m out)"
    using sm m(2) assms \<open>res_ok m\<close>
    by (elim disjE) (auto simp: verifier_state_update_def state_update_def verifier_request_state_update_def request_update_def
        verifier_request_method_array_def verifier_request_defs Let_def verifier_inv_def split: option.split
        intro!: reply_request reply_response reply_respond reply_stop_pending reply_done)
qed

end
