(* ===== verification/Spec2Isabelle.thy ===== *)
theory Spec2Isabelle
  imports ResourceLoader MrcpReceive RtspMessage AptQueues AptTimers SynthMachine RecogMachine RecorderMachine VerifierMachine
begin

text \<open>
  \<^bold>\<open>UniMRCP\<close> is an implementation of the Media Resource Control Protocol: clients send requests to
  servers that have resources for speech synthesis, speech recognition, recording and speaker
  verification, servers answer them with responses and events. This development models the part of
  the program that makes, transports as text, interprets and answers messages, under
  \<open>src/trunk/libs/\<close>.

  \<^bold>\<open>The program.\<close> A message has a start line, a channel identifier, a header and a body. The header
  holds its fields twice: as text in a header section, and as typed values in a generic header
  and in the header of the resource. A generator writes a message into a text stream, a parser
  reads messages from chunks of a stream. On the server a state machine per channel stands
  between the client and the engine of the resource: it lets requests through, answers those that
  are not valid in its state, queues those that have to wait, and passes responses and events on.

  \<^bold>\<open>Theories.\<close> Every theory holds the code of its component in the order of the source, then the
  lemmas, then the properties with the examples that witness them.

  \<^item> \<open>Prelude\<close>: faults as values (a read through NULL or outside a block is a value of \<open>fault\<close>, and
    \<open>sbind\<close> passes it on), decimal digits, bytes; the interface to APR, the record \<open>apr\<close> of its
    functions, with \<open>apr_ok\<close>, what its documentation says of them, and \<open>apr_ref\<close>, functions that
    satisfy it.
  \<^item> \<open>AptString\<close>: \<open>apt_string.h\<close>, \<open>apt_string_table.c\<close>, \<open>apt_pair.c\<close>. A string is a block of
    memory, or NULL, and a length. The locale \<open>string_table\<close> states when a name leads to one
    identifier; it is interpreted for every table of the program.
  \<^item> \<open>AptTextStream\<close>: \<open>apt_text_stream.c\<close>: reading lines and fields, conversions between values and
    text, inserting text, scrolling.
  \<^item> \<open>AptHeader\<close>: \<open>apt_header_field.c\<close> and the functions of \<open>apt_text_message.c\<close> on header fields.
    Fields have addresses, since a section links them in a ring and indexes them in an array. The
    locale \<open>field_collection\<close> is what message headers rely on.
  \<^item> \<open>AptTextMessage\<close>: the parser and the generator of \<open>apt_text_message.c\<close>. The locale
    \<open>message_protocol\<close> is what the parser relies on in the functions of a protocol, and
    \<open>message_source\<close> extends it to what may be received when nothing is assumed of the bytes. They are
    interpreted for MRCP in \<open>MrcpStream\<close> and \<open>MrcpReceive\<close>, for RTSP in \<open>RtspMessage\<close>, and so is
    \<open>generator_protocol\<close>, what the generator relies on. That the text of a message is written, and read back from a
    stream with more text behind it, is proved once for all protocols.
  \<^item> \<open>MrcpStartLine\<close>: \<open>mrcp_start_line.c\<close>. \<open>MrcpHeader\<close>: \<open>mrcp_header_accessor.c\<close>,
    \<open>mrcp_generic_header.c\<close>, \<open>mrcp_header.c\<close>. \<open>MrcpMessage\<close>: \<open>mrcp_resource_factory.c\<close>,
    \<open>mrcp_message.c\<close>. \<open>MrcpStream\<close>: \<open>mrcp_stream.c\<close>.
  \<^item> \<open>ResourceValue\<close> and \<open>SynthResource\<close>, \<open>RecogResource\<close>, \<open>RecorderResource\<close>, \<open>VerifierResource\<close>: the
    headers, tables and resources under \<open>mrcp/resources\<close>. The locale \<open>header_values\<close> is the
    contract of the functions of a header, with the round trip of values proved once;
    \<open>ResourceLoader\<close> (\<open>mrcp_resource_loader.c\<close>) interprets it for the four resources.
  \<^item> \<open>AptQueues\<close>: \<open>apt_obj_list.c\<close>, \<open>apt_cyclic_queue.c\<close>. \<open>AptTimers\<close>: \<open>apt_timer_queue.c\<close>.
  \<^item> \<open>MachineBase\<close>: what the state machines share, and the locale \<open>resource_state_machine\<close>, the contract
    from which it follows that a machine keeps its invariant in every run and which messages make it fault;
    \<open>SynthMachine\<close>, \<open>RecogMachine\<close>, \<open>RecorderMachine\<close>, \<open>VerifierMachine\<close>: the files
    \<open>mrcp-engine/src/mrcp_*_state_machine.c\<close>, each an interpretation of that contract.
  \<^item> \<open>MrcpReceive\<close>: no code of its own; the parser of \<open>MrcpStream\<close> on the resources of \<open>ResourceLoader\<close> when
    nothing is assumed of the bytes, as the link to the state machines.
  \<^item> \<open>RtspStartLine\<close>, \<open>RtspHeader\<close>, \<open>RtspMessage\<close>: \<open>rtsp_start_line.c\<close>, \<open>rtsp_header.c\<close>, and \<open>rtsp_message.c\<close>
    with \<open>rtsp_stream.c\<close> under \<open>uni-rtsp\<close>, the protocol that carries messages of version 1, on top of the
    same parser and generator.

  \<^bold>\<open>State and operations.\<close> A struct is a record with the fields of the struct, a function of the
  program is a definition of the same name. What a function changes through a pointer it returns.
  Functions that may dereference NULL or leave a block return a sum with \<open>fault\<close>. Sizes are words of 64
  bits, request identifiers and times words of 32 bits where they wrap around. The functions a
  state machine calls to dispatch a message are parameters that may change the machine and a state
  of the world outside; \<open>log_hooks\<close> is the instance that notes what is dispatched.

  \<^bold>\<open>What is shown.\<close> Text that is generated is read back: values, header fields and sections, start
  lines of both versions, whole messages of MRCP, the transport of RTSP sessions, and the values of every header field whose text
  determines it; messages of RTSP are read back except for a slash at the end of a URL and all but the first
  word of a reason phrase. Whatever bytes are received, a run of the parser of either protocol faults exactly when the header it
  completes announces one certain length of the body, and the messages of MRCP it completes are such that the state machine of their resource answers them. Tables lead from names to identifiers and the loaded resources are found by type
  and name. Header sections, factories, queues, timers and state machines keep their invariants
  under every operation. The loops end: parsing makes progress on every call, iterating and
  removing in lists, advancing timers (unless a timer is overdue when times are counted anew, and for procedures
  that set no timer but their own). The cyclic queue behaves as a list. For each of the four state machines the
  messages that make it fault are characterized exactly, for runs on arbitrary messages of its resource: machines compare the
  identifier of a response with that of the request they wait for, but not its method, so a response to STOP that has the
  identifier of another request makes an idle machine dereference NULL (\<open>answers_other\<close>), and the synthesizer does so too when
  it gets the answer to some requests after the speech has ended. Every other message is processed without a fault (for the
  verifier, as long as no such response has told it that a verification it does not know has begun). Every request is
  answered by one message, and queued SPEAK requests are completed in order. Where the program
  does not do what it means to, a theorem states what it does.

  \<^bold>\<open>Bounds.\<close> Two functions take fuel: \<open>apt_timer_queue_advance\<close>, for which one round per timer and one more
  is shown to be enough, and the removing loop over a list, for which the length of the list is. Other loops are
  recursive functions that are shown to terminate. \<open>fits\<close> bounds the messages of the round trip to
  buffers they fit into.

  \<^bold>\<open>Not modelled.\<close> Floating-point arithmetic is a parameter \<open>c_flt\<close>, APR a parameter \<open>apr\<close>. Messages are
  values, so that sharing of message memory between the program's threads has no
  counterpart. Logging is left out. Tasks, pollers, sockets, the media framework, SIP signaling, sessions of RTSP and of client
  and server, engines, applications and plugins are not modelled: they are driven by threads,
  sockets and libraries, and the exchange of messages that is modelled here does not depend on them. Tags and branches
  are copies of the modelled sources.
\<close>

section \<open>Properties of all resources\<close>

text \<open>C9. No request is lost: in every state with its invariant, an active state machine of any of the four
  resources answers a request of the resource with exactly one message, which has the identifier
  and the method of the request. It is either the request itself, sent to the engine whose response
  the machine then waits for, or a response to the client.\<close>

theorem requests_answered:
  assumes "apr_ok A"
  shows "answers_requests synth_inv SYNTHESIZER_METHOD_COUNT (machine_message A F MRCP_SYNTHESIZER_RESOURCE)
      (synth_state_update A log_hooks) \<and>
    answers_requests recog_inv RECOGNIZER_METHOD_COUNT (machine_message A F MRCP_RECOGNIZER_RESOURCE)
      (recog_state_update A log_hooks) \<and>
    answers_requests recorder_inv RECORDER_METHOD_COUNT (machine_message A F MRCP_RECORDER_RESOURCE)
      (recorder_state_update A log_hooks) \<and>
    answers_requests verifier_inv VERIFIER_METHOD_COUNT (machine_message A F MRCP_VERIFIER_RESOURCE)
      (verifier_state_update A log_hooks)"
  using synth_answers_requests [OF assms] recog_answers_requests [OF assms] recorder_answers_requests [OF assms]
    verifier_answers_requests [OF assms] by blast

theorem requests_answered_witness:
  "one_reply (synth_sample MRCP_MESSAGE_TYPE_REQUEST SYNTHESIZER_PAUSE 1 MRCP_REQUEST_STATE_COMPLETE) []
     (synth_state_update apr_ref log_hooks synth_sample_start
       (synth_sample MRCP_MESSAGE_TYPE_REQUEST SYNTHESIZER_PAUSE 1 MRCP_REQUEST_STATE_COMPLETE) [])"
proof -
  have "synth_inv synth_sample_start" "sm_active synth_sample_start"
    unfolding synth_sample_start_def by (rule synth_inv_create) (simp add: mrcp_synth_state_machine_create_def)
  moreover have "machine_message apr_ref five_flt MRCP_SYNTHESIZER_RESOURCE
      (synth_sample MRCP_MESSAGE_TYPE_REQUEST SYNTHESIZER_PAUSE 1 MRCP_REQUEST_STATE_COMPLETE)"
    "message_type (synth_sample MRCP_MESSAGE_TYPE_REQUEST SYNTHESIZER_PAUSE 1 MRCP_REQUEST_STATE_COMPLETE) =
       MRCP_MESSAGE_TYPE_REQUEST"
    "method_id (synth_sample MRCP_MESSAGE_TYPE_REQUEST SYNTHESIZER_PAUSE 1 MRCP_REQUEST_STATE_COMPLETE) < SYNTHESIZER_METHOD_COUNT"
    by (simp_all add: synth_sample_def)
  ultimately show ?thesis
    using conjunct1 [OF requests_answered [OF apr_ref_ok, of five_flt]] unfolding answers_requests_def by blast
qed

lemma loaded_method_counts:
  "res_method_count (loaded_resource A F 0) = SYNTHESIZER_METHOD_COUNT"
  "res_method_count (loaded_resource A F 1) = RECOGNIZER_METHOD_COUNT"
  "res_method_count (loaded_resource A F 2) = RECORDER_METHOD_COUNT"
  "res_method_count (loaded_resource A F 3) = VERIFIER_METHOD_COUNT"
  by (simp_all add: loaded_resource_def resource_defs mrcp_resource_create_def)

text \<open>The state machine of the resource that a message belongs to answers it with one message.\<close>

definition machine_answers :: "apr \<Rightarrow> nat \<Rightarrow> message \<Rightarrow> bool" where
  "machine_answers A t m \<longleftrightarrow>
     (t = MRCP_SYNTHESIZER_RESOURCE \<longrightarrow> (\<forall>sm out. synth_inv sm \<and> sm_active sm \<longrightarrow> one_reply m out (synth_state_update A log_hooks sm m out))) \<and>
     (t = MRCP_RECOGNIZER_RESOURCE \<longrightarrow> (\<forall>sm out. recog_inv sm \<and> sm_active sm \<longrightarrow> one_reply m out (recog_state_update A log_hooks sm m out))) \<and>
     (t = MRCP_RECORDER_RESOURCE \<longrightarrow> (\<forall>sm out. recorder_inv sm \<and> sm_active sm \<longrightarrow> one_reply m out (recorder_state_update A log_hooks sm m out))) \<and>
     (t = MRCP_VERIFIER_RESOURCE \<longrightarrow> (\<forall>sm out. verifier_inv sm \<and> sm_active sm \<longrightarrow> one_reply m out (verifier_state_update A log_hooks sm m out)))"

lemma received_answers:
  assumes "apr_ok A" and "received A F t m" and "message_type m = MRCP_MESSAGE_TYPE_REQUEST"
  shows "machine_answers A t m"
proof -
  have "method_id m < res_method_count (loaded_resource A F t)" using assms(2,3) by (simp add: received_def)
  then show ?thesis
    using received_machine [OF assms(2)] assms(3) synth_answers_requests [OF assms(1), of F] recog_answers_requests [OF assms(1), of F]
      recorder_answers_requests [OF assms(1), of F] verifier_answers_requests [OF assms(1), of F]
    unfolding machine_answers_def answers_requests_def
    by (intro conjI impI; simp only: loaded_method_counts; blast)
qed

text \<open>C3. From the wire to the answer: take any bytes, cut into any chunks, that make a parser on the loaded
  resources complete a request. The request belongs to one of the resources, and the state machine
  of that resource, whatever valid state it is in, answers it by exactly one message and without
  a fault.\<close>

theorem received_requests_answered:
  assumes "apr_ok A" and "mrcp_resource_loader_create A F True = Some rf"
    and "parser_reaches A (mrcp_parser_create A rf) p" and "stream_ok s" and "0 < ts_end s"
    and "mrcp_parser_run A p s = Inr (st, Some m, p', s')" and "message_type m = MRCP_MESSAGE_TYPE_REQUEST"
  shows "\<exists>t<MRCP_RESOURCE_TYPE_COUNT. msg_resource m = Some (loaded_resource A F t) \<and> machine_answers A t m"
proof -
  have "mrcp_source.receiving A F p" by (rule reaches_receiving [OF assms(3,1) receiving_loaded [OF assms(2)]])
  from mrcp_source.receiving_kept [OF this assms(1,4,5) assms(6) [unfolded mrcp_parser_run_def]] obtain t where t: "received A F t m" by blast
  then show ?thesis using received_answers [OF assms(1) t assms(7)] by (auto simp: received_def)
qed

theorem received_requests_answered_witness:
  "\<exists>m p s. mrcp_parser_run apr_ref loaded_parser (text_stream (message_text apr_ref sample_speak 150)) =
      Inr (APT_MESSAGE_STATUS_COMPLETE, Some m, p, s) \<and> one_reply m [] (synth_state_update apr_ref log_hooks synth_sample_start m [])"
proof -
  obtain m p s where run: "mrcp_parser_run apr_ref loaded_parser (text_stream (message_text apr_ref sample_speak 150)) =
      Inr (APT_MESSAGE_STATUS_COMPLETE, Some m, p, s)" "message_type m = MRCP_MESSAGE_TYPE_REQUEST"
    and res: "msg_resource m = Some (loaded_resource apr_ref five_flt 0)"
    using sample_speak_received by blast
  have "0 < ts_end (text_stream (message_text apr_ref sample_speak 150))" by (simp add: message_text_def)
  from received_requests_answered [OF apr_ref_ok loaded_sample reaches_start stream_ok_text this run [unfolded loaded_parser_def]]
  obtain t where t: "t < MRCP_RESOURCE_TYPE_COUNT" "loaded_resource apr_ref five_flt 0 = loaded_resource apr_ref five_flt t"
    "machine_answers apr_ref t m" using res by auto
  have "t = 0" using loaded_resource_valid [OF t(1), of apr_ref five_flt] loaded_resource_valid [of 0 apr_ref five_flt] t(2) by simp
  moreover have "synth_inv synth_sample_start" "sm_active synth_sample_start"
    unfolding synth_sample_start_def by (rule synth_inv_create) (simp add: mrcp_synth_state_machine_create_def)
  ultimately have "one_reply m [] (synth_state_update apr_ref log_hooks synth_sample_start m [])"
    using t(3) by (simp add: machine_answers_def)
  then show ?thesis using run(1) by blast
qed

end
